(* ===== verification/Yaver_Prelude.thy ===== *)
theory Yaver_Prelude
  imports Main "HOL-Library.Word"
begin

text \<open>
  Shared groundwork of the development: the shape of a Go operation that may fail
  (\<open>op\<close>), the combinators that spell Go's \<open>if err != nil\<close> chains, a logic for
  what an operation may do to the state (\<open>mrel\<close>), rows and tables, Go's narrowing
  integer conversions, and the few functions of package \<open>strings\<close> the sources call.
\<close>

named_theorems mrel_intros \<open>what an operation may do to the state, one rule per combinator\<close>
named_theorems op_defs \<open>the combinators of fallible operations, unfolded\<close>
named_theorems table_simps \<open>rewriting of selections and updates on tables\<close>

section \<open>Fallible, state-changing operations\<close>

text \<open>
  A Go function \<open>func(...) (T, error)\<close> that works on the process state \<open>'s\<close> is a
  function from the state to a result and the next state: \<open>Inl\<close> is a non-nil error,
  \<open>Inr\<close> the value. An error does not undo what was done before it.
\<close>

type_synonym ('s, 'e, 'a) op = "'s \<Rightarrow> ('e + 'a) \<times> 's"

definition ret :: "'a \<Rightarrow> ('s, 'e, 'a) op" where
  "ret x s = (Inr x, s)"

definition fail :: "'e \<Rightarrow> ('s, 'e, 'a) op" where
  "fail e s = (Inl e, s)"

text \<open>\<open>x, err := m(); if err != nil { return err }; k(x)\<close>\<close>

definition bnd :: "('s, 'e, 'a) op \<Rightarrow> ('a \<Rightarrow> ('s, 'e, 'b) op) \<Rightarrow> ('s, 'e, 'b) op" where
  "bnd m k s = (case m s of (Inl e, s') \<Rightarrow> (Inl e, s') | (Inr x, s') \<Rightarrow> k x s')"

text \<open>\<open>x, err := m()\<close> followed by code that inspects the error itself.\<close>

definition attempt :: "('s, 'e, 'a) op \<Rightarrow> ('e + 'a \<Rightarrow> ('s, 'f, 'b) op) \<Rightarrow> ('s, 'f, 'b) op" where
  "attempt m k s = (case m s of (r, s') \<Rightarrow> k r s')"

text \<open>\<open>_ = m()\<close>: the error is dropped.\<close>

definition ignore :: "('s, 'e, 'a) op \<Rightarrow> ('s, 'f, unit) op" where
  "ignore m s = (Inr (), snd (m s))"

text \<open>Reading the state, drawing a value from it, and an effect without a result.\<close>

definition gets :: "('s \<Rightarrow> 'a) \<Rightarrow> ('s, 'e, 'a) op" where
  "gets f s = (Inr (f s), s)"

definition draw :: "('s \<Rightarrow> 'a \<times> 's) \<Rightarrow> ('s, 'e, 'a) op" where
  "draw f s = (case f s of (x, s') \<Rightarrow> (Inr x, s'))"

definition perform :: "('s \<Rightarrow> 's) \<Rightarrow> ('s, 'e, unit) op" where
  "perform f s = (Inr (), f s)"

text \<open>\<open>for _, x := range xs { if err := f(x); err != nil { return err } }\<close>\<close>

fun each :: "('a \<Rightarrow> ('s, 'e, unit) op) \<Rightarrow> 'a list \<Rightarrow> ('s, 'e, unit) op" where
  "each f [] = ret ()"
| "each f (x # xs) = bnd (f x) (\<lambda>_. each f xs)"

declare ret_def [op_defs] fail_def [op_defs] bnd_def [op_defs] attempt_def [op_defs]
  ignore_def [op_defs] gets_def [op_defs] draw_def [op_defs] perform_def [op_defs]

lemma bnd_ret [simp]: "bnd (ret x) k = k x"
  by (rule ext) (simp add: op_defs)

lemma bnd_fail [simp]: "bnd (fail e) k = fail e"
  by (rule ext) (simp add: op_defs)

lemma draw_eq: "draw f s = (Inr (fst (f s)), snd (f s))"
  by (simp add: draw_def split: prod.splits)

lemma bnd_assoc: "bnd (bnd m f) g = bnd m (\<lambda>x. bnd (f x) g)"
  by (rule ext) (simp add: op_defs split: prod.splits sum.splits)

lemma bnd_Inr_iff:
  "bnd m k s = (Inr y, t) \<longleftrightarrow> (\<exists>x s'. m s = (Inr x, s') \<and> k x s' = (Inr y, t))"
  by (auto simp: op_defs split: prod.splits sum.splits)

lemma bnd_Inl_iff:
  "bnd m k s = (Inl e, t) \<longleftrightarrow>
     m s = (Inl e, t) \<or> (\<exists>x s'. m s = (Inr x, s') \<and> k x s' = (Inl e, t))"
  by (auto simp: op_defs split: prod.splits sum.splits)

subsection \<open>What an operation may do to the state\<close>

text \<open>
  \<open>mrel R m\<close>: whatever \<open>m\<close> returns, its final state is related to the initial
  one by \<open>R\<close>. For a reflexive and transitive \<open>R\<close> the combinators compose, so that
  an invariant, a frame condition or a monotonicity of a whole handler follows from the
  facts about the operations it calls.
\<close>

definition mrel :: "('s \<Rightarrow> 's \<Rightarrow> bool) \<Rightarrow> ('s, 'e, 'a) op \<Rightarrow> bool" where
  "mrel R m \<longleftrightarrow> (\<forall>s. R s (snd (m s)))"

abbreviation keeps :: "('s \<Rightarrow> bool) \<Rightarrow> ('s, 'e, 'a) op \<Rightarrow> bool" where
  "keeps I m \<equiv> mrel (\<lambda>s t. I s \<longrightarrow> I t) m"

definition preorder_rel :: "('s \<Rightarrow> 's \<Rightarrow> bool) \<Rightarrow> bool" where
  "preorder_rel R \<longleftrightarrow> reflp R \<and> transp R"

lemma preorder_relI:
  "(\<And>s. R s s) \<Longrightarrow> (\<And>s t u. R s t \<Longrightarrow> R t u \<Longrightarrow> R s u) \<Longrightarrow> preorder_rel R"
  unfolding preorder_rel_def by (blast intro: reflpI transpI)

lemma preorder_rel_refl: "preorder_rel R \<Longrightarrow> R s s"
  by (simp add: preorder_rel_def reflpD)

lemma preorder_rel_trans: "preorder_rel R \<Longrightarrow> R s t \<Longrightarrow> R t u \<Longrightarrow> R s u"
  by (meson preorder_rel_def transpD)

lemma preorder_rel_inv [simp, intro]: "preorder_rel (\<lambda>s t. I s \<longrightarrow> I t)"
  by (rule preorder_relI) auto

lemma preorder_rel_eq [simp, intro]: "preorder_rel (\<lambda>s t. f t = f s)"
  by (rule preorder_relI) auto

lemma mrelD: "mrel R m \<Longrightarrow> m s = (r, t) \<Longrightarrow> R s t"
  by (metis mrel_def snd_conv)

lemma mrelI: "(\<And>s r t. m s = (r, t) \<Longrightarrow> R s t) \<Longrightarrow> mrel R m"
  by (metis mrel_def prod.exhaust_sel)

lemma mrel_ret [mrel_intros]: "preorder_rel R \<Longrightarrow> mrel R (ret x)"
  by (simp add: mrel_def ret_def preorder_rel_refl)

lemma mrel_fail [mrel_intros]: "preorder_rel R \<Longrightarrow> mrel R (fail e)"
  by (simp add: mrel_def fail_def preorder_rel_refl)

lemma mrel_gets [mrel_intros]: "preorder_rel R \<Longrightarrow> mrel R (gets f)"
  by (simp add: mrel_def gets_def preorder_rel_refl)

lemma mrel_perform: "(\<And>s. R s (f s)) \<Longrightarrow> mrel R (perform f)"
  by (simp add: mrel_def perform_def)

lemma mrel_draw: "(\<And>s. R s (snd (f s))) \<Longrightarrow> mrel R (draw f)"
  by (simp add: mrel_def draw_def case_prod_beta)

lemma mrel_bnd [mrel_intros]:
  assumes "preorder_rel R" and "mrel R m" and "\<And>x. mrel R (k x)"
  shows "mrel R (bnd m k)"
proof (rule mrelI)
  fix s r t
  assume run: "bnd m k s = (r, t)"
  obtain q u where m: "m s = (q, u)" by (cases "m s")
  have su: "R s u" using assms(2) m by (rule mrelD)
  show "R s t"
  proof (cases q)
    case (Inl e)
    with run m have "t = u" by (simp add: bnd_def)
    with su show ?thesis by simp
  next
    case (Inr x)
    with run m have "k x u = (r, t)" by (simp add: bnd_def)
    with assms(3) have "R u t" by (rule mrelD)
    with assms(1) su show ?thesis by (rule preorder_rel_trans)
  qed
qed

lemma mrel_attempt [mrel_intros]:
  assumes "preorder_rel R" and "mrel R m" and "\<And>x. mrel R (k x)"
  shows "mrel R (attempt m k)"
proof (rule mrelI)
  fix s r t
  assume run: "attempt m k s = (r, t)"
  obtain q u where m: "m s = (q, u)" by (cases "m s")
  with run have "k q u = (r, t)" by (simp add: attempt_def)
  with assms(3) have "R u t" by (rule mrelD)
  with assms(1) mrelD [OF assms(2) m] show "R s t" by (rule preorder_rel_trans)
qed

lemma mrel_ignore [mrel_intros]: "mrel R m \<Longrightarrow> mrel R (ignore m)"
  by (simp add: mrel_def ignore_def)

lemma mrel_if [mrel_intros]: "(b \<Longrightarrow> mrel R m) \<Longrightarrow> (\<not> b \<Longrightarrow> mrel R n) \<Longrightarrow> mrel R (if b then m else n)"
  by simp

lemma mrel_case_option [mrel_intros]:
  "(v = None \<Longrightarrow> mrel R m) \<Longrightarrow> (\<And>x. v = Some x \<Longrightarrow> mrel R (k x)) \<Longrightarrow>
     mrel R (case v of None \<Rightarrow> m | Some x \<Rightarrow> k x)"
  by (cases v) auto

lemma mrel_case_sum [mrel_intros]:
  "(\<And>e. v = Inl e \<Longrightarrow> mrel R (h e)) \<Longrightarrow> (\<And>x. v = Inr x \<Longrightarrow> mrel R (k x)) \<Longrightarrow>
     mrel R (case v of Inl e \<Rightarrow> h e | Inr x \<Rightarrow> k x)"
  by (cases v) auto

lemma mrel_case_prod [mrel_intros]:
  "(\<And>x y. v = (x, y) \<Longrightarrow> mrel R (k x y)) \<Longrightarrow> mrel R (case v of (x, y) \<Rightarrow> k x y)"
  by (cases v) auto

lemma mrel_each [mrel_intros]:
  assumes "preorder_rel R" and "\<And>x. x \<in> set xs \<Longrightarrow> mrel R (f x)"
  shows "mrel R (each f xs)"
  using assms(2) by (induction xs) (auto intro: mrel_intros assms(1))

lemma mrel_mono: "mrel R m \<Longrightarrow> (\<And>s t. R s t \<Longrightarrow> Q s t) \<Longrightarrow> mrel Q m"
  by (simp add: mrel_def)

subsection \<open>What an operation establishes\<close>

text \<open>
  \<open>wp m Q w\<close>: run from \<open>w\<close>, the result and the final state of \<open>m\<close> satisfy
  \<open>Q\<close>. The operations are total functions, so this is total correctness; the rules
  below walk through a handler call by call, using what was proved of each callee.
\<close>

definition wp :: "('s, 'e, 'a) op \<Rightarrow> ('e + 'a \<Rightarrow> 's \<Rightarrow> bool) \<Rightarrow> 's \<Rightarrow> bool" where
  "wp m Q w \<longleftrightarrow> (case m w of (r, w') \<Rightarrow> Q r w')"

lemma wpI: "(\<And>r w'. m w = (r, w') \<Longrightarrow> Q r w') \<Longrightarrow> wp m Q w"
  by (auto simp: wp_def)

lemma wpD: "wp m Q w \<Longrightarrow> m w = (r, w') \<Longrightarrow> Q r w'"
  by (simp add: wp_def)

lemma wp_mono: "wp m P w \<Longrightarrow> (\<And>r w'. P r w' \<Longrightarrow> Q r w') \<Longrightarrow> wp m Q w"
  by (auto simp: wp_def)

lemma wp_conj: "wp m P w \<Longrightarrow> wp m Q w \<Longrightarrow> wp m (\<lambda>r w'. P r w' \<and> Q r w') w"
  by (auto simp: wp_def)

lemma wp_mrel: "mrel R m \<Longrightarrow> wp m (\<lambda>r w'. R w w') w"
  by (auto simp: wp_def dest: mrelD)

lemma mrel_wp: "(\<And>w. wp m (\<lambda>r w'. R w w') w) \<Longrightarrow> mrel R m"
  by (meson mrelI wpD)

lemma wp_ret [simp]: "wp (ret x) Q w = Q (Inr x) w"
  by (simp add: wp_def ret_def)

lemma wp_fail [simp]: "wp (fail e) Q w = Q (Inl e) w"
  by (simp add: wp_def fail_def)

lemma wp_gets [simp]: "wp (gets f) Q w = Q (Inr (f w)) w"
  by (simp add: wp_def gets_def)

lemma wp_perform [simp]: "wp (perform f) Q w = Q (Inr ()) (f w)"
  by (simp add: wp_def perform_def)

lemma wp_draw [simp]: "wp (draw f) Q w = Q (Inr (fst (f w))) (snd (f w))"
  by (simp add: wp_def draw_def split: prod.splits)

lemma wp_case_simps:
  "wp (case v of Inl e \<Rightarrow> f e | Inr x \<Rightarrow> g x) Q w = (case v of Inl e \<Rightarrow> wp (f e) Q w | Inr x \<Rightarrow> wp (g x) Q w)"
  "wp (case u of None \<Rightarrow> m | Some x \<Rightarrow> h x) Q w = (case u of None \<Rightarrow> wp m Q w | Some x \<Rightarrow> wp (h x) Q w)"
  "wp (case p of (a, b) \<Rightarrow> k a b) Q w = (case p of (a, b) \<Rightarrow> wp (k a b) Q w)"
  "wp (if c then m1 else m2) Q w = (if c then wp m1 Q w else wp m2 Q w)"
  by (auto split: sum.splits option.splits prod.splits)

lemma wp_bnd:
  assumes "wp m P w" and "\<And>e w'. P (Inl e) w' \<Longrightarrow> Q (Inl e) w'"
    and "\<And>x w'. P (Inr x) w' \<Longrightarrow> wp (k x) Q w'"
  shows "wp (bnd m k) Q w"
proof (rule wpI)
  fix r v
  assume run: "bnd m k w = (r, v)"
  obtain q u where m: "m w = (q, u)" by (cases "m w")
  note P = wpD [OF assms(1) m]
  show "Q r v"
  proof (cases q)
    case (Inl e)
    with run m P assms(2) show ?thesis by (auto simp: bnd_def)
  next
    case (Inr x)
    with run m have "k x u = (r, v)" by (simp add: bnd_def)
    with Inr P show ?thesis by (auto intro: wpD [OF assms(3)])
  qed
qed

lemma wp_attempt:
  assumes "wp m P w" and "\<And>r w'. P r w' \<Longrightarrow> wp (k r) Q w'"
  shows "wp (attempt m k) Q w"
proof (rule wpI)
  fix r v
  assume run: "attempt m k w = (r, v)"
  obtain q u where m: "m w = (q, u)" by (cases "m w")
  with run assms(2) [OF wpD [OF assms(1) m]] show "Q r v" by (auto simp: attempt_def dest: wpD)
qed

lemma wp_ignore:
  assumes "wp m P w" and "\<And>r w'. P r w' \<Longrightarrow> Q (Inr ()) w'"
  shows "wp (ignore m) Q w"
  using assms by (auto simp: wp_def ignore_def split: prod.splits)

lemma wp_bnd_simps [simp]:
  "wp (bnd (gets f) k) Q w = wp (k (f w)) Q w"
  "wp (bnd (perform g) k2) Q w = wp (k2 ()) Q (g w)"
  "wp (bnd (draw h) k) Q w = wp (k (fst (h w))) Q (snd (h w))"
  by (simp_all add: wp_def op_defs split: prod.splits)

text \<open>A loop: an invariant that every iteration keeps and every error of one implies the error case.\<close>

lemma wp_each:
  assumes "I w" and "\<And>x w. x \<in> set xs \<Longrightarrow> I w \<Longrightarrow>
      wp (f x) (\<lambda>r w'. case r of Inl e \<Rightarrow> Q (Inl e) w' | Inr _ \<Rightarrow> I w') w"
    and "\<And>w. I w \<Longrightarrow> Q (Inr ()) w"
  shows "wp (each f xs) Q w"
  using assms(1,2)
proof (induction xs arbitrary: w)
  case Nil
  then show ?case by (simp add: assms(3))
next
  case (Cons x xs)
  show ?case unfolding each.simps
    by (rule wp_bnd [OF Cons.prems(2) [OF _ Cons.prems(1)]]) (use Cons in auto)
qed

section \<open>Tables\<close>

text \<open>
  A table is the list of its rows in insertion order. \<open>UPDATE ... WHERE\<close> maps over
  it, \<open>SELECT ... WHERE\<close> on a unique key takes the first match, \<open>ORDER BY k DESC\<close>
  is a stable sort.
\<close>

definition upd_where :: "('r \<Rightarrow> bool) \<Rightarrow> ('r \<Rightarrow> 'r) \<Rightarrow> 'r list \<Rightarrow> 'r list" where
  "upd_where P f rows = map (\<lambda>r. if P r then f r else r) rows"

definition order_by :: "('r \<Rightarrow> int) \<Rightarrow> 'r list \<Rightarrow> 'r list" where
  "order_by k rows = sort_key k rows"

definition order_by_desc :: "('r \<Rightarrow> int) \<Rightarrow> 'r list \<Rightarrow> 'r list" where
  "order_by_desc k rows = sort_key (\<lambda>r. - k r) rows"

lemma upd_where_Nil [table_simps]: "upd_where P f [] = []"
  by (simp add: upd_where_def)

lemma upd_where_Cons [table_simps]:
  "upd_where P f (r # rows) = (if P r then f r else r) # upd_where P f rows"
  by (simp add: upd_where_def)

lemma length_upd_where [simp]: "length (upd_where P f rows) = length rows"
  by (simp add: upd_where_def)

lemma upd_where_none [table_simps]:
  "(\<And>r. r \<in> set rows \<Longrightarrow> \<not> P r) \<Longrightarrow> upd_where P f rows = rows"
  by (induction rows) (auto simp: table_simps)

lemma set_upd_where:
  "r \<in> set (upd_where P f rows) \<Longrightarrow> \<exists>q \<in> set rows. r = (if P q then f q else q)"
  by (auto simp: upd_where_def)

text \<open>An update that keeps the key keeps the keys, hence their distinctness.\<close>

lemma map_key_upd_where:
  "(\<And>r. P r \<Longrightarrow> k (f r) = k r) \<Longrightarrow> map k (upd_where P f rows) = map k rows"
  by (auto simp: upd_where_def)

text \<open>An update does not change which row a search on an untouched condition finds.\<close>

lemma find_upd_where:
  assumes "\<And>r. P r \<Longrightarrow> Q (f r) = Q r"
  shows "List.find Q (upd_where P f rows) =
     map_option (\<lambda>r. if P r then f r else r) (List.find Q rows)"
  using assms by (induction rows) (auto simp: table_simps)

lemma find_append:
  "List.find Q (xs @ ys) = (case List.find Q xs of None \<Rightarrow> List.find Q ys | Some r \<Rightarrow> Some r)"
  by (induction xs) auto

lemma find_SomeD: "List.find Q rows = Some r \<Longrightarrow> Q r \<and> r \<in> set rows"
  by (induction rows) (auto split: if_splits)

lemma find_unique_key:
  assumes "distinct (map k rows)" and "r \<in> set rows"
  shows "List.find (\<lambda>q. k q = k r) rows = Some r"
  using assms by (induction rows) (auto simp: rev_image_eqI)

text \<open>An update whose condition exactly one row meets changes that row and no other.\<close>

lemma find_split:
  "List.find P rows = Some r \<Longrightarrow> \<exists>xs ys. rows = xs @ r # ys \<and> P r \<and> (\<forall>x \<in> set xs. \<not> P x)"
proof (induction rows)
  case (Cons a rows)
  show ?case
  proof (cases "P a")
    case True
    with Cons.prems have "a # rows = [] @ r # rows \<and> P r \<and> (\<forall>x \<in> set []. \<not> P x)" by simp
    then show ?thesis by blast
  next
    case False
    with Cons obtain xs ys where "rows = xs @ r # ys" "P r" "\<forall>x \<in> set xs. \<not> P x" by auto
    with False have "a # rows = (a # xs) @ r # ys \<and> P r \<and> (\<forall>x \<in> set (a # xs). \<not> P x)" by simp
    then show ?thesis by blast
  qed
qed simp

lemma upd_where_unique:
  assumes "List.find P rows = Some r" and "distinct (map k rows)"
    and "\<And>q. P q \<Longrightarrow> k q = k r"
  obtains xs ys where "rows = xs @ r # ys" "upd_where P f rows = xs @ f r # ys"
proof -
  from find_split [OF assms(1)] obtain xs ys where
    rows: "rows = xs @ r # ys" and "P r" and xs: "\<forall>x \<in> set xs. \<not> P x" by blast
  have ys: "\<forall>y \<in> set ys. \<not> P y" using assms(2,3) unfolding rows by (auto simp: image_iff)
  have "upd_where P f rows = upd_where P f xs @ f r # upd_where P f ys"
    using \<open>P r\<close> by (simp add: rows upd_where_def)
  also have "\<dots> = xs @ f r # ys" using xs ys by (simp add: upd_where_none)
  finally show thesis using rows that by blast
qed

lemma filter_upd_where_other:
  "(\<And>r. P r \<Longrightarrow> \<not> Q r \<and> \<not> Q (f r)) \<Longrightarrow> filter Q (upd_where P f rows) = filter Q rows"
  by (induction rows) (auto simp: table_simps)

lemma set_order_by_desc [simp]: "set (order_by_desc k rows) = set rows"
  by (simp add: order_by_desc_def)

text \<open>Ordering commutes with an update that leaves the sort key alone.\<close>

lemma insort_key_map:
  assumes "\<And>r. k (f r) = k r"
  shows "insort_key k (f x) (map f rows) = map f (insort_key k x rows)"
  by (induction rows) (simp_all add: assms)

lemma order_by_desc_map:
  assumes "\<And>r. k (f r) = k r"
  shows "order_by_desc k (map f rows) = map f (order_by_desc k rows)"
  unfolding order_by_desc_def by (induction rows) (simp_all add: assms insort_key_map)

lemma order_by_desc_upd_where:
  assumes "\<And>r. k (f r) = k r" and "\<And>r. Q (f r) = Q r"
  shows "order_by_desc k (filter Q (upd_where P f rows)) = upd_where P f (order_by_desc k (filter Q rows))"
proof -
  have "filter Q (upd_where P f rows) = upd_where P f (filter Q rows)"
    by (induction rows) (simp_all add: upd_where_def assms)
  then show ?thesis
    unfolding upd_where_def by (simp add: order_by_desc_map assms)
qed

lemma set_order_by [simp]: "set (order_by k rows) = set rows"
  by (simp add: order_by_def)

lemma order_by_desc_hd_max:
  assumes "order_by_desc k rows = r # rest" and "q \<in> set rows"
  shows "k q \<le> k r"
proof -
  have "sorted (map (\<lambda>r. - k r) (r # rest))"
    using assms(1) sorted_sort_key [of "\<lambda>r. - k r" rows] by (simp add: order_by_desc_def)
  moreover have "q \<in> set (r # rest)"
    using assms by (metis set_order_by_desc)
  ultimately show ?thesis by auto
qed

section \<open>Go integers\<close>

text \<open>
  \<open>int32(v)\<close> and \<open>int16(v)\<close> keep the low bits and read them as two's complement.
\<close>

definition go_int32 :: "int \<Rightarrow> int" where
  "go_int32 v = sint (word_of_int v :: 32 word)"

definition go_int16 :: "int \<Rightarrow> int" where
  "go_int16 v = sint (word_of_int v :: 16 word)"

definition in_int32 :: "int \<Rightarrow> bool" where
  "in_int32 v \<longleftrightarrow> - (2 ^ 31) \<le> v \<and> v < 2 ^ 31"

lemma go_int32_id: "in_int32 v \<Longrightarrow> go_int32 v = v"
  by (simp add: go_int32_def in_int32_def sint_sbintrunc' signed_take_bit_int_eq_self)

lemma go_int16_id: "- (2 ^ 15) \<le> v \<Longrightarrow> v < 2 ^ 15 \<Longrightarrow> go_int16 v = v"
  by (simp add: go_int16_def sint_sbintrunc' signed_take_bit_int_eq_self)

lemma in_int32_go_int32: "in_int32 (go_int32 v)"
  using sint_range_size [of "word_of_int v :: 32 word"]
  by (simp add: in_int32_def go_int32_def word_size)

section \<open>Go strings\<close>

text \<open>
  A Go string and a \<open>[]byte\<close> are byte sequences; both are \<open>string\<close> here, so
  \<open>length\<close> counts bytes as \<open>len\<close> does. \<open>ToLower\<close> is
  modelled on the ASCII range, which is what the sources' own literals use; bytes above
  127 are left alone.
\<close>

definition has_prefix :: "string \<Rightarrow> string \<Rightarrow> bool" where
  "has_prefix s p \<longleftrightarrow> take (length p) s = p"

definition trim_prefix :: "string \<Rightarrow> string \<Rightarrow> string" where
  "trim_prefix s p = (if has_prefix s p then drop (length p) s else s)"

fun contains :: "string \<Rightarrow> string \<Rightarrow> bool" where
  "contains [] w = (w = [])"
| "contains (c # s) w = (has_prefix (c # s) w \<or> contains s w)"

text \<open>The UTF-8 encodings of the runes with \<open>unicode.IsSpace\<close>.\<close>

definition space_codes :: "string list" where
  "space_codes = [[CHR '' ''], [CHR 0x09], [CHR 0x0A], [CHR 0x0B], [CHR 0x0C], [CHR 0x0D],
     [CHR 0xC2, CHR 0x85], [CHR 0xC2, CHR 0xA0], [CHR 0xE1, CHR 0x9A, CHR 0x80]]
     @ map (\<lambda>n. [CHR 0xE2, CHR 0x80, char_of (0x80 + n)]) [0..<11]
     @ [[CHR 0xE2, CHR 0x80, CHR 0xA8], [CHR 0xE2, CHR 0x80, CHR 0xA9], [CHR 0xE2, CHR 0x80, CHR 0xAF],
        [CHR 0xE2, CHR 0x81, CHR 0x9F], [CHR 0xE3, CHR 0x80, CHR 0x80]]"

lemma space_codes_nonempty: "[] \<notin> set space_codes"
  by (auto simp: space_codes_def)

lemma length_drop_prefix: "has_prefix s p \<Longrightarrow> p \<noteq> [] \<Longrightarrow> length s - length p < length s"
  by (cases s) (auto simp: has_prefix_def)

text \<open>Strips the given non-empty words from the front as long as one is there.\<close>

function strip_words :: "string list \<Rightarrow> string \<Rightarrow> string" where
  "strip_words ws s = (case List.find (\<lambda>p. p \<noteq> [] \<and> has_prefix s p) ws of
     None \<Rightarrow> s | Some p \<Rightarrow> strip_words ws (drop (length p) s))"
  by pat_completeness auto

termination
  by (relation "measure (\<lambda>(ws, s). length s)") (auto dest!: find_SomeD intro: length_drop_prefix)

declare strip_words.simps [simp del]

definition trim_space :: "string \<Rightarrow> string" where
  "trim_space s = rev (strip_words (map rev space_codes) (rev (strip_words space_codes s)))"

definition lower_char :: "char \<Rightarrow> char" where
  "lower_char c = (let n = of_char c :: nat in
     if 65 \<le> n \<and> n \<le> 90 then char_of (n + 32) else c)"

definition to_lower :: "string \<Rightarrow> string" where
  "to_lower s = map lower_char s"

lemma contains_iff: "contains s w \<longleftrightarrow> (\<exists>a b. s = a @ w @ b)"
proof (induction s)
  case Nil
  then show ?case by auto
next
  case (Cons c s)
  have pre: "has_prefix (c # s) w \<longleftrightarrow> (\<exists>b. c # s = w @ b)"
    unfolding has_prefix_def by (metis append_eq_conv_conj append_take_drop_id)
  show ?case
  proof
    assume "contains (c # s) w"
    then consider (p) "has_prefix (c # s) w" | (r) "contains s w" by auto
    then show "\<exists>a b. c # s = a @ w @ b"
    proof cases
      case p
      with pre show ?thesis by (metis append_Nil)
    next
      case r
      with Cons.IH show ?thesis by (metis append_Cons)
    qed
  next
    assume "\<exists>a b. c # s = a @ w @ b"
    then obtain a b where ab: "c # s = a @ w @ b" by blast
    show "contains (c # s) w"
    proof (cases a)
      case Nil
      with ab pre show ?thesis by (metis append_Nil contains.simps(2))
    next
      case (Cons d a')
      with ab have "s = a' @ w @ b" by simp
      with Cons.IH show ?thesis by auto
    qed
  qed
qed

lemma contains_trans: "contains s v \<Longrightarrow> contains v w \<Longrightarrow> contains s w"
  unfolding contains_iff by (metis append.assoc)

text \<open>Decimal digits, as \<open>strconv.Itoa\<close> prints a non-negative integer.\<close>

fun digits_of :: "nat \<Rightarrow> string" where
  "digits_of n = (if n < 10 then [char_of (48 + n)]
     else digits_of (n div 10) @ [char_of (48 + n mod 10)])"

declare digits_of.simps [simp del]

definition go_itoa :: "int \<Rightarrow> string" where
  "go_itoa i = (if i < 0 then CHR ''-'' # digits_of (nat (- i)) else digits_of (nat i))"

end
