(* ===== verification/Yaver_Domain.thy ===== *)
theory Yaver_Domain
  imports Yaver_Prelude
begin

text \<open>
  The business types of \<open>internal/domain\<close>: one record per Go struct, field by field.
  Go's named string types (\<open>OrgID\<close>, \<open>CallStatus\<close>, \<open>Channel\<close>, ...) stay strings,
  as the adapters convert arbitrary column values into them; their constants are
  abbreviations. A pointer is an \<open>option\<close>, a \<open>time.Time\<close> an integer number of
  nanoseconds, a \<open>[]byte\<close> a string. The call policy's two methods close the theory.
\<close>

section \<open>Identifiers, enumerations, sentinel errors\<close>

type_synonym OrgID = string
type_synonym CallID = string
type_synonym FlowID = string
type_synonym ProviderCallID = string
type_synonym Channel = string
type_synonym FlowType = string
type_synonym Direction = string
type_synonym CallStatus = string
type_synonym PaymentStatus = string
type_synonym time = int

text \<open>\<open>time.Time{}\<close>: midnight UTC, January 1 of year 1, in nanoseconds from the Unix epoch.\<close>

definition zero_time :: time where
  "zero_time = - 62135596800000000000"

abbreviation ChannelVoice :: Channel where "ChannelVoice \<equiv> ''voice''"
abbreviation ChannelChat :: Channel where "ChannelChat \<equiv> ''chat''"
abbreviation FlowIVR :: FlowType where "FlowIVR \<equiv> ''ivr''"
abbreviation FlowVA :: FlowType where "FlowVA \<equiv> ''va''"
abbreviation FlowChat :: FlowType where "FlowChat \<equiv> ''chat''"
abbreviation Outbound :: Direction where "Outbound \<equiv> ''outbound''"
abbreviation Inbound :: Direction where "Inbound \<equiv> ''inbound''"
abbreviation StatusQueued :: CallStatus where "StatusQueued \<equiv> ''queued''"
abbreviation StatusRinging :: CallStatus where "StatusRinging \<equiv> ''ringing''"
abbreviation StatusInProgress :: CallStatus where "StatusInProgress \<equiv> ''in_progress''"
abbreviation StatusCompleted :: CallStatus where "StatusCompleted \<equiv> ''completed''"
abbreviation StatusFailed :: CallStatus where "StatusFailed \<equiv> ''failed''"
abbreviation StatusNoAnswer :: CallStatus where "StatusNoAnswer \<equiv> ''no_answer''"
abbreviation PaymentPending :: PaymentStatus where "PaymentPending \<equiv> ''pending''"
abbreviation PaymentPaid :: PaymentStatus where "PaymentPaid \<equiv> ''paid''"
abbreviation PaymentFailed :: PaymentStatus where "PaymentFailed \<equiv> ''failed''"
abbreviation ConvOpen :: string where "ConvOpen \<equiv> ''open''"
abbreviation ConvHandling :: string where "ConvHandling \<equiv> ''handling''"
abbreviation ConvClosed :: string where "ConvClosed \<equiv> ''closed''"
abbreviation OutcomeResolved :: string where "OutcomeResolved \<equiv> ''resolved''"
abbreviation OutcomePending :: string where "OutcomePending \<equiv> ''pending''"
abbreviation OutcomeSale :: string where "OutcomeSale \<equiv> ''sale''"
abbreviation OutcomeNeedsHuman :: string where "OutcomeNeedsHuman \<equiv> ''needs_human''"
abbreviation OutcomeUnknown :: string where "OutcomeUnknown \<equiv> ''unknown''"
abbreviation SentimentPositive :: string where "SentimentPositive \<equiv> ''positive''"
abbreviation SentimentNeutral :: string where "SentimentNeutral \<equiv> ''neutral''"
abbreviation SentimentNegative :: string where "SentimentNegative \<equiv> ''negative''"

text \<open>
  The sentinel errors of \<open>errors.go\<close>, then the errors the database driver and the
  network hand back (\<open>pgx.ErrNoRows\<close>, the SQLSTATEs 23505 and 22003, a failed
  round trip, any other error), and the run-time panic on a nil pointer.
\<close>

datatype go_error =
    ErrNotFound | ErrInsufficientCredits | ErrInvalidPhone | ErrFlowInvalid
  | ErrInvalidOTP | ErrEmailTaken | ErrInvalidCredentials | ErrUnauthorized
  | ErrOutsideCallWindow | ErrInvalidCallPolicy | ErrConflict
  | ErrNoRows | ErrUniqueViolation | ErrOutOfRange | ErrConn | ErrOther string
  | PanicNilDeref

section \<open>Flows and calls (types.go)\<close>

record Prompt =
  pr_Audio :: string
  pr_TTS :: string

record Gather =
  ga_Digits :: int
  ga_TimeoutS :: int

record IVRNode =
  nd_Say :: "Prompt option"
  nd_Gather :: "Gather option"
  nd_On :: "string \<rightharpoonup> string"
  nd_Result :: string
  nd_End :: bool

record IVRSpec =
  iv_Entry :: string
  iv_Nodes :: "string \<rightharpoonup> IVRNode"

record Flow =
  fl_ID :: FlowID
  fl_OrgID :: OrgID
  fl_Name :: string
  fl_Version :: int
  fl_Channel :: Channel
  fl_Type :: FlowType
  fl_Locale :: string
  fl_IVR :: IVRSpec

text \<open>Zero values: what a Go map lookup of a missing key, or \<open>T{}\<close>, yields.\<close>

definition zero_IVRNode :: IVRNode where
  "zero_IVRNode = \<lparr>nd_Say = None, nd_Gather = None, nd_On = Map.empty, nd_Result = [], nd_End = False\<rparr>"

definition zero_IVRSpec :: IVRSpec where
  "zero_IVRSpec = \<lparr>iv_Entry = [], iv_Nodes = Map.empty\<rparr>"

definition zero_Flow :: Flow where
  "zero_Flow = \<lparr>fl_ID = [], fl_OrgID = [], fl_Name = [], fl_Version = 0, fl_Channel = [],
     fl_Type = [], fl_Locale = [], fl_IVR = zero_IVRSpec\<rparr>"

record Call =
  ca_ID :: CallID
  ca_OrgID :: OrgID
  ca_FlowID :: FlowID
  ca_ProviderCallID :: ProviderCallID
  ca_Direction :: Direction
  ca_Status :: CallStatus
  ca_Result :: string
  ca_RecordingURL :: string
  ca_Transcript :: string
  ca_CreatedAt :: time

record CallRequest =
  rq_OrgID :: OrgID
  rq_ToPhone :: string
  rq_CallerID :: string
  rq_Flow :: Flow

record Outcome =
  ou_Result :: string
  ou_Status :: CallStatus
  ou_DurationS :: int

record Directive =
  di_Kind :: string
  di_Prompt :: "Prompt option"
  di_Gather :: "Gather option"

record FlowState =
  fs_Node :: string

section \<open>Ports' data (ports.go, campaign.go, customer.go, ingest.go, activity.go)\<close>

record PlaceCallInput =
  pc_OrgID :: OrgID
  pc_ToPhone :: string
  pc_FlowID :: FlowID

record CallSummary =
  cs_Total :: int
  cs_Confirmed :: int
  cs_Cancelled :: int
  cs_Today :: int

record Org =
  og_ID :: OrgID
  og_Name :: string

record FlowSummary =
  fy_ID :: FlowID
  fy_Name :: string
  fy_Version :: int
  fy_Channel :: Channel
  fy_Type :: FlowType
  fy_Active :: bool

record FlowDetail =
  fd_ID :: FlowID
  fd_OrgID :: OrgID
  fd_Name :: string
  fd_Version :: int
  fd_Channel :: Channel
  fd_Type :: FlowType
  fd_Locale :: string
  fd_Spec :: string

record NewFlow =
  nf_Name :: string
  nf_Channel :: Channel
  nf_Type :: FlowType
  nf_Locale :: string
  nf_Spec :: string

record Campaign =
  cg_ID :: string
  cg_Name :: string
  cg_Status :: string
  cg_TargetCount :: int
  cg_CreatedAt :: time
  cg_StartedAt :: "time option"
  cg_ScheduledAt :: "time option"

record Recipient =
  rc_Phone :: string
  rc_Name :: string

record CampaignRef =
  cf_ID :: string
  cf_OrgID :: OrgID

record Customer =
  cu_ID :: string
  cu_Phone :: string
  cu_Name :: string
  cu_ExternalID :: string
  cu_DND :: bool
  cu_CreatedAt :: time

record APIKeyInfo =
  ki_Prefix :: string
  ki_Name :: string
  ki_Kind :: string
  ki_CreatedAt :: time
  ki_LastUsedAt :: "time option"

record IngestEvent =
  ie_ID :: string
  ie_OrgID :: string
  ie_Type :: string
  ie_ExternalEventID :: string
  ie_Phone :: string
  ie_Payload :: string

record ActivityEvent =
  av_Type :: string
  av_OrgID :: OrgID
  av_Title :: string
  av_Detail :: string
  av_At :: time

section \<open>Credits, payments, identity\<close>

abbreviation LowBalanceThreshold :: int where "LowBalanceThreshold \<equiv> 10"

record CreditEntry =
  ce_Delta :: int
  ce_Reason :: string
  ce_CreatedAt :: time

record Payment =
  py_ID :: string
  py_OrgID :: OrgID
  py_Provider :: string
  py_ProviderRef :: string
  py_Credits :: int
  py_AmountBDT :: int
  py_Status :: PaymentStatus
  py_CreatedAt :: time

record PaymentRequest =
  pq_OrgID :: OrgID
  pq_PaymentID :: string
  pq_Credits :: int
  pq_AmountBDT :: int

record PaymentCheckout =
  pk_ProviderRef :: string
  pk_RedirectURL :: string

record PaymentResult =
  ps_ProviderRef :: string
  ps_Status :: PaymentStatus

record User =
  us_ID :: string
  us_Phone :: string
  us_Email :: string
  us_Name :: string

record OTP =
  op_ID :: string
  op_CodeHash :: string
  op_Attempts :: int

record SessionUser =
  su_UserID :: string
  su_Phone :: string
  su_Email :: string
  su_Name :: string
  su_ExpiresAt :: time

section \<open>Chat, messaging, webhooks, analytics\<close>

record Conversation =
  cv_ID :: string
  cv_Channel :: string
  cv_ExternalUser :: string
  cv_Status :: string
  cv_LastMessage :: string
  cv_MessageCount :: int
  cv_CreatedAt :: time
  cv_UpdatedAt :: time

record Message =
  ms_Role :: string
  ms_Content :: string
  ms_CreatedAt :: time

record ChatSettings =
  ch_Instructions :: string
  ch_WidgetTitle :: string
  ch_Welcome :: string
  ch_Accent :: string

definition DefaultChatSettings :: ChatSettings where
  "DefaultChatSettings = \<lparr>ch_Instructions = [], ch_WidgetTitle = ''Chat with us'',
     ch_Welcome = ''Hi! '' @ [CHR 0xF0, CHR 0x9F, CHR 0x91, CHR 0x8B] @ '' How can I help you today?'',
     ch_Accent = ''#111827''\<rparr>"

record ConversationInsight =
  ci_Summary :: string
  ci_Outcome :: string
  ci_Sentiment :: string
  ci_NextAction :: string
  ci_CreatedAt :: time

record ChannelConnection =
  cc_Type :: string
  cc_ExternalID :: string
  cc_CreatedAt :: time
  cc_AccessToken :: string
  cc_VerifyToken :: string

record OutboundMessage =
  om_Type :: string
  om_FromExternalID :: string
  om_AccessToken :: string
  om_To :: string
  om_Text :: string

record OutboxEvent =
  ob_Event :: string
  ob_Payload :: string

record WebhookEndpointRow =
  we_OrgID :: string
  we_URL :: string
  we_SecretEnc :: string
  we_Events :: "string list"
  we_Active :: bool

record DueDelivery =
  dd_ID :: string
  dd_OrgID :: string
  dd_Event :: string
  dd_URL :: string
  dd_Payload :: string
  dd_Attempts :: int

record ConversationStats =
  cn_Total :: int
  cn_Today :: int
  cn_Resolved :: int
  cn_Pending :: int
  cn_Sale :: int
  cn_NeedsHuman :: int

record CreditSummary =
  cy_Balance :: int
  cy_SpentToday :: int
  cy_Spent30d :: int

record AnalyticsOverview =
  ao_Calls :: CallSummary
  ao_Conversations :: ConversationStats
  ao_Credits :: CreditSummary

section \<open>The call policy (callpolicy.go)\<close>

text \<open>
  The IANA time-zone database is data outside the program: \<open>tzdb\<close> maps a zone name to
  its UTC offset in seconds at an instant, or \<open>None\<close> where \<open>time.LoadLocation\<close>
  fails. \<open>t.In(loc).Hour()\<close> is the hour of the shifted instant.
\<close>

type_synonym tzdb = "string \<Rightarrow> (time \<Rightarrow> int) option"

abbreviation second :: time where "second \<equiv> 1000000000"

definition hour_in :: "(time \<Rightarrow> int) \<Rightarrow> time \<Rightarrow> int" where
  "hour_in off t = ((t div second + off t) div 3600) mod 24"

record CallPolicy =
  cl_WindowStart :: int
  cl_WindowEnd :: int
  cl_Timezone :: string
  cl_MaxRetries :: int

definition DefaultCallPolicy :: CallPolicy where
  "DefaultCallPolicy = \<lparr>cl_WindowStart = 9, cl_WindowEnd = 21, cl_Timezone = ''Asia/Dhaka'', cl_MaxRetries = 2\<rparr>"

definition Allows :: "tzdb \<Rightarrow> CallPolicy \<Rightarrow> time \<Rightarrow> bool" where
  "Allows tz p t =
     (let loc = (case tz (cl_Timezone p) of None \<Rightarrow> (\<lambda>_. 0) | Some off \<Rightarrow> off);
          h = hour_in loc t
      in cl_WindowStart p \<le> h \<and> h < cl_WindowEnd p)"

definition Valid :: "tzdb \<Rightarrow> CallPolicy \<Rightarrow> bool" where
  "Valid tz p =
     (if cl_WindowStart p < 0 \<or> cl_WindowStart p > 23 \<or> cl_WindowEnd p < 1 \<or> cl_WindowEnd p > 24 then False
      else if cl_WindowStart p \<ge> cl_WindowEnd p then False
      else if cl_MaxRetries p < 0 \<or> cl_MaxRetries p > 10 then False
      else if tz (cl_Timezone p) = None then False
      else True)"

lemma hour_in_range: "0 \<le> hour_in off t" "hour_in off t < 24"
  by (simp_all add: hour_in_def)

end
