(* ===== verification/Yaver_World.thy ===== *)
theory Yaver_World
  imports Yaver_Domain
begin

text \<open>
  The state a request handler runs against: the PostgreSQL tables (rows as in
  \<open>gen/models.go\<close>, keys and defaults as in \<open>migrations/\<close>), the clock, the random
  source, the job queue of the orchestrator and the effects that left the process.
  Every round trip to the database consults a schedule chosen by the environment: it may
  fail without having been executed, and time may pass. A theorem that quantifies over
  all worlds therefore covers every pattern of failures and delays.
\<close>

section \<open>Rows (gen/models.go)\<close>

record ApiKeyRow =
  ak_id :: string
  ak_org_id :: string
  ak_prefix :: string
  ak_secret_hash :: string
  ak_name :: "string option"
  ak_created_at :: time
  ak_last_used_at :: "time option"
  ak_kind :: string

record CallRow =
  cw_id :: string
  cw_org_id :: string
  cw_flow_id :: "string option"
  cw_provider_call_id :: "string option"
  cw_direction :: string
  cw_status :: string
  cw_result :: "string option"
  cw_created_at :: time
  cw_recording_url :: "string option"
  cw_transcript :: "string option"

record CampaignRow =
  cp_id :: string
  cp_org_id :: string
  cp_name :: string
  cp_status :: string
  cp_target_count :: int
  cp_created_at :: time
  cp_started_at :: "time option"
  cp_scheduled_at :: "time option"

record RecipientRow =
  rp_id :: string
  rp_campaign_id :: string
  rp_org_id :: string
  rp_phone :: string
  rp_name :: string

record ChannelRow =
  cx_id :: string
  cx_org_id :: string
  cx_type :: string
  cx_external_id :: string
  cx_access_token :: string
  cx_verify_token :: string
  cx_created_at :: time

record ChatSettingRow =
  ct_org_id :: string
  ct_instructions :: string
  ct_widget_title :: string
  ct_welcome :: string
  ct_accent :: string
  ct_updated_at :: time

record ConversationRow =
  cr_id :: string
  cr_org_id :: string
  cr_channel :: string
  cr_customer_id :: "string option"
  cr_status :: string
  cr_created_at :: time
  cr_updated_at :: time
  cr_external_user :: "string option"

record InsightRow =
  in_conversation_id :: string
  in_org_id :: string
  in_summary :: string
  in_outcome :: string
  in_sentiment :: string
  in_next_action :: string
  in_created_at :: time

record LedgerRow =
  lg_id :: string
  lg_org_id :: string
  lg_delta :: int
  lg_reason :: string
  lg_created_at :: time

record CustomerRow =
  cm_id :: string
  cm_org_id :: string
  cm_phone :: string
  cm_name :: "string option"
  cm_external_id :: "string option"
  cm_dnd :: bool
  cm_created_at :: time

record EventRow =
  ev_id :: string
  ev_org_id :: string
  ev_type :: string
  ev_external_event_id :: string
  ev_payload :: string
  ev_status :: string
  ev_created_at :: time

record FlowRow =
  fw_id :: string
  fw_org_id :: string
  fw_name :: string
  fw_version :: int
  fw_channel :: string
  fw_type :: string
  fw_locale :: string
  fw_spec :: string
  fw_is_active :: bool
  fw_created_at :: time

record MessageRow =
  mg_id :: string
  mg_conversation_id :: string
  mg_role :: string
  mg_content :: string
  mg_created_at :: time

record OrgRow =
  or_id :: string
  or_name :: string
  or_owner_user_id :: string
  or_credits_balance_paisa :: int
  or_created_at :: time

record PolicyRow =
  pl_org_id :: string
  pl_window_start :: int
  pl_window_end :: int
  pl_timezone :: string
  pl_max_retries :: int

record CreditRow =
  oc_org_id :: string
  oc_balance :: int

record OtpRow =
  ot_id :: string
  ot_phone :: string
  ot_code_hash :: string
  ot_attempts :: int
  ot_expires_at :: time
  ot_consumed_at :: "time option"
  ot_created_at :: time

record PaymentRow =
  pm_id :: string
  pm_org_id :: string
  pm_provider :: string
  pm_provider_ref :: string
  pm_credits :: int
  pm_amount_bdt :: int
  pm_status :: string
  pm_created_at :: time
  pm_settled_at :: "time option"

record SessionRow =
  se_id :: string
  se_token_hash :: string
  se_user_id :: string
  se_expires_at :: time
  se_created_at :: time

record UserRow =
  ur_id :: string
  ur_phone :: "string option"
  ur_email :: "string option"
  ur_name :: "string option"
  ur_created_at :: time
  ur_password_hash :: "string option"

record DeliveryRow =
  dl_id :: string
  dl_org_id :: string
  dl_event :: string
  dl_url :: string
  dl_payload :: string
  dl_status :: string
  dl_attempts :: int
  dl_last_status_code :: "int option"
  dl_last_error :: "string option"
  dl_next_retry_at :: time
  dl_delivered_at :: "time option"
  dl_created_at :: time

record EndpointRow =
  ep_id :: string
  ep_org_id :: string
  ep_url :: string
  ep_secret_enc :: string
  ep_events :: "string list"
  ep_active :: bool
  ep_created_at :: time

record OutboxRow =
  ox_id :: int
  ox_org_id :: string
  ox_event :: string
  ox_payload :: string
  ox_created_at :: time
  ox_dispatched_at :: "time option"

record database =
  api_keys :: "ApiKeyRow list"
  calls :: "CallRow list"
  campaigns :: "CampaignRow list"
  campaign_recipients :: "RecipientRow list"
  channel_connections :: "ChannelRow list"
  chat_settings :: "ChatSettingRow list"
  conversations :: "ConversationRow list"
  conversation_insights :: "InsightRow list"
  credit_ledger :: "LedgerRow list"
  customers :: "CustomerRow list"
  events :: "EventRow list"
  flows :: "FlowRow list"
  messages :: "MessageRow list"
  orgs :: "OrgRow list"
  org_call_policy :: "PolicyRow list"
  org_credits :: "CreditRow list"
  otp_codes :: "OtpRow list"
  payments :: "PaymentRow list"
  sessions :: "SessionRow list"
  users :: "UserRow list"
  webhook_deliveries :: "DeliveryRow list"
  webhook_endpoints :: "EndpointRow list"
  webhook_outbox :: "OutboxRow list"

definition empty_db :: database where
  "empty_db = \<lparr>api_keys = [], calls = [], campaigns = [], campaign_recipients = [],
     channel_connections = [], chat_settings = [], conversations = [], conversation_insights = [],
     credit_ledger = [], customers = [], events = [], flows = [], messages = [], orgs = [],
     org_call_policy = [], org_credits = [], otp_codes = [], payments = [], sessions = [],
     users = [], webhook_deliveries = [], webhook_endpoints = [], webhook_outbox = []\<rparr>"

section \<open>The world\<close>

text \<open>What leaves the process through a port, in order.\<close>

datatype effect =
    SmsSent string string
  | EmailSent string string string
  | Dialed CallRequest ProviderCallID
  | Published ActivityEvent
  | ChannelSent OutboundMessage
  | WebhookPosted string string string string string
      \<comment> \<open>delivery id, URL, timestamp header, signature header, body\<close>

record world =
  w_db :: database
  w_now :: time
  w_sched :: "(bool \<times> nat) list"
  w_entropy :: "nat \<Rightarrow> nat"
  w_pos :: nat
  w_trace :: "effect list"
  w_jobs :: "PlaceCallInput list"

type_synonym 'a wop = "(world, go_error, 'a) op"

definition init_world :: world where
  "init_world = \<lparr>w_db = empty_db, w_now = 0, w_sched = [], w_entropy = (\<lambda>i. i), w_pos = 0,
     w_trace = [], w_jobs = []\<rparr>"

lemma init_world_simps [simp]:
  "w_db init_world = empty_db" "w_now init_world = 0" "w_sched init_world = []"
  "w_trace init_world = []" "w_jobs init_world = []" "w_pos init_world = 0"
  by (simp_all add: init_world_def)

lemma empty_db_simps [simp]:
  "api_keys empty_db = []"
  "calls empty_db = []"
  "campaigns empty_db = []"
  "campaign_recipients empty_db = []"
  "channel_connections empty_db = []"
  "chat_settings empty_db = []"
  "conversations empty_db = []"
  "conversation_insights empty_db = []"
  "credit_ledger empty_db = []"
  "customers empty_db = []"
  "events empty_db = []"
  "flows empty_db = []"
  "messages empty_db = []"
  "orgs empty_db = []"
  "org_call_policy empty_db = []"
  "org_credits empty_db = []"
  "otp_codes empty_db = []"
  "payments empty_db = []"
  "sessions empty_db = []"
  "users empty_db = []"
  "webhook_deliveries empty_db = []"
  "webhook_endpoints empty_db = []"
  "webhook_outbox empty_db = []"
  by (simp_all add: empty_db_def)

text \<open>One answer of the environment: does the round trip fail, and how long did it take.\<close>

definition env_step :: "world \<Rightarrow> bool \<times> world" where
  "env_step w = (case w_sched w of [] \<Rightarrow> (False, w)
     | (bad, d) # rest \<Rightarrow> (bad, w\<lparr>w_sched := rest, w_now := w_now w + int d\<rparr>))"

text \<open>One SQL statement: \<open>q now db\<close> is its effect when it is executed.\<close>

definition db_exec :: "(time \<Rightarrow> database \<Rightarrow> go_error + 'a \<times> database) \<Rightarrow> 'a wop" where
  "db_exec q w = (case env_step w of (bad, w1) \<Rightarrow>
     if bad then (Inl ErrConn, w1)
     else (case q (w_now w1) (w_db w1) of
         Inl e \<Rightarrow> (Inl e, w1)
       | Inr (x, d) \<Rightarrow> (Inr x, w1\<lparr>w_db := d\<rparr>)))"

text \<open>
  A transaction: \<open>pool.Begin\<close>, the statements, \<open>tx.Commit\<close>; the deferred
  \<open>tx.Rollback\<close> restores the tables when the body returns an error, returns
  without committing (\<open>Rolled\<close>), or when the commit itself fails.
\<close>

datatype 'a tx_result = Committed 'a | Rolled 'a

definition with_tx :: "'a tx_result wop \<Rightarrow> 'a wop" where
  "with_tx body w = (case env_step w of (bad, w1) \<Rightarrow>
     if bad then (Inl ErrConn, w1)
     else (case body w1 of
         (Inl e, w2) \<Rightarrow> (Inl e, w2\<lparr>w_db := w_db w1\<rparr>)
       | (Inr (Rolled x), w2) \<Rightarrow> (Inr x, w2\<lparr>w_db := w_db w1\<rparr>)
       | (Inr (Committed x), w2) \<Rightarrow> (case env_step w2 of (bad', w3) \<Rightarrow>
           if bad' then (Inl ErrConn, w3\<lparr>w_db := w_db w1\<rparr>) else (Inr x, w3))))"

definition emit_effect :: "effect \<Rightarrow> world \<Rightarrow> world" where
  "emit_effect e w = w\<lparr>w_trace := w_trace w @ [e]\<rparr>"

text \<open>\<open>rand.Read(b)\<close> of \<open>n\<close> bytes, \<open>rand.Int\<close> below a bound, \<open>hex\<close>, \<open>id.New\<close>.\<close>

definition rand_bytes :: "nat \<Rightarrow> world \<Rightarrow> nat list \<times> world" where
  "rand_bytes n w = (map (\<lambda>i. w_entropy w (w_pos w + i) mod 256) [0..<n], w\<lparr>w_pos := w_pos w + n\<rparr>)"

definition rand_below :: "nat \<Rightarrow> world \<Rightarrow> nat \<times> world" where
  "rand_below n w = (w_entropy w (w_pos w) mod n, w\<lparr>w_pos := w_pos w + 1\<rparr>)"

definition hex_digit :: "nat \<Rightarrow> char" where
  "hex_digit n = (if n < 10 then char_of (48 + n) else char_of (87 + n))"

definition hex_encode :: "nat list \<Rightarrow> string" where
  "hex_encode bs = concat (map (\<lambda>b. [hex_digit (b div 16), hex_digit (b mod 16)]) bs)"

definition id_New :: "string \<Rightarrow> world \<Rightarrow> string \<times> world" where
  "id_New prefix w = (case rand_bytes 12 w of (b, w') \<Rightarrow> (prefix @ ''_'' @ hex_encode b, w'))"

text \<open>A random (version 4) UUID in canonical form: \<open>gen_random_uuid()\<close>, \<open>uuid.New()\<close>.\<close>

definition uuid_string :: "nat list \<Rightarrow> string" where
  "uuid_string bs = (let cs = hex_encode (bs[6 := bs ! 6 mod 16 + 64, 8 := bs ! 8 mod 64 + 128]) in
     take 8 cs @ ''-'' @ take 4 (drop 8 cs) @ ''-'' @ take 4 (drop 12 cs) @ ''-'' @
     take 4 (drop 16 cs) @ ''-'' @ drop 20 cs)"

definition new_uuid :: "world \<Rightarrow> string \<times> world" where
  "new_uuid w = (case rand_bytes 16 w of (b, w') \<Rightarrow> (uuid_string b, w'))"

text \<open>
  Cryptography, the time-zone data, JSON decoding of a flow spec, the UUID parser, the
  normal form PostgreSQL stores a JSONB value in (\<open>None\<close> when it is not JSON) and the
  rank of a text in the database's collation: library code the program calls, handed to
  the definitions that use it.
\<close>

record libs =
  lib_sha256 :: "string \<Rightarrow> string"
  lib_hmac :: "string \<Rightarrow> string \<Rightarrow> string"
  lib_bcrypt :: "string \<Rightarrow> string \<Rightarrow> string option"
  lib_bcrypt_ok :: "string \<Rightarrow> string \<Rightarrow> bool"
  lib_seal :: "string \<Rightarrow> string \<Rightarrow> string"
  lib_open :: "string \<Rightarrow> string \<Rightarrow> string option"
  lib_uuid :: "string \<Rightarrow> string option"
  lib_base64url :: "nat list \<Rightarrow> string"
  lib_tz :: tzdb
  lib_ivr_json :: "string \<Rightarrow> IVRSpec option"
  lib_jsonb :: "string \<Rightarrow> string option"
  lib_collate :: "string \<Rightarrow> int"

text \<open>\<open>deref\<close> and \<open>strPtr\<close> of the adapters: NULL is the empty string.\<close>

definition deref :: "string option \<Rightarrow> string" where
  "deref v = (case v of None \<Rightarrow> [] | Some s \<Rightarrow> s)"

definition strPtr :: "string \<Rightarrow> string option" where
  "strPtr s = (if s = [] then None else Some s)"

lemma deref_strPtr [simp]: "deref (strPtr s) = s"
  by (simp add: deref_def strPtr_def)

section \<open>Frame rules of the infrastructure\<close>

text \<open>Relations on worlds that only look at the tables.\<close>

definition dbrel :: "(database \<Rightarrow> database \<Rightarrow> bool) \<Rightarrow> world \<Rightarrow> world \<Rightarrow> bool" where
  "dbrel R w w' \<longleftrightarrow> R (w_db w) (w_db w')"

lemma preorder_dbrel [simp, intro]: "preorder_rel R \<Longrightarrow> preorder_rel (dbrel R)"
  by (rule preorder_relI) (auto simp: dbrel_def intro: preorder_rel_refl preorder_rel_trans)

abbreviation db_keeps :: "(database \<Rightarrow> bool) \<Rightarrow> 'a wop \<Rightarrow> bool" where
  "db_keeps I m \<equiv> mrel (dbrel (\<lambda>d d'. I d \<longrightarrow> I d')) m"

lemma db_keeps_keeps: "db_keeps I m \<Longrightarrow> keeps (\<lambda>w. I (w_db w)) m"
  by (simp add: mrel_def dbrel_def)

lemma env_step_db [simp]: "w_db (snd (env_step w)) = w_db w"
  by (simp add: env_step_def split: list.splits prod.splits)

lemma env_step_frame:
  "env_step w = (b, w') \<Longrightarrow> w_db w' = w_db w \<and> w_trace w' = w_trace w \<and> w_jobs w' = w_jobs w
     \<and> w_pos w' = w_pos w \<and> w_entropy w' = w_entropy w \<and> w_now w \<le> w_now w'"
  by (auto simp: env_step_def split: list.splits prod.splits)

text \<open>With no pending answers of the environment, every round trip succeeds at once.\<close>

lemma env_step_quiet [simp]: "w_sched w = [] \<Longrightarrow> env_step w = (False, w)"
  by (simp add: env_step_def)

lemma db_exec_quiet:
  "w_sched w = [] \<Longrightarrow> db_exec q w = (case q (w_now w) (w_db w) of
      Inl e \<Rightarrow> (Inl e, w) | Inr (x, d) \<Rightarrow> (Inr x, w\<lparr>w_db := d\<rparr>))"
  by (simp add: db_exec_def)

lemma db_exec_cases:
  assumes "db_exec q w = (r, w')"
  obtains (lost) "r = Inl ErrConn" "w_db w' = w_db w"
  | (refused) e t where "r = Inl e" "q t (w_db w) = Inl e" "w_now w \<le> t" "w_db w' = w_db w"
  | (executed) x t d where "r = Inr x" "q t (w_db w) = Inr (x, d)" "w_now w \<le> t" "w_db w' = d"
proof -
  obtain bad w1 where st: "env_step w = (bad, w1)" by (cases "env_step w")
  note fr = env_step_frame [OF st]
  show thesis
  proof (cases bad)
    case True
    with assms st fr show thesis by (intro lost) (auto simp: db_exec_def)
  next
    case False
    show thesis
    proof (cases "q (w_now w1) (w_db w1)")
      case (Inl e)
      with assms st fr False show thesis by (intro refused) (auto simp: db_exec_def)
    next
      case (Inr p)
      obtain x d where "p = (x, d)" by (cases p)
      with assms st fr False Inr show thesis
        by (intro executed [of x "w_now w1" d]) (auto simp: db_exec_def)
    qed
  qed
qed

lemma db_exec_frame:
  "db_exec q w = (r, w') \<Longrightarrow> w_trace w' = w_trace w \<and> w_jobs w' = w_jobs w
     \<and> w_pos w' = w_pos w \<and> w_entropy w' = w_entropy w \<and> w_now w \<le> w_now w'"
  by (auto simp: db_exec_def split: prod.splits if_splits sum.splits
      dest!: env_step_frame)

lemma mrel_db_exec:
  assumes "\<And>d. R d d" and "\<And>t d x d'. q t d = Inr (x, d') \<Longrightarrow> R d d'"
  shows "mrel (dbrel R) (db_exec q)"
proof (rule mrelI)
  fix w r w'
  assume "db_exec q w = (r, w')"
  then show "dbrel R w w'"
    by (cases rule: db_exec_cases) (auto simp: dbrel_def assms(1) dest: assms(2))
qed

text \<open>A statement that reads only.\<close>

definition db_read :: "(time \<Rightarrow> database \<Rightarrow> go_error + 'a) \<Rightarrow> 'a wop" where
  "db_read q = db_exec (\<lambda>t d. case q t d of Inl e \<Rightarrow> Inl e | Inr x \<Rightarrow> Inr (x, d))"

lemma db_read_frame:
  assumes "db_read q w = (r, w')"
  shows "w_db w' = w_db w" "w_trace w' = w_trace w" "w_jobs w' = w_jobs w"
proof -
  have "dbrel (\<lambda>d d'. d' = d) w w'"
    using assms unfolding db_read_def
    by (intro mrelD [OF mrel_db_exec]) (auto split: sum.splits)
  then show "w_db w' = w_db w" by (simp add: dbrel_def)
  show "w_trace w' = w_trace w" "w_jobs w' = w_jobs w"
    using db_exec_frame assms unfolding db_read_def by blast+
qed

lemma db_read_quiet:
  "w_sched w = [] \<Longrightarrow> db_read q w = (q (w_now w) (w_db w), w)"
  by (simp add: db_read_def db_exec_quiet split: sum.splits)

lemma mrel_db_read [mrel_intros]:
  assumes "\<And>d. R d d" shows "mrel (dbrel R) (db_read q)"
  unfolding db_read_def by (rule mrel_db_exec) (auto simp: assms split: sum.splits)

lemma mrel_with_tx:
  assumes R: "preorder_rel R" and body: "mrel (dbrel R) body"
  shows "mrel (dbrel R) (with_tx body)"
proof (rule mrelI)
  fix w r w'
  assume run: "with_tx body w = (r, w')"
  obtain bad w1 where s1: "env_step w = (bad, w1)" by (cases "env_step w")
  obtain q w2 where b: "body w1 = (q, w2)" by (cases "body w1")
  obtain bad' w3 where s3: "env_step w2 = (bad', w3)" by (cases "env_step w2")
  have "dbrel R w1 w2" using body b by (rule mrelD)
  with run s1 b s3 show "dbrel R w w'"
    by (auto simp: with_tx_def dbrel_def preorder_rel_refl [OF R]
        dest!: env_step_frame split: if_splits sum.splits tx_result.splits)
qed

text \<open>A transaction that reports an error has changed no table.\<close>

lemma with_tx_error_db: "with_tx body w = (Inl e, w') \<Longrightarrow> w_db w' = w_db w"
  by (auto simp: with_tx_def dest!: env_step_frame
      split: prod.splits if_splits sum.splits tx_result.splits)

lemma with_tx_Inr:
  assumes "with_tx body w = (Inr x, w')"
  obtains w1 w2 where "env_step w = (False, w1)" "w_db w1 = w_db w"
    "body w1 = (Inr (Committed x), w2)" "w_db w' = w_db w2"
  | w1 w2 where "env_step w = (False, w1)" "w_db w1 = w_db w"
    "body w1 = (Inr (Rolled x), w2)" "w_db w' = w_db w"
  using assms
  by (auto simp: with_tx_def dest!: env_step_frame
      split: prod.splits if_splits sum.splits tx_result.splits)

text \<open>The identifier drawn at a position of the random source.\<close>

definition id_at :: "string \<Rightarrow> (nat \<Rightarrow> nat) \<Rightarrow> nat \<Rightarrow> string" where
  "id_at p e n = p @ ''_'' @ hex_encode (map (\<lambda>i. e (n + i) mod 256) [0..<12])"

lemma fst_id_New: "fst (id_New p w) = id_at p (w_entropy w) (w_pos w)"
  by (simp add: id_New_def rand_bytes_def id_at_def)

text \<open>Drawing randomness, and letting an effect out, touch no table.\<close>

lemma id_New_frame [simp]:
  "w_db (snd (id_New p w)) = w_db w" "w_trace (snd (id_New p w)) = w_trace w"
  "w_jobs (snd (id_New p w)) = w_jobs w" "w_sched (snd (id_New p w)) = w_sched w"
  "w_now (snd (id_New p w)) = w_now w" "w_pos (snd (id_New p w)) = w_pos w + 12"
  "w_entropy (snd (id_New p w)) = w_entropy w"
  by (simp_all add: id_New_def rand_bytes_def)

text \<open>Identifiers drawn from different random bytes differ.\<close>

lemma hex_digit_inj: "m < 16 \<Longrightarrow> n < 16 \<Longrightarrow> hex_digit m = hex_digit n \<Longrightarrow> m = n"
proof -
  assume b: "m < 16" "n < 16" and eq: "hex_digit m = hex_digit n"
  have val: "of_char (hex_digit k) = (if k < 10 then 48 + k else 87 + k)" if "k < 16" for k :: nat
    using that by (simp add: hex_digit_def)
  from arg_cong [OF eq, of "of_char :: char \<Rightarrow> nat"] b show "m = n" by (auto simp: val split: if_splits)
qed

lemma id_at_neq:
  assumes "e m mod 256 \<noteq> e n mod 256"
  shows "id_at p e m \<noteq> id_at p e n"
proof
  let ?a = "e m mod 256" and ?b = "e n mod 256"
  have up: "[0..<12] = 0 # [1..<12]" by (simp add: upt_rec)
  assume "id_at p e m = id_at p e n"
  then have "hex_digit (?a div 16) = hex_digit (?b div 16)" "hex_digit (?a mod 16) = hex_digit (?b mod 16)"
    unfolding id_at_def hex_encode_def up by simp_all
  then have "?a div 16 = ?b div 16" "?a mod 16 = ?b mod 16"
    by (auto intro!: hex_digit_inj simp: less_mult_imp_div_less)
  with assms show False by (metis div_mult_mod_eq)
qed

lemma new_uuid_frame [simp]:
  "w_db (snd (new_uuid w)) = w_db w" "w_trace (snd (new_uuid w)) = w_trace w"
  "w_jobs (snd (new_uuid w)) = w_jobs w" "w_sched (snd (new_uuid w)) = w_sched w"
  "w_now (snd (new_uuid w)) = w_now w"
  by (simp_all add: new_uuid_def rand_bytes_def)

lemma emit_effect_frame [simp]:
  "w_db (emit_effect e w) = w_db w" "w_trace (emit_effect e w) = w_trace w @ [e]"
  "w_jobs (emit_effect e w) = w_jobs w" "w_sched (emit_effect e w) = w_sched w"
  "w_now (emit_effect e w) = w_now w"
  by (simp_all add: emit_effect_def)

lemma mrel_id_New [mrel_intros]: "(\<And>d. R d d) \<Longrightarrow> mrel (dbrel R) (draw (id_New p))"
  by (rule mrel_draw) (simp add: dbrel_def)

lemma mrel_new_uuid [mrel_intros]: "(\<And>d. R d d) \<Longrightarrow> mrel (dbrel R) (draw new_uuid)"
  by (rule mrel_draw) (simp add: dbrel_def)

lemma mrel_emit_effect [mrel_intros]: "(\<And>d. R d d) \<Longrightarrow> mrel (dbrel R) (perform (emit_effect e))"
  by (rule mrel_perform) (simp add: dbrel_def)

text \<open>What no statement changes: the effects, the queue, the random source; time moves on.\<close>

definition env_frame :: "world \<Rightarrow> world \<Rightarrow> bool" where
  "env_frame w w' \<longleftrightarrow> w_trace w' = w_trace w \<and> w_jobs w' = w_jobs w \<and> w_pos w' = w_pos w
     \<and> w_entropy w' = w_entropy w \<and> w_now w \<le> w_now w'"

lemma env_frame_refl [simp, intro]: "env_frame w w"
  by (simp add: env_frame_def)

lemma env_frame_trans: "env_frame w v \<Longrightarrow> env_frame v u \<Longrightarrow> env_frame w u"
  by (auto simp: env_frame_def)

lemma wp_db_exec:
  assumes "\<And>w'. w_db w' = w_db w \<Longrightarrow> env_frame w w' \<Longrightarrow> Q (Inl ErrConn) w'"
    and "\<And>w'. env_frame w w' \<Longrightarrow> (case q (w_now w') (w_db w) of
        Inl e \<Rightarrow> w_db w' = w_db w \<longrightarrow> Q (Inl e) w'
      | Inr (x, d) \<Rightarrow> w_db w' = d \<longrightarrow> Q (Inr x) w')"
  shows "wp (db_exec q) Q w"
proof -
  obtain bad w1 where st: "env_step w = (bad, w1)" by (cases "env_step w")
  have fr: "w_db w1 = w_db w" "env_frame w w1"
    using env_step_frame [OF st] by (simp_all add: env_frame_def)
  have fd: "env_frame w (w1\<lparr>w_db := d\<rparr>)" for d using fr(2) by (simp add: env_frame_def)
  show ?thesis
    using st fr assms(1) [of w1] assms(2) [of w1] assms(2) [OF fd]
    by (auto simp: wp_def db_exec_def split: sum.splits prod.splits)
qed

lemma wp_db_read:
  assumes "\<And>w'. w_db w' = w_db w \<Longrightarrow> env_frame w w' \<Longrightarrow> Q (Inl ErrConn) w'"
    and "\<And>e w'. q (w_now w') (w_db w) = Inl e \<Longrightarrow> w_db w' = w_db w \<Longrightarrow> env_frame w w' \<Longrightarrow> Q (Inl e) w'"
    and "\<And>x w'. q (w_now w') (w_db w) = Inr x \<Longrightarrow> w_db w' = w_db w \<Longrightarrow> env_frame w w' \<Longrightarrow> Q (Inr x) w'"
  shows "wp (db_read q) Q w"
  unfolding db_read_def by (rule wp_db_exec) (auto simp: assms split: sum.splits)

text \<open>
  A transaction: the body is run on the same tables; on an error, a roll-back or a failed
  commit the tables are as before.
\<close>

lemma wp_with_tx:
  assumes body: "\<And>w1. w_db w1 = w_db w \<Longrightarrow> env_frame w w1 \<Longrightarrow> wp body (\<lambda>r w'. case r of
      Inr (Committed x) \<Rightarrow> (\<forall>v. w_db v = w_db w' \<longrightarrow> env_frame w' v \<longrightarrow> Q (Inr x) v)
        \<and> (\<forall>v. w_db v = w_db w \<longrightarrow> env_frame w' v \<longrightarrow> Q (Inl ErrConn) v)
    | Inr (Rolled x) \<Rightarrow> (\<forall>v. w_db v = w_db w \<longrightarrow> env_frame w' v \<longrightarrow> Q (Inr x) v)
    | Inl e \<Rightarrow> (\<forall>v. w_db v = w_db w \<longrightarrow> env_frame w' v \<longrightarrow> Q (Inl e) v)) w1"
    and lost: "\<And>v. w_db v = w_db w \<Longrightarrow> env_frame w v \<Longrightarrow> Q (Inl ErrConn) v"
  shows "wp (with_tx body) Q w"
proof -
  obtain bad w1 where st: "env_step w = (bad, w1)" by (cases "env_step w")
  have fr: "w_db w1 = w_db w" "env_frame w w1"
    using env_step_frame [OF st] by (simp_all add: env_frame_def)
  obtain r w2 where b: "body w1 = (r, w2)" by (cases "body w1")
  obtain bad' w3 where s3: "env_step w2 = (bad', w3)" by (cases "env_step w2")
  have fr3: "w_db w3 = w_db w2" "env_frame w2 w3"
    using env_step_frame [OF s3] by (simp_all add: env_frame_def)
  note post = wpD [OF body [OF fr] b]
  have undo: "env_frame w2 (w2\<lparr>w_db := w_db w1\<rparr>)" "env_frame w2 (w3\<lparr>w_db := w_db w1\<rparr>)"
    using fr3 by (simp_all add: env_frame_def)
  show ?thesis
    using st fr b s3 fr3 post lost [of w1] undo
    by (auto simp: wp_def with_tx_def split: sum.splits tx_result.splits if_splits)
qed

text \<open>\<open>quiet\<close>: nothing left the process and nothing was queued. Every repository operation is quiet.\<close>

definition quiet :: "world \<Rightarrow> world \<Rightarrow> bool" where
  "quiet w w' \<longleftrightarrow> w_trace w' = w_trace w \<and> w_jobs w' = w_jobs w"

lemma preorder_quiet [simp, intro]: "preorder_rel quiet"
  by (rule preorder_relI) (auto simp: quiet_def)

lemma quiet_db_exec [mrel_intros]: "mrel quiet (db_exec q)"
  by (rule mrelI) (auto simp: quiet_def dest: db_exec_frame)

lemma quiet_db_read [mrel_intros]: "mrel quiet (db_read q)"
  unfolding db_read_def by (rule quiet_db_exec)

lemma quiet_id_New [mrel_intros]: "mrel quiet (draw (id_New p))"
  by (rule mrel_draw) (simp add: quiet_def)

lemma quiet_new_uuid [mrel_intros]: "mrel quiet (draw new_uuid)"
  by (rule mrel_draw) (simp add: quiet_def)

lemma quiet_with_tx [mrel_intros]:
  assumes "mrel quiet body" shows "mrel quiet (with_tx body)"
proof (rule mrelI)
  fix w r w'
  assume run: "with_tx body w = (r, w')"
  obtain bad w1 where s1: "env_step w = (bad, w1)" by (cases "env_step w")
  obtain q w2 where b: "body w1 = (q, w2)" by (cases "body w1")
  obtain bad' w3 where s3: "env_step w2 = (bad', w3)" by (cases "env_step w2")
  have "quiet w1 w2" using assms b by (rule mrelD)
  with run s1 b s3 show "quiet w w'"
    by (auto simp: with_tx_def quiet_def dest!: env_step_frame split: if_splits sum.splits tx_result.splits)
qed

section \<open>Environments without failures\<close>

text \<open>
  A statement again, now remembering that an environment with no failures left stays so.
\<close>

lemma wp_db_exec_sched:
  assumes "\<And>w'. w_db w' = w_db w \<Longrightarrow> env_frame w w' \<Longrightarrow> w_sched w \<noteq> [] \<Longrightarrow> Q (Inl ErrConn) w'"
    and "\<And>w'. env_frame w w' \<Longrightarrow> (w_sched w = [] \<Longrightarrow> w_sched w' = []) \<Longrightarrow> (case q (w_now w') (w_db w) of
        Inl e \<Rightarrow> w_db w' = w_db w \<longrightarrow> Q (Inl e) w'
      | Inr (x, d) \<Rightarrow> w_db w' = d \<longrightarrow> Q (Inr x) w')"
  shows "wp (db_exec q) Q w"
proof (cases "w_sched w = []")
  case True
  have "env_frame w w" "env_frame w (w\<lparr>w_db := d\<rparr>)" for d by (simp_all add: env_frame_def)
  with assms(2) [of w] assms(2) [of "w\<lparr>w_db := _\<rparr>"] True show ?thesis
    by (auto simp: wp_def db_exec_quiet split: sum.splits prod.splits)
next
  case False
  show ?thesis by (rule wp_db_exec) (use assms False in auto)
qed

text \<open>An environment with no failures left stays so.\<close>

definition kept_calm :: "world \<Rightarrow> world \<Rightarrow> bool" where
  "kept_calm w w' \<longleftrightarrow> (w_sched w = [] \<longrightarrow> w_sched w' = [])"

lemma preorder_kept_calm [simp, intro]: "preorder_rel kept_calm"
  by (rule preorder_relI) (auto simp: kept_calm_def)

lemma kept_calm_db_exec [mrel_intros]: "mrel kept_calm (db_exec q)"
  by (rule mrelI) (auto simp: kept_calm_def db_exec_quiet split: sum.splits)

lemma kept_calm_db_read [mrel_intros]: "mrel kept_calm (db_read q)"
  unfolding db_read_def by (rule kept_calm_db_exec)

lemma kept_calm_id_New [mrel_intros]: "mrel kept_calm (draw (id_New p))"
  by (rule mrelI) (auto simp: kept_calm_def draw_eq)

lemma kept_calm_with_tx [mrel_intros]: "mrel kept_calm body \<Longrightarrow> mrel kept_calm (with_tx body)"
  by (rule mrelI)
     (auto simp: kept_calm_def with_tx_def env_step_def split: sum.splits tx_result.splits prod.splits if_splits list.splits
       dest!: mrelD)

lemma kept_calm_rand_bytes [mrel_intros]: "mrel kept_calm (draw (rand_bytes n))"
  by (rule mrelI) (auto simp: kept_calm_def draw_eq rand_bytes_def)

lemma kept_calm_new_uuid [mrel_intros]: "mrel kept_calm (draw new_uuid)"
  by (rule mrelI) (auto simp: kept_calm_def draw_eq new_uuid_def rand_bytes_def)

end
