(* ===== verification/Yaver_Ports.thy ===== *)
theory Yaver_Ports
  imports Yaver_World
begin

text \<open>
  The port interfaces of \<open>internal/domain\<close>: one record of operations per Go interface.
  A service takes the ports it was built with as arguments; the PostgreSQL adapters and
  the in-process adapters of later theories are values of these record types. A method
  without an error result is a plain state change.
\<close>

record CreditRepo =
  cr_Balance :: "OrgID \<Rightarrow> int wop"
  cr_TryDeduct :: "OrgID \<Rightarrow> int \<Rightarrow> string \<Rightarrow> (bool \<times> int) wop"
  cr_Grant :: "OrgID \<Rightarrow> int \<Rightarrow> string \<Rightarrow> int wop"
  cr_Ledger :: "OrgID \<Rightarrow> int \<Rightarrow> CreditEntry list wop"

record PaymentRepo =
  pay_Create :: "Payment \<Rightarrow> unit wop"
  pay_Settle :: "string \<Rightarrow> string \<Rightarrow> PaymentStatus \<Rightarrow> (Payment \<times> bool) wop"

record PaymentGateway =
  gw_Name :: string
  gw_Checkout :: "PaymentRequest \<Rightarrow> PaymentCheckout wop"
  gw_VerifyIPN :: "(string \<rightharpoonup> string) \<Rightarrow> (PaymentResult \<times> bool) wop"

record VoiceProvider =
  vp_PlaceCall :: "CallRequest \<Rightarrow> ProviderCallID wop"

record Orchestrator =
  orc_EnqueuePlaceCall :: "PlaceCallInput \<Rightarrow> unit wop"

record CallRepo =
  clr_Create :: "Call \<Rightarrow> unit wop"
  clr_Get :: "CallID \<Rightarrow> Call wop"
  clr_ListByOrg :: "OrgID \<Rightarrow> int \<Rightarrow> Call list wop"
  clr_Summary :: "OrgID \<Rightarrow> CallSummary wop"
  clr_AttachMedia :: "CallID \<Rightarrow> string \<Rightarrow> string \<Rightarrow> unit wop"
  clr_DeleteBefore :: "time \<Rightarrow> int wop"

record OutcomeRepo =
  otr_RecordCallOutcome :: "Call \<Rightarrow> OutboxEvent option \<Rightarrow> unit wop"

record OrgStore =
  ors_EnsureForUser :: "string \<Rightarrow> string \<Rightarrow> Org wop"
  ors_Rename :: "OrgID \<Rightarrow> string \<Rightarrow> unit wop"
  ors_OwnerEmail :: "OrgID \<Rightarrow> string wop"

record FlowRepo =
  flr_GetActiveFlow :: "OrgID \<Rightarrow> string \<Rightarrow> Flow option wop"
    \<comment> \<open>\<open>None\<close> is \<open>found = false\<close>\<close>
  flr_Create :: "OrgID \<Rightarrow> NewFlow \<Rightarrow> FlowID wop"
  flr_ListByOrg :: "OrgID \<Rightarrow> FlowSummary list wop"
  flr_GetByID :: "FlowID \<Rightarrow> FlowDetail option wop"
  flr_UpdateSpec :: "FlowID \<Rightarrow> OrgID \<Rightarrow> string \<Rightarrow> unit wop"

record CallPolicyRepo =
  plr_Get :: "OrgID \<Rightarrow> CallPolicy wop"
  plr_Upsert :: "OrgID \<Rightarrow> CallPolicy \<Rightarrow> unit wop"

record CampaignRepo =
  cpr_Create :: "OrgID \<Rightarrow> string \<Rightarrow> string \<Rightarrow> unit wop"
  cpr_ListByOrg :: "OrgID \<Rightarrow> Campaign list wop"
  cpr_Get :: "string \<Rightarrow> (Campaign \<times> OrgID) option wop"
  cpr_MarkStarted :: "OrgID \<Rightarrow> string \<Rightarrow> int \<Rightarrow> unit wop"
  cpr_AddRecipient :: "OrgID \<Rightarrow> string \<Rightarrow> Recipient \<Rightarrow> unit wop"
  cpr_Recipients :: "string \<Rightarrow> Recipient list wop"
  cpr_Schedule :: "OrgID \<Rightarrow> string \<Rightarrow> time \<Rightarrow> unit wop"
  cpr_DueCampaigns :: "time \<Rightarrow> CampaignRef list wop"

record CustomerRepo =
  cur_Upsert :: "OrgID \<Rightarrow> string \<Rightarrow> string \<Rightarrow> string \<Rightarrow> (string \<times> bool) wop"
  cur_ListByOrg :: "OrgID \<Rightarrow> int \<Rightarrow> Customer list wop"
  cur_SetDND :: "OrgID \<Rightarrow> string \<Rightarrow> bool \<Rightarrow> unit wop"

record APIKeyRepo =
  akr_Create :: "string \<Rightarrow> string \<Rightarrow> string \<Rightarrow> string \<Rightarrow> string \<Rightarrow> string \<Rightarrow> unit wop"
  akr_ByPrefix :: "string \<Rightarrow> (string \<times> string \<times> string \<times> string) option wop"
    \<comment> \<open>id, org, kind, secret hash\<close>
  akr_Touch :: "string \<Rightarrow> unit wop"
  akr_ListByOrg :: "string \<Rightarrow> APIKeyInfo list wop"

record EventRepo =
  evr_Insert :: "IngestEvent \<Rightarrow> bool wop"

record AuthRepo =
  aur_UpsertUserByPhone :: "string \<Rightarrow> User wop"
  aur_InsertOTP :: "string \<Rightarrow> string \<Rightarrow> time \<Rightarrow> unit wop"
  aur_LatestLiveOTP :: "string \<Rightarrow> OTP option wop"
  aur_IncrementOTPAttempts :: "string \<Rightarrow> unit wop"
  aur_ConsumeOTP :: "string \<Rightarrow> unit wop"
  aur_CreateUserWithPassword :: "string \<Rightarrow> string \<Rightarrow> string \<Rightarrow> User wop"
  aur_UserByEmail :: "string \<Rightarrow> (User \<times> string) option wop"
  aur_CreateSession :: "string \<Rightarrow> string \<Rightarrow> time \<Rightarrow> unit wop"
  aur_SessionUser :: "string \<Rightarrow> SessionUser option wop"
  aur_DeleteSession :: "string \<Rightarrow> unit wop"

record ChatRepo =
  ctr_CreateConversation :: "OrgID \<Rightarrow> string \<Rightarrow> unit wop"
  ctr_GetConversation :: "string \<Rightarrow> (OrgID \<times> string) option wop"
  ctr_ChannelTarget :: "string \<Rightarrow> (string \<times> string) wop"
  ctr_SetStatus :: "string \<Rightarrow> string \<Rightarrow> unit wop"
  ctr_ListConversations :: "OrgID \<Rightarrow> int \<Rightarrow> Conversation list wop"
  ctr_AddMessage :: "string \<Rightarrow> string \<Rightarrow> string \<Rightarrow> unit wop"
  ctr_Messages :: "string \<Rightarrow> Message list wop"
  ctr_FindOrCreate :: "OrgID \<Rightarrow> string \<Rightarrow> string \<Rightarrow> string wop"

record ChatSettingsRepo =
  csr_Get :: "OrgID \<Rightarrow> ChatSettings wop"
  csr_Upsert :: "OrgID \<Rightarrow> ChatSettings \<Rightarrow> unit wop"

record ChatModel =
  cml_Reply :: "string \<Rightarrow> Message list \<Rightarrow> string wop"

record Summarizer =
  smz_Summarize :: "Message list \<Rightarrow> ConversationInsight wop"

record InsightRepo =
  isr_Save :: "OrgID \<Rightarrow> string \<Rightarrow> ConversationInsight \<Rightarrow> unit wop"
  isr_Get :: "string \<Rightarrow> ConversationInsight option wop"

record ChannelRepo =
  chr_Upsert :: "OrgID \<Rightarrow> string \<Rightarrow> string \<Rightarrow> string \<Rightarrow> string \<Rightarrow> unit wop"
  chr_List :: "OrgID \<Rightarrow> ChannelConnection list wop"
  chr_Delete :: "OrgID \<Rightarrow> string \<Rightarrow> unit wop"
  chr_ByExternalID :: "string \<Rightarrow> (OrgID \<times> string \<times> string \<times> string) option wop"
  chr_ByOrgAndType :: "OrgID \<Rightarrow> string \<Rightarrow> (string \<times> string) option wop"
  chr_OrgForVerifyToken :: "string \<Rightarrow> bool wop"

record WebhookRepo =
  whr_UpsertEndpoint :: "string \<Rightarrow> string \<Rightarrow> string \<Rightarrow> string \<Rightarrow> string list \<Rightarrow> unit wop"
  whr_GetEndpoint :: "string \<Rightarrow> WebhookEndpointRow option wop"
  whr_DrainOutbox :: "int \<Rightarrow> int wop"
  whr_DueDeliveries :: "int \<Rightarrow> DueDelivery list wop"
  whr_MarkDelivered :: "string \<Rightarrow> int \<Rightarrow> unit wop"
  whr_Reschedule :: "string \<Rightarrow> int \<Rightarrow> string \<Rightarrow> string \<Rightarrow> time \<Rightarrow> unit wop"

text \<open>Senders and publishers.\<close>

record SMSSender = sms_Send :: "string \<Rightarrow> string \<Rightarrow> unit wop"
record EmailSender = eml_Send :: "string \<Rightarrow> string \<Rightarrow> string \<Rightarrow> unit wop"
record MessagingSender = msd_Send :: "OutboundMessage \<Rightarrow> unit wop"
record CreditNotifier = ntf_LowBalance :: "OrgID \<Rightarrow> int \<Rightarrow> world \<Rightarrow> world"
record ActivityPublisher = act_Publish :: "ActivityEvent \<Rightarrow> world \<Rightarrow> world"

text \<open>\<open>clock.Real\<close>: the current time.\<close>

definition clock_Now :: "world \<Rightarrow> time" where
  "clock_Now w = w_now w"

end
