(* ===== verification/Yaver_Credits.thy ===== *)
theory Yaver_Credits
  imports Yaver_Ports
begin

text \<open>
  The credit meter: the queries of \<open>gen/credits.sql.go\<close>, the repository of
  \<open>postgres/credits.go\<close> and the contract the services rely on, stated as a locale
  over any implementation of the port and interpreted on the PostgreSQL repository.
\<close>

section \<open>Queries (gen/credits.sql.go)\<close>

definition gen_GetBalance :: "string \<Rightarrow> int wop" where
  "gen_GetBalance org = db_read (\<lambda>t d.
     case List.find (\<lambda>r. oc_org_id r = org) (org_credits d) of
       None \<Rightarrow> Inl ErrNoRows | Some r \<Rightarrow> Inr (oc_balance r))"

definition gen_EnsureCreditAccount :: "string \<Rightarrow> unit wop" where
  "gen_EnsureCreditAccount org = db_exec (\<lambda>t d.
     case List.find (\<lambda>r. oc_org_id r = org) (org_credits d) of
       Some _ \<Rightarrow> Inr ((), d)
     | None \<Rightarrow> Inr ((), d\<lparr>org_credits := org_credits d @ [\<lparr>oc_org_id = org, oc_balance = 0\<rparr>]\<rparr>))"

definition gen_AdjustBalance :: "string \<Rightarrow> int \<Rightarrow> int wop" where
  "gen_AdjustBalance org amt = db_exec (\<lambda>t d.
     case List.find (\<lambda>r. oc_org_id r = org) (org_credits d) of
       None \<Rightarrow> Inl ErrNoRows
     | Some r \<Rightarrow>
         if in_int32 (oc_balance r + amt)
         then Inr (oc_balance r + amt, d\<lparr>org_credits :=
           upd_where (\<lambda>r. oc_org_id r = org) (\<lambda>r. r\<lparr>oc_balance := oc_balance r + amt\<rparr>) (org_credits d)\<rparr>)
         else Inl ErrOutOfRange)"

definition gen_TryDeductBalance :: "string \<Rightarrow> int \<Rightarrow> int wop" where
  "gen_TryDeductBalance org amt = db_exec (\<lambda>t d.
     case List.find (\<lambda>r. oc_org_id r = org \<and> oc_balance r \<ge> amt) (org_credits d) of
       None \<Rightarrow> Inl ErrNoRows
     | Some r \<Rightarrow>
         if in_int32 (oc_balance r - amt)
         then Inr (oc_balance r - amt, d\<lparr>org_credits :=
           upd_where (\<lambda>r. oc_org_id r = org \<and> oc_balance r \<ge> amt)
             (\<lambda>r. r\<lparr>oc_balance := oc_balance r - amt\<rparr>) (org_credits d)\<rparr>)
         else Inl ErrOutOfRange)"

definition gen_AddLedger :: "string \<Rightarrow> string \<Rightarrow> int \<Rightarrow> string \<Rightarrow> unit wop" where
  "gen_AddLedger lid org delta reason = db_exec (\<lambda>t d.
     case List.find (\<lambda>r. lg_id r = lid) (credit_ledger d) of
       Some _ \<Rightarrow> Inl ErrUniqueViolation
     | None \<Rightarrow> Inr ((), d\<lparr>credit_ledger := credit_ledger d @
         [\<lparr>lg_id = lid, lg_org_id = org, lg_delta = delta, lg_reason = reason, lg_created_at = t\<rparr>]\<rparr>))"

definition gen_ListLedger :: "string \<Rightarrow> int \<Rightarrow> LedgerRow list wop" where
  "gen_ListLedger org limit = db_read (\<lambda>t d.
     if limit < 0 then Inl (ErrOther ''LIMIT must not be negative'')
     else Inr (take (nat limit) (order_by_desc lg_created_at
            (filter (\<lambda>r. lg_org_id r = org) (credit_ledger d)))))"

section \<open>The repository (postgres/credits.go)\<close>

definition pg_Balance :: "OrgID \<Rightarrow> int wop" where
  "pg_Balance org = attempt (gen_GetBalance org) (\<lambda>r. case r of
     Inl e \<Rightarrow> if e = ErrNoRows then ret 0 else fail e
   | Inr b \<Rightarrow> ret b)"

definition pg_TryDeduct :: "OrgID \<Rightarrow> int \<Rightarrow> string \<Rightarrow> (bool \<times> int) wop" where
  "pg_TryDeduct org amount reason = with_tx (
     attempt (gen_TryDeductBalance org (go_int32 amount)) (\<lambda>r. case r of
       Inl e \<Rightarrow> if e = ErrNoRows then ret (Rolled (False, 0)) else fail e
     | Inr bal \<Rightarrow>
         bnd (draw (id_New ''led'')) (\<lambda>lid.
         bnd (gen_AddLedger lid org (go_int32 (- amount)) reason) (\<lambda>_.
         ret (Committed (True, bal))))))"

definition pg_Grant :: "OrgID \<Rightarrow> int \<Rightarrow> string \<Rightarrow> int wop" where
  "pg_Grant org amount reason = with_tx (
     bnd (gen_EnsureCreditAccount org) (\<lambda>_.
     bnd (gen_AdjustBalance org (go_int32 amount)) (\<lambda>bal.
     bnd (draw (id_New ''led'')) (\<lambda>lid.
     bnd (gen_AddLedger lid org (go_int32 amount) reason) (\<lambda>_.
     ret (Committed bal))))))"

definition pg_Ledger :: "OrgID \<Rightarrow> int \<Rightarrow> CreditEntry list wop" where
  "pg_Ledger org limit = bnd (gen_ListLedger org (go_int32 limit)) (\<lambda>rows.
     ret (map (\<lambda>r. \<lparr>ce_Delta = lg_delta r, ce_Reason = lg_reason r, ce_CreatedAt = lg_created_at r\<rparr>) rows))"

definition pg_credits :: CreditRepo where
  "pg_credits = \<lparr>cr_Balance = pg_Balance, cr_TryDeduct = pg_TryDeduct, cr_Grant = pg_Grant,
     cr_Ledger = pg_Ledger\<rparr>"

section \<open>Views and invariant\<close>

text \<open>An org's balance (no row is 0), its ledger total, and the audit invariant.\<close>

definition balance_of :: "database \<Rightarrow> OrgID \<Rightarrow> int" where
  "balance_of d org = (case List.find (\<lambda>r. oc_org_id r = org) (org_credits d) of
     None \<Rightarrow> 0 | Some r \<Rightarrow> oc_balance r)"

definition ledger_total :: "database \<Rightarrow> OrgID \<Rightarrow> int" where
  "ledger_total d org = sum_list (map lg_delta (filter (\<lambda>r. lg_org_id r = org) (credit_ledger d)))"

definition accounts_unique :: "database \<Rightarrow> bool" where
  "accounts_unique d \<longleftrightarrow> distinct (map oc_org_id (org_credits d))"

definition audited :: "database \<Rightarrow> bool" where
  "audited d \<longleftrightarrow> accounts_unique d \<and> (\<forall>org. balance_of d org = ledger_total d org \<and> 0 \<le> balance_of d org)"

section \<open>The contract of a credit store\<close>

text \<open>
  What \<open>domain.CreditRepo\<close> promises: a deduction is refused without effect or takes
  exactly the amount, a grant adds exactly the amount, an error changes nothing, and
  every change is booked in the ledger.
\<close>

locale credit_store =
  fixes repo :: CreditRepo
    and bal :: "world \<Rightarrow> OrgID \<Rightarrow> int"
    and booked :: "world \<Rightarrow> OrgID \<Rightarrow> int"
    and invar :: "world \<Rightarrow> bool"
  assumes deduct_ok:
    "cr_TryDeduct repo org n why w = (Inr (True, b), w') \<Longrightarrow> invar w \<Longrightarrow> 0 < n \<Longrightarrow> n < 2 ^ 31 \<Longrightarrow>
       n \<le> bal w org \<and> bal w' = (bal w)(org := bal w org - n) \<and>
       booked w' = (booked w)(org := booked w org - n) \<and> b = bal w' org"
    and deduct_refused:
    "cr_TryDeduct repo org n why w = (Inr (False, b), w') \<Longrightarrow> invar w \<Longrightarrow> 0 < n \<Longrightarrow> n < 2 ^ 31 \<Longrightarrow>
       bal w org < n \<and> bal w' = bal w \<and> booked w' = booked w"
    and deduct_error:
    "cr_TryDeduct repo org n why w = (Inl e, w') \<Longrightarrow> bal w' = bal w \<and> booked w' = booked w"
    and grant_ok:
    "cr_Grant repo org n why w = (Inr b, w') \<Longrightarrow> invar w \<Longrightarrow> 0 < n \<Longrightarrow> n < 2 ^ 31 \<Longrightarrow>
       bal w' = (bal w)(org := bal w org + n) \<and>
       booked w' = (booked w)(org := booked w org + n) \<and> b = bal w' org"
    and grant_error:
    "cr_Grant repo org n why w = (Inl e, w') \<Longrightarrow> bal w' = bal w \<and> booked w' = booked w"
    and invar_deduct: "keeps invar (cr_TryDeduct repo org n why)"
    and invar_grant: "keeps invar (cr_Grant repo org n why)"
begin

definition balanced :: "world \<Rightarrow> bool" where
  "balanced w \<longleftrightarrow> invar w \<and> (\<forall>org. bal w org = booked w org \<and> 0 \<le> bal w org)"

lemma balanced_deduct:
  assumes "balanced w" and n: "0 < n" "n < 2 ^ 31" and run: "cr_TryDeduct repo org n why w = (r, w')"
  shows "balanced w'"
proof -
  have I: "invar w" and B: "bal w = booked w" "\<forall>o'. 0 \<le> booked w o'"
    using assms(1) unfolding balanced_def fun_eq_iff by metis+
  have I': "invar w'" using mrelD [OF invar_deduct run] I by simp
  consider (ok) b where "r = Inr (True, b)" | (no) b where "r = Inr (False, b)" | (err) e where "r = Inl e"
    by (cases r) auto
  then show ?thesis
  proof cases
    case ok
    with run deduct_ok [OF _ I n] have "n \<le> bal w org" "bal w' = (bal w)(org := bal w org - n)"
      "booked w' = (booked w)(org := booked w org - n)" by blast+
    with I' B show ?thesis by (simp add: balanced_def)
  next
    case no
    with run deduct_refused [OF _ I n] have "bal w' = bal w" "booked w' = booked w" by blast+
    with I' B show ?thesis by (simp add: balanced_def)
  next
    case err
    with run deduct_error have "bal w' = bal w" "booked w' = booked w" by blast+
    with I' B show ?thesis by (simp add: balanced_def)
  qed
qed

lemma balanced_grant:
  assumes "balanced w" and n: "0 < n" "n < 2 ^ 31" and run: "cr_Grant repo org n why w = (r, w')"
  shows "balanced w'"
proof -
  have I: "invar w" and B: "bal w = booked w" "\<forall>o'. 0 \<le> booked w o'"
    using assms(1) unfolding balanced_def fun_eq_iff by metis+
  have I': "invar w'" using mrelD [OF invar_grant run] I by simp
  show ?thesis
  proof (cases r)
    case (Inl e)
    with run grant_error have "bal w' = bal w" "booked w' = booked w" by blast+
    with I' B show ?thesis by (simp add: balanced_def)
  next
    case (Inr b)
    with run grant_ok [OF _ I n] have "bal w' = (bal w)(org := bal w org + n)"
      "booked w' = (booked w)(org := booked w org + n)" by blast+
    with I' B n show ?thesis by (simp add: balanced_def)
  qed
qed

end

section \<open>The PostgreSQL repository meets the contract\<close>

lemma find_balance_row:
  assumes "accounts_unique d" and "List.find (\<lambda>r. oc_org_id r = org \<and> Q r) (org_credits d) = Some r"
  shows "balance_of d org = oc_balance r"
proof -
  from assms(2) have r: "r \<in> set (org_credits d)" "oc_org_id r = org" by (auto dest: find_SomeD)
  with assms(1) find_unique_key [of oc_org_id "org_credits d" r] show ?thesis
    by (simp add: accounts_unique_def balance_of_def)
qed

lemma find_balance_row_None:
  assumes "List.find (\<lambda>r. oc_org_id r = org \<and> oc_balance r \<ge> n) (org_credits d) = None" and "0 < n"
  shows "balance_of d org < n"
  using assms by (auto simp: balance_of_def find_None_iff split: option.splits dest!: find_SomeD)

lemma balance_of_update:
  assumes "accounts_unique d" and "List.find (\<lambda>r. oc_org_id r = org \<and> Q r) (org_credits d) = Some r"
  shows "balance_of (d\<lparr>org_credits := upd_where (\<lambda>r. oc_org_id r = org \<and> Q r)
           (\<lambda>r. r\<lparr>oc_balance := oc_balance r + n\<rparr>) (org_credits d)\<rparr>)
         = (balance_of d)(org := balance_of d org + n)"
proof
  fix o'
  let ?P = "\<lambda>r. oc_org_id r = org \<and> Q r"
  from assms(2) have r: "r \<in> set (org_credits d)" "oc_org_id r = org" "Q r" by (auto dest: find_SomeD)
  have fr: "List.find (\<lambda>q. oc_org_id q = org) (org_credits d) = Some r"
    using assms(1) find_unique_key [of oc_org_id "org_credits d" r] r by (simp add: accounts_unique_def)
  have "List.find (\<lambda>q. oc_org_id q = o') (upd_where ?P (\<lambda>r. r\<lparr>oc_balance := oc_balance r + n\<rparr>) (org_credits d))
     = map_option (\<lambda>r. if ?P r then r\<lparr>oc_balance := oc_balance r + n\<rparr> else r)
         (List.find (\<lambda>q. oc_org_id q = o') (org_credits d))"
    by (rule find_upd_where) simp
  then show "balance_of (d\<lparr>org_credits := upd_where ?P
           (\<lambda>r. r\<lparr>oc_balance := oc_balance r + n\<rparr>) (org_credits d)\<rparr>) o'
         = ((balance_of d)(org := balance_of d org + n)) o'"
    using fr r by (auto simp: balance_of_def split: option.splits dest!: find_SomeD)
qed

lemma accounts_unique_update [simp]:
  "accounts_unique (d\<lparr>org_credits := upd_where P (\<lambda>r. r\<lparr>oc_balance := f r\<rparr>) (org_credits d)\<rparr>)
     = accounts_unique d"
  by (simp add: accounts_unique_def map_key_upd_where)

lemma ledger_total_snoc:
  "ledger_total (d\<lparr>credit_ledger := credit_ledger d @ [row]\<rparr>) =
     (ledger_total d)(lg_org_id row := ledger_total d (lg_org_id row) + lg_delta row)"
  by (rule ext) (simp add: ledger_total_def)

lemma credit_views_frame [simp]:
  "ledger_total (d\<lparr>org_credits := x\<rparr>) = ledger_total d"
  "balance_of (d\<lparr>credit_ledger := y\<rparr>) = balance_of d"
  "accounts_unique (d\<lparr>credit_ledger := y\<rparr>) = accounts_unique d"
  by (simp_all add: fun_eq_iff ledger_total_def balance_of_def accounts_unique_def)

lemmas credit_view_defs = balance_of_def ledger_total_def accounts_unique_def

text \<open>What each statement does to the two views.\<close>

lemma gen_TryDeductBalance_spec:
  assumes "gen_TryDeductBalance org n w = (Inr b, w')" and "accounts_unique (w_db w)"
  shows "n \<le> balance_of (w_db w) org \<and> b = balance_of (w_db w) org - n
    \<and> balance_of (w_db w') = (balance_of (w_db w))(org := balance_of (w_db w) org - n)
    \<and> ledger_total (w_db w') = ledger_total (w_db w) \<and> accounts_unique (w_db w')"
  using assms(1) unfolding gen_TryDeductBalance_def
proof (cases rule: db_exec_cases)
  case (executed x t d)
  then obtain r where r: "List.find (\<lambda>r. oc_org_id r = org \<and> oc_balance r \<ge> n) (org_credits (w_db w)) = Some r"
    and d: "d = (w_db w)\<lparr>org_credits := upd_where (\<lambda>r. oc_org_id r = org \<and> oc_balance r \<ge> n)
             (\<lambda>r. r\<lparr>oc_balance := oc_balance r - n\<rparr>) (org_credits (w_db w))\<rparr>" and b: "b = oc_balance r - n"
    by (auto split: option.splits if_splits)
  have "balance_of d = (balance_of (w_db w))(org := balance_of (w_db w) org - n)"
    using balance_of_update [OF assms(2) r, of "- n"] d by simp
  moreover have "balance_of (w_db w) org = oc_balance r" using assms(2) r by (rule find_balance_row)
  moreover have "n \<le> oc_balance r" using r by (auto dest: find_SomeD)
  ultimately show ?thesis using executed(4) d b assms(2) by simp
qed auto

lemma gen_TryDeductBalance_no_rows:
  assumes "gen_TryDeductBalance org n w = (Inl ErrNoRows, w')" and "0 < n"
  shows "balance_of (w_db w) org < n"
  using assms(1) unfolding gen_TryDeductBalance_def
proof (cases rule: db_exec_cases)
  case (refused e t)
  then show ?thesis
    using assms(2) by (auto intro: find_balance_row_None split: option.splits if_splits)
qed auto

lemma gen_AddLedger_spec:
  assumes "gen_AddLedger lid org n why w = (Inr u, w')"
  shows "ledger_total (w_db w') = (ledger_total (w_db w))(org := ledger_total (w_db w) org + n)
    \<and> balance_of (w_db w') = balance_of (w_db w) \<and> accounts_unique (w_db w') = accounts_unique (w_db w)"
  using assms unfolding gen_AddLedger_def
proof (cases rule: db_exec_cases)
  case (executed x t d)
  then have "d = (w_db w)\<lparr>credit_ledger := credit_ledger (w_db w) @
      [\<lparr>lg_id = lid, lg_org_id = org, lg_delta = n, lg_reason = why, lg_created_at = t\<rparr>]\<rparr>"
    by (auto split: option.splits)
  with executed(4) show ?thesis
    by (simp add: ledger_total_snoc)
qed auto

lemma new_account_views:
  assumes "List.find (\<lambda>r. oc_org_id r = org) (org_credits d) = None"
  shows "balance_of (d\<lparr>org_credits := org_credits d @ [\<lparr>oc_org_id = org, oc_balance = 0\<rparr>]\<rparr>) = balance_of d"
    and "accounts_unique (d\<lparr>org_credits := org_credits d @ [\<lparr>oc_org_id = org, oc_balance = 0\<rparr>]\<rparr>) = accounts_unique d"
  using assms by (auto simp: balance_of_def accounts_unique_def fun_eq_iff find_append find_None_iff
      split: option.splits dest: find_SomeD)

lemma gen_EnsureCreditAccount_spec:
  assumes "gen_EnsureCreditAccount org w = (Inr u, w')"
  shows "ledger_total (w_db w') = ledger_total (w_db w) \<and> balance_of (w_db w') = balance_of (w_db w)
    \<and> accounts_unique (w_db w') = accounts_unique (w_db w)"
  using assms unfolding gen_EnsureCreditAccount_def
proof (cases rule: db_exec_cases)
  case (executed x t d)
  show ?thesis
  proof (cases "List.find (\<lambda>r. oc_org_id r = org) (org_credits (w_db w))")
    case None
    with executed(2) have "d = (w_db w)\<lparr>org_credits := org_credits (w_db w) @ [\<lparr>oc_org_id = org, oc_balance = 0\<rparr>]\<rparr>"
      by simp
    with executed(4) None show ?thesis by (simp add: new_account_views)
  qed (use executed in simp)
qed auto

lemma gen_AdjustBalance_spec:
  assumes "gen_AdjustBalance org n w = (Inr b, w')" and "accounts_unique (w_db w)"
  shows "b = balance_of (w_db w) org + n
    \<and> balance_of (w_db w') = (balance_of (w_db w))(org := balance_of (w_db w) org + n)
    \<and> ledger_total (w_db w') = ledger_total (w_db w) \<and> accounts_unique (w_db w')"
  using assms(1) unfolding gen_AdjustBalance_def
proof (cases rule: db_exec_cases)
  case (executed x t d)
  then obtain r where r: "List.find (\<lambda>r. oc_org_id r = org \<and> True) (org_credits (w_db w)) = Some r"
    and d: "d = (w_db w)\<lparr>org_credits := upd_where (\<lambda>r. oc_org_id r = org \<and> True)
             (\<lambda>r. r\<lparr>oc_balance := oc_balance r + n\<rparr>) (org_credits (w_db w))\<rparr>" and b: "b = oc_balance r + n"
    by (auto split: option.splits if_splits)
  have "balance_of d = (balance_of (w_db w))(org := balance_of (w_db w) org + n)"
    using balance_of_update [OF assms(2) r, of n] d by simp
  moreover have "balance_of (w_db w) org = oc_balance r" using assms(2) r by (rule find_balance_row)
  ultimately show ?thesis using executed(4) d b assms(2) by simp
qed auto

lemma go_int32_amount: "0 < n \<Longrightarrow> n < 2 ^ 31 \<Longrightarrow> go_int32 n = n \<and> go_int32 (- n) = - n"
  by (simp add: go_int32_id in_int32_def)

lemma wp_gen_TryDeductBalance:
  assumes "accounts_unique (w_db w)"
  shows "wp (gen_TryDeductBalance org n) (\<lambda>r w'. case r of
      Inl e \<Rightarrow> e = ErrNoRows \<longrightarrow> 0 < n \<longrightarrow> balance_of (w_db w) org < n
    | Inr b \<Rightarrow> n \<le> balance_of (w_db w) org \<and> b = balance_of (w_db w) org - n
        \<and> balance_of (w_db w') = (balance_of (w_db w))(org := balance_of (w_db w) org - n)
        \<and> ledger_total (w_db w') = ledger_total (w_db w) \<and> accounts_unique (w_db w')) w"
  by (rule wpI)
     (use gen_TryDeductBalance_spec [OF _ assms] gen_TryDeductBalance_no_rows in \<open>auto split: sum.splits\<close>)

lemma wp_gen_AdjustBalance:
  assumes "accounts_unique (w_db w)"
  shows "wp (gen_AdjustBalance org n) (\<lambda>r w'. case r of
      Inl e \<Rightarrow> True
    | Inr b \<Rightarrow> b = balance_of (w_db w) org + n
        \<and> balance_of (w_db w') = (balance_of (w_db w))(org := balance_of (w_db w) org + n)
        \<and> ledger_total (w_db w') = ledger_total (w_db w) \<and> accounts_unique (w_db w')) w"
  by (rule wpI) (use gen_AdjustBalance_spec [OF _ assms] in \<open>auto split: sum.splits\<close>)

lemma wp_gen_AddLedger:
  "wp (gen_AddLedger lid org n why) (\<lambda>r w'. case r of
      Inl e \<Rightarrow> True
    | Inr _ \<Rightarrow> ledger_total (w_db w') = (ledger_total (w_db w))(org := ledger_total (w_db w) org + n)
        \<and> balance_of (w_db w') = balance_of (w_db w)
        \<and> accounts_unique (w_db w') = accounts_unique (w_db w)) w"
  by (rule wpI) (use gen_AddLedger_spec in \<open>auto split: sum.splits\<close>)

lemma wp_gen_EnsureCreditAccount:
  "wp (gen_EnsureCreditAccount org) (\<lambda>r w'. case r of
      Inl e \<Rightarrow> True
    | Inr _ \<Rightarrow> ledger_total (w_db w') = ledger_total (w_db w) \<and> balance_of (w_db w') = balance_of (w_db w)
        \<and> accounts_unique (w_db w') = accounts_unique (w_db w)) w"
  by (rule wpI) (use gen_EnsureCreditAccount_spec in \<open>auto split: sum.splits\<close>)

text \<open>The repository's two mutating methods, on every outcome.\<close>

lemma wp_pg_TryDeduct:
  assumes u: "accounts_unique (w_db w)" and n: "0 < n" "n < 2 ^ 31"
  shows "wp (pg_TryDeduct org n why) (\<lambda>r w'. case r of
      Inl e \<Rightarrow> w_db w' = w_db w
    | Inr (ok, b) \<Rightarrow> if ok
        then n \<le> balance_of (w_db w) org
          \<and> balance_of (w_db w') = (balance_of (w_db w))(org := balance_of (w_db w) org - n)
          \<and> ledger_total (w_db w') = (ledger_total (w_db w))(org := ledger_total (w_db w) org - n)
          \<and> b = balance_of (w_db w) org - n \<and> accounts_unique (w_db w')
        else balance_of (w_db w) org < n \<and> w_db w' = w_db w) w"
  unfolding pg_TryDeduct_def go_int32_amount [OF n, THEN conjunct1] go_int32_amount [OF n, THEN conjunct2]
proof (rule wp_with_tx, goal_cases)
  case (1 w1)
  then have w1: "w_db w1 = w_db w" "accounts_unique (w_db w1)" using u by simp_all
  show ?case
  proof (rule wp_attempt [OF wp_gen_TryDeductBalance [OF w1(2)]], goal_cases)
    case (1 r w2)
    show ?case
    proof (cases r)
      case (Inl e)
      with 1 n w1(1) show ?thesis by simp
    next
      case (Inr b)
      show ?thesis unfolding Inr sum.case wp_bnd_simps
        by (rule wp_bnd [OF wp_gen_AddLedger]) (use 1 Inr w1 in simp_all)
    qed
  qed
qed simp

lemma wp_pg_Grant:
  assumes u: "accounts_unique (w_db w)" and n: "0 < n" "n < 2 ^ 31"
  shows "wp (pg_Grant org n why) (\<lambda>r w'. case r of
      Inl e \<Rightarrow> w_db w' = w_db w
    | Inr b \<Rightarrow> balance_of (w_db w') = (balance_of (w_db w))(org := balance_of (w_db w) org + n)
        \<and> ledger_total (w_db w') = (ledger_total (w_db w))(org := ledger_total (w_db w) org + n)
        \<and> b = balance_of (w_db w) org + n \<and> accounts_unique (w_db w')) w"
  unfolding pg_Grant_def go_int32_amount [OF n, THEN conjunct1]
proof (rule wp_with_tx, goal_cases)
  case (1 w1)
  then have w1: "w_db w1 = w_db w" "accounts_unique (w_db w1)" using u by simp_all
  show ?case
  proof (rule wp_bnd [OF wp_gen_EnsureCreditAccount], simp, goal_cases)
    case (1 _ w2)
    note e2 = this
    then have u2: "accounts_unique (w_db w2)" using w1 by simp
    show ?case
    proof (rule wp_bnd [OF wp_gen_AdjustBalance [OF u2]], simp, goal_cases)
      case (1 b w3)
      show ?case unfolding wp_bnd_simps
        by (rule wp_bnd [OF wp_gen_AddLedger]) (use 1 w1 e2 in simp_all)
    qed
  qed
qed simp

lemma pg_TryDeduct_error: "pg_TryDeduct org n why w = (Inl e, w') \<Longrightarrow> w_db w' = w_db w"
  unfolding pg_TryDeduct_def by (rule with_tx_error_db)

lemma pg_Grant_error: "pg_Grant org n why w = (Inl e, w') \<Longrightarrow> w_db w' = w_db w"
  unfolding pg_Grant_def by (rule with_tx_error_db)

text \<open>Any statement of the repository keeps one account per org.\<close>

lemma accounts_unique_gen [mrel_intros]:
  "db_keeps accounts_unique (gen_TryDeductBalance org n)"
  "db_keeps accounts_unique (gen_AdjustBalance org n)"
  "db_keeps accounts_unique (gen_EnsureCreditAccount org)"
  "db_keeps accounts_unique (gen_AddLedger lid org n why)"
  unfolding gen_TryDeductBalance_def gen_AdjustBalance_def gen_EnsureCreditAccount_def gen_AddLedger_def
  by (rule mrel_db_exec; auto split: option.splits if_splits simp: new_account_views)+

lemma accounts_unique_TryDeduct: "db_keeps accounts_unique (pg_TryDeduct org n why)"
  unfolding pg_TryDeduct_def by (intro mrel_with_tx mrel_intros) auto

lemma accounts_unique_Grant: "db_keeps accounts_unique (pg_Grant org n why)"
  unfolding pg_Grant_def by (intro mrel_with_tx mrel_intros) auto

text \<open>The rows a grant or a deduction writes, for clients that look at other tables or at the reason.\<close>

lemma wp_gen_credit_rows:
  "wp (gen_EnsureCreditAccount org) (\<lambda>r w'. \<exists>oc. w_db w' = (w_db w)\<lparr>org_credits := oc\<rparr>) w"
  "wp (gen_AdjustBalance org n) (\<lambda>r w'. \<exists>oc. w_db w' = (w_db w)\<lparr>org_credits := oc\<rparr>) w"
  "wp (gen_TryDeductBalance org n) (\<lambda>r w'. \<exists>oc. w_db w' = (w_db w)\<lparr>org_credits := oc\<rparr>) w"
proof -
  have same: "\<exists>oc. d = d\<lparr>org_credits := oc\<rparr>" for d :: database
    by (rule exI [of _ "org_credits d"]) simp
  show "wp (gen_EnsureCreditAccount org) (\<lambda>r w'. \<exists>oc. w_db w' = (w_db w)\<lparr>org_credits := oc\<rparr>) w"
    unfolding gen_EnsureCreditAccount_def by (rule wp_db_exec) (auto simp: same split: option.splits)
  show "wp (gen_AdjustBalance org n) (\<lambda>r w'. \<exists>oc. w_db w' = (w_db w)\<lparr>org_credits := oc\<rparr>) w"
    unfolding gen_AdjustBalance_def by (rule wp_db_exec) (auto simp: same split: option.splits if_splits)
  show "wp (gen_TryDeductBalance org n) (\<lambda>r w'. \<exists>oc. w_db w' = (w_db w)\<lparr>org_credits := oc\<rparr>) w"
    unfolding gen_TryDeductBalance_def by (rule wp_db_exec) (auto simp: same split: option.splits if_splits)
qed

definition ledger_added :: "database \<Rightarrow> database \<Rightarrow> OrgID \<Rightarrow> int \<Rightarrow> string \<Rightarrow> bool" where
  "ledger_added d d' org n why \<longleftrightarrow> (\<exists>oc lid t. d' = d\<lparr>org_credits := oc, credit_ledger := credit_ledger d @
     [\<lparr>lg_id = lid, lg_org_id = org, lg_delta = n, lg_reason = why, lg_created_at = t\<rparr>]\<rparr>)"

lemma wp_gen_AddLedger_rows:
  assumes "w_db w = d\<lparr>org_credits := oc\<rparr>"
  shows "wp (gen_AddLedger lid org n why) (\<lambda>r w'. case r of Inl e \<Rightarrow> True
     | Inr _ \<Rightarrow> ledger_added d (w_db w') org n why) w"
  unfolding gen_AddLedger_def
  by (rule wp_db_exec) (use assms in \<open>auto simp: ledger_added_def split: option.splits\<close>)

lemma wp_pg_Grant_rows:
  "wp (pg_Grant org n why) (\<lambda>r w'. case r of Inl e \<Rightarrow> w_db w' = w_db w
     | Inr _ \<Rightarrow> ledger_added (w_db w) (w_db w') org (go_int32 n) why) w"
  unfolding pg_Grant_def
proof (rule wp_with_tx, goal_cases)
  case (1 w1)
  show ?case
  proof (rule wp_bnd [OF wp_gen_credit_rows(1)], simp, goal_cases)
    case (1 _ w2)
    then obtain oc where w2: "w_db w2 = (w_db w1)\<lparr>org_credits := oc\<rparr>" by blast
    show ?case
    proof (rule wp_bnd [OF wp_gen_credit_rows(2)], simp, goal_cases)
      case (1 b w3)
      with w2 obtain oc' where w3: "w_db w3 = (w_db w1)\<lparr>org_credits := oc'\<rparr>" by auto
      show ?case unfolding wp_bnd_simps
        by (rule wp_bnd [OF wp_gen_AddLedger_rows [where d = "w_db w1" and oc = oc']])
           (use w3 \<open>w_db w1 = w_db w\<close> in simp_all)
    qed
  qed
qed simp

lemma wp_pg_TryDeduct_rows:
  "wp (pg_TryDeduct org n why) (\<lambda>r w'. case r of
       Inr (True, _) \<Rightarrow> ledger_added (w_db w) (w_db w') org (go_int32 (- n)) why
     | _ \<Rightarrow> w_db w' = w_db w) w"
  unfolding pg_TryDeduct_def
proof (rule wp_with_tx, goal_cases)
  case (1 w1)
  show ?case
  proof (rule wp_attempt [OF wp_gen_credit_rows(3)], goal_cases)
    case (1 r w2)
    then obtain oc where w2: "w_db w2 = (w_db w1)\<lparr>org_credits := oc\<rparr>" by blast
    show ?case
    proof (cases r)
      case (Inr b)
      show ?thesis unfolding Inr sum.case wp_bnd_simps
        by (rule wp_bnd [OF wp_gen_AddLedger_rows [where d = "w_db w1" and oc = oc]])
           (use w2 \<open>w_db w1 = w_db w\<close> in simp_all)
    qed simp
  qed
qed simp

interpretation pgc: credit_store pg_credits "\<lambda>w. balance_of (w_db w)" "\<lambda>w. ledger_total (w_db w)"
  "\<lambda>w. accounts_unique (w_db w)"
proof unfold_locales
  fix org n why w b w'
  assume "cr_TryDeduct pg_credits org n why w = (Inr (True, b), w')" "accounts_unique (w_db w)" "0 < n" "n < 2 ^ 31"
  then show "n \<le> balance_of (w_db w) org
    \<and> balance_of (w_db w') = (balance_of (w_db w))(org := balance_of (w_db w) org - n)
    \<and> ledger_total (w_db w') = (ledger_total (w_db w))(org := ledger_total (w_db w) org - n)
    \<and> b = balance_of (w_db w') org"
    using wpD [OF wp_pg_TryDeduct] by (fastforce simp: pg_credits_def)
next
  fix org n why w b w'
  assume "cr_TryDeduct pg_credits org n why w = (Inr (False, b), w')" "accounts_unique (w_db w)" "0 < n" "n < 2 ^ 31"
  then show "balance_of (w_db w) org < n \<and> balance_of (w_db w') = balance_of (w_db w)
    \<and> ledger_total (w_db w') = ledger_total (w_db w)"
    using wpD [OF wp_pg_TryDeduct] by (fastforce simp: pg_credits_def)
next
  fix org n why w b w'
  assume "cr_Grant pg_credits org n why w = (Inr b, w')" "accounts_unique (w_db w)" "0 < n" "n < 2 ^ 31"
  then show "balance_of (w_db w') = (balance_of (w_db w))(org := balance_of (w_db w) org + n)
    \<and> ledger_total (w_db w') = (ledger_total (w_db w))(org := ledger_total (w_db w) org + n)
    \<and> b = balance_of (w_db w') org"
    using wpD [OF wp_pg_Grant] by (fastforce simp: pg_credits_def)
qed (use accounts_unique_TryDeduct [THEN db_keeps_keeps] accounts_unique_Grant [THEN db_keeps_keeps]
    pg_TryDeduct_error pg_Grant_error in \<open>simp_all add: pg_credits_def\<close>)

lemma balanced_audited: "pgc.balanced w \<longleftrightarrow> audited (w_db w)"
  by (simp add: pgc.balanced_def audited_def)

section \<open>Properties\<close>

datatype credit_op = Deduct OrgID int string | GrantTo OrgID int string

fun run_credit_op :: "credit_op \<Rightarrow> world \<Rightarrow> world" where
  "run_credit_op (Deduct org n why) w = snd (pg_TryDeduct org n why w)"
| "run_credit_op (GrantTo org n why) w = snd (pg_Grant org n why w)"

fun op_amount :: "credit_op \<Rightarrow> int" where
  "op_amount (Deduct org n why) = n"
| "op_amount (GrantTo org n why) = n"

lemma audited_step:
  assumes "audited (w_db w)" "0 < op_amount c" "op_amount c < 2 ^ 31"
  shows "audited (w_db (run_credit_op c w))"
proof (cases c)
  case (Deduct org n why)
  obtain r w' where "pg_TryDeduct org n why w = (r, w')" by force
  with Deduct assms pgc.balanced_deduct [unfolded balanced_audited, of w n org why r w']
  show ?thesis by (simp add: pg_credits_def)
next
  case (GrantTo org n why)
  obtain r w' where "pg_Grant org n why w = (r, w')" by force
  with GrantTo assms pgc.balanced_grant [unfolded balanced_audited, of w n org why r w']
  show ?thesis by (simp add: pg_credits_def)
qed

text \<open>
  Property C6: the ledger audits the balance. Whatever sequence of deductions and grants of
  positive amounts is run, and whatever round trips to the database fail on the way, every
  org keeps one account, a balance equal to the sum of its ledger entries, and a balance
  that is never negative.
\<close>

theorem credits_stay_audited:
  assumes "audited (w_db w)" and "\<forall>c \<in> set cs. 0 < op_amount c \<and> op_amount c < 2 ^ 31"
  shows "audited (w_db (fold run_credit_op cs w))"
  using assms by (induction cs arbitrary: w) (simp_all add: audited_step)

theorem credits_stay_audited_witness:
  "audited (w_db (fold run_credit_op [GrantTo ''org_1'' 20 ''seed'', Deduct ''org_1'' 6 ''call'']
     (init_world\<lparr>w_sched := [(False, 5), (True, 1)]\<rparr>)))"
proof -
  have "audited (w_db (init_world\<lparr>w_sched := [(False, 5), (True, 1)]\<rparr>))"
    by (simp add: audited_def credit_view_defs)
  then show ?thesis by (rule credits_stay_audited) simp
qed

text \<open>
  What one deduction does, on every outcome. It succeeds exactly by taking the
  amount from a sufficient balance and booking the same amount in the ledger; it is refused
  only when the balance is too small, and a refusal or any error leaves every table as it
  was.
\<close>

theorem TryDeduct_outcomes:
  assumes "accounts_unique (w_db w)" and "0 < n" and "n < 2 ^ 31"
    and "pg_TryDeduct org n why w = (r, w')"
  shows "case r of
      Inl e \<Rightarrow> w_db w' = w_db w
    | Inr (ok, b) \<Rightarrow> if ok
        then n \<le> balance_of (w_db w) org
          \<and> balance_of (w_db w') = (balance_of (w_db w))(org := balance_of (w_db w) org - n)
          \<and> ledger_total (w_db w') = (ledger_total (w_db w))(org := ledger_total (w_db w) org - n)
          \<and> b = balance_of (w_db w) org - n \<and> accounts_unique (w_db w')
        else balance_of (w_db w) org < n \<and> w_db w' = w_db w"
  using wpD [OF wp_pg_TryDeduct [OF assms(1-3)] assms(4)] .

theorem TryDeduct_outcomes_witness:
  "balance_of (w_db (snd (pg_TryDeduct ''o'' 5 ''call''
     (init_world\<lparr>w_db := empty_db\<lparr>org_credits := [\<lparr>oc_org_id = ''o'', oc_balance = 7\<rparr>]\<rparr>\<rparr>)))) ''o'' = 2"
proof -
  let ?w = "init_world\<lparr>w_db := empty_db\<lparr>org_credits := [\<lparr>oc_org_id = ''o'', oc_balance = 7\<rparr>]\<rparr>\<rparr>"
  have u: "accounts_unique (w_db ?w)" by (simp add: accounts_unique_def)
  obtain r w' where run: "pg_TryDeduct ''o'' 5 ''call'' ?w = (r, w')" by force
  then have r: "r = Inr (True, 2)"
    by (simp add: pg_TryDeduct_def with_tx_def attempt_def bnd_def ret_def draw_eq
        gen_TryDeductBalance_def gen_AddLedger_def db_exec_quiet go_int32_amount in_int32_def)
  show ?thesis
    using TryDeduct_outcomes [OF u _ _ run] r run by (simp add: balance_of_def)
qed

end
