(* ===== verification/Yaver_Billing.thy ===== *)
theory Yaver_Billing
  imports Yaver_Credits
begin

text \<open>
  Top-ups: the payments repository (\<open>postgres/payments.go\<close>), the two gateways
  (\<open>payment/mock\<close>, \<open>payment/sslcommerz\<close>) and the billing service
  (\<open>service/billing\<close>), with the argument that a payment is credited at most once,
  also when several gateway callbacks are handled at the same time.
\<close>

section \<open>Payments (postgres/payments.go)\<close>

definition pay_key :: "string \<Rightarrow> string \<Rightarrow> PaymentRow \<Rightarrow> bool" where
  "pay_key provider ref r \<longleftrightarrow> pm_provider r = provider \<and> pm_provider_ref r = ref"

definition pg_pay_Create :: "Payment \<Rightarrow> unit wop" where
  "pg_pay_Create p = db_exec (\<lambda>t d.
     if \<not> in_int32 (py_Credits p) \<or> \<not> in_int32 (py_AmountBDT p) then Inl ErrOutOfRange
     else if List.find (\<lambda>r. pm_id r = py_ID p) (payments d) \<noteq> None
        \<or> List.find (pay_key (py_Provider p) (py_ProviderRef p)) (payments d) \<noteq> None
     then Inl ErrUniqueViolation
     else Inr ((), d\<lparr>payments := payments d @ [\<lparr>pm_id = py_ID p, pm_org_id = py_OrgID p,
       pm_provider = py_Provider p, pm_provider_ref = py_ProviderRef p, pm_credits = py_Credits p,
       pm_amount_bdt = py_AmountBDT p, pm_status = PaymentPending, pm_created_at = t,
       pm_settled_at = None\<rparr>]\<rparr>))"

definition payment_of :: "PaymentRow \<Rightarrow> PaymentStatus \<Rightarrow> Payment" where
  "payment_of r status = \<lparr>py_ID = pm_id r, py_OrgID = pm_org_id r, py_Provider = pm_provider r,
     py_ProviderRef = pm_provider_ref r, py_Credits = pm_credits r, py_AmountBDT = pm_amount_bdt r,
     py_Status = status, py_CreatedAt = zero_time\<rparr>"

definition settle_update :: "string \<Rightarrow> string \<Rightarrow> PaymentStatus \<Rightarrow> PaymentRow wop" where
  "settle_update provider ref status = db_exec (\<lambda>t d.
     case List.find (\<lambda>r. pay_key provider ref r \<and> pm_status r = PaymentPending) (payments d) of
       None \<Rightarrow> Inl ErrNoRows
     | Some r \<Rightarrow> Inr (r, d\<lparr>payments := upd_where
         (\<lambda>r. pay_key provider ref r \<and> pm_status r = PaymentPending)
         (\<lambda>r. r\<lparr>pm_status := status, pm_settled_at := Some t\<rparr>) (payments d)\<rparr>))"

definition settle_select :: "string \<Rightarrow> string \<Rightarrow> PaymentRow wop" where
  "settle_select provider ref = db_read (\<lambda>t d.
     case List.find (pay_key provider ref) (payments d) of None \<Rightarrow> Inl ErrNoRows | Some r \<Rightarrow> Inr r)"

definition pg_pay_Settle :: "string \<Rightarrow> string \<Rightarrow> PaymentStatus \<Rightarrow> (Payment \<times> bool) wop" where
  "pg_pay_Settle provider ref status =
     attempt (settle_update provider ref status) (\<lambda>u. case u of
       Inr r \<Rightarrow> ret (payment_of r status, True)
     | Inl e \<Rightarrow>
         if e \<noteq> ErrNoRows then fail e
         else attempt (settle_select provider ref) (\<lambda>q. case q of
             Inl e' \<Rightarrow> if e' = ErrNoRows then fail ErrNotFound else fail e'
           | Inr r \<Rightarrow> ret (payment_of r (pm_status r), False)))"

definition pg_payments :: PaymentRepo where
  "pg_payments = \<lparr>pay_Create = pg_pay_Create, pay_Settle = pg_pay_Settle\<rparr>"

section \<open>Gateways (payment/mock, payment/sslcommerz)\<close>

text \<open>
  A posted form is a map; \<open>form[k]\<close> of a missing key is the empty string. \<open>query_escape\<close>
  is \<open>url.QueryEscape\<close> on the bytes of the argument.
\<close>

definition form_get :: "(string \<rightharpoonup> string) \<Rightarrow> string \<Rightarrow> string" where
  "form_get form k = deref (form k)"

definition hex_upper :: "nat \<Rightarrow> char" where
  "hex_upper n = (if n < 10 then char_of (48 + n) else char_of (55 + n))"

definition unreserved :: "char \<Rightarrow> bool" where
  "unreserved c \<longleftrightarrow> (let n = of_char c :: nat in
     48 \<le> n \<and> n \<le> 57 \<or> 65 \<le> n \<and> n \<le> 90 \<or> 97 \<le> n \<and> n \<le> 122 \<or> c \<in> {CHR ''-'', CHR ''_'', CHR ''.'', CHR ''~''})"

definition query_escape :: "string \<Rightarrow> string" where
  "query_escape s = concat (map (\<lambda>c. if unreserved c then [c] else if c = CHR '' '' then ''+''
     else let n = of_char c :: nat in [CHR ''%'', hex_upper (n div 16), hex_upper (n mod 16)]) s)"

definition mock_Checkout :: "string \<Rightarrow> PaymentRequest \<Rightarrow> PaymentCheckout wop" where
  "mock_Checkout appURL req = ret \<lparr>pk_ProviderRef = pq_PaymentID req,
     pk_RedirectURL = appURL @ ''/v1/dev/pay?ref='' @ query_escape (pq_PaymentID req)\<rparr>"

definition mock_VerifyIPN :: "(string \<rightharpoonup> string) \<Rightarrow> (PaymentResult \<times> bool) wop" where
  "mock_VerifyIPN form = ret (\<lparr>ps_ProviderRef = form_get form ''tran_id'',
     ps_Status = if form_get form ''status'' = ''failed'' then PaymentFailed else PaymentPaid\<rparr>, True)"

definition mock_gateway :: "string \<Rightarrow> PaymentGateway" where
  "mock_gateway appURL = \<lparr>gw_Name = ''mock'', gw_Checkout = mock_Checkout appURL,
     gw_VerifyIPN = mock_VerifyIPN\<rparr>"

text \<open>
  SSLCommerz itself is a remote service. Its two endpoints are operations: given the URL and
  the form (or query) fields, the transport or decoding error, or the decoded reply.
\<close>

record SslSession =
  sn_Status :: string
  sn_FailedReason :: string
  sn_GatewayPageURL :: string

record SslValidation =
  sv_Status :: string
  sv_TranID :: string

record SslApi =
  sl_Session :: "string \<Rightarrow> (string \<times> string) list \<Rightarrow> SslSession wop"
  sl_Validate :: "string \<Rightarrow> (string \<times> string) list \<Rightarrow> SslValidation wop"

record SslGateway =
  sg_storeID :: string
  sg_storePass :: string
  sg_base :: string
  sg_appURL :: string
  sg_http :: SslApi

definition ssl_New :: "SslApi \<Rightarrow> string \<Rightarrow> string \<Rightarrow> string \<Rightarrow> bool \<Rightarrow> SslGateway" where
  "ssl_New http storeID storePass appURL sandbox = \<lparr>sg_storeID = storeID, sg_storePass = storePass,
     sg_base = (if sandbox then ''https://sandbox.sslcommerz.com'' else ''https://securepay.sslcommerz.com''),
     sg_appURL = appURL, sg_http = http\<rparr>"

definition ssl_Checkout :: "SslGateway \<Rightarrow> PaymentRequest \<Rightarrow> PaymentCheckout wop" where
  "ssl_Checkout g req =
     (let form = [(''store_id'', sg_storeID g), (''store_passwd'', sg_storePass g),
        (''total_amount'', go_itoa (pq_AmountBDT req)), (''currency'', ''BDT''),
        (''tran_id'', pq_PaymentID req),
        (''success_url'', sg_appURL g @ ''/billing/return''), (''fail_url'', sg_appURL g @ ''/billing/return''),
        (''cancel_url'', sg_appURL g @ ''/billing/return''), (''ipn_url'', sg_appURL g @ ''/webhooks/payment''),
        (''shipping_method'', ''NO''), (''num_of_item'', ''1''),
        (''product_name'', go_itoa (pq_Credits req) @ '' Yaver credits''),
        (''product_category'', ''credits''), (''product_profile'', ''non-physical-goods''),
        (''cus_name'', ''Yaver merchant''), (''cus_email'', ''billing@yaver.app''), (''cus_add1'', ''N/A''),
        (''cus_city'', ''Dhaka''), (''cus_country'', ''Bangladesh''), (''cus_phone'', ''0000000000'')]
      in bnd (sl_Session (sg_http g) (sg_base g @ ''/gwprocess/v4/api.php'') form) (\<lambda>out.
         if sn_Status out \<noteq> ''SUCCESS'' \<or> sn_GatewayPageURL out = []
         then fail (ErrOther (''sslcommerz session failed: '' @ sn_FailedReason out))
         else ret \<lparr>pk_ProviderRef = pq_PaymentID req, pk_RedirectURL = sn_GatewayPageURL out\<rparr>))"

definition ssl_VerifyIPN :: "SslGateway \<Rightarrow> (string \<rightharpoonup> string) \<Rightarrow> (PaymentResult \<times> bool) wop" where
  "ssl_VerifyIPN g form =
     (let valID = form_get form ''val_id''; tranID = form_get form ''tran_id'';
          none = \<lparr>ps_ProviderRef = [], ps_Status = []\<rparr>
      in if valID = [] \<or> tranID = [] then ret (none, False)
         else bnd (sl_Validate (sg_http g) (sg_base g @ ''/validator/api/validationserverAPI.php'')
             [(''val_id'', valID), (''store_id'', sg_storeID g), (''store_passwd'', sg_storePass g),
              (''format'', ''json'')]) (\<lambda>out.
           if sv_TranID out \<noteq> tranID then ret (none, False)
           else if sv_Status out = ''VALID'' \<or> sv_Status out = ''VALIDATED''
           then ret (\<lparr>ps_ProviderRef = tranID, ps_Status = PaymentPaid\<rparr>, True)
           else ret (\<lparr>ps_ProviderRef = tranID, ps_Status = PaymentFailed\<rparr>, True)))"

definition ssl_gateway :: "SslGateway \<Rightarrow> PaymentGateway" where
  "ssl_gateway g = \<lparr>gw_Name = ''sslcommerz'', gw_Checkout = ssl_Checkout g, gw_VerifyIPN = ssl_VerifyIPN g\<rparr>"

section \<open>The billing service (service/billing)\<close>

record BillingService =
  bs_credits :: CreditRepo
  bs_payments :: PaymentRepo
  bs_gateway :: PaymentGateway

abbreviation bdtPerCredit :: int where "bdtPerCredit \<equiv> 1"

definition billing_Balance :: "BillingService \<Rightarrow> OrgID \<Rightarrow> int wop" where
  "billing_Balance s org = cr_Balance (bs_credits s) org"

definition billing_Ledger :: "BillingService \<Rightarrow> OrgID \<Rightarrow> int \<Rightarrow> CreditEntry list wop" where
  "billing_Ledger s org limit =
     cr_Ledger (bs_credits s) org (if limit \<le> 0 \<or> limit > 100 then 20 else limit)"

definition billing_TopUp :: "BillingService \<Rightarrow> OrgID \<Rightarrow> int \<Rightarrow> int wop" where
  "billing_TopUp s org amount =
     cr_Grant (bs_credits s) org (if amount \<le> 0 \<or> amount > 100000 then 100 else amount) ''topup''"

definition clamp_credits :: "int \<Rightarrow> int" where
  "clamp_credits c = (if c \<le> 0 then 100 else if c > 100000 then 100000 else c)"

definition billing_Checkout :: "BillingService \<Rightarrow> OrgID \<Rightarrow> int \<Rightarrow> string wop" where
  "billing_Checkout s org credits0 =
     (let credits = clamp_credits credits0; amount = credits * bdtPerCredit in
      bnd (draw (id_New ''pay'')) (\<lambda>pid.
      bnd (pay_Create (bs_payments s) \<lparr>py_ID = pid, py_OrgID = org, py_Provider = gw_Name (bs_gateway s),
             py_ProviderRef = pid, py_Credits = credits, py_AmountBDT = amount,
             py_Status = PaymentPending, py_CreatedAt = zero_time\<rparr>) (\<lambda>_.
      bnd (gw_Checkout (bs_gateway s) \<lparr>pq_OrgID = org, pq_PaymentID = pid, pq_Credits = credits,
             pq_AmountBDT = amount\<rparr>) (\<lambda>checkout.
      ret (pk_RedirectURL checkout)))))"

definition billing_SettlePayment :: "BillingService \<Rightarrow> (string \<rightharpoonup> string) \<Rightarrow> unit wop" where
  "billing_SettlePayment s form =
     bnd (gw_VerifyIPN (bs_gateway s) form) (\<lambda>(res, ok).
     if \<not> ok then ret ()
     else attempt (pay_Settle (bs_payments s) (gw_Name (bs_gateway s)) (ps_ProviderRef res) (ps_Status res))
       (\<lambda>q. case q of
          Inl e \<Rightarrow> if e = ErrNotFound then ret () else fail e
        | Inr (p, transitioned) \<Rightarrow>
            if transitioned \<and> ps_Status res = PaymentPaid
            then bnd (cr_Grant (bs_credits s) (py_OrgID p) (py_Credits p) ''topup'') (\<lambda>_. ret ())
            else ret ()))"

text \<open>The service as \<open>main.go\<close> wires it.\<close>

definition billing_service :: "PaymentGateway \<Rightarrow> BillingService" where
  "billing_service gw = \<lparr>bs_credits = pg_credits, bs_payments = pg_payments, bs_gateway = gw\<rparr>"

lemma billing_service_simps [simp]:
  "bs_credits (billing_service gw) = pg_credits" "bs_payments (billing_service gw) = pg_payments"
  "bs_gateway (billing_service gw) = gw" "pay_Create pg_payments = pg_pay_Create"
  "pay_Settle pg_payments = pg_pay_Settle" "cr_Grant pg_credits = pg_Grant"
  "cr_TryDeduct pg_credits = pg_TryDeduct"
  by (simp_all add: billing_service_def pg_payments_def pg_credits_def)

section \<open>What a payment is worth\<close>

text \<open>
  Credits of the payments an org has paid, and credits booked in its ledger as top-ups.
  \<open>payments_ok\<close> holds of every table \<open>Checkout\<close> and \<open>SettlePayment\<close> produce.
\<close>

definition paid_total :: "database \<Rightarrow> OrgID \<Rightarrow> int" where
  "paid_total d org = sum_list (map pm_credits
     (filter (\<lambda>r. pm_org_id r = org \<and> pm_status r = PaymentPaid) (payments d)))"

definition topup_total :: "database \<Rightarrow> OrgID \<Rightarrow> int" where
  "topup_total d org = sum_list (map lg_delta
     (filter (\<lambda>r. lg_org_id r = org \<and> lg_reason r = ''topup'') (credit_ledger d)))"

definition payments_ok :: "database \<Rightarrow> bool" where
  "payments_ok d \<longleftrightarrow> distinct (map (\<lambda>r. (pm_provider r, pm_provider_ref r)) (payments d)) \<and>
     (\<forall>r \<in> set (payments d). 0 < pm_credits r \<and> pm_credits r \<le> 100000)"

lemma payment_views_frame [simp]:
  "paid_total (d\<lparr>org_credits := x\<rparr>) = paid_total d" "paid_total (d\<lparr>credit_ledger := y\<rparr>) = paid_total d"
  "payments_ok (d\<lparr>org_credits := x\<rparr>) = payments_ok d" "payments_ok (d\<lparr>credit_ledger := y\<rparr>) = payments_ok d"
  "topup_total (d\<lparr>payments := z\<rparr>) = topup_total d" "topup_total (d\<lparr>org_credits := x\<rparr>) = topup_total d"
  by (simp_all add: fun_eq_iff paid_total_def payments_ok_def topup_total_def)

lemma ledger_added_views:
  assumes "ledger_added d d' org n why"
  shows "paid_total d' = paid_total d" "payments_ok d' = payments_ok d" "payments d' = payments d"
    "topup_total d' = (if why = ''topup'' then (topup_total d)(org := topup_total d org + n) else topup_total d)"
  using assms by (auto simp: ledger_added_def topup_total_def fun_eq_iff)

text \<open>The pending-to-terminal transition, exactly once per payment.\<close>

lemma settle_rows:
  assumes ok: "payments_ok d"
    and fnd: "List.find (\<lambda>r. pay_key provider ref r \<and> pm_status r = PaymentPending) (payments d) = Some r"
    and d'_def: "d' = d\<lparr>payments := upd_where (\<lambda>r. pay_key provider ref r \<and> pm_status r = PaymentPending)
      (\<lambda>r. r\<lparr>pm_status := status, pm_settled_at := Some t\<rparr>) (payments d)\<rparr>"
  shows "payments_ok d'" "0 < pm_credits r" "pm_credits r \<le> 100000"
    "paid_total d' = (if status = PaymentPaid
       then (paid_total d)(pm_org_id r := paid_total d (pm_org_id r) + pm_credits r) else paid_total d)"
proof -
  from find_SomeD [OF fnd] have r: "pay_key provider ref r" "pm_status r = PaymentPending" "r \<in> set (payments d)"
    by auto
  show "0 < pm_credits r" "pm_credits r \<le> 100000" using ok r(3) by (auto simp: payments_ok_def)
  show "payments_ok d'"
    using ok unfolding payments_ok_def d'_def
    by (auto simp: map_key_upd_where dest!: set_upd_where split: if_splits)
  obtain xs ys where "payments d = xs @ r # ys" "payments d' = xs @ r\<lparr>pm_status := status, pm_settled_at := Some t\<rparr> # ys"
    using upd_where_unique [OF fnd, of "\<lambda>r. (pm_provider r, pm_provider_ref r)"
        "\<lambda>r. r\<lparr>pm_status := status, pm_settled_at := Some t\<rparr>"] ok r(1)
    by (auto simp: payments_ok_def d'_def pay_key_def)
  with r(2) show "paid_total d' = (if status = PaymentPaid
       then (paid_total d)(pm_org_id r := paid_total d (pm_org_id r) + pm_credits r) else paid_total d)"
    by (auto simp: paid_total_def fun_eq_iff)
qed

lemma wp_pg_pay_Settle:
  assumes "payments_ok (w_db w)"
  shows "wp (pg_pay_Settle provider ref status) (\<lambda>r w'. case r of
      Inr (p, True) \<Rightarrow> payments_ok (w_db w') \<and> 0 < py_Credits p \<and> py_Credits p \<le> 100000
        \<and> topup_total (w_db w') = topup_total (w_db w)
        \<and> paid_total (w_db w') = (if status = PaymentPaid
             then (paid_total (w_db w))(py_OrgID p := paid_total (w_db w) (py_OrgID p) + py_Credits p)
             else paid_total (w_db w))
    | _ \<Rightarrow> w_db w' = w_db w) w"
proof -
  have upd: "wp (settle_update provider ref status) (\<lambda>r w'. case r of
      Inl e \<Rightarrow> w_db w' = w_db w
    | Inr row \<Rightarrow> payments_ok (w_db w') \<and> 0 < pm_credits row \<and> pm_credits row \<le> 100000
        \<and> topup_total (w_db w') = topup_total (w_db w)
        \<and> paid_total (w_db w') = (if status = PaymentPaid
             then (paid_total (w_db w))(pm_org_id row := paid_total (w_db w) (pm_org_id row) + pm_credits row)
             else paid_total (w_db w))) w"
    unfolding settle_update_def
    by (rule wp_db_exec) (use settle_rows [OF assms _ refl] in \<open>auto split: option.splits\<close>)
  have sel: "wp (settle_select provider ref) (\<lambda>r w'. w_db w' = v) w1" if "w_db w1 = v" for v w1
    unfolding settle_select_def by (rule wp_db_read) (use that in auto)
  show ?thesis unfolding pg_pay_Settle_def
  proof (rule wp_attempt [OF upd], goal_cases)
    case (1 u w1)
    show ?case
    proof (cases u)
      case (Inr row)
      with 1 show ?thesis by (simp add: payment_of_def)
    next
      case (Inl e)
      with 1 show ?thesis
        by (auto simp: wp_case_simps intro!: wp_attempt [OF sel] split: sum.splits)
    qed
  qed
qed

lemma wp_pg_pay_Create:
  assumes "payments_ok (w_db w)" and "0 < py_Credits p" and "py_Credits p \<le> 100000"
  shows "wp (pg_pay_Create p) (\<lambda>r w'. payments_ok (w_db w') \<and> paid_total (w_db w') = paid_total (w_db w)
     \<and> topup_total (w_db w') = topup_total (w_db w)) w"
  unfolding pg_pay_Create_def
  by (rule wp_db_exec)
     (use assms in \<open>auto simp: payments_ok_def paid_total_def find_None_iff pay_key_def fun_eq_iff\<close>)

section \<open>What the service needs of a gateway\<close>

text \<open>A gateway talks to the outside; it does not touch the tables.\<close>

locale payment_gateway =
  fixes gw :: PaymentGateway
  assumes verify_db: "mrel (dbrel (\<lambda>d d'. d' = d)) (gw_VerifyIPN gw form)"
    and checkout_db: "mrel (dbrel (\<lambda>d d'. d' = d)) (gw_Checkout gw req)"
begin

lemma wp_verify: "wp (gw_VerifyIPN gw form) (\<lambda>r w'. w_db w' = w_db w) w"
  using wp_mrel [OF verify_db] by (simp add: dbrel_def)

lemma wp_checkout: "wp (gw_Checkout gw req) (\<lambda>r w'. w_db w' = w_db w) w"
  using wp_mrel [OF checkout_db] by (simp add: dbrel_def)

lemma checkout_keeps:
  assumes "payments_ok (w_db w)"
  shows "wp (billing_Checkout (billing_service gw) org c) (\<lambda>r w'. payments_ok (w_db w')
    \<and> paid_total (w_db w') = paid_total (w_db w) \<and> topup_total (w_db w') = topup_total (w_db w)) w"
proof -
  have create: "wp (pay_Create (bs_payments (billing_service gw)) p) (\<lambda>r w'. payments_ok (w_db w')
      \<and> paid_total (w_db w') = paid_total (w_db w) \<and> topup_total (w_db w') = topup_total (w_db w)) v"
    if "w_db v = w_db w" "0 < py_Credits p" "py_Credits p \<le> 100000" for p v
    using wp_pg_pay_Create [of v p] that assms by (simp add: billing_service_def pg_payments_def)
  have pos: "0 < clamp_credits c" "clamp_credits c \<le> 100000" by (simp_all add: clamp_credits_def)
  show ?thesis unfolding billing_Checkout_def Let_def wp_bnd_simps
    by (rule wp_bnd [OF create])
       (auto simp: pos billing_service_def intro!: wp_bnd [OF wp_checkout])
qed

end

interpretation mockgw: payment_gateway "mock_gateway appURL" for appURL
  by unfold_locales (auto simp: mock_gateway_def mock_VerifyIPN_def mock_Checkout_def intro!: mrel_ret)

lemma ssl_gateway_frame:
  assumes "\<And>url f. mrel (dbrel (\<lambda>d d'. d' = d)) (sl_Session (sg_http g) url f)"
    and "\<And>url f. mrel (dbrel (\<lambda>d d'. d' = d)) (sl_Validate (sg_http g) url f)"
  shows "payment_gateway (ssl_gateway g)"
  by unfold_locales
     (auto simp: ssl_gateway_def ssl_VerifyIPN_def ssl_Checkout_def Let_def intro!: mrel_intros assms)

section \<open>Callbacks handled at the same time\<close>

text \<open>
  A callback in progress is at one of \<open>SettlePayment\<close>'s three port calls, or done. Each
  port call is atomic (one statement or one transaction); callbacks interleave freely at
  these points, new ones arrive and new checkouts are opened at any time.
\<close>

datatype ipn_pc =
    AtVerify "string \<rightharpoonup> string"
  | AtSettle PaymentResult
  | AtGrant Payment
  | Finished "go_error + unit"
  | GrantFailed Payment go_error

fun ipn_next :: "BillingService \<Rightarrow> ipn_pc \<Rightarrow> world \<Rightarrow> ipn_pc \<times> world" where
  "ipn_next s (AtVerify form) w = (case gw_VerifyIPN (bs_gateway s) form w of
     (Inl e, w') \<Rightarrow> (Finished (Inl e), w')
   | (Inr (res, ok), w') \<Rightarrow> (if ok then AtSettle res else Finished (Inr ()), w'))"
| "ipn_next s (AtSettle res) w =
     (case pay_Settle (bs_payments s) (gw_Name (bs_gateway s)) (ps_ProviderRef res) (ps_Status res) w of
       (Inl e, w') \<Rightarrow> (Finished (if e = ErrNotFound then Inr () else Inl e), w')
     | (Inr (p, transitioned), w') \<Rightarrow>
         (if transitioned \<and> ps_Status res = PaymentPaid then AtGrant p else Finished (Inr ()), w'))"
| "ipn_next s (AtGrant p) w =
     (case cr_Grant (bs_credits s) (py_OrgID p) (py_Credits p) ''topup'' w of
       (Inl e, w') \<Rightarrow> (GrantFailed p e, w') | (Inr _, w') \<Rightarrow> (Finished (Inr ()), w'))"
| "ipn_next s (Finished r) w = (Finished r, w)"
| "ipn_next s (GrantFailed p e) w = (GrantFailed p e, w)"

inductive ipn_steps :: "BillingService \<Rightarrow> world \<times> ipn_pc list \<Rightarrow> world \<times> ipn_pc list \<Rightarrow> bool" for s where
  start: "ipn_steps s c c"
| arrive: "ipn_steps s c (w, ts) \<Longrightarrow> ipn_steps s c (w, ts @ [AtVerify form])"
| advance: "ipn_steps s c (w, ts) \<Longrightarrow> i < length ts \<Longrightarrow> ipn_next s (ts ! i) w = (pc, w') \<Longrightarrow>
     ipn_steps s c (w', ts[i := pc])"
| checkout: "ipn_steps s c (w, ts) \<Longrightarrow> billing_Checkout s org n w = (r, w') \<Longrightarrow> ipn_steps s c (w', ts)"

text \<open>Credits a callback still owes or has lost, for the accounting below.\<close>

fun owes :: "OrgID \<Rightarrow> ipn_pc \<Rightarrow> int" where
  "owes org (AtGrant p) = (if py_OrgID p = org then py_Credits p else 0)"
| "owes org (GrantFailed p e) = (if py_OrgID p = org then py_Credits p else 0)"
| "owes org pc = 0"

fun pc_ok :: "ipn_pc \<Rightarrow> bool" where
  "pc_ok (AtGrant p) = (0 < py_Credits p \<and> py_Credits p \<le> 100000)"
| "pc_ok pc = True"

definition owed :: "ipn_pc list \<Rightarrow> OrgID \<Rightarrow> int" where
  "owed ts org = sum_list (map (owes org) ts)"

definition settle_inv :: "world \<times> ipn_pc list \<Rightarrow> bool" where
  "settle_inv = (\<lambda>(w, ts). payments_ok (w_db w) \<and> (\<forall>pc \<in> set ts. pc_ok pc) \<and>
     (\<forall>org. topup_total (w_db w) org + owed ts org = paid_total (w_db w) org))"

lemma sum_list_update:
  "i < length xs \<Longrightarrow> sum_list (map f (xs[i := y])) = sum_list (map f xs) - f (xs ! i) + (f y :: int)"
  by (induction xs arbitrary: i) (auto split: nat.splits)

context payment_gateway begin

lemma settle_inv_next:
  assumes inv: "settle_inv (w, ts)" and i: "i < length ts"
    and nxt: "ipn_next (billing_service gw) (ts ! i) w = (pc, w')"
  shows "settle_inv (w', ts[i := pc])"
proof -
  from inv have P: "payments_ok (w_db w)" and ok: "\<forall>pc \<in> set ts. pc_ok pc"
    and acc: "\<And>org. topup_total (w_db w) org + owed ts org = paid_total (w_db w) org"
    by (auto simp: settle_inv_def)
  have oki: "pc_ok (ts ! i)" using ok i by simp
  have step: "payments_ok (w_db w') \<and> pc_ok pc \<and>
     (\<forall>org. topup_total (w_db w') org - topup_total (w_db w) org + owes org pc - owes org (ts ! i)
        = paid_total (w_db w') org - paid_total (w_db w) org)"
  proof (cases "ts ! i")
    case (AtVerify form)
    with nxt P wpD [OF wp_verify] show ?thesis by (auto split: prod.splits sum.splits if_splits)
  next
    case (AtSettle res)
    with nxt wpD [OF wp_pg_pay_Settle [OF P]] P show ?thesis
      by (fastforce simp: billing_service_def pg_payments_def split: prod.splits sum.splits if_splits bool.splits)
  next
    case (AtGrant p)
    then have p: "go_int32 (py_Credits p) = py_Credits p" using oki by (simp add: go_int32_id in_int32_def)
    obtain r v where g: "pg_Grant (py_OrgID p) (py_Credits p) ''topup'' w = (r, v)" by force
    show ?thesis
      using nxt AtGrant g P wpD [OF wp_pg_Grant_rows g] ledger_added_views [of "w_db w" "w_db w'"]
      by (auto simp: billing_service_def pg_credits_def p split: sum.splits)
  qed (use nxt P oki in auto)
  have owe: "owed (ts[i := pc]) org = owed ts org - owes org (ts ! i) + owes org pc" for org
    using sum_list_update [OF i, of "owes org"] by (simp add: owed_def)
  have "topup_total (w_db w') org + owed (ts[i := pc]) org = paid_total (w_db w') org" for org
    using step [THEN conjunct2, THEN conjunct2, THEN spec, of org] acc [of org] owe [of org] by linarith
  moreover have "\<forall>q \<in> set (ts[i := pc]). pc_ok q"
    using step ok set_update_subset_insert [of ts i pc] by blast
  ultimately show ?thesis using step by (simp add: settle_inv_def)
qed

lemma settle_inv_reachable:
  assumes "ipn_steps (billing_service gw) c c'" and "settle_inv c"
  shows "settle_inv c'"
  using assms
proof (induction rule: ipn_steps.induct)
  case (arrive c w ts form)
  then show ?case by (auto simp: settle_inv_def owed_def)
next
  case (advance c w ts i pc w')
  then show ?case using settle_inv_next by blast
next
  case (checkout c w ts org n r w')
  then have "payments_ok (w_db w)" by (simp add: settle_inv_def)
  from wpD [OF checkout_keeps [OF this] checkout.hyps(2)] checkout show ?case by (simp add: settle_inv_def)
qed

end

section \<open>Properties\<close>

text \<open>
  Property C7: exact accounting of top-ups under concurrent callbacks. However gateway
  callbacks interleave, are replayed or fail half way, and however many checkouts are
  opened meanwhile, the credits booked as top-ups, plus those of callbacks about to grant
  or whose grant failed, are exactly the credits of the payments marked paid. In
  particular no payment is ever credited twice.
\<close>

theorem topups_accounted:
  assumes "payment_gateway gw" and "ipn_steps (billing_service gw) (w0, []) (w, ts)"
    and "payments_ok (w_db w0)" and "\<forall>org. topup_total (w_db w0) org = paid_total (w_db w0) org"
  shows "topup_total (w_db w) org + owed ts org = paid_total (w_db w) org"
  using payment_gateway.settle_inv_reachable [OF assms(1,2)] assms(3,4)
  by (simp add: settle_inv_def owed_def)

theorem topups_accounted_witness:
  "topup_total empty_db ''o'' + owed [AtVerify Map.empty] ''o'' = paid_total empty_db ''o''"
proof -
  have st: "ipn_steps (billing_service (mock_gateway ''http://x'')) (init_world, []) (init_world, [] @ [AtVerify Map.empty])"
    by (intro ipn_steps.arrive ipn_steps.start)
  have "payments_ok (w_db init_world)" "\<forall>org. topup_total (w_db init_world) org = paid_total (w_db init_world) org"
    by (simp_all add: payments_ok_def topup_total_def paid_total_def)
  from topups_accounted [OF mockgw.payment_gateway_axioms st this] show ?thesis by simp
qed

definition pc_result :: "ipn_pc \<Rightarrow> go_error + unit" where
  "pc_result pc = (case pc of Finished r \<Rightarrow> r | GrantFailed p e \<Rightarrow> Inl e | _ \<Rightarrow> Inr ())"


definition settled :: "string \<Rightarrow> string \<Rightarrow> database \<Rightarrow> bool" where
  "settled provider ref d \<longleftrightarrow>
     (\<forall>row \<in> set (payments d). pay_key provider ref row \<longrightarrow> pm_status row \<noteq> PaymentPending)"

lemma wp_settle_select: "wp (settle_select provider ref) (\<lambda>r w'. w_db w' = w_db w) w"
  unfolding settle_select_def by (rule wp_db_read) auto

lemma wp_settle_update_settles:
  assumes "status \<noteq> PaymentPending"
  shows "wp (settle_update provider ref status)
    (\<lambda>r w'. r \<noteq> Inl ErrNotFound \<and>
       (r = Inl ErrNoRows \<or> (\<exists>row. r = Inr row) \<longrightarrow> settled provider ref (w_db w'))) w"
  unfolding settle_update_def
  by (rule wp_db_exec)
     (use assms in \<open>auto simp: settled_def find_None_iff pay_key_def split: option.splits if_splits
        dest!: set_upd_where\<close>)

lemma wp_Settle_settles:
  assumes "status \<noteq> PaymentPending"
  shows "wp (pg_pay_Settle provider ref status)
    (\<lambda>r w'. r = Inl ErrNotFound \<or> (\<exists>x. r = Inr x) \<longrightarrow> settled provider ref (w_db w')) w"
  unfolding pg_pay_Settle_def
  by (rule wp_attempt [OF wp_settle_update_settles [OF assms]])
     (auto simp: wp_case_simps split: sum.splits intro!: wp_attempt [OF wp_settle_select])

lemma wp_Settle_settled:
  assumes "settled provider ref (w_db w)"
  shows "wp (pg_pay_Settle provider ref status) (\<lambda>r w'. w_db w' = w_db w \<and> (\<forall>p. r \<noteq> Inr (p, True))) w"
proof -
  have upd: "wp (settle_update provider ref status) (\<lambda>r w'. w_db w' = w_db w \<and> (\<forall>row. r \<noteq> Inr row)) w"
    unfolding settle_update_def
    by (rule wp_db_exec) (use assms in \<open>auto simp: settled_def split: option.splits dest!: find_SomeD\<close>)
  show ?thesis unfolding pg_pay_Settle_def
    by (rule wp_attempt [OF upd])
       (auto simp: wp_case_simps split: sum.splits intro!: wp_attempt [OF wp_settle_select])
qed

text \<open>
  Property C13: "safe to call repeatedly". Once a callback for a reference was verified and
  handled without an error, any later callback for the same reference, replayed or
  contradicting, changes no table.
\<close>

theorem SettlePayment_replay:
  assumes "payment_gateway gw"
    and ver: "gw_VerifyIPN gw form w = (Inr (res, True), v)" and st: "ps_Status res \<noteq> PaymentPending"
    and run: "billing_SettlePayment (billing_service gw) form w = (Inr (), w1)"
    and ver': "gw_VerifyIPN gw form' w1 = (Inr (res', ok'), v')" and ref: "ps_ProviderRef res' = ps_ProviderRef res"
    and run': "billing_SettlePayment (billing_service gw) form' w1 = (r2, w2)"
  shows "w_db w2 = w_db w1"
proof -
  let ?S = "settled (gw_Name gw) (ps_ProviderRef res)"
  have "wp (billing_SettlePayment (billing_service gw) form) (\<lambda>r w'. r = Inr () \<longrightarrow> ?S (w_db w')) w"
    unfolding billing_SettlePayment_def billing_service_simps
  proof (rule wp_bnd [OF wpI [where Q = "\<lambda>r w'. r = Inr (res, True)"]], goal_cases)
    case (3 x w')
    have "wp (attempt (pg_pay_Settle (gw_Name gw) (ps_ProviderRef res) (ps_Status res)) (\<lambda>q. case q of
         Inl e \<Rightarrow> if e = ErrNotFound then ret () else fail e
       | Inr (p, transitioned) \<Rightarrow> if transitioned \<and> ps_Status res = PaymentPaid
           then bnd (pg_Grant (py_OrgID p) (py_Credits p) ''topup'') (\<lambda>_. ret ()) else ret ()))
       (\<lambda>r w'. r = Inr () \<longrightarrow> ?S (w_db w')) w'"
    proof (rule wp_attempt [OF wp_Settle_settles [OF st]], goal_cases)
      case (1 q u)
      have "wp (bnd (pg_Grant org c ''topup'') (\<lambda>_. ret ())) (\<lambda>r w'. r = Inr () \<longrightarrow> ?S (w_db w')) u"
        if "?S (w_db u)" for org c
        by (rule wp_bnd [OF wp_pg_Grant_rows]) (use that in \<open>auto dest: ledger_added_views(3) simp: settled_def\<close>)
      with 1 show ?case by (auto split: sum.splits)
    qed
    with 3 show ?case by simp
  qed (use ver in auto)
  from wpD [OF this run] have s1: "?S (w_db w1)" by simp
  have v': "w_db v' = w_db w1"
    using wpD [OF payment_gateway.wp_verify [OF assms(1)] ver'] .
  have "wp (billing_SettlePayment (billing_service gw) form') (\<lambda>r w'. w_db w' = w_db w1) w1"
    unfolding billing_SettlePayment_def billing_service_simps
  proof (rule wp_bnd [OF wpI [where Q = "\<lambda>r w'. r = Inr (res', ok') \<and> w' = v'"]], goal_cases)
    case (3 x w')
    with s1 v' ref have "settled (gw_Name gw) (ps_ProviderRef res') (w_db w')" by simp
    then have "wp (attempt (pg_pay_Settle (gw_Name gw) (ps_ProviderRef res') (ps_Status res')) (\<lambda>q. case q of
         Inl e \<Rightarrow> if e = ErrNotFound then ret () else fail e
       | Inr (p, transitioned) \<Rightarrow> if transitioned \<and> ps_Status res' = PaymentPaid
           then bnd (pg_Grant (py_OrgID p) (py_Credits p) ''topup'') (\<lambda>_. ret ()) else ret ()))
       (\<lambda>r w2. w_db w2 = w_db w') w'"
      by (rule wp_attempt [OF wp_Settle_settled]) (auto split: sum.splits)
    with 3 v' show ?case by simp
  qed (use ver' in auto)
  from wpD [OF this run'] show ?thesis .
qed

text \<open>A world with one pending payment, for the concrete runs.\<close>

definition pending_world :: "(bool \<times> nat) list \<Rightarrow> world" where
  "pending_world sched = init_world\<lparr>w_sched := sched, w_db := empty_db\<lparr>payments :=
     [\<lparr>pm_id = ''pay_1'', pm_org_id = ''o'', pm_provider = ''mock'', pm_provider_ref = ''pay_1'',
       pm_credits = 100, pm_amount_bdt = 100, pm_status = PaymentPending, pm_created_at = 0,
       pm_settled_at = None\<rparr>]\<rparr>\<rparr>"

lemmas settle_eval = pending_world_def billing_SettlePayment_def op_defs mock_gateway_def mock_VerifyIPN_def
  pg_pay_Settle_def settle_update_def settle_select_def db_exec_def db_read_def env_step_def pay_key_def
  form_get_def deref_def pg_Grant_def with_tx_def payment_of_def paid_total_def topup_total_def
  balance_of_def upd_where_def

lemma settle_quiet_run:
  "fst (billing_SettlePayment (billing_service (mock_gateway [])) [''tran_id'' \<mapsto> ''pay_1''] (pending_world [])) = Inr ()"
  by (simp add: pending_world_def billing_SettlePayment_def bnd_def attempt_def ret_def draw_eq mock_gateway_def
      mock_VerifyIPN_def pg_pay_Settle_def settle_update_def db_exec_quiet pay_key_def form_get_def deref_def
      pg_Grant_def with_tx_def payment_of_def upd_where_def gen_EnsureCreditAccount_def gen_AdjustBalance_def
      gen_AddLedger_def go_int32_id in_int32_def)

theorem SettlePayment_replay_witness:
  "let run = billing_SettlePayment (billing_service (mock_gateway [])) [''tran_id'' \<mapsto> ''pay_1''];
       w1 = snd (run (pending_world [])) in w_db (snd (run w1)) = w_db w1"
proof -
  let ?run = "billing_SettlePayment (billing_service (mock_gateway [])) [''tran_id'' \<mapsto> ''pay_1'']"
  obtain w1 where r1: "?run (pending_world []) = (Inr (), w1)"
    using settle_quiet_run by (metis prod.collapse)
  obtain r2 w2 where r2: "?run w1 = (r2, w2)" by force
  have ver: "gw_VerifyIPN (mock_gateway []) [''tran_id'' \<mapsto> ''pay_1''] w
     = (Inr (\<lparr>ps_ProviderRef = ''pay_1'', ps_Status = PaymentPaid\<rparr>, True), w)" for w
    by (simp add: mock_gateway_def mock_VerifyIPN_def ret_def form_get_def deref_def)
  have "w_db w2 = w_db w1"
    by (rule SettlePayment_replay [OF mockgw.payment_gateway_axioms ver _ r1 ver _ r2]) simp_all
  with r1 r2 show ?thesis by simp
qed


end
