(* ===== verification/Yaver_Flow_Engine.thy ===== *)
theory Yaver_Flow_Engine
  imports Yaver_Domain
begin

text \<open>
  \<open>internal/flowengine\<close>: the IVR runtime (\<open>ivr.go\<close>), the session control loop over
  a live leg (\<open>session.go\<close>) and the builder's simulator (\<open>simulate.go\<close>). The
  \<open>*FlowState\<close> the Go code mutates is threaded explicitly. The session loop may run
  forever on a cyclic flow, so it is a \<open>partial_function (option)\<close>; the simulator
  recurses on its inputs.
\<close>

section \<open>The keypad runtime (ivr.go)\<close>

text \<open>\<open>f.IVR.Nodes[st.Node]\<close>: a missing key yields the zero node.\<close>

definition node_at :: "Flow \<Rightarrow> string \<Rightarrow> IVRNode" where
  "node_at f n = (case iv_Nodes (fl_IVR f) n of None \<Rightarrow> zero_IVRNode | Some nd \<Rightarrow> nd)"

definition emit :: "Flow \<Rightarrow> FlowState \<Rightarrow> Directive \<times> Outcome option" where
  "emit f st = (let node = node_at f (fs_Node st) in
     if nd_End node \<or> nd_Result node \<noteq> [] then
       (\<lparr>di_Kind = ''hangup'', di_Prompt = nd_Say node, di_Gather = None\<rparr>,
        Some \<lparr>ou_Result = nd_Result node, ou_Status = StatusCompleted, ou_DurationS = 0\<rparr>)
     else if nd_Gather node \<noteq> None then
       (\<lparr>di_Kind = ''say_gather'', di_Prompt = nd_Say node, di_Gather = nd_Gather node\<rparr>, None)
     else (\<lparr>di_Kind = ''say'', di_Prompt = nd_Say node, di_Gather = None\<rparr>, None))"

definition Start :: "Flow \<Rightarrow> Directive \<times> FlowState \<times> Outcome option" where
  "Start f = (let st = \<lparr>fs_Node = iv_Entry (fl_IVR f)\<rparr> in
     case emit f st of (d, o') \<Rightarrow> (d, st, o'))"

definition no_answer_hangup :: "Directive \<times> Outcome option" where
  "no_answer_hangup = (\<lparr>di_Kind = ''hangup'', di_Prompt = None, di_Gather = None\<rparr>,
     Some \<lparr>ou_Result = ''no_answer'', ou_Status = StatusNoAnswer, ou_DurationS = 0\<rparr>)"

definition OnDTMF :: "Flow \<Rightarrow> FlowState \<Rightarrow> string \<Rightarrow> (Directive \<times> Outcome option) \<times> FlowState" where
  "OnDTMF f st digit = (let node = node_at f (fs_Node st) in
     case (case nd_On node digit of None \<Rightarrow> nd_On node ''invalid'' | Some n \<Rightarrow> Some n) of
       None \<Rightarrow> (no_answer_hangup, st)
     | Some next' \<Rightarrow> (let st' = st\<lparr>fs_Node := next'\<rparr> in (emit f st', st')))"

definition OnTimeout :: "Flow \<Rightarrow> FlowState \<Rightarrow> (Directive \<times> Outcome option) \<times> FlowState" where
  "OnTimeout f st = (let node = node_at f (fs_Node st) in
     case nd_On node ''timeout'' of
       None \<Rightarrow> (no_answer_hangup, st)
     | Some next' \<Rightarrow> (let st' = st\<lparr>fs_Node := next'\<rparr> in (emit f st', st')))"

section \<open>The session control loop (session.go)\<close>

text \<open>The \<open>Leg\<close> interface over a leg state \<open>'l\<close>.\<close>

record 'l Leg =
  lg_Play :: "Prompt option \<Rightarrow> 'l \<Rightarrow> go_error option \<times> 'l"
  lg_SayGather :: "Prompt option \<Rightarrow> Gather option \<Rightarrow> 'l \<Rightarrow> (go_error + string \<times> bool) \<times> 'l"
  lg_Hangup :: "Prompt option \<Rightarrow> 'l \<Rightarrow> go_error option \<times> 'l"

partial_function (option) session_loop ::
  "'l Leg \<Rightarrow> Flow \<Rightarrow> Directive \<Rightarrow> FlowState \<Rightarrow> Outcome option \<Rightarrow> 'l
     \<Rightarrow> ((go_error + Outcome option) \<times> 'l) option" where
  "session_loop leg f d st out s =
     (if di_Kind d = ''hangup'' then
        (case lg_Hangup leg (di_Prompt d) s of
           (Some e, s1) \<Rightarrow> Some (Inl e, s1)
         | (None, s1) \<Rightarrow> Some (Inr out, s1))
      else if di_Kind d = ''say'' then
        (case lg_Play leg (di_Prompt d) s of
           (Some e, s1) \<Rightarrow> Some (Inl e, s1)
         | (None, s1) \<Rightarrow>
             Some (Inr (Some \<lparr>ou_Result = [], ou_Status = StatusCompleted, ou_DurationS = 0\<rparr>),
                   snd (lg_Hangup leg None s1)))
      else if di_Kind d = ''say_gather'' then
        (case lg_SayGather leg (di_Prompt d) (di_Gather d) s of
           (Inl e, s1) \<Rightarrow> Some (Inl e, s1)
         | (Inr (digit, timedOut), s1) \<Rightarrow>
             (case (if timedOut then OnTimeout f st else OnDTMF f st digit) of
                ((d', out'), st') \<Rightarrow> session_loop leg f d' st' out' s1))
      else Some (Inr out, s))"

definition RunSession :: "'l Leg \<Rightarrow> Flow \<Rightarrow> 'l \<Rightarrow> ((go_error + Outcome option) \<times> 'l) option" where
  "RunSession leg f s = (case Start f of (d, st, out) \<Rightarrow> session_loop leg f d st out s)"

section \<open>The simulator (simulate.go)\<close>

record SimStep =
  ss_Node :: string
  ss_Kind :: string
  ss_Say :: "Prompt option"
  ss_Awaits :: bool

record Simulation =
  sm_Steps :: "SimStep list"
  sm_Ended :: bool
  sm_Result :: string
  sm_Status :: string

definition stepOf :: "string \<Rightarrow> Directive \<Rightarrow> SimStep" where
  "stepOf node d = \<lparr>ss_Node = node, ss_Kind = di_Kind d, ss_Say = di_Prompt d,
     ss_Awaits = (di_Kind d = ''say_gather'')\<rparr>"

definition finish :: "Simulation \<Rightarrow> Outcome \<Rightarrow> Simulation" where
  "finish sim o' = sim\<lparr>sm_Ended := True, sm_Result := ou_Result o', sm_Status := ou_Status o'\<rparr>"

text \<open>One input of the loop: \<open>"timeout"\<close> or a digit.\<close>

definition on_input :: "Flow \<Rightarrow> FlowState \<Rightarrow> string \<Rightarrow> (Directive \<times> Outcome option) \<times> FlowState" where
  "on_input f st inp = (if inp = ''timeout'' then OnTimeout f st else OnDTMF f st inp)"

fun simulate_loop :: "Flow \<Rightarrow> FlowState \<Rightarrow> Simulation \<Rightarrow> string list \<Rightarrow> Simulation" where
  "simulate_loop f st sim [] = sim"
| "simulate_loop f st sim (inp # inputs) =
     (case on_input f st inp of ((d, out), st') \<Rightarrow>
        let sim' = sim\<lparr>sm_Steps := sm_Steps sim @ [stepOf (fs_Node st') d]\<rparr> in
        case out of Some o' \<Rightarrow> finish sim' o' | None \<Rightarrow> simulate_loop f st' sim' inputs)"

definition Simulate :: "Flow \<Rightarrow> string list \<Rightarrow> Simulation" where
  "Simulate f inputs =
     (let st = \<lparr>fs_Node = iv_Entry (fl_IVR f)\<rparr>;
          sim = \<lparr>sm_Steps = [], sm_Ended = False, sm_Result = [], sm_Status = []\<rparr>
      in case emit f st of (d, o') \<Rightarrow>
        let sim' = sim\<lparr>sm_Steps := sm_Steps sim @ [stepOf (fs_Node st) d]\<rparr> in
        case o' of Some out \<Rightarrow> finish sim' out | None \<Rightarrow> simulate_loop f st sim' inputs)"

section \<open>Facts about the runtime\<close>

lemma node_at_missing: "iv_Nodes (fl_IVR f) n = None \<Longrightarrow> node_at f n = zero_IVRNode"
  by (simp add: node_at_def)

text \<open>The three shapes of a directive, and how the outcome goes with them.\<close>

lemma emit_cases:
  obtains (hangup) "nd_End (node_at f (fs_Node st)) \<or> nd_Result (node_at f (fs_Node st)) \<noteq> []"
    "di_Kind (fst (emit f st)) = ''hangup''"
    "snd (emit f st) = Some \<lparr>ou_Result = nd_Result (node_at f (fs_Node st)),
       ou_Status = StatusCompleted, ou_DurationS = 0\<rparr>"
  | (gather) "\<not> nd_End (node_at f (fs_Node st))" "nd_Result (node_at f (fs_Node st)) = []"
    "nd_Gather (node_at f (fs_Node st)) \<noteq> None"
    "di_Kind (fst (emit f st)) = ''say_gather''" "snd (emit f st) = None"
  | (say) "\<not> nd_End (node_at f (fs_Node st))" "nd_Result (node_at f (fs_Node st)) = []"
    "nd_Gather (node_at f (fs_Node st)) = None"
    "di_Kind (fst (emit f st)) = ''say''" "snd (emit f st) = None"
  by (auto simp: emit_def Let_def split: if_splits)

lemma emit_outcome_iff_hangup: "snd (emit f st) \<noteq> None \<longleftrightarrow> di_Kind (fst (emit f st)) = ''hangup''"
  by (cases rule: emit_cases [of f st]) auto

lemma emit_kind: "di_Kind (fst (emit f st)) \<in> {''hangup'', ''say_gather'', ''say''}"
  by (cases rule: emit_cases [of f st]) auto

lemma no_answer_outcome: "snd no_answer_hangup \<noteq> None" "di_Kind (fst no_answer_hangup) = ''hangup''"
  by (simp_all add: no_answer_hangup_def)

text \<open>
  An input either hangs up unanswered where it stands, or follows an edge of the graph:
  \<open>edge_for\<close> is the edge it selects.
\<close>

definition edge_for :: "IVRNode \<Rightarrow> string \<Rightarrow> string option" where
  "edge_for node inp = (if inp = ''timeout'' then nd_On node ''timeout''
     else case nd_On node inp of None \<Rightarrow> nd_On node ''invalid'' | Some n \<Rightarrow> Some n)"

lemma on_input_eq:
  "on_input f st inp = (case edge_for (node_at f (fs_Node st)) inp of
     None \<Rightarrow> (no_answer_hangup, st)
   | Some n \<Rightarrow> (emit f (st\<lparr>fs_Node := n\<rparr>), st\<lparr>fs_Node := n\<rparr>))"
  unfolding on_input_def edge_for_def OnTimeout_def OnDTMF_def Let_def by simp

lemma edge_for_On: "edge_for node inp = Some n \<Longrightarrow> \<exists>k. nd_On node k = Some n"
  by (auto simp: edge_for_def split: if_splits option.splits)

lemma on_input_outcome:
  assumes "on_input f st inp = ((d, out), st')"
  shows "(out \<noteq> None) = (di_Kind d = ''hangup'')"
proof (cases "edge_for (node_at f (fs_Node st)) inp")
  case None
  with assms show ?thesis by (auto simp: on_input_eq no_answer_hangup_def)
next
  case (Some n)
  with assms have "emit f (st\<lparr>fs_Node := n\<rparr>) = (d, out)" by (auto simp: on_input_eq)
  with emit_outcome_iff_hangup [of f "st\<lparr>fs_Node := n\<rparr>"] show ?thesis by simp
qed

lemma on_input_kind:
  assumes "on_input f st inp = ((d, out), st')"
  shows "di_Kind d \<in> {''hangup'', ''say_gather'', ''say''}"
proof (cases "edge_for (node_at f (fs_Node st)) inp")
  case None
  with assms show ?thesis by (auto simp: on_input_eq no_answer_hangup_def)
next
  case (Some n)
  with assms have "emit f (st\<lparr>fs_Node := n\<rparr>) = (d, out)" by (auto simp: on_input_eq)
  with emit_kind [of f "st\<lparr>fs_Node := n\<rparr>"] show ?thesis by simp
qed

text \<open>The scripted leg of the tests: a keypad that plays a list of inputs and then errs.\<close>

datatype leg_act = Played "Prompt option" | Gathered "Prompt option" | HungUp "Prompt option"

record script_leg =
  sl_inputs :: "string list"
  sl_log :: "leg_act list"

definition script :: "script_leg Leg" where
  "script = \<lparr>
     lg_Play = (\<lambda>p s. (None, s\<lparr>sl_log := sl_log s @ [Played p]\<rparr>)),
     lg_SayGather = (\<lambda>p g s. case sl_inputs s of
          [] \<Rightarrow> (Inl (ErrOther ''script exhausted''), s)
        | i # is \<Rightarrow> (Inr (if i = ''timeout'' then ([], True) else (i, False)),
                     s\<lparr>sl_inputs := is, sl_log := sl_log s @ [Gathered p]\<rparr>)),
     lg_Hangup = (\<lambda>p s. (None, s\<lparr>sl_log := sl_log s @ [HungUp p]\<rparr>))\<rparr>"

text \<open>Flows whose nodes all either gather or end: what the no-code builder draws.\<close>

definition no_bare_say_at :: "Flow \<Rightarrow> string \<Rightarrow> bool" where
  "no_bare_say_at f n \<longleftrightarrow>
     nd_End (node_at f n) \<or> nd_Result (node_at f n) \<noteq> [] \<or> nd_Gather (node_at f n) \<noteq> None"

text \<open>The nodes a session can visit: closed under the edges, starting at the entry.\<close>

inductive visits :: "Flow \<Rightarrow> string \<Rightarrow> bool" for f where
  entry: "visits f (iv_Entry (fl_IVR f))"
| edge: "visits f n \<Longrightarrow> nd_On (node_at f n) k = Some m \<Longrightarrow> visits f m"

inductive_cases visitsE: "visits f n"

lemma session_loop_hangup:
  "di_Kind d = ''hangup'' \<Longrightarrow> session_loop script f d st out s =
     Some (Inr out, s\<lparr>sl_log := sl_log s @ [HungUp (di_Prompt d)]\<rparr>)"
  by (subst session_loop.simps) (simp add: script_def)

lemma session_loop_gather:
  "di_Kind d = ''say_gather'' \<Longrightarrow> sl_inputs s = i # is \<Longrightarrow>
   session_loop script f d st out s =
     (case on_input f st i of ((d', out'), st') \<Rightarrow>
        session_loop script f d' st' out'
          (s\<lparr>sl_inputs := is, sl_log := sl_log s @ [Gathered (di_Prompt d)]\<rparr>))"
  by (subst session_loop.simps) (simp add: script_def on_input_def)

lemma simulate_loop_steps:
  "\<exists>more. sm_Steps (simulate_loop f st sim inputs) = sm_Steps sim @ more \<and> length more \<le> length inputs"
proof (induction f st sim inputs rule: simulate_loop.induct)
  case (1 f st sim)
  then show ?case by simp
next
  case (2 f st sim inp inputs)
  obtain d out st' where oi: "on_input f st inp = ((d, out), st')" by (metis surj_pair)
  let ?sim' = "sim\<lparr>sm_Steps := sm_Steps sim @ [stepOf (fs_Node st') d]\<rparr>"
  show ?case
  proof (cases out)
    case None
    with "2.IH" [of "(d, out)" st' d out ?sim'] oi obtain more where
      "sm_Steps (simulate_loop f st' ?sim' inputs) = sm_Steps ?sim' @ more" "length more \<le> length inputs"
      by auto
    with oi None show ?thesis by (auto simp: Let_def)
  next
    case (Some o')
    with oi show ?thesis by (auto simp: Let_def finish_def)
  qed
qed

text \<open>What one turn of the simulator's loop does to the recorded trace.\<close>

definition trace_ok :: "Simulation \<Rightarrow> bool" where
  "trace_ok sim \<longleftrightarrow> sm_Steps sim \<noteq> []
     \<and> (sm_Ended sim \<longleftrightarrow> ss_Kind (last (sm_Steps sim)) = ''hangup'')
     \<and> (\<forall>x \<in> set (butlast (sm_Steps sim)). ss_Kind x \<noteq> ''hangup'')"

lemma trace_ok_snoc:
  assumes "trace_ok sim" and "\<not> sm_Ended sim"
  shows "(\<forall>x \<in> set (sm_Steps sim). ss_Kind x \<noteq> ''hangup'')"
  using assms by (metis Un_iff append_butlast_last_id set_append set_ConsD empty_iff list.set(1) trace_ok_def)

lemma simulate_loop_trace_ok:
  "trace_ok sim \<Longrightarrow> \<not> sm_Ended sim \<Longrightarrow> trace_ok (simulate_loop f st sim inputs)"
proof (induction f st sim inputs rule: simulate_loop.induct)
  case (1 f st sim)
  then show ?case by simp
next
  case (2 f st sim inp inputs)
  obtain d out st' where oi: "on_input f st inp = ((d, out), st')" by (metis surj_pair)
  let ?sim' = "sim\<lparr>sm_Steps := sm_Steps sim @ [stepOf (fs_Node st') d]\<rparr>"
  have all: "\<forall>x \<in> set (sm_Steps sim). ss_Kind x \<noteq> ''hangup''"
    using "2.prems" by (rule trace_ok_snoc)
  note kind = on_input_outcome [OF oi]
  show ?case
  proof (cases out)
    case None
    with all kind "2.prems"(2) have "trace_ok ?sim'" by (simp add: trace_ok_def stepOf_def)
    with "2.IH" [of "(d, out)" st' d out ?sim'] oi None "2.prems"(2) show ?thesis by (simp add: Let_def)
  next
    case (Some o')
    with oi all kind show ?thesis by (simp add: Let_def trace_ok_def finish_def stepOf_def)
  qed
qed

text \<open>
  The session loop on a scripted keypad follows the simulator's loop, as long as no bare
  \<open>say\<close> node is visited: it ends with the simulation's outcome, or runs out of script
  where the simulation ran out of inputs.
\<close>

definition sim_outcome :: "Simulation \<Rightarrow> go_error + Outcome option" where
  "sim_outcome sim = (if sm_Ended sim
     then Inr (Some \<lparr>ou_Result = sm_Result sim, ou_Status = sm_Status sim, ou_DurationS = 0\<rparr>)
     else Inl (ErrOther ''script exhausted''))"

lemma on_input_duration:
  "on_input f st inp = ((d, Some o'), st') \<Longrightarrow> ou_DurationS o' = 0"
  by (auto simp: on_input_eq no_answer_hangup_def emit_def Let_def split: option.splits if_splits)

lemma on_input_visits:
  "on_input f st inp = ((d, None), st') \<Longrightarrow> visits f (fs_Node st) \<Longrightarrow> visits f (fs_Node st')"
  by (auto simp: on_input_eq no_answer_hangup_def split: option.splits
      dest!: edge_for_On intro: visits.edge)

lemma on_input_gathers:
  assumes "on_input f st inp = ((d, None), st')" and "no_bare_say_at f (fs_Node st')"
  shows "di_Kind d = ''say_gather''"
  using assms
  by (auto simp: on_input_eq no_answer_hangup_def emit_def Let_def no_bare_say_at_def
      split: option.splits if_splits)

lemma Outcome_eqI:
  "ou_DurationS o' = 0 \<Longrightarrow> o' = \<lparr>ou_Result = ou_Result o', ou_Status = ou_Status o', ou_DurationS = 0\<rparr>"
  by (cases o') simp

lemma session_loop_simulates:
  assumes closed: "\<And>n. visits f n \<Longrightarrow> no_bare_say_at f n"
    and "di_Kind d = ''say_gather''" and "visits f (fs_Node st)"
    and "\<not> sm_Ended sim" and "sl_inputs s = inputs"
  shows "\<exists>s'. session_loop script f d st None s = Some (sim_outcome (simulate_loop f st sim inputs), s')"
  using assms
proof (induction f st sim inputs arbitrary: d s rule: simulate_loop.induct)
  case (1 f st sim)
  then show ?case by (subst session_loop.simps) (simp add: script_def sim_outcome_def)
next
  case (2 f st sim inp inputs)
  obtain d' out st' where oi: "on_input f st inp = ((d', out), st')" by (metis surj_pair)
  let ?s = "s\<lparr>sl_inputs := inputs, sl_log := sl_log s @ [Gathered (di_Prompt d)]\<rparr>"
  let ?sim' = "sim\<lparr>sm_Steps := sm_Steps sim @ [stepOf (fs_Node st') d']\<rparr>"
  have loop: "session_loop script f d st None s = session_loop script f d' st' out ?s"
    using session_loop_gather [OF "2.prems"(2,5), of f st None] oi by simp
  show ?case
  proof (cases out)
    case None
    with oi "2.prems"(3) have v: "visits f (fs_Node st')" by (auto intro: on_input_visits)
    have k: "di_Kind d' = ''say_gather''"
      using oi None "2.prems"(1) [OF v] by (auto intro: on_input_gathers)
    have "\<exists>s'. session_loop script f d' st' None ?s =
        Some (sim_outcome (simulate_loop f st' ?sim' inputs), s')"
      using "2.IH" [of "(d', out)" st' d' out ?sim' d' ?s] oi None "2.prems"(1,4) k v by simp
    with loop oi None show ?thesis by (simp add: Let_def)
  next
    case (Some o')
    have h: "di_Kind d' = ''hangup''" using on_input_outcome [OF oi] Some by simp
    have "ou_DurationS o' = 0" using oi Some by (auto intro: on_input_duration)
    with loop Some oi session_loop_hangup [OF h, of f st' "Some o'" ?s] show ?thesis
      by (auto simp: Let_def sim_outcome_def finish_def intro: Outcome_eqI)
  qed
qed

text \<open>One keypress or timeout hangs up, or moves along an edge to the node it emits.\<close>

lemma OnDTMF_edge:
  "OnDTMF f st digit = ((d', out'), st') \<Longrightarrow> di_Kind d' = ''say_gather'' \<Longrightarrow>
     \<exists>k. nd_On (node_at f (fs_Node st)) k = Some (fs_Node st')"
  by (auto simp: OnDTMF_def no_answer_hangup_def Let_def split: option.splits)

lemma OnTimeout_edge:
  "OnTimeout f st = ((d', out'), st') \<Longrightarrow> di_Kind d' = ''say_gather'' \<Longrightarrow>
     \<exists>k. nd_On (node_at f (fs_Node st)) k = Some (fs_Node st')"
  by (auto simp: OnTimeout_def no_answer_hangup_def Let_def split: option.splits)

lemma session_loop_total:
  assumes ranked: "\<And>n k m. nd_On (node_at f n) k = Some m \<Longrightarrow> (rank m :: nat) < rank n"
  shows "\<exists>r. session_loop leg f d st out s = Some r"
proof (induction "rank (fs_Node st)" arbitrary: d st out s rule: less_induct)
  case less
  have other: "\<exists>r. session_loop leg f d st out s = Some r" if "di_Kind d \<noteq> ''say_gather''" for d st out s
    using that by (subst session_loop.simps) (auto split: prod.splits option.splits)
  have next_turn: "\<exists>r s2. session_loop leg f d' st' out' s1 = Some (r, s2)"
    if "di_Kind d' = ''say_gather'' \<Longrightarrow> \<exists>k. nd_On (node_at f (fs_Node st)) k = Some (fs_Node st')"
    for d' st' out' s1
  proof -
    have "\<exists>r. session_loop leg f d' st' out' s1 = Some r"
      using that less ranked other by (cases "di_Kind d' = ''say_gather''") blast+
    then show ?thesis by auto
  qed
  show ?case
  proof (cases "di_Kind d = ''say_gather''")
    case True
    then show ?thesis
      by (subst session_loop.simps)
        (auto split: prod.splits sum.splits intro!: next_turn dest: OnDTMF_edge OnTimeout_edge)
  next
    case False
    then show ?thesis by (rule other)
  qed
qed

section \<open>Properties\<close>

text \<open>A two-level menu, used to exercise the properties.\<close>

definition demo_flow :: Flow where
  "demo_flow = zero_Flow\<lparr>fl_Type := FlowIVR, fl_IVR := \<lparr>iv_Entry = ''greet'', iv_Nodes =
     [''greet'' \<mapsto> zero_IVRNode\<lparr>nd_Gather := Some \<lparr>ga_Digits = 1, ga_TimeoutS = 6\<rparr>,
         nd_On := [''1'' \<mapsto> ''sure'', ''timeout'' \<mapsto> ''bye'']\<rparr>,
      ''sure'' \<mapsto> zero_IVRNode\<lparr>nd_Gather := Some \<lparr>ga_Digits = 1, ga_TimeoutS = 6\<rparr>,
         nd_On := [''1'' \<mapsto> ''yes'', ''invalid'' \<mapsto> ''bye'']\<rparr>,
      ''yes'' \<mapsto> zero_IVRNode\<lparr>nd_Result := ''confirmed'', nd_End := True\<rparr>,
      ''bye'' \<mapsto> zero_IVRNode\<lparr>nd_Result := ''no_answer'', nd_End := True\<rparr>]\<rparr>\<rparr>"

lemma demo_nodes:
  "node_at demo_flow ''greet'' = zero_IVRNode\<lparr>nd_Gather := Some \<lparr>ga_Digits = 1, ga_TimeoutS = 6\<rparr>,
     nd_On := [''1'' \<mapsto> ''sure'', ''timeout'' \<mapsto> ''bye'']\<rparr>"
  "node_at demo_flow ''sure'' = zero_IVRNode\<lparr>nd_Gather := Some \<lparr>ga_Digits = 1, ga_TimeoutS = 6\<rparr>,
     nd_On := [''1'' \<mapsto> ''yes'', ''invalid'' \<mapsto> ''bye'']\<rparr>"
  "node_at demo_flow ''yes'' = zero_IVRNode\<lparr>nd_Result := ''confirmed'', nd_End := True\<rparr>"
  "node_at demo_flow ''bye'' = zero_IVRNode\<lparr>nd_Result := ''no_answer'', nd_End := True\<rparr>"
  by (simp_all add: node_at_def demo_flow_def)

lemma demo_entry: "iv_Entry (fl_IVR demo_flow) = ''greet''"
  by (simp add: demo_flow_def)

lemma demo_visits: "visits demo_flow n \<Longrightarrow> n \<in> {''greet'', ''sure'', ''yes'', ''bye''}"
  by (induction rule: visits.induct)
    (auto simp: demo_entry demo_nodes zero_IVRNode_def split: if_splits)

lemma demo_no_bare_say: "visits demo_flow n \<Longrightarrow> no_bare_say_at demo_flow n"
  by (drule demo_visits) (auto simp: no_bare_say_at_def demo_nodes)

text \<open>
  Property C35: the live session and the builder's simulator agree. On a flow whose
  visited nodes all gather or end, driving \<open>RunSession\<close> with a scripted keypad returns
  exactly the outcome \<open>Simulate\<close> reports for the same inputs when the simulation
  ended, and runs out of keypresses exactly when it did not.
\<close>

theorem RunSession_agrees_with_Simulate:
  assumes closed: "\<And>n. visits f n \<Longrightarrow> no_bare_say_at f n"
  shows "\<exists>s'. RunSession script f \<lparr>sl_inputs = inputs, sl_log = []\<rparr>
           = Some (sim_outcome (Simulate f inputs), s')"
proof -
  let ?st = "\<lparr>fs_Node = iv_Entry (fl_IVR f)\<rparr>"
  obtain d out where em: "emit f ?st = (d, out)" by (cases "emit f ?st")
  have v: "visits f (fs_Node ?st)" by (simp add: visits.entry)
  show ?thesis
  proof (cases rule: emit_cases [of f ?st])
    case hangup
    with em show ?thesis
      by (simp add: RunSession_def Start_def Simulate_def session_loop_hangup sim_outcome_def
          finish_def Let_def)
  next
    case gather
    with em v session_loop_simulates [OF closed, of d ?st] show ?thesis
      by (simp add: RunSession_def Start_def Simulate_def Let_def)
  next
    case say
    with closed [OF v] show ?thesis by (simp add: no_bare_say_at_def)
  qed
qed

theorem RunSession_agrees_with_Simulate_witness:
  "\<exists>s'. RunSession script demo_flow \<lparr>sl_inputs = [''1'', ''1''], sl_log = []\<rparr>
     = Some (Inr (Some \<lparr>ou_Result = ''confirmed'', ou_Status = StatusCompleted, ou_DurationS = 0\<rparr>), s')"
proof -
  have "sim_outcome (Simulate demo_flow [''1'', ''1'']) =
      Inr (Some \<lparr>ou_Result = ''confirmed'', ou_Status = StatusCompleted, ou_DurationS = 0\<rparr>)"
    by (simp add: Simulate_def demo_entry emit_def demo_nodes zero_IVRNode_def on_input_def
        OnDTMF_def Let_def sim_outcome_def finish_def)
  with RunSession_agrees_with_Simulate [OF demo_no_bare_say, of "[''1'', ''1'']"] show ?thesis
    by simp
qed

text \<open>
  Property C36: a session always ends on a flow without cycles. If some rank decreases
  along every edge of the flow, \<open>RunSession\<close> returns for every leg, whatever keys it
  reports and wherever it fails.
\<close>

theorem RunSession_terminates:
  assumes ranked: "\<And>n k m. nd_On (node_at f n) k = Some m \<Longrightarrow> (rank m :: nat) < rank n"
  shows "\<exists>r. RunSession leg f s = Some r"
proof -
  have "\<exists>r. session_loop leg f d st out s = Some r" for d st out s
    by (rule session_loop_total [of f rank]) (rule ranked)
  then show ?thesis by (simp add: RunSession_def split: prod.splits)
qed

theorem RunSession_terminates_witness: "\<exists>r. RunSession script demo_flow \<lparr>sl_inputs = [''1''], sl_log = []\<rparr> = Some r"
proof (rule RunSession_terminates [where rank = "\<lambda>n. if n = ''greet'' then 2 else if n = ''sure'' then 1 else 0"])
  fix n k m
  assume "nd_On (node_at demo_flow n) k = Some m"
  then show "(if m = ''greet'' then 2 else if m = ''sure'' then 1 else 0 :: nat)
      < (if n = ''greet'' then 2 else if n = ''sure'' then 1 else 0)"
    by (auto simp: node_at_def demo_flow_def zero_IVRNode_def split: if_splits option.splits)
qed

text \<open>
  The simulator's trace is well formed. \<open>Simulate\<close> records between one
  step and one more than the number of inputs; the simulation has ended exactly when the
  last recorded step is a hangup, and no earlier step is one.
\<close>

theorem Simulate_trace:
  "1 \<le> length (sm_Steps (Simulate f inputs)) \<and>
   length (sm_Steps (Simulate f inputs)) \<le> Suc (length inputs) \<and>
   trace_ok (Simulate f inputs)"
proof -
  let ?st = "\<lparr>fs_Node = iv_Entry (fl_IVR f)\<rparr>"
  obtain d out where em: "emit f ?st = (d, out)" by (cases "emit f ?st")
  let ?sim = "\<lparr>sm_Steps = [stepOf (fs_Node ?st) d], sm_Ended = False, sm_Result = [], sm_Status = []\<rparr>"
  have kind: "(out \<noteq> None) = (di_Kind d = ''hangup'')"
    using emit_outcome_iff_hangup [of f ?st] em by simp
  show ?thesis
  proof (cases out)
    case None
    have eq: "Simulate f inputs = simulate_loop f ?st ?sim inputs"
      using em None by (simp add: Simulate_def Let_def)
    have "trace_ok ?sim" using kind None by (simp add: trace_ok_def stepOf_def)
    then have "trace_ok (Simulate f inputs)" unfolding eq by (rule simulate_loop_trace_ok) simp
    moreover obtain more where "sm_Steps (Simulate f inputs) = sm_Steps ?sim @ more" "length more \<le> length inputs"
      using simulate_loop_steps [of f ?st ?sim inputs] unfolding eq by auto
    ultimately show ?thesis by simp
  next
    case (Some o')
    with em kind show ?thesis
      by (simp add: Simulate_def Let_def finish_def trace_ok_def stepOf_def)
  qed
qed

text \<open>
  Simulator and live session part ways at a bare \<open>say\<close> node. When the
  entry node only speaks, \<open>RunSession\<close> plays it, hangs up and completes the call,
  while \<open>Simulate\<close> reports an unfinished call, and with one more keypress an
  unanswered one.
\<close>

theorem bare_say_simulation_diverges:
  assumes "iv_Nodes (fl_IVR f) (iv_Entry (fl_IVR f)) = Some nd"
    and "nd_End nd = False" "nd_Result nd = []" "nd_Gather nd = None" "nd_On nd = Map.empty"
  shows "RunSession script f \<lparr>sl_inputs = [], sl_log = []\<rparr> =
      Some (Inr (Some \<lparr>ou_Result = [], ou_Status = StatusCompleted, ou_DurationS = 0\<rparr>),
            \<lparr>sl_inputs = [], sl_log = [Played (nd_Say nd), HungUp None]\<rparr>)
    \<and> sm_Ended (Simulate f []) = False
    \<and> sm_Status (Simulate f [''1'']) = StatusNoAnswer"
proof -
  have n: "node_at f (iv_Entry (fl_IVR f)) = nd" using assms(1) by (simp add: node_at_def)
  have "RunSession script f \<lparr>sl_inputs = [], sl_log = []\<rparr> =
      Some (Inr (Some \<lparr>ou_Result = [], ou_Status = StatusCompleted, ou_DurationS = 0\<rparr>),
            \<lparr>sl_inputs = [], sl_log = [Played (nd_Say nd), HungUp None]\<rparr>)"
    using assms(2-) by (simp add: RunSession_def Start_def emit_def n Let_def session_loop.simps script_def)
  moreover have "sm_Ended (Simulate f []) = False \<and> sm_Status (Simulate f [''1'']) = StatusNoAnswer"
    using assms(2-) by (simp add: Simulate_def emit_def n Let_def on_input_eq edge_for_def
        no_answer_hangup_def finish_def)
  ultimately show ?thesis by simp
qed

definition notice_flow :: Flow where
  "notice_flow = zero_Flow\<lparr>fl_IVR := \<lparr>iv_Entry = ''n'', iv_Nodes =
     [''n'' \<mapsto> zero_IVRNode\<lparr>nd_Say := Some \<lparr>pr_Audio = ''closed.wav'', pr_TTS = []\<rparr>\<rparr>]\<rparr>\<rparr>"

theorem bare_say_simulation_diverges_witness:
  "fst (the (RunSession script notice_flow \<lparr>sl_inputs = [], sl_log = []\<rparr>)) =
      Inr (Some \<lparr>ou_Result = [], ou_Status = StatusCompleted, ou_DurationS = 0\<rparr>)
    \<and> sm_Status (Simulate notice_flow [''1'']) = StatusNoAnswer"
  using bare_say_simulation_diverges [of notice_flow
      "zero_IVRNode\<lparr>nd_Say := Some \<lparr>pr_Audio = ''closed.wav'', pr_TTS = []\<rparr>\<rparr>"]
  by (simp add: notice_flow_def zero_IVRNode_def)

end
