(* ===== verification/Yaver_Flows.thy ===== *)
theory Yaver_Flows
  imports Yaver_Ports Yaver_Flow_Engine
begin

text \<open>
  Flow definitions: the queries of \<open>gen/flows.sql.go\<close>, the repository of
  \<open>postgres/flows.go\<close>, the builder's service (\<open>service/flows\<close>) and its templates.
  The \<open>spec\<close> column is JSONB: what is stored, and read back, is PostgreSQL's normal
  form of the text that was written.
\<close>

section \<open>Queries (gen/flows.sql.go)\<close>

definition invalid_json :: go_error where
  "invalid_json = ErrOther ''invalid input syntax for type json''"

definition gen_CreateFlow :: "libs \<Rightarrow> FlowRow \<Rightarrow> unit wop" where
  "gen_CreateFlow L row = db_exec (\<lambda>t d.
     case lib_jsonb L (fw_spec row) of
       None \<Rightarrow> Inl invalid_json
     | Some spec \<Rightarrow>
         if List.find (\<lambda>r. fw_id r = fw_id row) (flows d) \<noteq> None then Inr ((), d)
         else Inr ((), d\<lparr>flows := flows d @
           [row\<lparr>fw_spec := spec, fw_is_active := True, fw_created_at := t\<rparr>]\<rparr>))"

definition gen_ListFlowsByOrg :: "libs \<Rightarrow> string \<Rightarrow> FlowRow list wop" where
  "gen_ListFlowsByOrg L org = db_read (\<lambda>t d.
     Inr (order_by (\<lambda>r. lib_collate L (fw_name r)) (filter (\<lambda>r. fw_org_id r = org) (flows d))))"

definition gen_GetFlowByID :: "string \<Rightarrow> FlowRow wop" where
  "gen_GetFlowByID fid = db_read (\<lambda>t d.
     case List.find (\<lambda>r. fw_id r = fid) (flows d) of None \<Rightarrow> Inl ErrNoRows | Some r \<Rightarrow> Inr r)"

definition gen_UpdateFlowSpec :: "libs \<Rightarrow> string \<Rightarrow> string \<Rightarrow> string \<Rightarrow> unit wop" where
  "gen_UpdateFlowSpec L fid spec org = db_exec (\<lambda>t d.
     case lib_jsonb L spec of
       None \<Rightarrow> Inl invalid_json
     | Some s \<Rightarrow> Inr ((), d\<lparr>flows := upd_where (\<lambda>r. fw_id r = fid \<and> fw_org_id r = org)
         (\<lambda>r. r\<lparr>fw_spec := s\<rparr>) (flows d)\<rparr>))"

definition gen_GetActiveFlowByName :: "string \<Rightarrow> string \<Rightarrow> FlowRow wop" where
  "gen_GetActiveFlowByName org name = db_read (\<lambda>t d.
     case order_by_desc fw_version
       (filter (\<lambda>r. fw_org_id r = org \<and> fw_name r = name \<and> fw_is_active r) (flows d)) of
       [] \<Rightarrow> Inl ErrNoRows
     | r # _ \<Rightarrow> Inr r)"

section \<open>The repository (postgres/flows.go)\<close>

definition pg_GetActiveFlow :: "libs \<Rightarrow> OrgID \<Rightarrow> string \<Rightarrow> Flow option wop" where
  "pg_GetActiveFlow L org name =
     attempt (gen_GetActiveFlowByName org name) (\<lambda>q. case q of
       Inl e \<Rightarrow> if e = ErrNoRows then ret None else fail e
     | Inr row \<Rightarrow>
         (let f = \<lparr>fl_ID = fw_id row, fl_OrgID = fw_org_id row, fl_Name = fw_name row,
                fl_Version = fw_version row, fl_Channel = fw_channel row, fl_Type = fw_type row,
                fl_Locale = fw_locale row, fl_IVR = zero_IVRSpec\<rparr>
          in if fl_Type f = FlowIVR
             then (case lib_ivr_json L (fw_spec row) of
                 None \<Rightarrow> fail (ErrOther ''json: cannot unmarshal'')
               | Some spec \<Rightarrow> ret (Some (f\<lparr>fl_IVR := spec\<rparr>)))
             else ret (Some f)))"

definition pg_flow_Create :: "libs \<Rightarrow> OrgID \<Rightarrow> NewFlow \<Rightarrow> FlowID wop" where
  "pg_flow_Create L org nf =
     bnd (draw (id_New ''flow'')) (\<lambda>fid.
     bnd (gen_CreateFlow L \<lparr>fw_id = fid, fw_org_id = org, fw_name = nf_Name nf, fw_version = 1,
            fw_channel = nf_Channel nf, fw_type = nf_Type nf, fw_locale = nf_Locale nf,
            fw_spec = nf_Spec nf, fw_is_active = True, fw_created_at = zero_time\<rparr>) (\<lambda>_.
     ret fid))"

definition pg_flow_ListByOrg :: "libs \<Rightarrow> OrgID \<Rightarrow> FlowSummary list wop" where
  "pg_flow_ListByOrg L org = bnd (gen_ListFlowsByOrg L org) (\<lambda>rows.
     ret (map (\<lambda>r. \<lparr>fy_ID = fw_id r, fy_Name = fw_name r, fy_Version = fw_version r,
        fy_Channel = fw_channel r, fy_Type = fw_type r, fy_Active = fw_is_active r\<rparr>) rows))"

definition pg_flow_GetByID :: "FlowID \<Rightarrow> FlowDetail option wop" where
  "pg_flow_GetByID fid = attempt (gen_GetFlowByID fid) (\<lambda>q. case q of
       Inl e \<Rightarrow> if e = ErrNoRows then ret None else fail e
     | Inr r \<Rightarrow> ret (Some \<lparr>fd_ID = fw_id r, fd_OrgID = fw_org_id r, fd_Name = fw_name r,
         fd_Version = fw_version r, fd_Channel = fw_channel r, fd_Type = fw_type r,
         fd_Locale = fw_locale r, fd_Spec = fw_spec r\<rparr>))"

definition pg_flow_UpdateSpec :: "libs \<Rightarrow> FlowID \<Rightarrow> OrgID \<Rightarrow> string \<Rightarrow> unit wop" where
  "pg_flow_UpdateSpec L fid org spec = gen_UpdateFlowSpec L fid spec org"

definition pg_flows :: "libs \<Rightarrow> FlowRepo" where
  "pg_flows L = \<lparr>flr_GetActiveFlow = pg_GetActiveFlow L, flr_Create = pg_flow_Create L,
     flr_ListByOrg = pg_flow_ListByOrg L, flr_GetByID = pg_flow_GetByID,
     flr_UpdateSpec = pg_flow_UpdateSpec L\<rparr>"

section \<open>The service (service/flows)\<close>

definition flows_List :: "FlowRepo \<Rightarrow> OrgID \<Rightarrow> FlowSummary list wop" where
  "flows_List repo org = flr_ListByOrg repo org"

definition flows_Get :: "FlowRepo \<Rightarrow> OrgID \<Rightarrow> FlowID \<Rightarrow> FlowDetail wop" where
  "flows_Get repo org fid = bnd (flr_GetByID repo fid) (\<lambda>r. case r of
       None \<Rightarrow> fail ErrNotFound
     | Some fd \<Rightarrow> if fd_OrgID fd \<noteq> org then fail ErrNotFound else ret fd)"

definition knownFlowTypes :: "FlowType \<Rightarrow> bool" where
  "knownFlowTypes t \<longleftrightarrow> t = FlowIVR \<or> t = FlowChat"

definition validateIVR :: "libs \<Rightarrow> string \<Rightarrow> go_error option" where
  "validateIVR L raw = (case lib_ivr_json L raw of
       None \<Rightarrow> Some ErrFlowInvalid
     | Some spec \<Rightarrow>
         if iv_Entry spec = [] then Some ErrFlowInvalid
         else if iv_Nodes spec (iv_Entry spec) = None then Some ErrFlowInvalid
         else None)"

definition with_defaults :: "NewFlow \<Rightarrow> NewFlow" where
  "with_defaults nf =
     (let nf1 = (if nf_Locale nf = [] then nf\<lparr>nf_Locale := ''en''\<rparr> else nf)
      in if nf_Channel nf1 = []
         then nf1\<lparr>nf_Channel := if nf_Type nf1 = FlowChat then ChannelChat else ChannelVoice\<rparr>
         else nf1)"

definition flows_Create :: "libs \<Rightarrow> FlowRepo \<Rightarrow> OrgID \<Rightarrow> NewFlow \<Rightarrow> FlowID wop" where
  "flows_Create L repo org nf0 =
     (if nf_Name nf0 = [] \<or> \<not> knownFlowTypes (nf_Type nf0) then fail ErrFlowInvalid
      else let nf = with_defaults nf0 in
        (case (if nf_Type nf = FlowIVR then validateIVR L (nf_Spec nf) else None) of
           Some e \<Rightarrow> fail e
         | None \<Rightarrow>
             bnd (flr_GetActiveFlow repo org (nf_Name nf)) (\<lambda>found. case found of
               Some _ \<Rightarrow> fail ErrConflict
             | None \<Rightarrow> flr_Create repo org nf)))"

definition flows_UpdateSpec :: "libs \<Rightarrow> FlowRepo \<Rightarrow> OrgID \<Rightarrow> FlowID \<Rightarrow> string \<Rightarrow> unit wop" where
  "flows_UpdateSpec L repo org fid spec =
     bnd (flows_Get repo org fid) (\<lambda>_.
     case validateIVR L spec of
       Some e \<Rightarrow> fail e
     | None \<Rightarrow> flr_UpdateSpec repo fid org spec)"

definition flows_Simulate :: "libs \<Rightarrow> string \<Rightarrow> string list \<Rightarrow> go_error + Simulation" where
  "flows_Simulate L spec inputs = (case validateIVR L spec of
       Some e \<Rightarrow> Inl e
     | None \<Rightarrow> (case lib_ivr_json L spec of
           None \<Rightarrow> Inl ErrFlowInvalid
         | Some ivr \<Rightarrow> Inr (Simulate (zero_Flow\<lparr>fl_Type := FlowIVR, fl_IVR := ivr\<rparr>) inputs)))"

section \<open>Templates (service/flows/templates.go)\<close>

text \<open>
  The starter flows, with their JSON literals as the decoded specs.
\<close>

record Template =
  tm_Name :: string
  tm_Title :: string
  tm_Description :: string
  tm_Channel :: string
  tm_Type :: string
  tm_Locale :: string
  tm_Spec :: IVRSpec

definition menu_node :: "string \<Rightarrow> (string \<rightharpoonup> string) \<Rightarrow> IVRNode" where
  "menu_node tts on = \<lparr>nd_Say = Some \<lparr>pr_Audio = [], pr_TTS = tts\<rparr>,
     nd_Gather = Some \<lparr>ga_Digits = 1, ga_TimeoutS = 6\<rparr>, nd_On = on, nd_Result = [], nd_End = False\<rparr>"

definition end_node :: "string option \<Rightarrow> string \<Rightarrow> IVRNode" where
  "end_node tts result = \<lparr>nd_Say = map_option (\<lambda>s. \<lparr>pr_Audio = [], pr_TTS = s\<rparr>) tts,
     nd_Gather = None, nd_On = Map.empty, nd_Result = result, nd_End = True\<rparr>"

definition orderConfirmSpec :: IVRSpec where
  "orderConfirmSpec = \<lparr>iv_Entry = ''greet'', iv_Nodes = [
     ''greet'' \<mapsto> menu_node ''Press 1 to confirm your order, 2 to cancel, 3 to reschedule.''
       [''1'' \<mapsto> ''confirmed'', ''2'' \<mapsto> ''cancelled'', ''3'' \<mapsto> ''reschedule'', ''timeout'' \<mapsto> ''no_input''],
     ''confirmed'' \<mapsto> end_node (Some ''Thank you, your order is confirmed.'') ''confirmed'',
     ''cancelled'' \<mapsto> end_node (Some ''Your order has been cancelled.'') ''cancelled'',
     ''reschedule'' \<mapsto> end_node (Some (''We'' @ [CHR 39] @ ''ll call you to reschedule.'')) ''reschedule'',
     ''no_input'' \<mapsto> end_node None ''no_answer'']\<rparr>"

definition cartRecoverySpec :: IVRSpec where
  "cartRecoverySpec = \<lparr>iv_Entry = ''greet'', iv_Nodes = [
     ''greet'' \<mapsto> menu_node ''You left items in your cart. Press 1 to hold them and get a callback, 2 to decline.''
       [''1'' \<mapsto> ''held'', ''2'' \<mapsto> ''declined'', ''timeout'' \<mapsto> ''no_input''],
     ''held'' \<mapsto> end_node (Some (''Great, we'' @ [CHR 39] @ ''ve held your cart and will call you back shortly.'')) ''confirmed'',
     ''declined'' \<mapsto> end_node (Some ''No problem, thanks for your time.'') ''cancelled'',
     ''no_input'' \<mapsto> end_node None ''no_answer'']\<rparr>"

definition deliveryReminderSpec :: IVRSpec where
  "deliveryReminderSpec = \<lparr>iv_Entry = ''greet'', iv_Nodes = [
     ''greet'' \<mapsto> menu_node (''Your order is out for delivery. Press 1 to confirm you'' @ [CHR 39] @ ''re available, 2 to reschedule.'')
       [''1'' \<mapsto> ''available'', ''2'' \<mapsto> ''reschedule'', ''timeout'' \<mapsto> ''no_input''],
     ''available'' \<mapsto> end_node (Some ''Thank you, your delivery is confirmed.'') ''confirmed'',
     ''reschedule'' \<mapsto> end_node (Some (''We'' @ [CHR 39] @ ''ll reschedule your delivery.'')) ''reschedule'',
     ''no_input'' \<mapsto> end_node None ''no_answer'']\<rparr>"

definition Templates :: "Template list" where
  "Templates = [
     \<lparr>tm_Name = ''order_confirm'', tm_Title = ''COD order confirmation'',
      tm_Description = ''Press 1 to confirm, 2 to cancel, 3 to reschedule. The v1 wedge.'',
      tm_Channel = ChannelVoice, tm_Type = FlowIVR, tm_Locale = ''en'', tm_Spec = orderConfirmSpec\<rparr>,
     \<lparr>tm_Name = ''cart_recovery'', tm_Title = ''Abandoned-cart nudge'',
      tm_Description = ''Press 1 to hold the cart and get a callback, 2 to decline.'',
      tm_Channel = ChannelVoice, tm_Type = FlowIVR, tm_Locale = ''en'', tm_Spec = cartRecoverySpec\<rparr>,
     \<lparr>tm_Name = ''delivery_reminder'', tm_Title = ''Delivery reminder'',
      tm_Description = ''Press 1 to confirm you'' @ [CHR 39] @ ''re available, 2 to reschedule delivery.'',
      tm_Channel = ChannelVoice, tm_Type = FlowIVR, tm_Locale = ''en'', tm_Spec = deliveryReminderSpec\<rparr>]"

section \<open>Facts\<close>

lemma pg_flows_simps [simp]:
  "flr_GetActiveFlow (pg_flows L) = pg_GetActiveFlow L" "flr_Create (pg_flows L) = pg_flow_Create L"
  "flr_GetByID (pg_flows L) = pg_flow_GetByID" "flr_UpdateSpec (pg_flows L) = pg_flow_UpdateSpec L"
  "flr_ListByOrg (pg_flows L) = pg_flow_ListByOrg L"
  by (simp_all add: pg_flows_def)

definition active_named :: "database \<Rightarrow> OrgID \<Rightarrow> string \<Rightarrow> FlowRow list" where
  "active_named d org name = filter (\<lambda>r. fw_org_id r = org \<and> fw_name r = name \<and> fw_is_active r) (flows d)"

text \<open>Event routing is unambiguous: a name stands for at most one active flow of an org.\<close>

definition routing_ok :: "database \<Rightarrow> bool" where
  "routing_ok d \<longleftrightarrow> (\<forall>org name. length (active_named d org name) \<le> 1)"

definition valid_spec :: "libs \<Rightarrow> string \<Rightarrow> bool" where
  "valid_spec L raw \<longleftrightarrow> (\<exists>spec nd. lib_ivr_json L raw = Some spec \<and> iv_Entry spec \<noteq> [] \<and>
     iv_Nodes spec (iv_Entry spec) = Some nd)"

text \<open>Every keypad flow in the table can be loaded and started.\<close>

definition specs_ok :: "libs \<Rightarrow> database \<Rightarrow> bool" where
  "specs_ok L d \<longleftrightarrow> (\<forall>r \<in> set (flows d). fw_type r = FlowIVR \<longrightarrow> valid_spec L (fw_spec r))"

definition jsonb_keeps_ivr :: "libs \<Rightarrow> bool" where
  "jsonb_keeps_ivr L \<longleftrightarrow> (\<forall>s s'. lib_jsonb L s = Some s' \<longrightarrow> lib_ivr_json L s' = lib_ivr_json L s)"

lemma validateIVR_None: "validateIVR L raw = None \<longleftrightarrow> valid_spec L raw"
  by (auto simp: validateIVR_def valid_spec_def split: option.splits)

lemma wp_GetActiveFlow:
  "wp (pg_GetActiveFlow L org name) (\<lambda>r w'. w_db w' = w_db w \<and> (case r of
      Inl e \<Rightarrow> specs_ok L (w_db w) \<longrightarrow> e = ErrConn
    | Inr None \<Rightarrow> active_named (w_db w) org name = []
    | Inr (Some f) \<Rightarrow> \<exists>row \<in> set (active_named (w_db w) org name). fl_ID f = fw_id row \<and> fl_OrgID f = org
        \<and> fl_Name f = name \<and> fl_Type f = fw_type row
        \<and> (fw_type row = FlowIVR \<longrightarrow> lib_ivr_json L (fw_spec row) = Some (fl_IVR f))
        \<and> (\<forall>q \<in> set (active_named (w_db w) org name). fw_version q \<le> fw_version row))) w"
proof -
  have q: "wp (gen_GetActiveFlowByName org name) (\<lambda>r w'. w_db w' = w_db w \<and> (case r of
      Inl e \<Rightarrow> e = ErrConn \<or> e = ErrNoRows \<and> active_named (w_db w) org name = []
    | Inr row \<Rightarrow> row \<in> set (active_named (w_db w) org name)
        \<and> (\<forall>q \<in> set (active_named (w_db w) org name). fw_version q \<le> fw_version row))) w"
    unfolding gen_GetActiveFlowByName_def
  proof (rule wp_db_read, goal_cases)
    case (2 e w')
    then show ?case
      by (auto simp: active_named_def order_by_desc_def split: list.splits)
         (metis (no_types, lifting) filter_empty_conv set_empty set_sort)
  next
    case (3 row w')
    then obtain rest where o: "order_by_desc fw_version (active_named (w_db w) org name) = row # rest"
      by (auto simp: active_named_def split: list.splits)
    then have "row \<in> set (active_named (w_db w) org name)"
      by (metis list.set_intros(1) set_order_by_desc)
    with 3 o show ?case by (auto dest: order_by_desc_hd_max)
  qed auto
  show ?thesis unfolding pg_GetActiveFlow_def
  proof (rule wp_attempt [OF q], goal_cases)
    case (1 r w')
    show ?case
    proof (cases r)
      case (Inl e)
      with 1 show ?thesis by auto
    next
      case (Inr row)
      with 1 have row: "row \<in> set (active_named (w_db w) org name)" by simp
      then have "fw_org_id row = org" "fw_name row = name" "row \<in> set (flows (w_db w))"
        by (auto simp: active_named_def)
      with 1 Inr row show ?thesis
        by (auto simp: Let_def specs_ok_def valid_spec_def split: option.splits)
    qed
  qed
qed

lemma wp_pg_flow_GetByID:
  "wp (pg_flow_GetByID fid) (\<lambda>r w'. w_db w' = w_db w \<and> (case r of
      Inl e \<Rightarrow> e = ErrConn
    | Inr None \<Rightarrow> \<forall>row \<in> set (flows (w_db w)). fw_id row \<noteq> fid
    | Inr (Some fd) \<Rightarrow> \<exists>row \<in> set (flows (w_db w)). fw_id row = fid \<and> fd_OrgID fd = fw_org_id row
        \<and> fd_Spec fd = fw_spec row \<and> fd_ID fd = fid)) w"
proof -
  have q: "wp (gen_GetFlowByID fid) (\<lambda>r w'. w_db w' = w_db w \<and> (case r of
      Inl e \<Rightarrow> e = ErrConn \<or> e = ErrNoRows \<and> (\<forall>row \<in> set (flows (w_db w)). fw_id row \<noteq> fid)
    | Inr row \<Rightarrow> row \<in> set (flows (w_db w)) \<and> fw_id row = fid)) w"
    unfolding gen_GetFlowByID_def
    by (rule wp_db_read) (auto simp: find_None_iff split: option.splits dest: find_SomeD)
  show ?thesis unfolding pg_flow_GetByID_def
    by (rule wp_attempt [OF q]) (auto split: sum.splits)
qed

text \<open>What a new flow row does to the table.\<close>

lemma wp_gen_CreateFlow:
  "wp (gen_CreateFlow L row) (\<lambda>r w'. w_db w' = w_db w \<or>
     (\<exists>spec t. r = Inr () \<and> lib_jsonb L (fw_spec row) = Some spec \<and> w_db w' = (w_db w)\<lparr>flows := flows (w_db w) @
        [row\<lparr>fw_spec := spec, fw_is_active := True, fw_created_at := t\<rparr>]\<rparr>)) w"
  unfolding gen_CreateFlow_def by (rule wp_db_exec) (auto split: option.splits)

lemma with_defaults_simps [simp]:
  "nf_Name (with_defaults nf) = nf_Name nf" "nf_Type (with_defaults nf) = nf_Type nf"
  "nf_Spec (with_defaults nf) = nf_Spec nf"
  by (simp_all add: with_defaults_def Let_def)

lemma wp_flows_Create:
  "wp (flows_Create L (pg_flows L) org nf) (\<lambda>r w'. w_db w' = w_db w \<or>
     (\<exists>row. w_db w' = (w_db w)\<lparr>flows := flows (w_db w) @ [row]\<rparr> \<and> r = Inr (fw_id row) \<and> fw_org_id row = org
        \<and> fw_name row = nf_Name nf \<and> fw_type row = nf_Type nf \<and> fw_is_active row \<and> fw_name row \<noteq> []
        \<and> active_named (w_db w) org (nf_Name nf) = []
        \<and> lib_jsonb L (nf_Spec nf) = Some (fw_spec row)
        \<and> (fw_type row = FlowIVR \<longrightarrow> valid_spec L (nf_Spec nf)))) w"
proof -
  have create: "wp (pg_flow_Create L org nf') (\<lambda>r w'. w_db w' = w_db v \<or>
     (\<exists>row. w_db w' = (w_db v)\<lparr>flows := flows (w_db v) @ [row]\<rparr> \<and> r = Inr (fw_id row) \<and> fw_org_id row = org
        \<and> fw_name row = nf_Name nf' \<and> fw_type row = nf_Type nf' \<and> fw_is_active row
        \<and> lib_jsonb L (nf_Spec nf') = Some (fw_spec row))) v" for nf' v
    unfolding pg_flow_Create_def wp_bnd_simps
    by (rule wp_bnd [OF wp_gen_CreateFlow]) auto
  show ?thesis
  proof (cases "nf_Name nf = [] \<or> \<not> knownFlowTypes (nf_Type nf)")
    case False
    show ?thesis
    proof (cases "if nf_Type nf = FlowIVR then validateIVR L (nf_Spec nf) else None")
      case None
      have val: "nf_Type nf = FlowIVR \<longrightarrow> valid_spec L (nf_Spec nf)"
        using None by (auto simp: validateIVR_None split: if_splits)
      show ?thesis unfolding flows_Create_def Let_def
        using None False val
        by (auto intro!: wp_bnd [OF wp_GetActiveFlow] wp_mono [OF create] split: option.splits)
    qed (use False in \<open>auto simp: flows_Create_def Let_def split: if_splits\<close>)
  qed (auto simp: flows_Create_def)
qed

lemma wp_flows_Get:
  "wp (flows_Get (pg_flows L) org fid) (\<lambda>r w'. w_db w' = w_db w \<and> (case r of
      Inl e \<Rightarrow> e = ErrConn \<or> e = ErrNotFound
    | Inr fd \<Rightarrow> \<exists>row \<in> set (flows (w_db w)). fw_id row = fid \<and> fw_org_id row = org \<and> fd_OrgID fd = org
        \<and> fd_Spec fd = fw_spec row)) w"
  unfolding flows_Get_def pg_flows_simps
  by (rule wp_bnd [OF wp_pg_flow_GetByID]) (auto split: option.splits)

lemma wp_flows_UpdateSpec:
  "wp (flows_UpdateSpec L (pg_flows L) org fid spec) (\<lambda>r w'. w_db w' = w_db w \<or>
     (\<exists>s. lib_jsonb L spec = Some s \<and> valid_spec L spec \<and> w_db w' = (w_db w)\<lparr>flows :=
        upd_where (\<lambda>r. fw_id r = fid \<and> fw_org_id r = org) (\<lambda>r. r\<lparr>fw_spec := s\<rparr>) (flows (w_db w))\<rparr>)) w"
proof -
  have upd: "wp (gen_UpdateFlowSpec L fid spec org) (\<lambda>r w'. w_db w' = w_db v \<or>
     (\<exists>s. lib_jsonb L spec = Some s \<and> w_db w' = (w_db v)\<lparr>flows :=
        upd_where (\<lambda>r. fw_id r = fid \<and> fw_org_id r = org) (\<lambda>r. r\<lparr>fw_spec := s\<rparr>) (flows (w_db v))\<rparr>)) v" for v
    unfolding gen_UpdateFlowSpec_def by (rule wp_db_exec) (auto split: option.splits)
  show ?thesis unfolding flows_UpdateSpec_def pg_flows_simps pg_flow_UpdateSpec_def
    by (rule wp_bnd [OF wp_mono [OF wp_flows_Get, where Q = "\<lambda>r w'. w_db w' = w_db w"]])
       (auto simp: validateIVR_None split: option.splits intro!: wp_mono [OF upd])
qed

lemma active_named_upd_spec:
  "length (active_named (d\<lparr>flows := upd_where P (\<lambda>r. r\<lparr>fw_spec := s\<rparr>) (flows d)\<rparr>) org name)
     = length (active_named d org name)"
proof -
  have "length (filter Q (upd_where P f rows)) = length (filter Q rows)"
    if "\<And>r. Q (f r) = Q r" for Q and f :: "FlowRow \<Rightarrow> FlowRow" and rows
    using that by (induction rows) (auto simp: table_simps)
  then show ?thesis by (simp add: active_named_def)
qed

datatype flow_op = CreateFlow OrgID NewFlow | UpdateFlow OrgID FlowID string

fun run_flow_op :: "libs \<Rightarrow> flow_op \<Rightarrow> world \<Rightarrow> world" where
  "run_flow_op L (CreateFlow org nf) w = snd (flows_Create L (pg_flows L) org nf w)"
| "run_flow_op L (UpdateFlow org fid spec) w = snd (flows_UpdateSpec L (pg_flows L) org fid spec w)"

lemma flow_table_step:
  assumes J: "jsonb_keeps_ivr L" and "routing_ok (w_db w)" and "specs_ok L (w_db w)"
  shows "routing_ok (w_db (run_flow_op L c w)) \<and> specs_ok L (w_db (run_flow_op L c w))"
proof (cases c)
  case (CreateFlow org nf)
  obtain r w' where run: "flows_Create L (pg_flows L) org nf w = (r, w')" by force
  from wpD [OF wp_flows_Create run]
  have "routing_ok (w_db w') \<and> specs_ok L (w_db w')"
  proof (elim disjE exE conjE)
    fix row
    assume row: "w_db w' = (w_db w)\<lparr>flows := flows (w_db w) @ [row]\<rparr>" "fw_org_id row = org" "fw_name row = nf_Name nf"
      "active_named (w_db w) org (nf_Name nf) = []" "lib_jsonb L (nf_Spec nf) = Some (fw_spec row)"
      "fw_type row = FlowIVR \<longrightarrow> valid_spec L (nf_Spec nf)"
    have "routing_ok (w_db w')"
      using assms(2) row(1-4) by (auto simp: routing_ok_def active_named_def)
    moreover have "specs_ok L (w_db w')"
      using assms(3) row J by (auto simp: specs_ok_def valid_spec_def jsonb_keeps_ivr_def)
    ultimately show ?thesis ..
  qed (use assms in auto)
  with CreateFlow run show ?thesis by simp
next
  case (UpdateFlow org fid spec)
  obtain r w' where run: "flows_UpdateSpec L (pg_flows L) org fid spec w = (r, w')" by force
  from wpD [OF wp_flows_UpdateSpec run]
  have "routing_ok (w_db w') \<and> specs_ok L (w_db w')"
    using assms
    by (auto simp: routing_ok_def active_named_upd_spec specs_ok_def jsonb_keeps_ivr_def valid_spec_def
        dest!: set_upd_where split: if_splits)
  with UpdateFlow run show ?thesis by simp
qed

section \<open>Properties\<close>


definition demo_libs :: libs where
  "demo_libs = \<lparr>lib_sha256 = (\<lambda>s. s), lib_hmac = (\<lambda>k m. k @ m), lib_bcrypt = (\<lambda>salt pw. Some pw),
     lib_bcrypt_ok = (\<lambda>h pw. h = pw), lib_seal = (\<lambda>k m. m), lib_open = (\<lambda>k c. Some c), lib_uuid = Some,
     lib_base64url = hex_encode, lib_tz = (\<lambda>z. Some (\<lambda>_. 21600)),
     lib_ivr_json = (\<lambda>s. if s = ''spec'' then Some orderConfirmSpec else None),
     lib_jsonb = Some, lib_collate = (\<lambda>s. int (length s))\<rparr>"


text \<open>
  No flow leaks or changes across tenants. A spec update that reports success
  named a flow of the caller's own org, and whatever it reports, the rows of every other
  org are untouched; reading a flow returns one of the caller's org or \<open>ErrNotFound\<close>.
\<close>

theorem flow_tenancy:
  "(case flows_UpdateSpec L (pg_flows L) org fid spec w of (r, w') \<Rightarrow>
      (r = Inr () \<longrightarrow> (\<exists>row \<in> set (flows (w_db w)). fw_id row = fid \<and> fw_org_id row = org)) \<and>
      filter (\<lambda>row. fw_org_id row \<noteq> org) (flows (w_db w')) = filter (\<lambda>row. fw_org_id row \<noteq> org) (flows (w_db w)))
   \<and> (case flows_Get (pg_flows L) org fid w of (r, w') \<Rightarrow> w_db w' = w_db w \<and>
      (case r of Inl e \<Rightarrow> e = ErrConn \<or> e = ErrNotFound | Inr fd \<Rightarrow> fd_OrgID fd = org))"
proof -
  have own: "wp (flows_UpdateSpec L (pg_flows L) org fid spec) (\<lambda>r w'. r = Inr () \<longrightarrow>
      (\<exists>row \<in> set (flows (w_db w)). fw_id row = fid \<and> fw_org_id row = org)) w"
    unfolding flows_UpdateSpec_def by (rule wp_bnd [OF wp_flows_Get]) (auto intro: wpI)
  have other: "wp (flows_UpdateSpec L (pg_flows L) org fid spec) (\<lambda>r w'.
      filter (\<lambda>row. fw_org_id row \<noteq> org) (flows (w_db w')) = filter (\<lambda>row. fw_org_id row \<noteq> org) (flows (w_db w))) w"
    by (rule wp_mono [OF wp_flows_UpdateSpec]) (auto intro!: filter_upd_where_other)
  show ?thesis
    using wp_conj [OF own other] wp_flows_Get [of L org fid w]
    unfolding wp_def by (auto split: prod.splits sum.splits)
qed

theorem flow_tenancy_witness:
  "filter (\<lambda>row. fw_org_id row \<noteq> ''o'') (flows (w_db (snd (flows_UpdateSpec demo_libs (pg_flows demo_libs)
     ''o'' ''f'' ''spec'' init_world)))) = []"
  using flow_tenancy [where L = demo_libs and org = "''o''" and fid = "''f''" and spec = "''spec''" and w = init_world] by (auto split: prod.splits)

lemma pg_flow_Create_quiet:
  assumes "w_sched w = []" and "lib_jsonb L (nf_Spec nf) = Some s"
    and "\<forall>r \<in> set (flows (w_db w)). fw_id r \<noteq> fst (id_New ''flow'' w)"
  shows "pg_flow_Create L org nf w = (Inr (fst (id_New ''flow'' w)), (snd (id_New ''flow'' w))\<lparr>w_db :=
     (w_db w)\<lparr>flows := flows (w_db w) @ [\<lparr>fw_id = fst (id_New ''flow'' w), fw_org_id = org,
       fw_name = nf_Name nf, fw_version = 1, fw_channel = nf_Channel nf, fw_type = nf_Type nf,
       fw_locale = nf_Locale nf, fw_spec = s, fw_is_active = True, fw_created_at = w_now w\<rparr>]\<rparr>\<rparr>)"
proof -
  have "List.find (\<lambda>r. fw_id r = fst (id_New ''flow'' w)) (flows (w_db w)) = None"
    using assms(3) by (simp add: find_None_iff)
  with assms show ?thesis
    by (simp add: pg_flow_Create_def gen_CreateFlow_def bnd_def draw_eq ret_def db_exec_quiet)
qed

text \<open>
  Concurrent creations break the routing. Two requests that create a flow of
  the same name may both look before either inserts; both then succeed, and the name stands
  for two active flows of the org.
\<close>

theorem concurrent_create_ambiguous:
  "\<exists>L org nf w w1 w2 w3 w4 f1 f2. routing_ok (w_db w)
     \<and> pg_GetActiveFlow L org (nf_Name nf) w = (Inr None, w1)
     \<and> pg_GetActiveFlow L org (nf_Name nf) w1 = (Inr None, w2)
     \<and> pg_flow_Create L org nf w2 = (Inr f1, w3) \<and> pg_flow_Create L org nf w3 = (Inr f2, w4)
     \<and> length (active_named (w_db w4) org (nf_Name nf)) = 2"
proof -
  let ?nf = "\<lparr>nf_Name = ''a'', nf_Channel = ChannelVoice, nf_Type = FlowIVR, nf_Locale = ''en'', nf_Spec = ''spec''\<rparr>"
  let ?mk = "pg_flow_Create demo_libs ''o'' ?nf"
  have get: "pg_GetActiveFlow demo_libs ''o'' ''a'' init_world = (Inr None, init_world)"
    by (simp add: pg_GetActiveFlow_def gen_GetActiveFlowByName_def attempt_def db_read_quiet order_by_desc_def ret_def)
  define row where "row fid = \<lparr>fw_id = fid, fw_org_id = ''o'', fw_name = ''a'', fw_version = 1,
     fw_channel = ChannelVoice, fw_type = FlowIVR, fw_locale = ''en'', fw_spec = ''spec'', fw_is_active = True,
     fw_created_at = 0\<rparr>" for fid
  define f1 where "f1 = fst (id_New ''flow'' init_world)"
  define w3 where "w3 = (snd (id_New ''flow'' init_world))\<lparr>w_db := empty_db\<lparr>flows := [row f1]\<rparr>\<rparr>"
  define f2 where "f2 = fst (id_New ''flow'' w3)"
  define w4 where "w4 = (snd (id_New ''flow'' w3))\<lparr>w_db := empty_db\<lparr>flows := [row f1, row f2]\<rparr>\<rparr>"
  have jb: "lib_jsonb demo_libs s = Some s" for s by (simp add: demo_libs_def)
  have ids: "f1 \<noteq> f2"
    by (simp add: f1_def f2_def w3_def id_New_def rand_bytes_def init_world_def hex_encode_def hex_digit_def upt_rec)
  have w3: "w_sched w3 = []" "w_db w3 = empty_db\<lparr>flows := [row f1]\<rparr>" "w_now w3 = 0"
    by (simp_all add: w3_def)
  have c1: "?mk init_world = (Inr f1, w3)"
    by (subst pg_flow_Create_quiet) (simp_all add: jb f1_def w3_def row_def)
  have c2: "?mk w3 = (Inr f2, w4)"
    by (subst pg_flow_Create_quiet) (use ids in \<open>simp_all add: jb w3 w4_def row_def flip: f2_def\<close>)
  have "routing_ok (w_db init_world)" "length (active_named (w_db w4) ''o'' ''a'') = 2"
    by (simp_all add: routing_ok_def active_named_def w4_def row_def)
  with get c1 c2 show ?thesis
    by (intro exI [of _ demo_libs] exI [of _ "''o''"] exI [of _ ?nf] exI [of _ init_world] exI [of _ w3]
        exI [of _ w4] exI [of _ f1] exI [of _ f2]) simp
qed

definition template_flow :: "Template \<Rightarrow> Flow" where
  "template_flow t = zero_Flow\<lparr>fl_Type := FlowIVR, fl_IVR := tm_Spec t\<rparr>"

lemma menu_flow_ends:
  assumes "iv_Nodes (fl_IVR f) (iv_Entry (fl_IVR f)) = Some (menu_node tts on)"
    and "on ''invalid'' = None"
    and "ran on \<subseteq> set ends" and "list_all (\<lambda>n. nd_Result (node_at f n) \<noteq> []) ends"
  shows "sm_Ended (Simulate f (inp # rest)) \<and> sm_Result (Simulate f (inp # rest)) \<noteq> []"
proof (cases "on inp")
  case None
  with assms(1,2) show ?thesis
    by (auto simp: Simulate_def emit_def node_at_def menu_node_def on_input_def OnTimeout_def OnDTMF_def
        no_answer_hangup_def finish_def Let_def)
next
  case (Some n)
  with assms(3,4) have "nd_Result (node_at f n) \<noteq> []" by (auto simp: ran_def list_all_iff)
  then have "emit f \<lparr>fs_Node = n\<rparr> = (\<lparr>di_Kind = ''hangup'', di_Prompt = nd_Say (node_at f n), di_Gather = None\<rparr>,
      Some \<lparr>ou_Result = nd_Result (node_at f n), ou_Status = StatusCompleted, ou_DurationS = 0\<rparr>)"
    by (simp add: emit_def Let_def)
  moreover have "node_at f (iv_Entry (fl_IVR f)) = menu_node tts on" using assms(1) by (simp add: node_at_def)
  ultimately show ?thesis
    using Some \<open>nd_Result (node_at f n) \<noteq> []\<close>
    by (auto simp: Simulate_def emit_def [of f "\<lparr>fs_Node = iv_Entry (fl_IVR f)\<rparr>"] menu_node_def on_input_def
        OnTimeout_def OnDTMF_def finish_def Let_def)
qed

lemmas template_specs = orderConfirmSpec_def cartRecoverySpec_def deliveryReminderSpec_def

lemma template_ends:
  assumes "fl_IVR f \<in> {orderConfirmSpec, cartRecoverySpec, deliveryReminderSpec}"
  shows "sm_Ended (Simulate f (inp # rest)) \<and> sm_Result (Simulate f (inp # rest)) \<noteq> []"
proof -
  consider "fl_IVR f = orderConfirmSpec" | "fl_IVR f = cartRecoverySpec" | "fl_IVR f = deliveryReminderSpec"
    using assms by blast
  then show ?thesis
  proof cases
    case 1
    show ?thesis
      by (rule menu_flow_ends [where ends = "[''confirmed'', ''cancelled'', ''reschedule'', ''no_input'']"], simp add: 1 template_specs, simp)
         (auto simp: 1 template_specs node_at_def end_node_def ran_def split: if_splits)
  next
    case 2
    show ?thesis
      by (rule menu_flow_ends [where ends = "[''held'', ''declined'', ''no_input'']"], simp add: 2 template_specs, simp)
         (auto simp: 2 template_specs node_at_def end_node_def ran_def split: if_splits)
  next
    case 3
    show ?thesis
      by (rule menu_flow_ends [where ends = "[''available'', ''reschedule'', ''no_input'']"], simp add: 3 template_specs, simp)
         (auto simp: 3 template_specs node_at_def end_node_def ran_def split: if_splits)
  qed
qed

text \<open>
  No starter flow is broken. Every template has its entry node; whatever the
  customer presses first, or if nothing is pressed, the call ends in one turn with a
  non-empty result; and pressing 1 is the confirmation.
\<close>

theorem templates_sound:
  "list_all (\<lambda>t. iv_Nodes (tm_Spec t) (iv_Entry (tm_Spec t)) \<noteq> None
     \<and> (\<forall>inp rest. sm_Ended (Simulate (template_flow t) (inp # rest))
          \<and> sm_Result (Simulate (template_flow t) (inp # rest)) \<noteq> [])
     \<and> sm_Result (Simulate (template_flow t) [''1'']) = ''confirmed'') Templates"
proof -
  have ends: "sm_Ended (Simulate (template_flow t) (inp # rest))
      \<and> sm_Result (Simulate (template_flow t) (inp # rest)) \<noteq> []" if "t \<in> set Templates" for t inp rest
    using that by (intro template_ends) (auto simp: Templates_def template_flow_def)
  have "list_all (\<lambda>t. iv_Nodes (tm_Spec t) (iv_Entry (tm_Spec t)) \<noteq> None
     \<and> sm_Result (Simulate (template_flow t) [''1'']) = ''confirmed'') Templates"
    unfolding Templates_def list.pred_inject
    by (simp_all add: template_flow_def template_specs Simulate_def emit_def node_at_def
        menu_node_def end_node_def on_input_def OnDTMF_def finish_def Let_def)
  with ends show ?thesis by (simp add: list_all_iff)
qed

end
