(* ===== verification/Yaver_Orgs.thy ===== *)
theory Yaver_Orgs
  imports Yaver_Credits Yaver_Flows
begin

text \<open>
  Merchant accounts: the queries of \<open>gen/orgs.sql.go\<close>, the repository of
  \<open>postgres/orgs.go\<close> with its first-login seeding, and the low-balance notification
  (\<open>service/notify\<close>, \<open>email/logsender\<close>).
\<close>

section \<open>Queries (gen/orgs.sql.go)\<close>

definition fk_violation :: go_error where
  "fk_violation = ErrOther ''foreign key violation''"

definition gen_GetOrgByOwner :: "string \<Rightarrow> (string \<times> string) wop" where
  "gen_GetOrgByOwner uid = db_read (\<lambda>t d.
     case List.find (\<lambda>r. or_owner_user_id r = uid) (orgs d) of
       None \<Rightarrow> Inl ErrNoRows | Some r \<Rightarrow> Inr (or_id r, or_name r))"

definition gen_CreateOrg :: "string \<Rightarrow> string \<Rightarrow> string \<Rightarrow> unit wop" where
  "gen_CreateOrg oid name uid = db_exec (\<lambda>t d.
     if List.find (\<lambda>r. or_owner_user_id r = uid) (orgs d) \<noteq> None then Inr ((), d)
     else if List.find (\<lambda>r. or_id r = oid) (orgs d) \<noteq> None then Inl ErrUniqueViolation
     else if List.find (\<lambda>u. ur_id u = uid) (users d) = None then Inl fk_violation
     else Inr ((), d\<lparr>orgs := orgs d @ [\<lparr>or_id = oid, or_name = name, or_owner_user_id = uid,
       or_credits_balance_paisa = 0, or_created_at = t\<rparr>]\<rparr>))"

definition gen_RenameOrg :: "string \<Rightarrow> string \<Rightarrow> unit wop" where
  "gen_RenameOrg oid name = db_exec (\<lambda>t d.
     Inr ((), d\<lparr>orgs := upd_where (\<lambda>r. or_id r = oid) (\<lambda>r. r\<lparr>or_name := name\<rparr>) (orgs d)\<rparr>))"

definition gen_GetOrgOwnerEmail :: "string \<Rightarrow> string wop" where
  "gen_GetOrgOwnerEmail oid = db_read (\<lambda>t d.
     case List.find (\<lambda>r. or_id r = oid) (orgs d) of
       None \<Rightarrow> Inl ErrNoRows
     | Some o' \<Rightarrow> (case List.find (\<lambda>u. ur_id u = or_owner_user_id o') (users d) of
           None \<Rightarrow> Inl ErrNoRows | Some u \<Rightarrow> Inr (deref (ur_email u))))"

section \<open>The repository (postgres/orgs.go)\<close>

definition uuid_Parse :: "libs \<Rightarrow> string \<Rightarrow> string wop" where
  "uuid_Parse L s = (case lib_uuid L s of None \<Rightarrow> fail (ErrOther ''invalid UUID'') | Some u \<Rightarrow> ret u)"

definition nl :: string where "nl = [CHR 0x0A]"

definition defaultOrderConfirmSpec :: string where
  \<open>defaultOrderConfirmSpec = ''{'' @ nl @
  ''  "entry": "greet",'' @ nl @
  ''  "nodes": {'' @ nl @
  ''    "greet":      {"say": {"tts": "Press 1 to confirm your order, 2 to cancel, 3 to reschedule."},'' @ nl @
  ''                   "gather": {"digits": 1, "timeout_s": 6},'' @ nl @
  ''                   "on": {"1": "confirmed", "2": "cancelled", "3": "reschedule", "timeout": "no_input"}},'' @ nl @
  ''    "confirmed":  {"say": {"audio": "confirmed.wav"},  "result": "confirmed",  "end": true},'' @ nl @
  ''    "cancelled":  {"say": {"audio": "cancelled.wav"},  "result": "cancelled",  "end": true},'' @ nl @
  ''    "reschedule": {"say": {"audio": "reschedule.wav"}, "result": "reschedule", "end": true},'' @ nl @
  ''    "no_input":   {"result": "no_answer", "end": true}'' @ nl @
  ''  }'' @ nl @ ''}''\<close>

definition seed_org :: "libs \<Rightarrow> string \<Rightarrow> unit wop" where
  "seed_org L orgID =
     bnd (ignore (gen_CreateFlow L \<lparr>fw_id = ''flow_'' @ orgID, fw_org_id = orgID, fw_name = ''order_confirm'',
            fw_version = 1, fw_channel = ''voice'', fw_type = ''ivr'', fw_locale = ''en'',
            fw_spec = defaultOrderConfirmSpec, fw_is_active = True, fw_created_at = zero_time\<rparr>)) (\<lambda>_.
     bnd (ignore (gen_EnsureCreditAccount orgID)) (\<lambda>_.
     attempt (gen_AdjustBalance orgID 500) (\<lambda>q. case q of
       Inr _ \<Rightarrow> ignore (gen_AddLedger (''seed_'' @ orgID) orgID 500 ''signup_grant'')
     | Inl _ \<Rightarrow> ret ())))"

definition pg_EnsureForUser :: "libs \<Rightarrow> string \<Rightarrow> string \<Rightarrow> Org wop" where
  "pg_EnsureForUser L userID name =
     bnd (uuid_Parse L userID) (\<lambda>uid.
     attempt (gen_GetOrgByOwner uid) (\<lambda>q. case q of
       Inr (oid, nm) \<Rightarrow> ret \<lparr>og_ID = oid, og_Name = nm\<rparr>
     | Inl e \<Rightarrow>
         if e \<noteq> ErrNoRows then fail e
         else
           bnd (draw new_uuid) (\<lambda>orgID.
           bnd (gen_CreateOrg orgID name uid) (\<lambda>_.
           bnd (gen_GetOrgByOwner uid) (\<lambda>(rid, rname).
           bnd (if rid = orgID then seed_org L orgID else ret ()) (\<lambda>_.
           ret \<lparr>og_ID = rid, og_Name = rname\<rparr>))))))"

definition pg_OwnerEmail :: "libs \<Rightarrow> OrgID \<Rightarrow> string wop" where
  "pg_OwnerEmail L org = bnd (uuid_Parse L org) gen_GetOrgOwnerEmail"

definition pg_Rename :: "libs \<Rightarrow> OrgID \<Rightarrow> string \<Rightarrow> unit wop" where
  "pg_Rename L org name = bnd (uuid_Parse L org) (\<lambda>oid. gen_RenameOrg oid name)"

definition pg_orgs :: "libs \<Rightarrow> OrgStore" where
  "pg_orgs L = \<lparr>ors_EnsureForUser = pg_EnsureForUser L, ors_Rename = pg_Rename L, ors_OwnerEmail = pg_OwnerEmail L\<rparr>"

section \<open>Low-balance notification (service/notify, email/logsender)\<close>

definition email_logsender :: EmailSender where
  "email_logsender = \<lparr>eml_Send = (\<lambda>to subject body. perform (emit_effect (EmailSent to subject body)))\<rparr>"

definition notify_LowBalance :: "EmailSender \<Rightarrow> OrgStore \<Rightarrow> OrgID \<Rightarrow> int \<Rightarrow> world \<Rightarrow> world" where
  "notify_LowBalance email store org balance w =
     (case ors_OwnerEmail store org w of
        (Inl e, w1) \<Rightarrow> w1
      | (Inr to, w1) \<Rightarrow>
          if to = [] then w1
          else snd (eml_Send email to ''Your Yaver credits are running low''
            (''Your Yaver balance is down to '' @ go_itoa balance @
             '' credits. Top up to keep your calls and chats running without interruption.'') w1))"

definition notify_service :: "EmailSender \<Rightarrow> OrgStore \<Rightarrow> CreditNotifier" where
  "notify_service email store = \<lparr>ntf_LowBalance = notify_LowBalance email store\<rparr>"

section \<open>Facts\<close>

lemma wp_uuid_Parse: "wp (uuid_Parse L s) (\<lambda>r w'. w' = w \<and> (\<forall>u. r = Inr u \<longrightarrow> lib_uuid L s = Some u)) w"
  by (auto simp: uuid_Parse_def split: option.splits)

lemma wp_GetOrgByOwner:
  "wp (gen_GetOrgByOwner uid) (\<lambda>r w'. w_db w' = w_db w \<and> (case r of
      Inl e \<Rightarrow> e = ErrConn \<or> e = ErrNoRows \<and> List.find (\<lambda>r. or_owner_user_id r = uid) (orgs (w_db w)) = None
    | Inr (oid, nm) \<Rightarrow> \<exists>row. List.find (\<lambda>r. or_owner_user_id r = uid) (orgs (w_db w)) = Some row
        \<and> oid = or_id row \<and> nm = or_name row)) w"
  unfolding gen_GetOrgByOwner_def by (rule wp_db_read) (auto split: option.splits)

text \<open>The seeding touches flows, credits and the ledger only.\<close>

definition same_orgs :: "database \<Rightarrow> database \<Rightarrow> bool" where
  "same_orgs d d' \<longleftrightarrow> orgs d' = orgs d \<and> users d' = users d"

lemma preorder_same_orgs [simp, intro]: "preorder_rel same_orgs"
  by (rule preorder_relI) (auto simp: same_orgs_def)

lemma same_orgs_seed: "mrel (dbrel same_orgs) (seed_org L orgID)"
proof -
  have "mrel (dbrel same_orgs) (gen_CreateFlow L row)" for row
    unfolding gen_CreateFlow_def by (rule mrel_db_exec) (auto simp: same_orgs_def split: option.splits if_splits)
  moreover have "mrel (dbrel same_orgs) (gen_EnsureCreditAccount orgID)"
    unfolding gen_EnsureCreditAccount_def by (rule mrel_db_exec) (auto simp: same_orgs_def split: option.splits)
  moreover have "mrel (dbrel same_orgs) (gen_AdjustBalance orgID 500)"
    unfolding gen_AdjustBalance_def by (rule mrel_db_exec) (auto simp: same_orgs_def split: option.splits if_splits)
  moreover have "mrel (dbrel same_orgs) (gen_AddLedger lid orgID 500 why)" for lid why
    unfolding gen_AddLedger_def by (rule mrel_db_exec) (auto simp: same_orgs_def split: option.splits)
  ultimately show ?thesis unfolding seed_org_def by (intro mrel_intros) auto
qed

definition owners_unique :: "database \<Rightarrow> bool" where
  "owners_unique d \<longleftrightarrow> distinct (map or_owner_user_id (orgs d)) \<and> distinct (map or_id (orgs d))"

lemma wp_CreateOrg:
  "wp (gen_CreateOrg oid name uid) (\<lambda>r w'. users (w_db w') = users (w_db w) \<and> (owners_unique (w_db w) \<longrightarrow> owners_unique (w_db w'))
     \<and> (\<forall>row \<in> set (orgs (w_db w)). row \<in> set (orgs (w_db w')))) w"
  unfolding gen_CreateOrg_def
  by (rule wp_db_exec) (auto simp: owners_unique_def find_None_iff)

lemma same_orgs_wp:
  "wp (if c then seed_org L orgID else ret ()) (\<lambda>r w'. orgs (w_db w') = orgs (w_db w) \<and> users (w_db w') = users (w_db w)) w"
  using wp_mrel [OF same_orgs_seed] by (simp add: dbrel_def same_orgs_def)

text \<open>What \<open>EnsureForUser\<close> establishes when it succeeds, and what it keeps in any case.\<close>

lemma wp_EnsureForUser:
  "wp (pg_EnsureForUser L userID name) (\<lambda>r w'. (owners_unique (w_db w) \<longrightarrow> owners_unique (w_db w')) \<and>
     (\<forall>row \<in> set (orgs (w_db w)). row \<in> set (orgs (w_db w'))) \<and>
     (\<forall>o'. r = Inr o' \<longrightarrow> (\<exists>uid row. lib_uuid L userID = Some uid \<and>
        List.find (\<lambda>r. or_owner_user_id r = uid) (orgs (w_db w')) = Some row \<and>
        o' = \<lparr>og_ID = or_id row, og_Name = or_name row\<rparr>))) w"
  (is "wp _ ?Q w")
  unfolding pg_EnsureForUser_def
proof (rule wp_bnd [OF wp_uuid_Parse], simp, goal_cases)
  case (1 uid w0)
  then have w0: "w0 = w" and uid: "lib_uuid L userID = Some uid" by simp_all
  have last: "wp (bnd (if c then seed_org L orgID else ret ()) (\<lambda>_. ret \<lparr>og_ID = rid, og_Name = rname\<rparr>)) ?Q v"
    if "orgs (w_db v) = os" "owners_unique (w_db w) \<longrightarrow> owners_unique (w_db v)"
      "\<forall>row \<in> set (orgs (w_db w)). row \<in> set os"
      "List.find (\<lambda>r. or_owner_user_id r = uid) os = Some row" "rid = or_id row" "rname = or_name row"
    for c orgID rid rname v os row
    by (rule wp_bnd [OF same_orgs_wp]) (use that uid in \<open>auto simp: owners_unique_def\<close>)
  show ?case
  proof (rule wp_attempt [OF wp_GetOrgByOwner], goal_cases)
    case (1 r v)
    show ?case
    proof (cases r)
      case (Inr p)
      with 1 w0 uid show ?thesis by (auto simp: owners_unique_def)
    next
      case (Inl e)
      show ?thesis
      proof (cases "e = ErrNoRows")
        case True
        have v: "w_db v = w_db w" using 1 w0 by simp
        show ?thesis unfolding Inl sum.case True simp_thms if_False wp_bnd_simps
        proof (rule wp_bnd [OF wp_CreateOrg], goal_cases)
          case (2 _ w2)
          show ?case
          proof (rule wp_bnd [OF wp_GetOrgByOwner], goal_cases)
            case (2 p w3)
            then obtain row where row: "List.find (\<lambda>r. or_owner_user_id r = uid) (orgs (w_db w2)) = Some row"
              "p = (or_id row, or_name row)" "w_db w3 = w_db w2" by (cases p) auto
            show ?case unfolding row(2) prod.case
              by (rule last [OF _ _ _ row(1)]) (use \<open>_ \<and> (owners_unique _ \<longrightarrow> _) \<and> _\<close> row v in simp_all)
          qed (use 2 v in auto)
        qed (use v in auto)
      next
        case False
        with Inl 1 w0 show ?thesis by (auto simp: owners_unique_def)
      qed
    qed
  qed
qed

section \<open>Properties\<close>

text \<open>
  Signing in again finds the same account. Whenever two consecutive calls of
  \<open>EnsureForUser\<close> for a user succeed, they return the same org, the second one changes
  no table, whatever name it asks for, and no user ever owns two orgs.
\<close>

theorem EnsureForUser_idempotent:
  assumes "pg_EnsureForUser L userID name w = (Inr o1, w1)"
    and "pg_EnsureForUser L userID name' w1 = (Inr o2, w2)" and "owners_unique (w_db w)"
  shows "o2 = o1 \<and> w_db w2 = w_db w1 \<and> owners_unique (w_db w1)"
proof -
  from wpD [OF wp_EnsureForUser assms(1)] assms(3) obtain uid row where
    uid: "lib_uuid L userID = Some uid" and
    row: "List.find (\<lambda>r. or_owner_user_id r = uid) (orgs (w_db w1)) = Some row" and
    o1: "o1 = \<lparr>og_ID = or_id row, og_Name = or_name row\<rparr>" and u: "owners_unique (w_db w1)" by blast
  have "wp (pg_EnsureForUser L userID name') (\<lambda>r w'. w_db w' = w_db w1 \<and> (\<forall>o'. r = Inr o' \<longrightarrow> o' = o1)) w1"
    unfolding pg_EnsureForUser_def
  proof (rule wp_bnd [OF wp_uuid_Parse], simp, goal_cases)
    case (1 uid' w0)
    with uid have w0: "w0 = w1" "uid' = uid" by simp_all
    show ?case unfolding w0
      by (rule wp_attempt [OF wp_GetOrgByOwner]) (use row o1 in \<open>auto split: sum.splits\<close>)
  qed
  from wpD [OF this assms(2)] u show ?thesis by simp
qed

text \<open>A world with one signed-up user, and the evaluation rules of a sign-in.\<close>

definition new_user_world :: "(bool \<times> nat) list \<Rightarrow> world" where
  "new_user_world sched = init_world\<lparr>w_sched := sched, w_db := empty_db\<lparr>users := [\<lparr>ur_id = ''u1'',
     ur_phone = Some ''+8801712345678'', ur_email = None, ur_name = None, ur_created_at = 0,
     ur_password_hash = None\<rparr>]\<rparr>\<rparr>"

lemmas ensure_eval = pg_EnsureForUser_def uuid_Parse_def gen_GetOrgByOwner_def gen_CreateOrg_def seed_org_def
  gen_CreateFlow_def gen_EnsureCreditAccount_def gen_AdjustBalance_def gen_AddLedger_def
  bnd_def attempt_def ignore_def ret_def fail_def draw_eq in_int32_def upd_where_def

lemma demo_libs_simps [simp]: "lib_uuid demo_libs = Some" "lib_jsonb demo_libs = Some"
  by (simp_all add: demo_libs_def)

lemma ensure_demo:
  "\<exists>o1 w1. pg_EnsureForUser demo_libs ''u1'' ''Shop'' (new_user_world []) = (Inr o1, w1) \<and> w_sched w1 = []"
  by (simp add: ensure_eval new_user_world_def db_exec_quiet db_read_quiet)

theorem EnsureForUser_idempotent_witness:
  "\<exists>o1 w1 o2 w2. pg_EnsureForUser demo_libs ''u1'' ''Shop'' (new_user_world []) = (Inr o1, w1)
     \<and> pg_EnsureForUser demo_libs ''u1'' ''Other'' w1 = (Inr o2, w2) \<and> o2 = o1 \<and> w_db w2 = w_db w1"
proof -
  obtain o1 w1 where r1: "pg_EnsureForUser demo_libs ''u1'' ''Shop'' (new_user_world []) = (Inr o1, w1)"
    and s1: "w_sched w1 = []" using ensure_demo by blast
  from wpD [OF wp_EnsureForUser r1] obtain row where
    "List.find (\<lambda>r. or_owner_user_id r = ''u1'') (orgs (w_db w1)) = Some row" by auto
  with s1 have r2: "pg_EnsureForUser demo_libs ''u1'' ''Other'' w1 = (Inr \<lparr>og_ID = or_id row, og_Name = or_name row\<rparr>, w1)"
    by (simp add: ensure_eval db_read_quiet)
  have "owners_unique (w_db (new_user_world []))" by (simp add: owners_unique_def new_user_world_def)
  from EnsureForUser_idempotent [OF r1 r2 this] r1 r2 show ?thesis by blast
qed

text \<open>
  The signup grant can miss its ledger entry for good. When the last of the
  seeding statements fails, the sign-in still succeeds with 500 credits no ledger entry
  accounts for, and signing in again does not repair it.
\<close>

theorem signup_grant_unaudited:
  "\<exists>w o1 w1 w2. audited (w_db w)
     \<and> pg_EnsureForUser demo_libs ''u1'' ''Shop'' w = (Inr o1, w1)
     \<and> pg_EnsureForUser demo_libs ''u1'' ''Shop'' w1 = (Inr o1, w2)
     \<and> balance_of (w_db w2) (og_ID o1) = 500 \<and> ledger_total (w_db w2) (og_ID o1) = 0"
proof -
  let ?w = "new_user_world (replicate 6 (False, 0) @ [(True, 0)])"
  have sched: "replicate 6 x = [x, x, x, x, x, x]" for x :: "bool \<times> nat" by (simp add: numeral_eq_Suc)
  have aud: "audited (w_db ?w)" by (simp add: audited_def credit_view_defs new_user_world_def)
  have "\<exists>o1 w1. pg_EnsureForUser demo_libs ''u1'' ''Shop'' ?w = (Inr o1, w1) \<and> w_sched w1 = []
     \<and> balance_of (w_db w1) (og_ID o1) = 500 \<and> ledger_total (w_db w1) (og_ID o1) = 0"
    by (simp add: ensure_eval new_user_world_def db_exec_def db_read_def env_step_def sched credit_view_defs)
  then obtain o1 w1 where r1: "pg_EnsureForUser demo_libs ''u1'' ''Shop'' ?w = (Inr o1, w1)" and s1: "w_sched w1 = []"
    and b: "balance_of (w_db w1) (og_ID o1) = 500" "ledger_total (w_db w1) (og_ID o1) = 0" by blast
  from wpD [OF wp_EnsureForUser r1] obtain row where
    row: "List.find (\<lambda>r. or_owner_user_id r = ''u1'') (orgs (w_db w1)) = Some row"
      "o1 = \<lparr>og_ID = or_id row, og_Name = or_name row\<rparr>" by auto
  with s1 have "pg_EnsureForUser demo_libs ''u1'' ''Shop'' w1 = (Inr o1, w1)"
    by (simp add: ensure_eval db_read_quiet)
  with aud r1 b show ?thesis by blast
qed

end
