(* ===== verification/Yaver_Json.thy ===== *)
theory Yaver_Json
  imports Yaver_World
begin

text \<open>
  The JSON the program writes: strings as \<open>encoding/json\<close> quotes them (HTML characters
  escaped, as \<open>Marshal\<close> does by default) and objects of string fields with sorted keys.
  Bytes above 127 are taken as parts of valid UTF-8 and copied.
\<close>

definition json_char :: "char \<Rightarrow> string" where
  "json_char c = (let n = of_char c :: nat in
     if c = CHR 0x22 then [CHR 0x5C, CHR 0x22]
     else if c = CHR 0x5C then [CHR 0x5C, CHR 0x5C]
     else if n = 8 then [CHR 0x5C, CHR ''b'']
     else if n = 12 then [CHR 0x5C, CHR ''f'']
     else if n = 10 then [CHR 0x5C, CHR ''n'']
     else if n = 13 then [CHR 0x5C, CHR ''r'']
     else if n = 9 then [CHR 0x5C, CHR ''t'']
     else if n < 32 \<or> c \<in> {CHR ''<'', CHR ''>'', CHR ''&''}
     then [CHR 0x5C] @ ''u00'' @ [hex_digit (n div 16), hex_digit (n mod 16)]
     else [c])"

definition json_string :: "string \<Rightarrow> string" where
  "json_string s = [CHR 0x22] @ concat (map json_char s) @ [CHR 0x22]"

text \<open>\<open>json.Marshal\<close> of a map from strings to strings: the fields in key order.\<close>

fun json_fields :: "(string \<times> string) list \<Rightarrow> string" where
  "json_fields [] = []"
| "json_fields [(k, v)] = json_string k @ '':'' @ json_string v"
| "json_fields ((k, v) # fs) = json_string k @ '':'' @ json_string v @ '','' @ json_fields fs"

definition json_object :: "(string \<times> string) list \<Rightarrow> string" where
  "json_object fs = ''{'' @ json_fields fs @ ''}''"

text \<open>No quote, backslash or control character of the text reaches the output unescaped.\<close>

lemma json_char_safe:
  "c' \<in> set (json_char c) \<Longrightarrow> 32 \<le> (of_char c' :: nat)"
  by (auto simp: json_char_def Let_def hex_digit_def split: if_splits)

end
