(* ===== verification/Yaver_Calls.thy ===== *)
theory Yaver_Calls
  imports Yaver_Orgs Yaver_Json
begin

text \<open>
  Voice calls: the call, outbox and call-policy queries, their repositories
  (\<open>postgres/calls.go\<close>, \<open>postgres/callpolicy.go\<close>, \<open>OutcomeRepo\<close> of
  \<open>postgres/webhooks.go\<close>), the calls service (\<open>service/calls\<close>), the mock and
  LiveKit providers and the in-process orchestrator.
\<close>

section \<open>Queries (gen/calls.sql.go, gen/callpolicy.sql.go, gen/webhooks.sql.go)\<close>

definition gen_CreateCall :: "CallRow \<Rightarrow> unit wop" where
  "gen_CreateCall row = db_exec (\<lambda>t d.
     if List.find (\<lambda>r. cw_id r = cw_id row) (calls d) \<noteq> None then Inl ErrUniqueViolation
     else Inr ((), d\<lparr>calls := calls d @ [row\<lparr>cw_created_at := t, cw_recording_url := None, cw_transcript := None\<rparr>]\<rparr>))"

definition gen_GetCall :: "string \<Rightarrow> CallRow wop" where
  "gen_GetCall cid = db_read (\<lambda>t d.
     case List.find (\<lambda>r. cw_id r = cid) (calls d) of None \<Rightarrow> Inl ErrNoRows | Some r \<Rightarrow> Inr r)"

definition gen_AttachCallMedia :: "string \<Rightarrow> string option \<Rightarrow> string option \<Rightarrow> unit wop" where
  "gen_AttachCallMedia cid recording transcript = db_exec (\<lambda>t d.
     Inr ((), d\<lparr>calls := upd_where (\<lambda>r. cw_id r = cid)
       (\<lambda>r. r\<lparr>cw_recording_url := recording, cw_transcript := transcript\<rparr>) (calls d)\<rparr>))"

definition gen_CallSummary :: "string \<Rightarrow> (int \<times> int \<times> int \<times> int) wop" where
  "gen_CallSummary org = db_read (\<lambda>t d.
     let rows = filter (\<lambda>r. cw_org_id r = org) (calls d);
         count = (\<lambda>P. int (length (filter P rows)))
     in Inr (count (\<lambda>_. True), count (\<lambda>r. cw_result r = Some ''confirmed''),
          count (\<lambda>r. cw_result r = Some ''cancelled''), count (\<lambda>r. cw_created_at r \<ge> t - 86400 * second)))"

definition gen_ListCallsByOrg :: "string \<Rightarrow> int \<Rightarrow> CallRow list wop" where
  "gen_ListCallsByOrg org limit = db_read (\<lambda>t d.
     if limit < 0 then Inl (ErrOther ''LIMIT must not be negative'')
     else Inr (take (nat limit) (order_by_desc cw_created_at (filter (\<lambda>r. cw_org_id r = org) (calls d)))))"

definition gen_DeleteCallsBefore :: "time \<Rightarrow> int wop" where
  "gen_DeleteCallsBefore cutoff = db_exec (\<lambda>t d.
     Inr (int (length (filter (\<lambda>r. cw_created_at r < cutoff) (calls d))),
       d\<lparr>calls := filter (\<lambda>r. \<not> cw_created_at r < cutoff) (calls d)\<rparr>))"

definition next_outbox_id :: "OutboxRow list \<Rightarrow> int" where
  "next_outbox_id rows = fold max (map ox_id rows) 0 + 1"

definition gen_InsertOutbox :: "libs \<Rightarrow> string \<Rightarrow> string \<Rightarrow> string \<Rightarrow> unit wop" where
  "gen_InsertOutbox L org event payload = db_exec (\<lambda>t d.
     case lib_jsonb L payload of
       None \<Rightarrow> Inl invalid_json
     | Some p \<Rightarrow> Inr ((), d\<lparr>webhook_outbox := webhook_outbox d @ [\<lparr>ox_id = next_outbox_id (webhook_outbox d),
         ox_org_id = org, ox_event = event, ox_payload = p, ox_created_at = t, ox_dispatched_at = None\<rparr>]\<rparr>))"

definition gen_GetCallPolicy :: "string \<Rightarrow> PolicyRow wop" where
  "gen_GetCallPolicy org = db_read (\<lambda>t d.
     case List.find (\<lambda>r. pl_org_id r = org) (org_call_policy d) of None \<Rightarrow> Inl ErrNoRows | Some r \<Rightarrow> Inr r)"

definition gen_UpsertCallPolicy :: "PolicyRow \<Rightarrow> unit wop" where
  "gen_UpsertCallPolicy row = db_exec (\<lambda>t d.
     if List.find (\<lambda>r. pl_org_id r = pl_org_id row) (org_call_policy d) = None
     then Inr ((), d\<lparr>org_call_policy := org_call_policy d @ [row]\<rparr>)
     else Inr ((), d\<lparr>org_call_policy := upd_where (\<lambda>r. pl_org_id r = pl_org_id row) (\<lambda>_. row) (org_call_policy d)\<rparr>))"

section \<open>Repositories\<close>

definition call_row :: "Call \<Rightarrow> CallRow" where
  "call_row c = \<lparr>cw_id = ca_ID c, cw_org_id = ca_OrgID c, cw_flow_id = strPtr (ca_FlowID c),
     cw_provider_call_id = strPtr (ca_ProviderCallID c), cw_direction = ca_Direction c,
     cw_status = ca_Status c, cw_result = strPtr (ca_Result c), cw_created_at = zero_time,
     cw_recording_url = None, cw_transcript = None\<rparr>"

definition pg_call_Create :: "Call \<Rightarrow> unit wop" where
  "pg_call_Create c = gen_CreateCall (call_row c)"

definition pg_call_Get :: "CallID \<Rightarrow> Call wop" where
  "pg_call_Get cid = attempt (gen_GetCall cid) (\<lambda>q. case q of
       Inl e \<Rightarrow> if e = ErrNoRows then fail ErrNotFound else fail e
     | Inr r \<Rightarrow> ret \<lparr>ca_ID = cw_id r, ca_OrgID = cw_org_id r, ca_FlowID = deref (cw_flow_id r),
         ca_ProviderCallID = deref (cw_provider_call_id r), ca_Direction = cw_direction r,
         ca_Status = cw_status r, ca_Result = deref (cw_result r),
         ca_RecordingURL = deref (cw_recording_url r), ca_Transcript = deref (cw_transcript r),
         ca_CreatedAt = cw_created_at r\<rparr>)"

definition pg_call_ListByOrg :: "OrgID \<Rightarrow> int \<Rightarrow> Call list wop" where
  "pg_call_ListByOrg org limit = bnd (gen_ListCallsByOrg org (go_int32 limit)) (\<lambda>rows.
     ret (map (\<lambda>r. \<lparr>ca_ID = cw_id r, ca_OrgID = cw_org_id r, ca_FlowID = deref (cw_flow_id r),
         ca_ProviderCallID = deref (cw_provider_call_id r), ca_Direction = cw_direction r,
         ca_Status = cw_status r, ca_Result = deref (cw_result r), ca_RecordingURL = [],
         ca_Transcript = [], ca_CreatedAt = cw_created_at r\<rparr>) rows))"

definition pg_call_AttachMedia :: "CallID \<Rightarrow> string \<Rightarrow> string \<Rightarrow> unit wop" where
  "pg_call_AttachMedia cid url transcript = gen_AttachCallMedia cid (strPtr url) (strPtr transcript)"

definition pg_call_DeleteBefore :: "time \<Rightarrow> int wop" where
  "pg_call_DeleteBefore cutoff = gen_DeleteCallsBefore cutoff"

definition pg_call_Summary :: "OrgID \<Rightarrow> CallSummary wop" where
  "pg_call_Summary org = bnd (gen_CallSummary org) (\<lambda>(total, confirmed, cancelled, today).
     ret \<lparr>cs_Total = total, cs_Confirmed = confirmed, cs_Cancelled = cancelled, cs_Today = today\<rparr>)"

definition pg_calls :: CallRepo where
  "pg_calls = \<lparr>clr_Create = pg_call_Create, clr_Get = pg_call_Get, clr_ListByOrg = pg_call_ListByOrg,
     clr_Summary = pg_call_Summary, clr_AttachMedia = pg_call_AttachMedia,
     clr_DeleteBefore = pg_call_DeleteBefore\<rparr>"

definition pg_RecordCallOutcome :: "libs \<Rightarrow> Call \<Rightarrow> OutboxEvent option \<Rightarrow> unit wop" where
  "pg_RecordCallOutcome L c outbox = with_tx (
     bnd (gen_CreateCall (call_row c)) (\<lambda>_.
     bnd (case outbox of None \<Rightarrow> ret ()
          | Some ob \<Rightarrow> gen_InsertOutbox L (ca_OrgID c) (ob_Event ob) (ob_Payload ob)) (\<lambda>_.
     ret (Committed ()))))"

definition pg_outcomes :: "libs \<Rightarrow> OutcomeRepo" where
  "pg_outcomes L = \<lparr>otr_RecordCallOutcome = pg_RecordCallOutcome L\<rparr>"

definition pg_policy_Get :: "OrgID \<Rightarrow> CallPolicy wop" where
  "pg_policy_Get org = attempt (gen_GetCallPolicy org) (\<lambda>q. case q of
       Inl e \<Rightarrow> if e = ErrNoRows then ret DefaultCallPolicy else fail e
     | Inr r \<Rightarrow> ret \<lparr>cl_WindowStart = pl_window_start r, cl_WindowEnd = pl_window_end r,
         cl_Timezone = pl_timezone r, cl_MaxRetries = pl_max_retries r\<rparr>)"

definition pg_policy_Upsert :: "OrgID \<Rightarrow> CallPolicy \<Rightarrow> unit wop" where
  "pg_policy_Upsert org p = gen_UpsertCallPolicy \<lparr>pl_org_id = org,
     pl_window_start = go_int16 (cl_WindowStart p), pl_window_end = go_int16 (cl_WindowEnd p),
     pl_timezone = cl_Timezone p, pl_max_retries = go_int16 (cl_MaxRetries p)\<rparr>"

definition pg_policy :: CallPolicyRepo where
  "pg_policy = \<lparr>plr_Get = pg_policy_Get, plr_Upsert = pg_policy_Upsert\<rparr>"

section \<open>Voice providers (voice/mock, voice/livekit)\<close>

definition mock_PlaceCall :: "CallRequest \<Rightarrow> ProviderCallID wop" where
  "mock_PlaceCall req = bnd (draw (id_New ''mockcall'')) (\<lambda>pid.
     bnd (perform (emit_effect (Dialed req pid))) (\<lambda>_. ret pid))"

definition mock_provider :: VoiceProvider where
  "mock_provider = \<lparr>vp_PlaceCall = mock_PlaceCall\<rparr>"

text \<open>
  LiveKit's \<open>CreateSIPParticipant\<close> is a remote call: given the trunk, the number and the
  room, an error or the SIP call id and the participant id.
\<close>

definition livekit_PlaceCall ::
  "(string \<Rightarrow> string \<Rightarrow> string \<Rightarrow> (string \<times> string) wop) \<Rightarrow> string \<Rightarrow> CallRequest \<Rightarrow> ProviderCallID wop" where
  "livekit_PlaceCall create trunkID req =
     bnd (draw (id_New ''rm'')) (\<lambda>rm.
     attempt (create trunkID (rq_ToPhone req) (''call-'' @ rm)) (\<lambda>q. case q of
       Inl e \<Rightarrow> fail (ErrOther ''livekit create sip participant'')
     | Inr (sipCallId, participantId) \<Rightarrow>
         (let callID = (if sipCallId = [] then participantId else sipCallId) in
          bnd (perform (emit_effect (Dialed req callID))) (\<lambda>_. ret callID))))"

section \<open>The calls service (service/calls)\<close>

abbreviation creditsPerCall :: int where "creditsPerCall \<equiv> 1"

record CallsService =
  ck_provider :: VoiceProvider
  ck_outcomes :: OutcomeRepo
  ck_calls :: CallRepo
  ck_flows :: FlowRepo
  ck_credits :: CreditRepo
  ck_policy :: CallPolicyRepo
  ck_notifier :: CreditNotifier
  ck_activity :: "ActivityPublisher option"

definition calls_Policy :: "CallsService \<Rightarrow> OrgID \<Rightarrow> CallPolicy wop" where
  "calls_Policy s org = plr_Get (ck_policy s) org"

definition calls_SavePolicy :: "libs \<Rightarrow> CallsService \<Rightarrow> OrgID \<Rightarrow> CallPolicy \<Rightarrow> unit wop" where
  "calls_SavePolicy L s org p =
     (if \<not> Valid (lib_tz L) p then fail ErrInvalidCallPolicy else plr_Upsert (ck_policy s) org p)"

definition calls_List :: "CallsService \<Rightarrow> OrgID \<Rightarrow> int \<Rightarrow> Call list wop" where
  "calls_List s org limit =
     clr_ListByOrg (ck_calls s) org (if limit \<le> 0 \<or> limit > 200 then 50 else limit)"

definition calls_Summary :: "CallsService \<Rightarrow> OrgID \<Rightarrow> CallSummary wop" where
  "calls_Summary s org = clr_Summary (ck_calls s) org"

definition calls_Get :: "CallsService \<Rightarrow> OrgID \<Rightarrow> CallID \<Rightarrow> Call wop" where
  "calls_Get s org cid = bnd (clr_Get (ck_calls s) cid) (\<lambda>c.
     if ca_OrgID c \<noteq> org then fail ErrNotFound else ret c)"

definition outcomeEvent :: "Call \<Rightarrow> OutboxEvent" where
  "outcomeEvent c = (let event = ''call.'' @ ca_Status c in
     \<lparr>ob_Event = event, ob_Payload = json_object [(''call_id'', ca_ID c), (''event'', event),
        (''result'', ca_Result c), (''status'', ca_Status c)]\<rparr>)"

definition calls_publish :: "CallsService \<Rightarrow> ActivityEvent \<Rightarrow> world \<Rightarrow> world" where
  "calls_publish s e w = (case ck_activity s of None \<Rightarrow> w | Some a \<Rightarrow> act_Publish a e w)"

definition calls_RunTestCall ::
  "CallsService \<Rightarrow> OrgID \<Rightarrow> string \<Rightarrow> string \<Rightarrow> string \<Rightarrow> (Outcome \<times> Call) wop" where
  "calls_RunTestCall s org toPhone digit flowName =
     bnd (flr_GetActiveFlow (ck_flows s) org flowName) (\<lambda>found. case found of
       None \<Rightarrow> fail ErrNotFound
     | Some flow \<Rightarrow>
         bnd (cr_TryDeduct (ck_credits s) org creditsPerCall ''call'') (\<lambda>(ok, _).
         if \<not> ok then fail ErrInsufficientCredits
         else
           bnd (vp_PlaceCall (ck_provider s)
                  \<lparr>rq_OrgID = org, rq_ToPhone = toPhone, rq_CallerID = [], rq_Flow = flow\<rparr>) (\<lambda>pid.
           case (case Start flow of (_, st, out) \<Rightarrow>
                   (case out of None \<Rightarrow> snd (fst (OnDTMF flow st digit)) | Some o' \<Rightarrow> Some o')) of
             None \<Rightarrow> fail PanicNilDeref
           | Some out \<Rightarrow>
               bnd (draw (id_New ''call'')) (\<lambda>cid.
               bnd (gets clock_Now) (\<lambda>now.
               let call = \<lparr>ca_ID = cid, ca_OrgID = org, ca_FlowID = fl_ID flow, ca_ProviderCallID = pid,
                     ca_Direction = Outbound, ca_Status = ou_Status out, ca_Result = ou_Result out,
                     ca_RecordingURL = [], ca_Transcript = [], ca_CreatedAt = now\<rparr> in
               bnd (otr_RecordCallOutcome (ck_outcomes s) call (Some (outcomeEvent call))) (\<lambda>_.
               bnd (perform (calls_publish s \<lparr>av_Type = ''call.'' @ ca_Status call, av_OrgID = org,
                      av_Title = ''Call '' @ ca_Status call, av_Detail = ca_Result call,
                      av_At = ca_CreatedAt call\<rparr>)) (\<lambda>_.
               ret (out, call))))))))"

definition calls_PlaceCall :: "libs \<Rightarrow> CallsService \<Rightarrow> PlaceCallInput \<Rightarrow> unit wop" where
  "calls_PlaceCall L s inp =
     bnd (plr_Get (ck_policy s) (pc_OrgID inp)) (\<lambda>pol.
     bnd (gets clock_Now) (\<lambda>now.
     if \<not> Allows (lib_tz L) pol now then fail ErrOutsideCallWindow
     else
       bnd (cr_TryDeduct (ck_credits s) (pc_OrgID inp) creditsPerCall ''call'') (\<lambda>(ok, balance).
       if \<not> ok then fail ErrInsufficientCredits
       else
         bnd (if balance \<le> LowBalanceThreshold \<and> balance + creditsPerCall > LowBalanceThreshold
              then perform (ntf_LowBalance (ck_notifier s) (pc_OrgID inp) balance) else ret ()) (\<lambda>_.
         bnd (vp_PlaceCall (ck_provider s)
                \<lparr>rq_OrgID = pc_OrgID inp, rq_ToPhone = pc_ToPhone inp, rq_CallerID = [], rq_Flow = zero_Flow\<rparr>) (\<lambda>pid.
         bnd (draw (id_New ''call'')) (\<lambda>cid.
         bnd (gets clock_Now) (\<lambda>now'.
         otr_RecordCallOutcome (ck_outcomes s) \<lparr>ca_ID = cid, ca_OrgID = pc_OrgID inp,
           ca_FlowID = pc_FlowID inp, ca_ProviderCallID = pid, ca_Direction = Outbound,
           ca_Status = StatusQueued, ca_Result = [], ca_RecordingURL = [], ca_Transcript = [],
           ca_CreatedAt = now'\<rparr> None)))))))"

section \<open>The in-process orchestrator (orchestrator/local)\<close>

text \<open>
  The channel of jobs is a queue. A send blocks while its 256 slots are full, so in a
  completed \<open>EnqueuePlaceCall\<close> the job is queued; a worker takes the oldest job, runs it
  and only logs its error.
\<close>

definition local_EnqueuePlaceCall :: "PlaceCallInput \<Rightarrow> unit wop" where
  "local_EnqueuePlaceCall inp = perform (\<lambda>w. w\<lparr>w_jobs := w_jobs w @ [inp]\<rparr>)"

definition local_worker :: "(PlaceCallInput \<Rightarrow> unit wop) \<Rightarrow> unit wop" where
  "local_worker placeCall w = (case w_jobs w of
       [] \<Rightarrow> (Inr (), w)
     | job # rest \<Rightarrow> (Inr (), snd (placeCall job (w\<lparr>w_jobs := rest\<rparr>))))"

definition local_orchestrator :: Orchestrator where
  "local_orchestrator = \<lparr>orc_EnqueuePlaceCall = local_EnqueuePlaceCall\<rparr>"

text \<open>The service as \<open>main.go\<close> wires it, for a provider, a notifier and a feed.\<close>

definition calls_service :: "libs \<Rightarrow> VoiceProvider \<Rightarrow> CreditNotifier \<Rightarrow> ActivityPublisher option \<Rightarrow> CallsService" where
  "calls_service L vp ntf act = \<lparr>ck_provider = vp, ck_outcomes = pg_outcomes L, ck_calls = pg_calls,
     ck_flows = pg_flows L, ck_credits = pg_credits, ck_policy = pg_policy, ck_notifier = ntf,
     ck_activity = act\<rparr>"

section \<open>Facts\<close>

lemma calls_service_simps [simp]:
  "ck_provider (calls_service L vp ntf act) = vp" "ck_outcomes (calls_service L vp ntf act) = pg_outcomes L"
  "ck_calls (calls_service L vp ntf act) = pg_calls" "ck_flows (calls_service L vp ntf act) = pg_flows L"
  "ck_credits (calls_service L vp ntf act) = pg_credits" "ck_policy (calls_service L vp ntf act) = pg_policy"
  "ck_notifier (calls_service L vp ntf act) = ntf" "ck_activity (calls_service L vp ntf act) = act"
  "otr_RecordCallOutcome (pg_outcomes L) = pg_RecordCallOutcome L" "plr_Get pg_policy = pg_policy_Get"
  "plr_Upsert pg_policy = pg_policy_Upsert" "clr_Get pg_calls = pg_call_Get"
  "cr_TryDeduct pg_credits = pg_TryDeduct" "cr_Grant pg_credits = pg_Grant"
  by (simp_all add: calls_service_def pg_outcomes_def pg_policy_def pg_calls_def pg_credits_def)

text \<open>The calls a trace contains, the policy in force, and one call's charge.\<close>

fun dials :: "effect list \<Rightarrow> CallRequest list" where
  "dials [] = []"
| "dials (Dialed req pid # es) = req # dials es"
| "dials (e # es) = dials es"

lemma dials_append [simp]: "dials (xs @ ys) = dials xs @ dials ys"
  by (induction xs rule: dials.induct) auto

definition policy_of :: "database \<Rightarrow> OrgID \<Rightarrow> CallPolicy" where
  "policy_of d org = (case List.find (\<lambda>r. pl_org_id r = org) (org_call_policy d) of
      None \<Rightarrow> DefaultCallPolicy
    | Some r \<Rightarrow> \<lparr>cl_WindowStart = pl_window_start r, cl_WindowEnd = pl_window_end r,
        cl_Timezone = pl_timezone r, cl_MaxRetries = pl_max_retries r\<rparr>)"

definition charged :: "OrgID \<Rightarrow> database \<Rightarrow> database \<Rightarrow> bool" where
  "charged org d d' \<longleftrightarrow> 1 \<le> balance_of d org \<and> balance_of d' = (balance_of d)(org := balance_of d org - 1)
     \<and> ledger_total d' = (ledger_total d)(org := ledger_total d org - 1)"

definition call_request :: "OrgID \<Rightarrow> string \<Rightarrow> Flow \<Rightarrow> CallRequest" where
  "call_request org phone f = \<lparr>rq_OrgID = org, rq_ToPhone = phone, rq_CallerID = [], rq_Flow = f\<rparr>"

lemma call_views_frame [simp]:
  "balance_of (d\<lparr>calls := x\<rparr>) = balance_of d" "ledger_total (d\<lparr>calls := x\<rparr>) = ledger_total d"
  "balance_of (d\<lparr>webhook_outbox := y\<rparr>) = balance_of d" "ledger_total (d\<lparr>webhook_outbox := y\<rparr>) = ledger_total d"
  by (simp_all add: fun_eq_iff balance_of_def ledger_total_def)

lemma wp_policy_Get:
  "wp (pg_policy_Get org) (\<lambda>r w'. w_db w' = w_db w \<and> env_frame w w' \<and>
     (case r of Inl e \<Rightarrow> e = ErrConn | Inr p \<Rightarrow> p = policy_of (w_db w) org)) w"
proof -
  have q: "wp (gen_GetCallPolicy org) (\<lambda>r w'. w_db w' = w_db w \<and> env_frame w w' \<and> (case r of
       Inl e \<Rightarrow> e = ErrConn \<or> e = ErrNoRows \<and> List.find (\<lambda>r. pl_org_id r = org) (org_call_policy (w_db w)) = None
     | Inr row \<Rightarrow> List.find (\<lambda>r. pl_org_id r = org) (org_call_policy (w_db w)) = Some row)) w"
    unfolding gen_GetCallPolicy_def by (rule wp_db_read) (auto split: option.splits)
  show ?thesis unfolding pg_policy_Get_def
    by (rule wp_attempt [OF q]) (auto simp: policy_of_def split: sum.splits)
qed

lemma quiet_TryDeduct: "mrel quiet (pg_TryDeduct org n why)"
  unfolding pg_TryDeduct_def gen_TryDeductBalance_def gen_AddLedger_def by (intro mrel_intros) auto

lemma wp_charge:
  assumes "accounts_unique (w_db w)"
  shows "wp (pg_TryDeduct org creditsPerCall why) (\<lambda>r w'. quiet w w' \<and> (case r of
       Inl e \<Rightarrow> w_db w' = w_db w
     | Inr (ok, b) \<Rightarrow> if ok then charged org (w_db w) (w_db w') \<and> b = balance_of (w_db w') org
           \<and> ledger_added (w_db w) (w_db w') org (- 1) why \<and> accounts_unique (w_db w')
         else w_db w' = w_db w)) w"
  by (rule wp_mono [OF wp_conj [OF wp_mrel [OF quiet_TryDeduct]
        wp_conj [OF wp_pg_TryDeduct [OF assms, of 1] wp_pg_TryDeduct_rows]]])
     (auto simp: charged_def go_int32_id in_int32_def split: sum.splits if_splits)

lemma quiet_GetActiveFlow: "mrel quiet (pg_GetActiveFlow L org name)"
  unfolding pg_GetActiveFlow_def gen_GetActiveFlowByName_def Let_def by (intro mrel_intros) auto

lemma quiet_Record: "mrel quiet (pg_RecordCallOutcome L c ob)"
  unfolding pg_RecordCallOutcome_def gen_CreateCall_def gen_InsertOutbox_def by (intro mrel_intros) auto

text \<open>A call and its webhook event are recorded together or not at all.\<close>

definition outbox_added :: "libs \<Rightarrow> database \<Rightarrow> database \<Rightarrow> OrgID \<Rightarrow> OutboxEvent option \<Rightarrow> bool" where
  "outbox_added L d d' org ob \<longleftrightarrow> (case ob of
      None \<Rightarrow> webhook_outbox d' = webhook_outbox d
    | Some e \<Rightarrow> \<exists>row. webhook_outbox d' = webhook_outbox d @ [row] \<and> ox_org_id row = org \<and> ox_event row = ob_Event e
        \<and> Some (ox_payload row) = lib_jsonb L (ob_Payload e) \<and> ox_dispatched_at row = None)"

lemma wp_Record:
  "wp (pg_RecordCallOutcome L c ob) (\<lambda>r w'. quiet w w' \<and> (case r of
      Inl e \<Rightarrow> w_db w' = w_db w
    | Inr _ \<Rightarrow> (\<exists>t x. w_db w' = (w_db w)\<lparr>calls := calls (w_db w) @ [(call_row c)\<lparr>cw_created_at := t\<rparr>], webhook_outbox := x\<rparr>)
        \<and> outbox_added L (w_db w) (w_db w') (ca_OrgID c) ob)) w"
proof -
  have cr: "wp (gen_CreateCall (call_row c)) (\<lambda>r w'. \<forall>u. r = Inr u \<longrightarrow>
      (\<exists>t. w_db w' = (w_db v)\<lparr>calls := calls (w_db v) @ [(call_row c)\<lparr>cw_created_at := t\<rparr>]\<rparr>)) v" for v
    unfolding gen_CreateCall_def by (rule wp_db_exec) (auto simp: call_row_def)
  have ins: "wp (gen_InsertOutbox L org ev p) (\<lambda>r w'. \<forall>u. r = Inr u \<longrightarrow>
      (\<exists>row. w_db w' = (w_db v)\<lparr>webhook_outbox := webhook_outbox (w_db v) @ [row]\<rparr> \<and> ox_org_id row = org
        \<and> ox_event row = ev \<and> Some (ox_payload row) = lib_jsonb L p \<and> ox_dispatched_at row = None)) v" for org ev p v
    unfolding gen_InsertOutbox_def by (rule wp_db_exec) (auto split: option.splits)
  have "wp (pg_RecordCallOutcome L c ob) (\<lambda>r w'. case r of
      Inl e \<Rightarrow> w_db w' = w_db w
    | Inr _ \<Rightarrow> (\<exists>t x. w_db w' = (w_db w)\<lparr>calls := calls (w_db w) @ [(call_row c)\<lparr>cw_created_at := t\<rparr>], webhook_outbox := x\<rparr>)
        \<and> outbox_added L (w_db w) (w_db w') (ca_OrgID c) ob) w"
    unfolding pg_RecordCallOutcome_def
  proof (rule wp_with_tx, goal_cases)
    case (1 w1)
    show ?case
    proof (rule wp_bnd [OF cr], simp, goal_cases)
      case (1 u w2)
      then obtain t where w2: "w_db w2 = (w_db w)\<lparr>calls := calls (w_db w) @ [(call_row c)\<lparr>cw_created_at := t\<rparr>]\<rparr>"
        using \<open>w_db w1 = w_db w\<close> by auto
      show ?case
      proof (cases ob)
        case None
        have "\<exists>x. w_db w2 = (w_db w2)\<lparr>webhook_outbox := x\<rparr>" by (rule exI [of _ "webhook_outbox (w_db w2)"]) simp
        with None w2 show ?thesis by (auto simp: outbox_added_def)
      next
        case (Some e)
        show ?thesis unfolding Some option.case
          by (rule wp_bnd [OF ins]) (use w2 in \<open>auto simp: outbox_added_def\<close>)
      qed
    qed
  qed auto
  from wp_conj [OF wp_mrel [OF quiet_Record] this] show ?thesis .
qed

section \<open>What the service needs of its ports\<close>

text \<open>
  A provider leaves the tables alone, and its trace shows the call it was asked for, once
  when it reports success, at most once when it reports an error. Notifications and the
  live feed neither touch the tables nor dial.
\<close>

locale call_ports =
  fixes vp :: VoiceProvider and ntf :: CreditNotifier and act :: "ActivityPublisher option"
  assumes place: "wp (vp_PlaceCall vp req) (\<lambda>r w'. w_db w' = w_db w \<and> (case r of
       Inl e \<Rightarrow> dials (w_trace w') = dials (w_trace w) \<or> dials (w_trace w') = dials (w_trace w) @ [req]
     | Inr pid \<Rightarrow> dials (w_trace w') = dials (w_trace w) @ [req])) w"
    and notify: "w_db (ntf_LowBalance ntf org b w) = w_db w \<and>
       dials (w_trace (ntf_LowBalance ntf org b w)) = dials (w_trace w)"
    and publish: "act = Some a \<Longrightarrow> w_db (act_Publish a e w) = w_db w \<and>
       dials (w_trace (act_Publish a e w)) = dials (w_trace w)"
begin

lemma placed_and_recorded:
  assumes "charged org d (w_db v)" and "calls (w_db v) = calls d" and "dials (w_trace v) = ds"
  shows "wp (bnd (vp_PlaceCall vp req) (\<lambda>pid. bnd (draw (id_New ''call'')) (\<lambda>cid. bnd (gets clock_Now) (\<lambda>now.
      pg_RecordCallOutcome L (mk pid cid now) None))))
    (\<lambda>r w'. charged org d (w_db w') \<and> (case r of
       Inl e \<Rightarrow> calls (w_db w') = calls d \<and> (dials (w_trace w') = ds \<or> dials (w_trace w') = ds @ [req])
     | Inr _ \<Rightarrow> dials (w_trace w') = ds @ [req] \<and>
         (\<exists>pid cid now t. calls (w_db w') = calls d @ [(call_row (mk pid cid now))\<lparr>cw_created_at := t\<rparr>]))) v"
proof (rule wp_bnd [OF place], goal_cases)
  case (1 e w')
  with assms show ?case by auto
next
  case (2 pid w1)
  show ?case unfolding wp_bnd_simps
  proof (rule wp_mono [OF wp_Record], goal_cases)
    case (1 r w2)
    with 2 assms show ?case by (auto simp: quiet_def charged_def split: sum.splits) blast
  qed
qed

lemma wp_PlaceCall:
  assumes u: "accounts_unique (w_db w)"
    and req_def: "req = call_request (pc_OrgID inp) (pc_ToPhone inp) zero_Flow"
  shows "wp (calls_PlaceCall L (calls_service L vp ntf act) inp) (\<lambda>r w'.
     (\<exists>e. r = Inl e) \<and> w_db w' = w_db w \<and> dials (w_trace w') = dials (w_trace w) \<or>
     (\<exists>t \<ge> w_now w. Allows (lib_tz L) (policy_of (w_db w) (pc_OrgID inp)) t) \<and>
     charged (pc_OrgID inp) (w_db w) (w_db w') \<and> (case r of
       Inl e \<Rightarrow> calls (w_db w') = calls (w_db w) \<and>
         (dials (w_trace w') = dials (w_trace w) \<or> dials (w_trace w') = dials (w_trace w) @ [req])
     | Inr _ \<Rightarrow> dials (w_trace w') = dials (w_trace w) @ [req] \<and>
         (\<exists>row. calls (w_db w') = calls (w_db w) @ [row] \<and> cw_org_id row = pc_OrgID inp
            \<and> cw_flow_id row = strPtr (pc_FlowID inp) \<and> cw_status row = StatusQueued))) w"
  (is "wp _ ?Q w")
  unfolding calls_PlaceCall_def calls_service_simps
proof (rule wp_bnd [OF wp_policy_Get], goal_cases)
  case (1 e w1)
  then show ?case by (auto simp: env_frame_def)
next
  case (2 pol w1)
  then have w1: "w_db w1 = w_db w" "w_trace w1 = w_trace w" "w_now w \<le> w_now w1"
    and pol: "pol = policy_of (w_db w) (pc_OrgID inp)" by (auto simp: env_frame_def)
  show ?case
  proof (cases "Allows (lib_tz L) pol (w_now w1)")
    case False
    with w1 show ?thesis by (simp add: clock_Now_def)
  next
    case True
    then have ok: "\<exists>t \<ge> w_now w. Allows (lib_tz L) (policy_of (w_db w) (pc_OrgID inp)) t"
      using w1(3) pol by blast
    have u1: "accounts_unique (w_db w1)" using u w1 by simp
    show ?thesis
    proof (simp only: wp_bnd_simps clock_Now_def True simp_thms if_False,
        rule wp_bnd [OF wp_charge [OF u1]], goal_cases)
      case (1 e w2)
      with w1 show ?case by (simp add: quiet_def)
    next
      case (2 p w2)
      obtain got b where p: "p = (got, b)" by (cases p)
      show ?case
      proof (cases got)
        case False
        with 2 w1 p show ?thesis by (simp add: quiet_def)
      next
        case True
        with 2 w1 p have c2: "charged (pc_OrgID inp) (w_db w) (w_db w2)" "calls (w_db w2) = calls (w_db w)"
          "dials (w_trace w2) = dials (w_trace w)"
          by (auto simp: quiet_def ledger_added_def)
        have tail: "wp (bnd (vp_PlaceCall vp req) (\<lambda>pid. bnd (draw (id_New ''call'')) (\<lambda>cid. bnd (gets clock_Now) (\<lambda>now'.
            pg_RecordCallOutcome L \<lparr>ca_ID = cid, ca_OrgID = pc_OrgID inp, ca_FlowID = pc_FlowID inp,
              ca_ProviderCallID = pid, ca_Direction = Outbound, ca_Status = StatusQueued, ca_Result = [],
              ca_RecordingURL = [], ca_Transcript = [], ca_CreatedAt = now'\<rparr> None)))) ?Q v"
          if "w_db v = w_db w2" "dials (w_trace v) = dials (w_trace w2)" for v
          by (rule wp_mono [OF placed_and_recorded [of "pc_OrgID inp" "w_db w" v "dials (w_trace w)"]])
             (use ok c2 that in \<open>auto simp: call_row_def split: sum.splits\<close>)
        show ?thesis
          using tail notify by (simp add: p True req_def call_request_def wp_case_simps)
      qed
    qed
  qed
qed

lemma recorded_and_published:
  assumes "charged org d (w_db v)" and "calls (w_db v) = calls d" and "webhook_outbox (w_db v) = webhook_outbox d"
    and org: "\<And>cid now. ca_OrgID (mk cid now) = org"
  shows "wp (bnd (draw (id_New ''call'')) (\<lambda>cid. bnd (gets clock_Now) (\<lambda>now. let call = mk cid now in
      bnd (pg_RecordCallOutcome L call (Some (outcomeEvent call))) (\<lambda>_.
      bnd (perform (calls_publish (calls_service L vp ntf act) (ev call))) (\<lambda>_. ret (out, call))))))
    (\<lambda>r w'. charged org d (w_db w') \<and> dials (w_trace w') = dials (w_trace v) \<and> (case r of
       Inl e \<Rightarrow> calls (w_db w') = calls d \<and> webhook_outbox (w_db w') = webhook_outbox d
     | Inr (out', call) \<Rightarrow> out' = out \<and> (\<exists>cid now. call = mk cid now)
         \<and> (\<exists>t. calls (w_db w') = calls d @ [(call_row call)\<lparr>cw_created_at := t\<rparr>])
         \<and> outbox_added L d (w_db w') org (Some (outcomeEvent call)))) v"
proof -
  have pub: "w_db (calls_publish (calls_service L vp ntf act) e w) = w_db w"
    "dials (w_trace (calls_publish (calls_service L vp ntf act) e w)) = dials (w_trace w)" for e w
    using publish by (auto simp: calls_publish_def split: option.splits)
  show ?thesis unfolding wp_bnd_simps Let_def
    by (rule wp_bnd [OF wp_Record])
       (use assms in \<open>auto simp: pub quiet_def charged_def outbox_added_def\<close>)
qed

text \<open>The dashboard's test call: charged, dialed and recorded with its webhook event.\<close>

lemma wp_RunTestCall:
  assumes u: "accounts_unique (w_db w)"
  shows "wp (calls_RunTestCall (calls_service L vp ntf act) org phone digit name) (\<lambda>r w'. case r of
       Inl e \<Rightarrow> calls (w_db w') = calls (w_db w) \<and> webhook_outbox (w_db w') = webhook_outbox (w_db w) \<and>
         (w_db w' = w_db w \<and> dials (w_trace w') = dials (w_trace w) \<or> charged org (w_db w) (w_db w'))
     | Inr (out, call) \<Rightarrow> charged org (w_db w) (w_db w') \<and> ca_OrgID call = org
         \<and> ca_Status call = ou_Status out \<and> ca_Result call = ou_Result out
         \<and> (\<exists>t. calls (w_db w') = calls (w_db w) @ [(call_row call)\<lparr>cw_created_at := t\<rparr>])
         \<and> outbox_added L (w_db w) (w_db w') org (Some (outcomeEvent call))
         \<and> (\<exists>f. dials (w_trace w') = dials (w_trace w) @ [call_request org phone f] \<and> fl_Name f = name)) w"
  (is "wp _ ?Q w")
  unfolding calls_RunTestCall_def calls_service_simps pg_flows_simps
proof (rule wp_bnd [OF wp_conj [OF wp_GetActiveFlow wp_mrel [OF quiet_GetActiveFlow]]], goal_cases)
  case (1 e w1)
  then show ?case by (auto simp: quiet_def)
next
  case (2 found w1)
  then have w1: "w_db w1 = w_db w" "w_trace w1 = w_trace w" by (auto simp: quiet_def)
  show ?case
  proof (cases found)
    case None
    with w1 show ?thesis by simp
  next
    case (Some f)
    with 2 have nm: "fl_Name f = name" by auto
    have u1: "accounts_unique (w_db w1)" using u w1 by simp
    show ?thesis
    proof (simp only: Some option.case, rule wp_bnd [OF wp_charge [OF u1]], goal_cases)
      case (1 e w2)
      with w1 show ?case by (simp add: quiet_def)
    next
      case (2 p w2)
      show ?case
      proof (cases "fst p")
        case False
        with 2 w1 show ?thesis by (cases p) (simp add: quiet_def)
      next
        case True
        with 2 w1 have c2: "charged org (w_db w) (w_db w2)" "calls (w_db w2) = calls (w_db w)"
          "webhook_outbox (w_db w2) = webhook_outbox (w_db w)" "w_trace w2 = w_trace w"
          by (cases p; auto simp: quiet_def ledger_added_def)+
        have "p = (True, snd p)" using True by (cases p) simp
        show ?thesis
        proof (subst \<open>p = (True, snd p)\<close>, simp only: prod.case simp_thms if_False,
            rule wp_bnd [OF place], goal_cases)
          case (1 e w3)
          with c2 show ?case by simp
        next
          case (2 pid w3)
          show ?case
          proof (cases "case Start f of (_, st, out) \<Rightarrow>
             (case out of None \<Rightarrow> snd (fst (OnDTMF f st digit)) | Some o' \<Rightarrow> Some o')")
            case None
            with 2 c2 show ?thesis by simp
          next
            case (Some out)
            show ?thesis
              by (simp only: Some option.case,
                  rule wp_mono [OF recorded_and_published [of org "w_db w" w3]])
                 (use 2 c2 nm in \<open>auto simp: call_request_def split: sum.splits\<close>)
          qed
        qed
      qed
    qed
  qed
qed

end

text \<open>The live feed as a port: publishing leaves an event in the trace (the bus is a theory of its own).\<close>

definition feed_publisher :: ActivityPublisher where
  "feed_publisher = \<lparr>act_Publish = (\<lambda>e. emit_effect (Published e))\<rparr>"

definition wired_calls :: "libs \<Rightarrow> CallsService" where
  "wired_calls L = calls_service L mock_provider (notify_service email_logsender (pg_orgs L)) (Some feed_publisher)"

lemma OwnerEmail_frame: "wp (pg_OwnerEmail L org) (\<lambda>r w'. w_db w' = w_db w \<and> env_frame w w') w"
proof -
  have g: "wp (gen_GetOrgOwnerEmail oid) (\<lambda>r w'. w_db w' = w_db w \<and> env_frame w w') w" for oid
    unfolding gen_GetOrgOwnerEmail_def by (rule wp_db_read) auto
  show ?thesis unfolding pg_OwnerEmail_def
    by (rule wp_bnd [OF wp_uuid_Parse]) (auto intro: wp_mono [OF g])
qed

fun emails :: "effect list \<Rightarrow> (string \<times> string \<times> string) list" where
  "emails [] = []"
| "emails (EmailSent to subj body # es) = (to, subj, body) # emails es"
| "emails (e # es) = emails es"

lemma emails_append [simp]: "emails (xs @ ys) = emails xs @ emails ys"
  by (induction xs rule: emails.induct) auto

lemma notify_frame:
  "w_db (notify_LowBalance email_logsender (pg_orgs L) org b w) = w_db w \<and>
   (\<exists>es. w_trace (notify_LowBalance email_logsender (pg_orgs L) org b w) = w_trace w @ es \<and>
      dials es = [] \<and> length (emails es) \<le> 1)"
proof -
  obtain r w1 where r: "pg_OwnerEmail L org w = (r, w1)" by force
  from wpD [OF OwnerEmail_frame r] have "w_db w1 = w_db w" "w_trace w1 = w_trace w" by (simp_all add: env_frame_def)
  with r show ?thesis
    by (auto simp: notify_LowBalance_def pg_orgs_def email_logsender_def perform_def split: sum.splits)
qed

lemma mock_place:
  "wp (mock_PlaceCall req) (\<lambda>r w'. w_db w' = w_db w \<and> (\<exists>pid. r = Inr pid \<and> w_trace w' = w_trace w @ [Dialed req pid])) w"
  by (simp add: mock_PlaceCall_def)

interpretation wired: call_ports mock_provider "notify_service email_logsender (pg_orgs L)" "Some feed_publisher" for L
proof
  show "wp (vp_PlaceCall mock_provider req) (\<lambda>r w'. w_db w' = w_db w \<and> (case r of
       Inl e \<Rightarrow> dials (w_trace w') = dials (w_trace w) \<or> dials (w_trace w') = dials (w_trace w) @ [req]
     | Inr pid \<Rightarrow> dials (w_trace w') = dials (w_trace w) @ [req])) w" for req w
    unfolding mock_provider_def VoiceProvider.simps by (rule wp_mono [OF mock_place]) auto
next
  show "w_db (ntf_LowBalance (notify_service email_logsender (pg_orgs L)) org b w) = w_db w \<and>
       dials (w_trace (ntf_LowBalance (notify_service email_logsender (pg_orgs L)) org b w)) = dials (w_trace w)"
    for org b w using notify_frame [of L org b w] by (auto simp: notify_service_def)
qed (auto simp: feed_publisher_def)

section \<open>Properties\<close>


text \<open>
  Property C10: the test call is all or nothing towards the merchant. It succeeds exactly
  with one credit taken, the customer dialed once with the named flow, and the call and its
  webhook event recorded together; if it reports an error no call and no event exist, and
  without a charge nothing was dialed.
\<close>

theorem RunTestCall_outcomes:
  assumes "call_ports vp ntf act" and "accounts_unique (w_db w)"
    and "calls_RunTestCall (calls_service L vp ntf act) org phone digit name w = (r, w')"
  shows "case r of
       Inl e \<Rightarrow> calls (w_db w') = calls (w_db w) \<and> webhook_outbox (w_db w') = webhook_outbox (w_db w) \<and>
         (w_db w' = w_db w \<and> dials (w_trace w') = dials (w_trace w) \<or> charged org (w_db w) (w_db w'))
     | Inr (out, call) \<Rightarrow> charged org (w_db w) (w_db w') \<and> ca_OrgID call = org
         \<and> ca_Status call = ou_Status out \<and> ca_Result call = ou_Result out
         \<and> (\<exists>t. calls (w_db w') = calls (w_db w) @ [(call_row call)\<lparr>cw_created_at := t\<rparr>])
         \<and> outbox_added L (w_db w) (w_db w') org (Some (outcomeEvent call))
         \<and> (\<exists>f. dials (w_trace w') = dials (w_trace w) @ [call_request org phone f] \<and> fl_Name f = name)"
  using wpD [OF call_ports.wp_RunTestCall [OF assms(1,2)] assms(3)] .

text \<open>A shop with an owner, a balance and the order-confirmation flow, at ten in the morning in Dhaka.\<close>

definition shop_world :: "int \<Rightarrow> world" where
  "shop_world b = init_world\<lparr>w_now := 14400 * second, w_db := empty_db\<lparr>
     users := [\<lparr>ur_id = ''u1'', ur_phone = None, ur_email = Some ''a@b.c'', ur_name = None, ur_created_at = 0,
       ur_password_hash = None\<rparr>],
     orgs := [\<lparr>or_id = ''o'', or_name = ''Shop'', or_owner_user_id = ''u1'', or_credits_balance_paisa = 0,
       or_created_at = 0\<rparr>],
     org_credits := [\<lparr>oc_org_id = ''o'', oc_balance = b\<rparr>],
     flows := [\<lparr>fw_id = ''f'', fw_org_id = ''o'', fw_name = ''order_confirm'', fw_version = 1, fw_channel = ''voice'',
       fw_type = ''ivr'', fw_locale = ''en'', fw_spec = ''spec'', fw_is_active = True, fw_created_at = 0\<rparr>]\<rparr>\<rparr>"

definition shop_job :: PlaceCallInput where
  "shop_job = \<lparr>pc_OrgID = ''o'', pc_ToPhone = ''+8801712345678'', pc_FlowID = ''f''\<rparr>"

lemma shop_world_simps [simp]:
  "w_sched (shop_world b) = []" "w_now (shop_world b) = 14400 * second" "w_pos (shop_world b) = 0"
  "w_entropy (shop_world b) = (\<lambda>i. i)" "w_trace (shop_world b) = []" "w_jobs (shop_world b) = []"
  "org_credits (w_db (shop_world b)) = [\<lparr>oc_org_id = ''o'', oc_balance = b\<rparr>]"
  "credit_ledger (w_db (shop_world b)) = []" "calls (w_db (shop_world b)) = []"
  "org_call_policy (w_db (shop_world b)) = []" "webhook_outbox (w_db (shop_world b)) = []"
  by (simp_all add: shop_world_def init_world_def)

lemma demo_window: "Allows (lib_tz demo_libs) DefaultCallPolicy (14400 * second)"
  by (simp add: Allows_def DefaultCallPolicy_def demo_libs_def hour_in_def)

lemmas call_eval = calls_PlaceCall_def pg_policy_Get_def gen_GetCallPolicy_def pg_TryDeduct_def
  gen_TryDeductBalance_def gen_AddLedger_def mock_provider_def mock_PlaceCall_def pg_RecordCallOutcome_def
  gen_CreateCall_def call_row_def bnd_def attempt_def ret_def fail_def gets_def perform_def draw_eq with_tx_def
  db_exec_quiet db_read_quiet clock_Now_def go_int32_id in_int32_def upd_where_def

text \<open>One undisturbed run of a job, with a balance well above the warning threshold.\<close>

lemma PlaceCall_quiet:
  assumes "w_sched w = []" "w_now w = 14400 * second" "org_call_policy (w_db w) = []"
    and "org_credits (w_db w) = [\<lparr>oc_org_id = ''o'', oc_balance = b\<rparr>]" "11 < b" "b < 1000"
    and "\<forall>r \<in> set (credit_ledger (w_db w)). lg_id r \<noteq> id_at ''led'' (w_entropy w) (w_pos w)"
    and "\<forall>r \<in> set (calls (w_db w)). cw_id r \<noteq> id_at ''call'' (w_entropy w) (w_pos w + 24)"
  shows "\<exists>w'. calls_PlaceCall demo_libs (wired_calls demo_libs) shop_job w = (Inr (), w')
     \<and> w_sched w' = [] \<and> w_now w' = w_now w \<and> w_pos w' = w_pos w + 36 \<and> w_entropy w' = w_entropy w
     \<and> org_call_policy (w_db w') = [] \<and> org_credits (w_db w') = [\<lparr>oc_org_id = ''o'', oc_balance = b - 1\<rparr>]
     \<and> dials (w_trace w') = dials (w_trace w) @ [call_request ''o'' ''+8801712345678'' zero_Flow]
     \<and> map lg_id (credit_ledger (w_db w')) = map lg_id (credit_ledger (w_db w)) @ [id_at ''led'' (w_entropy w) (w_pos w)]
     \<and> map cw_id (calls (w_db w')) = map cw_id (calls (w_db w)) @ [id_at ''call'' (w_entropy w) (w_pos w + 24)]"
proof -
  have fl: "List.find (\<lambda>r. lg_id r = id_at ''led'' (w_entropy w) (w_pos w)) (credit_ledger (w_db w)) = None"
    and fc: "List.find (\<lambda>r. cw_id r = id_at ''call'' (w_entropy w) (w_pos w + 24)) (calls (w_db w)) = None"
    using assms(7,8) by (simp_all add: find_None_iff)
  show ?thesis
    using assms(1-6) demo_window fl fc
    by (simp add: call_eval wired_calls_def shop_job_def fst_id_New call_request_def add.assoc emit_effect_def)
qed


text \<open>
  A redelivered job is not idempotent. Under at-least-once delivery the same
  \<open>place_call\<close> job run twice dials the customer twice and charges two credits.
\<close>

theorem PlaceCall_redelivery:
  "\<exists>w w1 w2. calls_PlaceCall demo_libs (wired_calls demo_libs) shop_job w = (Inr (), w1)
     \<and> calls_PlaceCall demo_libs (wired_calls demo_libs) shop_job w1 = (Inr (), w2)
     \<and> dials (w_trace w2) = replicate 2 (call_request ''o'' ''+8801712345678'' zero_Flow)
     \<and> balance_of (w_db w2) ''o'' = balance_of (w_db w) ''o'' - 2"
proof -
  let ?run = "calls_PlaceCall demo_libs (wired_calls demo_libs) shop_job"
  obtain w1 where r1: "?run (shop_world 100) = (Inr (), w1)" and w1: "w_sched w1 = []" "w_now w1 = 14400 * second"
    "w_pos w1 = 36" "w_entropy w1 = (\<lambda>i. i)" "org_call_policy (w_db w1) = []"
    "org_credits (w_db w1) = [\<lparr>oc_org_id = ''o'', oc_balance = 99\<rparr>]"
    "dials (w_trace w1) = [call_request ''o'' ''+8801712345678'' zero_Flow]"
    "map lg_id (credit_ledger (w_db w1)) = [id_at ''led'' (\<lambda>i. i) 0]"
    "map cw_id (calls (w_db w1)) = [id_at ''call'' (\<lambda>i. i) 24]"
    using PlaceCall_quiet [of "shop_world 100" 100] by auto
  have ids: "id_at ''led'' (\<lambda>i. i) 0 \<noteq> id_at ''led'' (\<lambda>i. i) 36" "id_at ''call'' (\<lambda>i. i) 24 \<noteq> id_at ''call'' (\<lambda>i. i) 60"
    by (rule id_at_neq, simp)+
  have "\<forall>r \<in> set (credit_ledger (w_db w1)). lg_id r \<noteq> id_at ''led'' (w_entropy w1) (w_pos w1)"
    "\<forall>r \<in> set (calls (w_db w1)). cw_id r \<noteq> id_at ''call'' (w_entropy w1) (w_pos w1 + 24)"
    using ids w1 by auto
  from PlaceCall_quiet [OF w1(1,2,5,6) _ _ this] w1 obtain w2 where r2: "?run w1 = (Inr (), w2)"
    and "org_credits (w_db w2) = [\<lparr>oc_org_id = ''o'', oc_balance = 98\<rparr>]"
    "dials (w_trace w2) = replicate 2 (call_request ''o'' ''+8801712345678'' zero_Flow)"
    by (auto simp: numeral_2_eq_2)
  then have "balance_of (w_db w2) ''o'' = balance_of (w_db (shop_world 100)) ''o'' - 2" by (simp add: balance_of_def)
  with r1 r2 \<open>dials (w_trace w2) = _\<close> show ?thesis by blast
qed

lemmas test_eval = calls_RunTestCall_def pg_GetActiveFlow_def gen_GetActiveFlowByName_def order_by_desc_def
  pg_TryDeduct_def gen_TryDeductBalance_def gen_AddLedger_def mock_provider_def mock_PlaceCall_def
  bnd_def attempt_def ret_def fail_def gets_def perform_def draw_eq with_tx_def db_exec_quiet db_read_quiet
  go_int32_id in_int32_def upd_where_def

lemma shop_flow: "flows (w_db (shop_world b)) = [\<lparr>fw_id = ''f'', fw_org_id = ''o'', fw_name = ''order_confirm'',
   fw_version = 1, fw_channel = ''voice'', fw_type = ''ivr'', fw_locale = ''en'', fw_spec = ''spec'',
   fw_is_active = True, fw_created_at = 0\<rparr>]"
  by (simp add: shop_world_def)

text \<open>An undisturbed test call up to the keypress, for any flow the spec decodes to.\<close>

lemma RunTestCall_quiet_dial:
  assumes "lib_ivr_json L ''spec'' = Some spec" and "0 < b" "b < 1000"
    and "Start f = (d, st, None)" "snd (fst (OnDTMF f st k)) = None"
    and "f = \<lparr>fl_ID = ''f'', fl_OrgID = ''o'', fl_Name = ''order_confirm'', fl_Version = 1, fl_Channel = ''voice'',
        fl_Type = ''ivr'', fl_Locale = ''en'', fl_IVR = spec\<rparr>"
  shows "\<exists>w'. calls_RunTestCall (wired_calls L) ''o'' phone k ''order_confirm'' (shop_world b) = (Inl PanicNilDeref, w')
     \<and> length (dials (w_trace w')) = 1"
  using assms by (simp add: test_eval wired_calls_def shop_flow emit_effect_def)

definition two_level_spec :: IVRSpec where
  "two_level_spec = \<lparr>iv_Entry = ''a'', iv_Nodes = [''a'' \<mapsto> menu_node ''Press 1'' [''1'' \<mapsto> ''b''],
     ''b'' \<mapsto> menu_node ''Press 2'' [''2'' \<mapsto> ''a'']]\<rparr>"

text \<open>
  A two-level menu crashes the test call after it was charged. When the
  simulated keypress leads to another menu, there is no outcome yet; the handler then
  dereferences the missing outcome. The credit is gone and the provider was asked to dial.
\<close>

theorem RunTestCall_menu_panics:
  "\<exists>L w w'. accounts_unique (w_db w)
     \<and> calls_RunTestCall (wired_calls L) ''o'' ''+8801712345678'' ''1'' ''order_confirm'' w = (Inl PanicNilDeref, w')
     \<and> charged ''o'' (w_db w) (w_db w') \<and> length (dials (w_trace w')) = 1 \<and> calls (w_db w') = calls (w_db w)"
proof -
  let ?L = "demo_libs\<lparr>lib_ivr_json := (\<lambda>_. Some two_level_spec)\<rparr>"
  let ?f = "\<lparr>fl_ID = ''f'', fl_OrgID = ''o'', fl_Name = ''order_confirm'', fl_Version = 1, fl_Channel = ''voice'',
        fl_Type = ''ivr'', fl_Locale = ''en'', fl_IVR = two_level_spec\<rparr>"
  have st: "\<exists>d. Start ?f = (d, \<lparr>fs_Node = ''a''\<rparr>, None)" "snd (fst (OnDTMF ?f \<lparr>fs_Node = ''a''\<rparr> ''1'')) = None"
    by (simp_all add: Start_def emit_def node_at_def two_level_spec_def menu_node_def OnDTMF_def Let_def)
  obtain d where "Start ?f = (d, \<lparr>fs_Node = ''a''\<rparr>, None)" using st(1) by blast
  from RunTestCall_quiet_dial [OF _ _ _ this st(2) refl, of ?L 50 "''+8801712345678''"]
  obtain w' where run: "calls_RunTestCall (wired_calls ?L) ''o'' ''+8801712345678'' ''1'' ''order_confirm'' (shop_world 50)
      = (Inl PanicNilDeref, w')" and d: "length (dials (w_trace w')) = 1" by auto
  have u: "accounts_unique (w_db (shop_world 50))" by (simp add: accounts_unique_def)
  from wpD [OF wired.wp_RunTestCall [OF u] run [unfolded wired_calls_def]] d
  have "charged ''o'' (w_db (shop_world 50)) (w_db w')" "calls (w_db w') = calls (w_db (shop_world 50))" by auto
  with u run d show ?thesis by blast
qed

lemma RunTestCall_quiet:
  assumes "lib_ivr_json L ''spec'' = Some spec" and "lib_jsonb L = Some" and "0 < b" "b < 1000"
    and "Start f = (d, st, None)" "snd (fst (OnDTMF f st k)) = Some out"
    and "f = \<lparr>fl_ID = ''f'', fl_OrgID = ''o'', fl_Name = ''order_confirm'', fl_Version = 1, fl_Channel = ''voice'',
        fl_Type = ''ivr'', fl_Locale = ''en'', fl_IVR = spec\<rparr>"
  shows "\<exists>call w'. calls_RunTestCall (wired_calls L) ''o'' phone k ''order_confirm'' (shop_world b) = (Inr (out, call), w')"
  using assms
  by (simp add: test_eval wired_calls_def shop_flow emit_effect_def Let_def pg_RecordCallOutcome_def
      gen_CreateCall_def gen_InsertOutbox_def calls_publish_def clock_Now_def)

lemma shop_RunTestCall:
  assumes "0 < b" "b < 1000"
  shows "\<exists>out call w'. calls_RunTestCall (wired_calls demo_libs) ''o'' ''+8801712345678'' ''1'' ''order_confirm'' (shop_world b)
     = (Inr (out, call), w')"
proof -
  let ?f = "\<lparr>fl_ID = ''f'', fl_OrgID = ''o'', fl_Name = ''order_confirm'', fl_Version = 1, fl_Channel = ''voice'',
        fl_Type = ''ivr'', fl_Locale = ''en'', fl_IVR = orderConfirmSpec\<rparr>"
  have "\<exists>d out. Start ?f = (d, \<lparr>fs_Node = ''greet''\<rparr>, None) \<and>
      snd (fst (OnDTMF ?f \<lparr>fs_Node = ''greet''\<rparr> ''1'')) = Some out"
    by (simp_all add: Start_def emit_def node_at_def orderConfirmSpec_def menu_node_def end_node_def OnDTMF_def Let_def)
  then obtain d out where "Start ?f = (d, \<lparr>fs_Node = ''greet''\<rparr>, None)"
    "snd (fst (OnDTMF ?f \<lparr>fs_Node = ''greet''\<rparr> ''1'')) = Some out" by blast
  moreover have "lib_ivr_json demo_libs ''spec'' = Some orderConfirmSpec" by (simp add: demo_libs_def)
  ultimately have "\<exists>call w'. calls_RunTestCall (wired_calls demo_libs) ''o'' ''+8801712345678'' ''1'' ''order_confirm''
      (shop_world b) = (Inr (out, call), w')"
    using assms by (intro RunTestCall_quiet [OF _ _ _ _ _ _ refl]) simp_all
  then show ?thesis by blast
qed

theorem RunTestCall_outcomes_witness:
  "\<exists>out call w'. calls_RunTestCall (wired_calls demo_libs) ''o'' ''+8801712345678'' ''1'' ''order_confirm'' (shop_world 50)
     = (Inr (out, call), w') \<and> charged ''o'' (w_db (shop_world 50)) (w_db w') \<and> length (webhook_outbox (w_db w')) = 1"
proof -
  obtain out call w' where run: "calls_RunTestCall (wired_calls demo_libs) ''o'' ''+8801712345678'' ''1'' ''order_confirm''
      (shop_world 50) = (Inr (out, call), w')" using shop_RunTestCall [of 50] by auto
  have "accounts_unique (w_db (shop_world 50))" by (simp add: accounts_unique_def)
  from RunTestCall_outcomes [OF wired.call_ports_axioms this run [unfolded wired_calls_def]] run
  show ?thesis by (auto simp: outbox_added_def)
qed

subsection \<open>Saving a policy\<close>

lemma wp_policy_Upsert:
  "wp (pg_policy_Upsert org p) (\<lambda>r w'. case r of Inl e \<Rightarrow> e = ErrConn \<and> w_db w' = w_db w
     | Inr _ \<Rightarrow> policy_of (w_db w') = (policy_of (w_db w))(org := \<lparr>cl_WindowStart = go_int16 (cl_WindowStart p),
         cl_WindowEnd = go_int16 (cl_WindowEnd p), cl_Timezone = cl_Timezone p,
         cl_MaxRetries = go_int16 (cl_MaxRetries p)\<rparr>)) w"
proof -
  have upd: "List.find (\<lambda>r. pl_org_id r = o') (upd_where (\<lambda>r. pl_org_id r = org) (\<lambda>_. row) rows) =
     map_option (\<lambda>r. if pl_org_id r = org then row else r) (List.find (\<lambda>r. pl_org_id r = o') rows)"
    if "pl_org_id row = org" for o' row rows
    by (rule find_upd_where) (use that in auto)
  show ?thesis unfolding pg_policy_Upsert_def gen_UpsertCallPolicy_def
    by (rule wp_db_exec)
       (auto simp: policy_of_def fun_eq_iff find_append upd split: option.splits dest: find_SomeD
          simp: find_None_iff)
qed

lemma Valid_bounds:
  assumes "Valid tz p"
  shows "0 \<le> cl_WindowStart p" "cl_WindowStart p < cl_WindowEnd p" "cl_WindowEnd p \<le> 24"
    "0 \<le> cl_MaxRetries p" "cl_MaxRetries p \<le> 10"
  using assms by (auto simp: Valid_def split: if_splits)

text \<open>
  A saved policy is the policy in force. \<open>SavePolicy\<close> rejects exactly the
  invalid policies and then changes nothing; when it succeeds, the narrowing to the 16-bit
  columns has lost nothing: the org's policy is the one saved and no other org's policy has
  changed, so that the next read returns it.
\<close>

theorem SavePolicy_in_force:
  assumes "calls_SavePolicy L (calls_service L vp ntf act) org p w = (r, w1)"
    and "calls_Policy (calls_service L vp ntf act) org w1 = (Inr q, w2)"
  shows "case r of Inl e \<Rightarrow> w_db w1 = w_db w \<and> (e = ErrInvalidCallPolicy \<longleftrightarrow> \<not> Valid (lib_tz L) p)
     | Inr _ \<Rightarrow> Valid (lib_tz L) p \<and> policy_of (w_db w1) = (policy_of (w_db w))(org := p) \<and> q = p"
proof -
  have q: "q = policy_of (w_db w1) org"
    using wpD [OF wp_policy_Get, of org w1] assms(2) by (fastforce simp: calls_Policy_def)
  show ?thesis
  proof (cases "Valid (lib_tz L) p")
    case True
    note b = Valid_bounds [OF True]
    have "go_int16 (cl_WindowStart p) = cl_WindowStart p" "go_int16 (cl_WindowEnd p) = cl_WindowEnd p"
      "go_int16 (cl_MaxRetries p) = cl_MaxRetries p" using b by (simp_all add: go_int16_id)
    then show ?thesis
      using wpD [OF wp_policy_Upsert, of org p w r w1] assms(1) True q
      by (auto simp: calls_SavePolicy_def split: sum.splits)
  next
    case False
    with assms(1) show ?thesis by (auto simp: calls_SavePolicy_def fail_def)
  qed
qed

theorem SavePolicy_in_force_witness:
  "let S = wired_calls demo_libs; p = DefaultCallPolicy\<lparr>cl_WindowEnd := 18\<rparr>;
       w1 = snd (calls_SavePolicy demo_libs S ''o'' p (shop_world 1)) in fst (calls_Policy S ''o'' w1) = Inr p"
proof -
  let ?S = "wired_calls demo_libs" and ?p = "DefaultCallPolicy\<lparr>cl_WindowEnd := 18\<rparr>"
  have v: "Valid (lib_tz demo_libs) ?p" by (simp add: Valid_def DefaultCallPolicy_def demo_libs_def)
  then obtain w1 where r: "calls_SavePolicy demo_libs ?S ''o'' ?p (shop_world 1) = (Inr (), w1)" and "w_sched w1 = []"
    by (auto simp: calls_SavePolicy_def wired_calls_def pg_policy_Upsert_def gen_UpsertCallPolicy_def db_exec_quiet)
  then obtain q where q: "calls_Policy ?S ''o'' w1 = (Inr q, w1)"
    by (cases "List.find (\<lambda>r. pl_org_id r = ''o'') (org_call_policy (w_db w1))")
       (auto simp: calls_Policy_def wired_calls_def pg_policy_Get_def gen_GetCallPolicy_def db_read_quiet attempt_def
          ret_def)
  from SavePolicy_in_force [OF r [unfolded wired_calls_def] q [unfolded wired_calls_def]] r q
  show ?thesis by simp
qed

subsection \<open>Low-balance warnings\<close>

lemma wp_PlaceCall_warns:
  assumes u: "accounts_unique (w_db w)"
  shows "wp (calls_PlaceCall L (wired_calls L) inp) (\<lambda>r w'. accounts_unique (w_db w')
     \<and> balance_of (w_db w') (pc_OrgID inp) \<le> balance_of (w_db w) (pc_OrgID inp)
     \<and> (\<exists>es. emails (w_trace w') = emails (w_trace w) @ es \<and> length es \<le> 1 \<and>
          (es \<noteq> [] \<longrightarrow> balance_of (w_db w) (pc_OrgID inp) = 11 \<and> balance_of (w_db w') (pc_OrgID inp) = 10))) w"
  (is "wp _ ?Q w")
  unfolding calls_PlaceCall_def wired_calls_def calls_service_simps
proof (rule wp_bnd [OF wp_policy_Get], goal_cases)
  case (1 e w1)
  then show ?case using u by (auto simp: env_frame_def)
next
  case (2 pol w1)
  then have w1: "w_db w1 = w_db w" "w_trace w1 = w_trace w" by (auto simp: env_frame_def)
  show ?case
  proof (cases "Allows (lib_tz L) pol (w_now w1)")
    case False
    with w1 u show ?thesis by (simp add: clock_Now_def)
  next
    case True
    have u1: "accounts_unique (w_db w1)" using u w1 by simp
    show ?thesis
    proof (simp only: wp_bnd_simps clock_Now_def True simp_thms if_False,
        rule wp_bnd [OF wp_charge [OF u1]], goal_cases)
      case (1 e w2)
      with w1 u show ?case by (simp add: quiet_def)
    next
      case (2 p w2)
      obtain got b where p: "p = (got, b)" by (cases p)
      show ?case
      proof (cases got)
        case False
        with 2 w1 u p show ?thesis by (simp add: quiet_def)
      next
        case True
        let ?o = "pc_OrgID inp"
        from True 2 w1 p have c2: "balance_of (w_db w2) ?o = balance_of (w_db w) ?o - 1" "b = balance_of (w_db w2) ?o"
          "accounts_unique (w_db w2)" "emails (w_trace w2) = emails (w_trace w)"
          by (auto simp: quiet_def charged_def)
        have tail: "wp (bnd (mock_PlaceCall req) (\<lambda>pid. bnd (draw (id_New ''call'')) (\<lambda>cid. bnd (gets clock_Now) (\<lambda>now'.
            pg_RecordCallOutcome L (mk pid cid now') None)))) ?Q v"
          if "w_db v = w_db w2" "emails (w_trace v) = emails (w_trace w) @ es" "length es \<le> 1"
            "es \<noteq> [] \<longrightarrow> b = 10" for v es req mk
        proof (rule wp_bnd [OF mock_place], goal_cases)
          case (2 pid w3)
          show ?case unfolding wp_bnd_simps
          proof (rule wp_mono [OF wp_Record], goal_cases)
            case (1 r w4)
            then have "balance_of (w_db w4) = balance_of (w_db w2)" "accounts_unique (w_db w4) = accounts_unique (w_db w2)"
              "emails (w_trace w4) = emails (w_trace v)"
              using 2 that by (auto simp: quiet_def accounts_unique_def split: sum.splits)
            with that c2 show ?case by auto
          qed
        qed auto
        have warn: "w_db (notify_LowBalance email_logsender (pg_orgs L) ?o b w2) = w_db w2"
          "\<exists>es. emails (w_trace (notify_LowBalance email_logsender (pg_orgs L) ?o b w2)) = emails (w_trace w) @ es \<and> length es \<le> 1"
          using notify_frame [of L ?o b w2] c2(4) by auto
        show ?thesis
        proof (cases "b \<le> 10 \<and> b + 1 > 10")
          case warn_now: True
          then have "b = 10" by simp
          with warn tail show ?thesis
            by (auto simp: p True notify_service_def mock_provider_def)
        next
          case False
          with tail [of w2 "[]"] c2 show ?thesis
            by (auto simp: p True mock_provider_def)
        qed
      qed
    qed
  qed
qed

fun run_jobs :: "libs \<Rightarrow> PlaceCallInput list \<Rightarrow> world \<Rightarrow> world" where
  "run_jobs L [] w = w"
| "run_jobs L (j # js) w = run_jobs L js (snd (calls_PlaceCall L (wired_calls L) j w))"

lemma run_jobs_warns:
  assumes "accounts_unique (w_db w)" and "\<forall>j \<in> set js. pc_OrgID j = org"
  shows "length (emails (w_trace (run_jobs L js w))) \<le> length (emails (w_trace w)) + 1 \<and>
     (balance_of (w_db w) org \<le> 10 \<longrightarrow> length (emails (w_trace (run_jobs L js w))) = length (emails (w_trace w)))"
  using assms
proof (induction js arbitrary: w)
  case (Cons j js)
  obtain r w' where run: "calls_PlaceCall L (wired_calls L) j w = (r, w')" by force
  note post = wpD [OF wp_PlaceCall_warns [OF Cons.prems(1)] run]
  from post obtain es where es: "emails (w_trace w') = emails (w_trace w) @ es" "length es \<le> 1"
    "es \<noteq> [] \<longrightarrow> balance_of (w_db w) org = 11 \<and> balance_of (w_db w') org = 10"
    "balance_of (w_db w') org \<le> balance_of (w_db w) org" using Cons.prems(2) by auto
  have IH: "length (emails (w_trace (run_jobs L js w'))) \<le> length (emails (w_trace w')) + 1 \<and>
     (balance_of (w_db w') org \<le> 10 \<longrightarrow> length (emails (w_trace (run_jobs L js w'))) = length (emails (w_trace w')))"
    using Cons post by auto
  show ?case using es IH run by (cases "es = []") auto
qed simp

text \<open>
  The merchant is warned at most once. Over any run of queued jobs of one org,
  with any failures and as long as nothing is topped up, at most one low-balance e-mail is
  sent.
\<close>

theorem low_balance_at_most_once:
  assumes "accounts_unique (w_db w)" and "\<forall>j \<in> set js. pc_OrgID j = org"
  shows "length (emails (w_trace (run_jobs L js w))) \<le> length (emails (w_trace w)) + 1"
  using run_jobs_warns [OF assms] by blast

theorem low_balance_at_most_once_witness:
  "length (emails (w_trace (run_jobs demo_libs (replicate 3 shop_job) (shop_world 12)))) \<le> 0 + 1"
proof -
  have "accounts_unique (w_db (shop_world 12))" by (simp add: accounts_unique_def)
  then have "length (emails (w_trace (run_jobs demo_libs (replicate 3 shop_job) (shop_world 12))))
     \<le> length (emails (w_trace (shop_world 12))) + 1"
    by (rule low_balance_at_most_once [where org = "''o''"]) (simp add: shop_job_def)
  then show ?thesis by simp
qed

text \<open>What a test call leaves alone: the e-mails sent, and one account per org.\<close>

definition calm :: "world \<Rightarrow> world \<Rightarrow> bool" where
  "calm w w' \<longleftrightarrow> emails (w_trace w') = emails (w_trace w) \<and> (accounts_unique (w_db w) \<longrightarrow> accounts_unique (w_db w'))"

lemma preorder_calm [simp, intro]: "preorder_rel calm"
  by (rule preorder_relI) (auto simp: calm_def)

lemma calm_quiet:
  assumes "mrel quiet m" and "db_keeps accounts_unique m" shows "mrel calm m"
  using assms by (auto simp: mrel_def quiet_def calm_def dbrel_def)

lemma calm_RunTestCall: "mrel calm (calls_RunTestCall (wired_calls L) org phone digit name)"
proof -
  have fl: "mrel calm (pg_GetActiveFlow L org name)"
    by (rule calm_quiet [OF quiet_GetActiveFlow])
       (unfold pg_GetActiveFlow_def gen_GetActiveFlowByName_def Let_def, intro mrel_intros, auto)
  have ch: "mrel calm (pg_TryDeduct org 1 ''call'')"
    by (rule calm_quiet [OF quiet_TryDeduct accounts_unique_TryDeduct])
  have "db_keeps accounts_unique (gen_CreateCall c)" for c
    unfolding gen_CreateCall_def by (rule mrel_db_exec) (auto simp: accounts_unique_def split: if_splits)
  moreover have "db_keeps accounts_unique (gen_InsertOutbox L o' ev p)" for o' ev p
    unfolding gen_InsertOutbox_def by (rule mrel_db_exec) (auto simp: accounts_unique_def split: option.splits)
  ultimately have "db_keeps accounts_unique (pg_RecordCallOutcome L c ob)" for c ob
    unfolding pg_RecordCallOutcome_def by (intro mrel_with_tx mrel_intros) auto
  then have rec: "mrel calm (pg_RecordCallOutcome L c ob)" for c ob
    by (rule calm_quiet [OF quiet_Record])
  have vp: "mrel calm (mock_PlaceCall req)" for req
    by (rule mrel_wp, rule wp_mono [OF mock_place]) (auto simp: calm_def)
  have id: "mrel calm (draw (id_New p))" for p by (rule mrel_draw) (simp add: calm_def)
  have pub: "mrel calm (perform (calls_publish S e))" if "ck_activity S = Some feed_publisher" for S e
    by (rule mrel_perform) (simp add: calls_publish_def that feed_publisher_def calm_def)
  show ?thesis
    unfolding calls_RunTestCall_def wired_calls_def calls_service_simps pg_flows_simps mock_provider_def
      VoiceProvider.simps Let_def
    by (intro mrel_intros fl ch rec vp id pub) auto
qed

text \<open>
  A test call at the threshold silences the warning. When the charge that takes
  an org from 11 credits to the threshold is a test call's, no e-mail is sent, and none is
  sent by any later job either: the merchant runs dry unwarned.
\<close>

theorem test_call_silences_warning:
  assumes "accounts_unique (w_db w)" and "balance_of (w_db w) org = 11"
    and "calls_RunTestCall (wired_calls L) org phone digit name w = (Inr x, w1)"
    and "\<forall>j \<in> set js. pc_OrgID j = org"
  shows "balance_of (w_db w1) org = 10 \<and>
    length (emails (w_trace (run_jobs L js w1))) = length (emails (w_trace w))"
proof -
  obtain out call where x: "x = (out, call)" by (cases x)
  from mrelD [OF calm_RunTestCall assms(3)] assms(1)
  have c: "emails (w_trace w1) = emails (w_trace w)" "accounts_unique (w_db w1)" by (auto simp: calm_def)
  from wpD [OF wired.wp_RunTestCall [OF assms(1)] assms(3) [unfolded wired_calls_def]] x assms(2)
  have b: "balance_of (w_db w1) org = 10" by (simp add: charged_def)
  with run_jobs_warns [OF c(2) assms(4), of L] c(1) show ?thesis by simp
qed

theorem test_call_silences_warning_witness:
  "\<exists>out call w1. calls_RunTestCall (wired_calls demo_libs) ''o'' ''+8801712345678'' ''1'' ''order_confirm'' (shop_world 11)
       = (Inr (out, call), w1) \<and> emails (w_trace (run_jobs demo_libs [shop_job, shop_job] w1)) = []"
proof -
  obtain out call w1 where run: "calls_RunTestCall (wired_calls demo_libs) ''o'' ''+8801712345678'' ''1'' ''order_confirm''
      (shop_world 11) = (Inr (out, call), w1)" using shop_RunTestCall [of 11] by auto
  have "accounts_unique (w_db (shop_world 11))" "balance_of (w_db (shop_world 11)) ''o'' = 11"
    "\<forall>j \<in> set [shop_job, shop_job]. pc_OrgID j = ''o''"
    by (simp_all add: accounts_unique_def balance_of_def shop_job_def)
  from test_call_silences_warning [OF this(1,2) run this(3)] run show ?thesis by auto
qed

end
