(* ===== verification/Yaver_Ingest.thy ===== *)
theory Yaver_Ingest
  imports Yaver_Calls
begin

text \<open>
  Inbound store events: phone normalisation (\<open>pkg/phone\<close>), customers
  (\<open>postgres/customers.go\<close>, \<open>service/customers\<close>), the event table
  (\<open>EventRepo\<close> of \<open>postgres/ingest.go\<close>) and the ingest service that dedups an
  event and routes it to a call (\<open>service/ingest\<close>).
\<close>

section \<open>Phone numbers (pkg/phone)\<close>

definition is_digit :: "char \<Rightarrow> bool" where
  "is_digit c \<longleftrightarrow> (let n = of_char c :: nat in 48 \<le> n \<and> n \<le> 57)"

definition NormalizeBD :: "string \<Rightarrow> string option" where
  "NormalizeBD inp =
     (let s = trim_prefix (filter (\<lambda>c. is_digit c \<or> c = CHR ''+'') inp) ''+'';
          t = (if has_prefix s ''880'' \<and> length s = 13 then Some s
               else if has_prefix s ''01'' \<and> length s = 11 then Some (''880'' @ drop 1 s)
               else None)
      in case t of None \<Rightarrow> None
         | Some s' \<Rightarrow> if s' ! 3 \<noteq> CHR ''1'' then None else Some (''+'' @ s'))"

section \<open>Customers (gen/customers.sql.go, postgres/customers.go, service/customers)\<close>

definition cust_key :: "string \<Rightarrow> string \<Rightarrow> CustomerRow \<Rightarrow> bool" where
  "cust_key org phone r \<longleftrightarrow> cm_org_id r = org \<and> cm_phone r = phone"

definition coalesce :: "'a option \<Rightarrow> 'a option \<Rightarrow> 'a option" where
  "coalesce a b = (case a of None \<Rightarrow> b | Some x \<Rightarrow> Some x)"

definition gen_UpsertCustomer ::
  "string \<Rightarrow> string \<Rightarrow> string \<Rightarrow> string option \<Rightarrow> string option \<Rightarrow> (string \<times> bool) wop" where
  "gen_UpsertCustomer cid org phone name ext = db_exec (\<lambda>t d.
     case List.find (cust_key org phone) (customers d) of
       Some r \<Rightarrow> Inr ((cm_id r, cm_dnd r), d\<lparr>customers := upd_where (cust_key org phone)
         (\<lambda>r. r\<lparr>cm_name := coalesce name (cm_name r), cm_external_id := coalesce ext (cm_external_id r)\<rparr>)
         (customers d)\<rparr>)
     | None \<Rightarrow>
         if List.find (\<lambda>r. cm_id r = cid) (customers d) \<noteq> None then Inl ErrUniqueViolation
         else Inr ((cid, False), d\<lparr>customers := customers d @ [\<lparr>cm_id = cid, cm_org_id = org, cm_phone = phone,
           cm_name = name, cm_external_id = ext, cm_dnd = False, cm_created_at = t\<rparr>]\<rparr>))"

definition gen_ListCustomersByOrg :: "string \<Rightarrow> int \<Rightarrow> CustomerRow list wop" where
  "gen_ListCustomersByOrg org limit = db_read (\<lambda>t d.
     if limit < 0 then Inl (ErrOther ''LIMIT must not be negative'')
     else Inr (take (nat limit) (order_by_desc cm_created_at (filter (\<lambda>r. cm_org_id r = org) (customers d)))))"

definition gen_SetCustomerDND :: "string \<Rightarrow> string \<Rightarrow> bool \<Rightarrow> unit wop" where
  "gen_SetCustomerDND cid org dnd = db_exec (\<lambda>t d.
     Inr ((), d\<lparr>customers := upd_where (\<lambda>r. cm_id r = cid \<and> cm_org_id r = org)
       (\<lambda>r. r\<lparr>cm_dnd := dnd\<rparr>) (customers d)\<rparr>))"

definition pg_cust_Upsert :: "OrgID \<Rightarrow> string \<Rightarrow> string \<Rightarrow> string \<Rightarrow> (string \<times> bool) wop" where
  "pg_cust_Upsert org phone name ext = bnd (draw (id_New ''cust'')) (\<lambda>cid.
     gen_UpsertCustomer cid org phone (strPtr name) (strPtr ext))"

definition pg_cust_ListByOrg :: "OrgID \<Rightarrow> int \<Rightarrow> Customer list wop" where
  "pg_cust_ListByOrg org limit = bnd (gen_ListCustomersByOrg org (go_int32 limit)) (\<lambda>rows.
     ret (map (\<lambda>r. \<lparr>cu_ID = cm_id r, cu_Phone = cm_phone r, cu_Name = deref (cm_name r),
        cu_ExternalID = deref (cm_external_id r), cu_DND = cm_dnd r, cu_CreatedAt = cm_created_at r\<rparr>) rows))"

definition pg_cust_SetDND :: "OrgID \<Rightarrow> string \<Rightarrow> bool \<Rightarrow> unit wop" where
  "pg_cust_SetDND org cid dnd = gen_SetCustomerDND cid org dnd"

definition pg_customers :: CustomerRepo where
  "pg_customers = \<lparr>cur_Upsert = pg_cust_Upsert, cur_ListByOrg = pg_cust_ListByOrg, cur_SetDND = pg_cust_SetDND\<rparr>"

definition customers_List :: "CustomerRepo \<Rightarrow> OrgID \<Rightarrow> int \<Rightarrow> Customer list wop" where
  "customers_List repo org limit =
     cur_ListByOrg repo org (if limit \<le> 0 \<or> limit > 500 then 100 else limit)"

definition customers_SetDND :: "CustomerRepo \<Rightarrow> OrgID \<Rightarrow> string \<Rightarrow> bool \<Rightarrow> unit wop" where
  "customers_SetDND repo org cid dnd = cur_SetDND repo org cid dnd"

section \<open>The event table (gen/ingest.sql.go, postgres/ingest.go)\<close>

definition gen_InsertEvent :: "libs \<Rightarrow> IngestEvent \<Rightarrow> string wop" where
  "gen_InsertEvent L e = db_exec (\<lambda>t d.
     case lib_jsonb L (ie_Payload e) of
       None \<Rightarrow> Inl invalid_json
     | Some p \<Rightarrow>
         if List.find (\<lambda>r. ev_org_id r = ie_OrgID e \<and> ev_external_event_id r = ie_ExternalEventID e) (events d) \<noteq> None
         then Inl ErrNoRows
         else if List.find (\<lambda>r. ev_id r = ie_ID e) (events d) \<noteq> None then Inl ErrUniqueViolation
         else Inr (ie_ID e, d\<lparr>events := events d @ [\<lparr>ev_id = ie_ID e, ev_org_id = ie_OrgID e, ev_type = ie_Type e,
           ev_external_event_id = ie_ExternalEventID e, ev_payload = p, ev_status = ''received'',
           ev_created_at = t\<rparr>]\<rparr>))"

definition pg_event_Insert :: "libs \<Rightarrow> IngestEvent \<Rightarrow> bool wop" where
  "pg_event_Insert L e = attempt (gen_InsertEvent L e) (\<lambda>q. case q of
       Inl err \<Rightarrow> if err = ErrNoRows then ret False else fail err
     | Inr _ \<Rightarrow> ret True)"

definition pg_events :: "libs \<Rightarrow> EventRepo" where
  "pg_events L = \<lparr>evr_Insert = pg_event_Insert L\<rparr>"

section \<open>The ingest service (service/ingest)\<close>

record IngestService =
  ig_events :: EventRepo
  ig_customers :: CustomerRepo
  ig_flows :: FlowRepo
  ig_orch :: Orchestrator

definition eventFlow :: "string \<rightharpoonup> string" where
  "eventFlow = [''order_placed'' \<mapsto> ''order_confirm'', ''abandoned_cart'' \<mapsto> ''cart_recovery'',
     ''out_for_delivery'' \<mapsto> ''delivery_reminder'']"

record Event =
  et_Type :: string
  et_ExternalID :: string
  et_Phone :: string
  et_CustomerName :: string
  et_CustomerRef :: string
  et_Payload :: string

definition ingest_route :: "IngestService \<Rightarrow> OrgID \<Rightarrow> Event \<Rightarrow> string \<Rightarrow> bool \<Rightarrow> unit wop" where
  "ingest_route s org ev e164 dnd =
     (case eventFlow (et_Type ev) of
        None \<Rightarrow> ret ()
      | Some flowName \<Rightarrow>
          if e164 \<noteq> [] \<and> \<not> dnd
          then bnd (flr_GetActiveFlow (ig_flows s) org flowName) (\<lambda>found. case found of
              None \<Rightarrow> ret ()
            | Some f \<Rightarrow> orc_EnqueuePlaceCall (ig_orch s) \<lparr>pc_OrgID = org, pc_ToPhone = e164, pc_FlowID = fl_ID f\<rparr>)
          else ret ())"

definition ingest_Accept :: "IngestService \<Rightarrow> OrgID \<Rightarrow> Event \<Rightarrow> (string \<times> bool) wop" where
  "ingest_Accept s org ev =
     bnd (if et_Phone ev \<noteq> []
          then (case NormalizeBD (et_Phone ev) of None \<Rightarrow> fail ErrInvalidPhone | Some p \<Rightarrow> ret p)
          else ret []) (\<lambda>e164.
     bnd (draw (id_New ''evt'')) (\<lambda>eventID.
     bnd (evr_Insert (ig_events s) \<lparr>ie_ID = eventID, ie_OrgID = org, ie_Type = et_Type ev,
            ie_ExternalEventID = et_ExternalID ev, ie_Phone = e164, ie_Payload = et_Payload ev\<rparr>) (\<lambda>inserted.
     if \<not> inserted then ret ([], True)
     else
       bnd (if e164 \<noteq> []
            then bnd (cur_Upsert (ig_customers s) org e164 (et_CustomerName ev) (et_CustomerRef ev)) (\<lambda>(_, dnd). ret dnd)
            else ret False) (\<lambda>dnd.
       bnd (ingest_route s org ev e164 dnd) (\<lambda>_.
       ret (eventID, False))))))"

definition ingest_service :: "libs \<Rightarrow> Orchestrator \<Rightarrow> IngestService" where
  "ingest_service L orch = \<lparr>ig_events = pg_events L, ig_customers = pg_customers, ig_flows = pg_flows L, ig_orch = orch\<rparr>"

section \<open>Facts about phone numbers\<close>

lemma has_prefix_split: "has_prefix s p \<longleftrightarrow> (\<exists>r. s = p @ r)"
  by (auto simp: has_prefix_def) (metis append_take_drop_id)

lemma NormalizeBD_shape:
  assumes "NormalizeBD inp = Some p"
  shows "\<exists>x. p = ''+8801'' @ x \<and> length x = 9 \<and> (\<forall>c \<in> set x. is_digit c \<or> c = CHR ''+'')"
proof -
  let ?k = "\<lambda>c. is_digit c \<or> c = CHR ''+''"
  define s where "s = trim_prefix (filter ?k inp) ''+''"
  have ok: "\<forall>c \<in> set s. ?k c"
    unfolding s_def trim_prefix_def by (auto dest: in_set_dropD)
  consider (long) r where "s = ''880'' @ r" "length s = 13" "s ! 3 = CHR ''1''" "p = ''+'' @ s"
    | (local) r where "s = ''01'' @ r" "length s = 11" "p = ''+880'' @ drop 1 s"
    using assms unfolding NormalizeBD_def Let_def s_def [symmetric]
    by (auto simp: has_prefix_split split: if_splits option.splits)
  then show ?thesis
  proof cases
    case long
    then obtain c x where "r = c # x" by (cases r) auto
    with long ok show ?thesis by (intro exI [of _ x]) auto
  next
    case local
    with ok show ?thesis by (intro exI [of _ r]) auto
  qed
qed

lemma NormalizeBD_e164:
  assumes "length x = 9" and "\<forall>c \<in> set x. is_digit c \<or> c = CHR ''+''"
  shows "NormalizeBD (''+8801'' @ x) = Some (''+8801'' @ x)" "NormalizeBD (''8801'' @ x) = Some (''+8801'' @ x)"
    "NormalizeBD (''01'' @ x) = Some (''+8801'' @ x)"
proof -
  have x: "filter (\<lambda>c. is_digit c \<or> c = CHR ''+'') x = x" using assms(2) by (simp add: filter_id_conv)
  have d: "is_digit CHR ''8''" "is_digit CHR ''0''" "is_digit CHR ''1''" by (simp_all add: is_digit_def)
  show "NormalizeBD (''+8801'' @ x) = Some (''+8801'' @ x)" "NormalizeBD (''8801'' @ x) = Some (''+8801'' @ x)"
    "NormalizeBD (''01'' @ x) = Some (''+8801'' @ x)"
    using assms(1) x d by (simp_all add: NormalizeBD_def trim_prefix_def has_prefix_def Let_def)
qed

section \<open>Facts about events and customers\<close>

definition seen :: "database \<Rightarrow> OrgID \<Rightarrow> string \<Rightarrow> bool" where
  "seen d org ext \<longleftrightarrow> (\<exists>r \<in> set (events d). ev_org_id r = org \<and> ev_external_event_id r = ext)"

definition dnd_of :: "database \<Rightarrow> OrgID \<Rightarrow> string \<Rightarrow> bool" where
  "dnd_of d org phone = (case List.find (cust_key org phone) (customers d) of None \<Rightarrow> False | Some r \<Rightarrow> cm_dnd r)"

lemma ingest_service_simps [simp]:
  "ig_events (ingest_service L orc) = pg_events L" "ig_customers (ingest_service L orc) = pg_customers"
  "ig_flows (ingest_service L orc) = pg_flows L" "ig_orch (ingest_service L orc) = orc"
  "evr_Insert (pg_events L) = pg_event_Insert L" "cur_Upsert pg_customers = pg_cust_Upsert"
  "cur_ListByOrg pg_customers = pg_cust_ListByOrg" "cur_SetDND pg_customers = pg_cust_SetDND"
  by (simp_all add: ingest_service_def pg_events_def pg_customers_def)

lemma wp_event_Insert:
  "wp (pg_event_Insert L e) (\<lambda>r w'. quiet w w' \<and> (case r of
      Inl err \<Rightarrow> w_db w' = w_db w
    | Inr False \<Rightarrow> w_db w' = w_db w \<and> seen (w_db w) (ie_OrgID e) (ie_ExternalEventID e)
    | Inr True \<Rightarrow> \<not> seen (w_db w) (ie_OrgID e) (ie_ExternalEventID e) \<and>
        (\<exists>row. w_db w' = (w_db w)\<lparr>events := events (w_db w) @ [row]\<rparr> \<and> ev_org_id row = ie_OrgID e
           \<and> ev_external_event_id row = ie_ExternalEventID e))) w"
proof -
  have ins: "wp (gen_InsertEvent L e) (\<lambda>r w'. quiet w w' \<and> (case r of
      Inl err \<Rightarrow> w_db w' = w_db w \<and> (err = ErrNoRows \<longrightarrow> seen (w_db w) (ie_OrgID e) (ie_ExternalEventID e))
    | Inr _ \<Rightarrow> \<not> seen (w_db w) (ie_OrgID e) (ie_ExternalEventID e) \<and>
        (\<exists>row. w_db w' = (w_db w)\<lparr>events := events (w_db w) @ [row]\<rparr> \<and> ev_org_id row = ie_OrgID e
           \<and> ev_external_event_id row = ie_ExternalEventID e))) w"
    unfolding gen_InsertEvent_def
    by (rule wp_db_exec)
       (auto simp: quiet_def env_frame_def seen_def find_None_iff invalid_json_def
         split: option.splits dest: find_SomeD)
  show ?thesis unfolding pg_event_Insert_def
    by (rule wp_attempt [OF ins]) (auto split: sum.splits)
qed

lemma wp_cust_Upsert:
  "wp (pg_cust_Upsert org phone name ext) (\<lambda>r w'. quiet w w' \<and> (\<exists>cs. w_db w' = (w_db w)\<lparr>customers := cs\<rparr>) \<and>
     dnd_of (w_db w') = dnd_of (w_db w) \<and> (\<forall>cid dnd. r = Inr (cid, dnd) \<longrightarrow> dnd = dnd_of (w_db w) org phone)) w"
proof -
  have same: "\<exists>cs. d = d\<lparr>customers := cs\<rparr>" for d :: database by (rule exI [of _ "customers d"]) simp
  have upd: "dnd_of (d\<lparr>customers := upd_where (cust_key org phone)
      (\<lambda>r. r\<lparr>cm_name := f r, cm_external_id := g r\<rparr>) (customers d)\<rparr>) = dnd_of d" for d f g
  proof (intro ext)
    fix o' p'
    have "List.find (cust_key o' p') (upd_where (cust_key org phone)
        (\<lambda>r. r\<lparr>cm_name := f r, cm_external_id := g r\<rparr>) (customers d)) =
      map_option (\<lambda>r. if cust_key org phone r then r\<lparr>cm_name := f r, cm_external_id := g r\<rparr> else r)
        (List.find (cust_key o' p') (customers d))"
      by (rule find_upd_where) (simp add: cust_key_def)
    then show "dnd_of (d\<lparr>customers := upd_where (cust_key org phone)
      (\<lambda>r. r\<lparr>cm_name := f r, cm_external_id := g r\<rparr>) (customers d)\<rparr>) o' p' = dnd_of d o' p'"
      by (auto simp: dnd_of_def split: option.splits)
  qed
  have new: "dnd_of (d\<lparr>customers := customers d @ [row]\<rparr>) = dnd_of d" if "\<not> cm_dnd row" for d row
    using that by (auto simp: dnd_of_def fun_eq_iff find_append split: option.splits)
  show ?thesis unfolding pg_cust_Upsert_def wp_bnd_simps gen_UpsertCustomer_def
  proof (rule wp_db_exec, goal_cases)
    case (1 w')
    then show ?case using same by (auto simp: quiet_def env_frame_def)
  next
    case (2 w')
    then show ?case
      using same by (auto simp: quiet_def env_frame_def upd new dnd_of_def split: option.splits)
  qed
qed

text \<open>The jobs one event may cause, judged on the tables before it.\<close>

definition job_ok :: "database \<Rightarrow> OrgID \<Rightarrow> Event \<Rightarrow> PlaceCallInput \<Rightarrow> bool" where
  "job_ok d org ev j \<longleftrightarrow> pc_OrgID j = org \<and> NormalizeBD (et_Phone ev) = Some (pc_ToPhone j)
     \<and> \<not> dnd_of d org (pc_ToPhone j)
     \<and> (\<exists>name row. eventFlow (et_Type ev) = Some name \<and> row \<in> set (active_named d org name) \<and> pc_FlowID j = fw_id row)"

text \<open>
  The jobs queued, along a sequence of deliveries, by those carrying one external id of one
  org. The deliveries may repeat, fail half way or belong to other orgs.
\<close>

fun jobs_for :: "IngestService \<Rightarrow> OrgID \<Rightarrow> string \<Rightarrow> (OrgID \<times> Event) list \<Rightarrow> world \<Rightarrow> nat" where
  "jobs_for s org ext [] w = 0"
| "jobs_for s org ext ((o', ev) # rest) w =
     (let w' = snd (ingest_Accept s o' ev w)
      in (if o' = org \<and> et_ExternalID ev = ext then length (w_jobs w') - length (w_jobs w) else 0)
         + jobs_for s org ext rest w')"

section \<open>What the service needs of an orchestrator\<close>

text \<open>
  A job reported as queued is queued, once; one reported as failed may or may not be; no
  table changes and nothing leaves the process.
\<close>

locale orchestrator =
  fixes orc :: Orchestrator
  assumes enqueue: "wp (orc_EnqueuePlaceCall orc inp) (\<lambda>r w'. w_db w' = w_db w \<and> w_trace w' = w_trace w \<and>
     (w_jobs w' = w_jobs w @ [inp] \<or> w_jobs w' = w_jobs w \<and> (\<exists>e. r = Inl e))) w"
begin

lemma wp_route:
  assumes "dnd = dnd_of d org e164" and "e164 \<noteq> [] \<longrightarrow> NormalizeBD (et_Phone ev) = Some e164"
    and "flows (w_db v) = flows d"
  shows "wp (ingest_route (ingest_service L orc) org ev e164 dnd) (\<lambda>r w'. w_db w' = w_db v \<and>
     (w_jobs w' = w_jobs v \<or> (\<exists>j. w_jobs w' = w_jobs v @ [j] \<and> job_ok d org ev j))) v"
proof (cases "eventFlow (et_Type ev)")
  case (Some name)
  have act: "active_named (w_db v) org name = active_named d org name" using assms(3) by (simp add: active_named_def)
  show ?thesis
  proof (cases "e164 \<noteq> [] \<and> \<not> dnd")
    case True
    show ?thesis unfolding ingest_route_def Some option.case ingest_service_simps pg_flows_simps
    proof (simp only: True simp_thms if_True,
        rule wp_bnd [OF wp_conj [OF wp_GetActiveFlow wp_mrel [OF quiet_GetActiveFlow]]], goal_cases)
      case (1 e w1)
      then show ?case by (simp add: quiet_def)
    next
      case (2 found w1)
      show ?case
      proof (cases found)
        case None
        with 2 show ?thesis by (simp add: quiet_def)
      next
        case Sf: (Some f)
        show ?thesis unfolding Sf option.case
          by (rule wp_mono [OF enqueue])
             (use 2 Sf True assms act Some in \<open>auto simp: quiet_def job_ok_def\<close>)
      qed
    qed
  qed (auto simp: ingest_route_def Some)
qed (simp add: ingest_route_def)

lemma seen_customers: "seen (d\<lparr>customers := cs\<rparr>) = seen d"
  by (simp add: seen_def fun_eq_iff)

text \<open>What follows the insert of a new event: \<open>v\<close> is \<open>w\<close> with the event's row appended.\<close>

lemma wp_accepted:
  assumes v: "w_db v = (w_db w)\<lparr>events := events (w_db w) @ [row]\<rparr>"
      "ev_org_id row = org" "ev_external_event_id row = et_ExternalID ev" "w_jobs v = w_jobs w"
    and e164: "e164 \<noteq> [] \<longrightarrow> NormalizeBD (et_Phone ev) = Some e164"
  shows "wp (bnd (if e164 \<noteq> []
       then bnd (pg_cust_Upsert org e164 (et_CustomerName ev) (et_CustomerRef ev)) (\<lambda>(_, dnd). ret dnd)
       else ret False) (\<lambda>dnd. bnd (ingest_route (ingest_service L orc) org ev e164 dnd) (\<lambda>_. ret (eid, False))))
     (\<lambda>r w'. seen (w_db w) \<le> seen (w_db w') \<and> seen (w_db w') org (et_ExternalID ev) \<and>
        (w_jobs w' = w_jobs w \<or> (\<exists>j. w_jobs w' = w_jobs w @ [j] \<and> job_ok (w_db w) org ev j)) \<and>
        (\<forall>x. r = Inr x \<longrightarrow> x = (eid, False))) v"
proof (rule wp_bnd [where P = "\<lambda>r w'. w_jobs w' = w_jobs w \<and> seen (w_db w) \<le> seen (w_db w')
      \<and> seen (w_db w') org (et_ExternalID ev) \<and> flows (w_db w') = flows (w_db w)
      \<and> (\<forall>dnd. r = Inr dnd \<longrightarrow> e164 \<noteq> [] \<longrightarrow> dnd = dnd_of (w_db w) org e164)"], goal_cases)
  case 1
  have dv: "dnd_of (w_db v) = dnd_of (w_db w)" by (simp add: v dnd_of_def fun_eq_iff)
  have sv: "seen (w_db w) \<le> seen (w_db v)" "seen (w_db v) org (et_ExternalID ev)" "flows (w_db v) = flows (w_db w)"
    unfolding v(1) seen_def le_fun_def using v(2,3) by simp_all
  have up: "w_jobs w' = w_jobs w \<and> seen (w_db w) \<le> seen (w_db w') \<and> seen (w_db w') org (et_ExternalID ev) \<and>
      flows (w_db w') = flows (w_db w)" if "quiet v w'" "\<exists>cs. w_db w' = (w_db v)\<lparr>customers := cs\<rparr>" for w'
    using that sv v(4) by (auto simp: quiet_def seen_customers)
  have "wp (bnd (pg_cust_Upsert org e164 nm ref) (\<lambda>(_, dnd). ret dnd)) (\<lambda>r w'. w_jobs w' = w_jobs w
      \<and> seen (w_db w) \<le> seen (w_db w') \<and> seen (w_db w') org (et_ExternalID ev) \<and> flows (w_db w') = flows (w_db w)
      \<and> (\<forall>dnd. r = Inr dnd \<longrightarrow> e164 \<noteq> [] \<longrightarrow> dnd = dnd_of (w_db w) org e164)) v" for nm ref
  proof (rule wp_bnd [OF wp_cust_Upsert], goal_cases)
    case (1 e w')
    with up show ?case by simp
  next
    case (2 x w')
    with up [of w'] dv show ?case by (cases x) simp
  qed
  with sv v(4) show ?case by (cases "e164 = []") simp_all
next
  case (2 e w1)
  then show ?case by simp
next
  case (3 dnd w1)
  show ?case
  proof (cases "e164 = []")
    case True
    then have "wp (ingest_route (ingest_service L orc) org ev e164 dnd) (\<lambda>r w'. w' = w1 \<and> r = Inr ()) w1"
      by (auto simp: ingest_route_def split: option.splits)
    then show ?thesis by (rule wp_bnd) (use 3 in auto)
  next
    case False
    show ?thesis
      by (rule wp_bnd [OF wp_route [where d = "w_db w"]]) (use 3 False e164 in auto)
  qed
qed

lemma wp_Accept:
  "wp (ingest_Accept (ingest_service L orc) org ev) (\<lambda>r w'.
     (seen (w_db w) org (et_ExternalID ev) \<longrightarrow> w_db w' = w_db w \<and> w_jobs w' = w_jobs w) \<and>
     seen (w_db w) \<le> seen (w_db w') \<and>
     (w_jobs w' = w_jobs w \<or> seen (w_db w') org (et_ExternalID ev) \<and>
        (\<exists>j. w_jobs w' = w_jobs w @ [j] \<and> job_ok (w_db w) org ev j)) \<and>
     (case r of Inl e \<Rightarrow> True
      | Inr (eid, dup) \<Rightarrow> dup = seen (w_db w) org (et_ExternalID ev) \<and> seen (w_db w') org (et_ExternalID ev))) w"
  (is "wp _ ?Q w")
  unfolding ingest_Accept_def ingest_service_simps
proof (rule wp_bnd [where P = "\<lambda>r w'. w' = w \<and> (\<forall>e164. r = Inr e164 \<longrightarrow> e164 \<noteq> [] \<longrightarrow>
      NormalizeBD (et_Phone ev) = Some e164)"], goal_cases)
  case 1
  show ?case by (auto split: option.splits)
next
  case (3 e164 w1)
  then have e: "e164 \<noteq> [] \<longrightarrow> NormalizeBD (et_Phone ev) = Some e164" by simp
  show ?case unfolding wp_bnd_simps
  proof (rule wp_bnd [OF wp_event_Insert], goal_cases)
    case (1 e w2)
    with 3 show ?case by (simp add: quiet_def)
  next
    case (2 ins w2)
    show ?case
    proof (cases ins)
      case True
      with 2 3 obtain row where new: "\<not> seen (w_db w) org (et_ExternalID ev)"
        and row: "w_db w2 = (w_db w)\<lparr>events := events (w_db w) @ [row]\<rparr>" "ev_org_id row = org"
          "ev_external_event_id row = et_ExternalID ev" and q: "w_jobs w2 = w_jobs w"
        by (auto simp: quiet_def)
      have t: "(\<not> ins) = False" using True by simp
      show ?thesis unfolding t if_False
        by (rule wp_mono [OF wp_accepted [OF row q e]]) (use new in \<open>auto split: sum.splits\<close>)
    next
      case False
      with 2 3 show ?thesis by (simp add: quiet_def)
    qed
  qed
qed auto

lemma Accept_job:
  assumes "ingest_Accept (ingest_service L orc) org ev w = (r, w')"
  shows "\<exists>new. w_jobs w' = w_jobs w @ new \<and> length new \<le> 1 \<and> list_all (job_ok (w_db w) org ev) new \<and>
      (seen (w_db w) org (et_ExternalID ev) \<longrightarrow> new = [] \<and> w_db w' = w_db w) \<and>
      (new \<noteq> [] \<longrightarrow> seen (w_db w') org (et_ExternalID ev))"
  using wpD [OF wp_Accept assms] by (auto simp: le_fun_def)

lemma Accept_seen_mono:
  assumes "ingest_Accept (ingest_service L orc) org ev w = (r, w')"
  shows "seen (w_db w) \<le> seen (w_db w')"
  using wpD [OF wp_Accept assms] by blast

lemma jobs_for_le: "jobs_for (ingest_service L orc) org ext evs w \<le> (if seen (w_db w) org ext then 0 else 1)"
proof (induction evs arbitrary: w)
  case (Cons e rest)
  obtain o' ev where e: "e = (o', ev)" by fastforce
  obtain r w' where a: "ingest_Accept (ingest_service L orc) o' ev w = (r, w')" by fastforce
  from Accept_job [OF a] obtain new where new: "w_jobs w' = w_jobs w @ new" "length new \<le> 1"
    "seen (w_db w) o' (et_ExternalID ev) \<longrightarrow> new = []" "new \<noteq> [] \<longrightarrow> seen (w_db w') o' (et_ExternalID ev)" by blast
  have "seen (w_db w) org ext \<longrightarrow> seen (w_db w') org ext" using Accept_seen_mono [OF a] by (auto simp: le_fun_def)
  with new Cons.IH [of w'] show ?case by (cases new) (auto simp: e a Let_def split: if_splits)
qed simp

end

interpretation localq: orchestrator local_orchestrator
  by unfold_locales (simp add: local_orchestrator_def local_EnqueuePlaceCall_def)

section \<open>Properties\<close>

text \<open>
  Property C11: an event causes at most one call. Along any sequence of deliveries, to any
  orgs, with repetitions and whatever database failures, the deliveries that carry one
  external id of one org queue at most one job between them, and none if the id was already
  recorded before.
\<close>

theorem Accept_at_most_once:
  "jobs_for (ingest_service L local_orchestrator) org ext evs w \<le> (if seen (w_db w) org ext then 0 else 1)"
  by (rule localq.jobs_for_le)

text \<open>
  Property C12: the job an event queues is the right one, whatever fails. It is of the
  caller's org, calls the normalised number of the event, a number that had not asked to be
  left alone, and runs an active flow of the org under the name the event type is routed to.
\<close>

theorem Accept_job_sound:
  "\<exists>new. w_jobs (snd (ingest_Accept (ingest_service L local_orchestrator) org ev w)) = w_jobs w @ new
     \<and> length new \<le> 1 \<and> list_all (job_ok (w_db w) org ev) new"
proof -
  obtain r w' where a: "ingest_Accept (ingest_service L local_orchestrator) org ev w = (r, w')" by fastforce
  from localq.Accept_job [OF a] a show ?thesis by auto
qed

lemma GetActiveFlow_quiet:
  assumes "w_sched w = []" and "active_named (w_db w) org name \<noteq> []" and "specs_ok L (w_db w)"
  shows "\<exists>f. pg_GetActiveFlow L org name w = (Inr (Some f), w) \<and> fl_ID f \<in> fw_id ` set (active_named (w_db w) org name)"
proof -
  obtain row rest where o: "order_by_desc fw_version (active_named (w_db w) org name) = row # rest"
    using assms(2) by (cases "order_by_desc fw_version (active_named (w_db w) org name)")
      (auto simp: order_by_desc_def dest: arg_cong [where f = set])
  then have row: "row \<in> set (active_named (w_db w) org name)" by (metis list.set_intros(1) set_order_by_desc)
  then have "fw_type row = FlowIVR \<longrightarrow> valid_spec L (fw_spec row)"
    using assms(3) by (auto simp: specs_ok_def active_named_def)
  then show ?thesis using row o assms(1)
    by (auto simp: pg_GetActiveFlow_def gen_GetActiveFlowByName_def op_defs db_read_quiet active_named_def
        valid_spec_def Let_def)
qed

lemma cust_Upsert_quiet:
  assumes "w_sched w = []" and "\<forall>r \<in> set (customers (w_db w)). cm_id r \<noteq> fst (id_New ''cust'' w)"
  shows "\<exists>cid w'. pg_cust_Upsert org phone name ext w = (Inr (cid, dnd_of (w_db w) org phone), w')
     \<and> w_sched w' = [] \<and> flows (w_db w') = flows (w_db w) \<and> w_jobs w' = w_jobs w"
  using assms by (auto simp: pg_cust_Upsert_def gen_UpsertCustomer_def bnd_def attempt_def ret_def fail_def perform_def draw_eq db_exec_quiet dnd_of_def
      find_None_iff split: option.splits dest: find_SomeD)

text \<open>
  Property C34: an event that should cause a call does. With the database answering, a new
  event of a routed type, with a valid phone number of a customer who may be called and an
  active flow for it, is accepted and queues exactly one job.
\<close>

theorem Accept_queues_call:
  assumes "w_sched w = []" and "lib_jsonb L (et_Payload ev) = Some pl"
    and "NormalizeBD (et_Phone ev) = Some p" and "\<not> dnd_of (w_db w) org p"
    and "\<not> seen (w_db w) org (et_ExternalID ev)"
    and "eventFlow (et_Type ev) = Some name" and "active_named (w_db w) org name \<noteq> []" and "specs_ok L (w_db w)"
    and "\<forall>r \<in> set (events (w_db w)). ev_id r \<noteq> fst (id_New ''evt'' w)"
    and "\<forall>r \<in> set (customers (w_db w)). cm_id r \<noteq> fst (id_New ''cust'' (snd (id_New ''evt'' w)))"
  shows "\<exists>w' fid. ingest_Accept (ingest_service L local_orchestrator) org ev w = (Inr (fst (id_New ''evt'' w), False), w') \<and>
     w_jobs w' = w_jobs w @ [\<lparr>pc_OrgID = org, pc_ToPhone = p, pc_FlowID = fid\<rparr>]"
proof -
  let ?id = "fst (id_New ''evt'' w)"
  have ne: "et_Phone ev \<noteq> []" "p \<noteq> []" using assms(3) NormalizeBD_shape [OF assms(3)]
    by (auto simp: NormalizeBD_def has_prefix_def trim_prefix_def)
  define w1 where "w1 = (snd (id_New ''evt'' w))\<lparr>w_db := (w_db w)\<lparr>events := events (w_db w) @ [\<lparr>ev_id = ?id,
     ev_org_id = org, ev_type = et_Type ev, ev_external_event_id = et_ExternalID ev, ev_payload = pl,
     ev_status = ''received'', ev_created_at = w_now w\<rparr>]\<rparr>\<rparr>"
  have ins: "pg_event_Insert L \<lparr>ie_ID = ?id, ie_OrgID = org, ie_Type = et_Type ev, ie_ExternalEventID = et_ExternalID ev,
      ie_Phone = p, ie_Payload = et_Payload ev\<rparr> (snd (id_New ''evt'' w)) = (Inr True, w1)"
    using assms(1,2,5,9) by (auto simp: pg_event_Insert_def gen_InsertEvent_def op_defs db_exec_quiet w1_def seen_def
        find_None_iff split: option.splits dest: find_SomeD)
  have "w_sched w1 = []" "\<forall>r \<in> set (customers (w_db w1)). cm_id r \<noteq> fst (id_New ''cust'' w1)"
    using assms(1,10) by (simp_all add: w1_def fst_id_New)
  from cust_Upsert_quiet [OF this, of org p "et_CustomerName ev" "et_CustomerRef ev"] obtain cid w2 where
    up: "pg_cust_Upsert org p (et_CustomerName ev) (et_CustomerRef ev) w1 = (Inr (cid, dnd_of (w_db w1) org p), w2)"
    "w_sched w2 = []" "flows (w_db w2) = flows (w_db w)" "w_jobs w2 = w_jobs w"
    by (auto simp: w1_def)
  have dnd: "dnd_of (w_db w1) org p = False" using assms(4) by (simp add: w1_def dnd_of_def)
  have "active_named (w_db w2) org name \<noteq> []" "specs_ok L (w_db w2)"
    using assms(7,8) up(3) by (simp_all add: active_named_def specs_ok_def)
  from GetActiveFlow_quiet [OF up(2) this] obtain f where f: "pg_GetActiveFlow L org name w2 = (Inr (Some f), w2)" by blast
  show ?thesis
    using ne up f assms(3,6) dnd ins
    by (simp add: ingest_Accept_def ingest_route_def bnd_def attempt_def ret_def fail_def perform_def draw_eq local_orchestrator_def local_EnqueuePlaceCall_def)
qed

definition order_event :: Event where
  "order_event = \<lparr>et_Type = ''order_placed'', et_ExternalID = ''x1'', et_Phone = ''01712-345678'',
     et_CustomerName = ''A'', et_CustomerRef = [], et_Payload = ''{}''\<rparr>"

theorem Accept_queues_call_witness:
  "\<exists>w' fid. ingest_Accept (ingest_service demo_libs local_orchestrator) ''o'' order_event (shop_world 1) =
       (Inr (fst (id_New ''evt'' (shop_world 1)), False), w') \<and>
     w_jobs w' = [\<lparr>pc_OrgID = ''o'', pc_ToPhone = ''+8801712345678'', pc_FlowID = fid\<rparr>]"
proof -
  have "NormalizeBD (et_Phone order_event) = Some ''+8801712345678''" by (simp add: order_event_def) code_simp
  from Accept_queues_call [OF _ _ this, where w = "shop_world 1" and L = demo_libs and org = "''o''" and pl = "''{}''"
      and name = "''order_confirm''"]
  show ?thesis
    by (simp add: demo_libs_def order_event_def eventFlow_def dnd_of_def seen_def active_named_def specs_ok_def
        valid_spec_def orderConfirmSpec_def shop_world_def)
qed

text \<open>
  The accepted ways to write a number agree. With or without country code, with
  or without the plus sign, and with any other characters interspersed, a number of nine
  digits after the leading 1 yields the same E.164 form, and normalising that form again
  changes nothing.
\<close>

theorem NormalizeBD_formats:
  assumes "length x = 9" and "list_all is_digit x"
    and "filter (\<lambda>c. is_digit c \<or> c = CHR ''+'') inp \<in> {''+8801'' @ x, ''8801'' @ x, ''01'' @ x}"
  shows "NormalizeBD inp = Some (''+8801'' @ x) \<and> NormalizeBD (''+8801'' @ x) = Some (''+8801'' @ x)"
proof -
  have x: "\<forall>c \<in> set x. is_digit c \<or> c = CHR ''+''" using assms(2) by (auto simp: list_all_iff)
  have idem: "NormalizeBD inp = NormalizeBD (filter (\<lambda>c. is_digit c \<or> c = CHR ''+'') inp)"
    by (simp add: NormalizeBD_def)
  have "NormalizeBD inp = Some (''+8801'' @ x)"
    using assms(3) NormalizeBD_e164 [OF assms(1) x] unfolding idem by (elim insertE emptyE) (simp_all only:)
  with NormalizeBD_e164(1) [OF assms(1) x] show ?thesis by blast
qed

theorem NormalizeBD_formats_witness:
  "NormalizeBD ''+880 1712-345678'' = Some ''+8801712345678''"
proof -
  have "length ''712345678'' = 9" "list_all is_digit ''712345678''" by (simp_all add: is_digit_def)
  from NormalizeBD_formats [OF this, of "''+880 1712-345678''"] show ?thesis by (simp add: is_digit_def)
qed

text \<open>
  Normalisation lets through what is no phone number. A plus sign inside the
  number is kept, so an accepted number need not consist of digits.
\<close>

theorem NormalizeBD_keeps_inner_plus:
  "NormalizeBD ''01+12345678'' = Some ''+8801+12345678''"
  by code_simp


end
