(* ===== verification/Yaver_Campaigns.thy ===== *)
theory Yaver_Campaigns
  imports Yaver_Ingest
begin

text \<open>
  Batch calling: the CSV reader the import uses (\<open>encoding/csv\<close> with its defaults and a
  free number of fields), the campaign queries and repository
  (\<open>gen/campaigns.sql.go\<close>, \<open>postgres/campaigns.go\<close>) and the campaign service
  (\<open>service/campaigns\<close>): import, scheduling, dispatch and the timer sweep.
\<close>

section \<open>The CSV reader (encoding/csv)\<close>

text \<open>
  The reader works on lines that end in a newline, with a carriage return before it
  dropped; the last line may lack the newline.
\<close>

definition newline :: char where "newline = CHR 0x0A"

definition strip_cr :: "string \<Rightarrow> string" where
  "strip_cr l = (if l \<noteq> [] \<and> last l = CHR 0x0D then butlast l else l)"

lemma dropWhile_Cons_length: "dropWhile P s = c # rest \<Longrightarrow> length rest < length s"
  using length_dropWhile_le [of P s] by simp

function csv_lines :: "string \<Rightarrow> string list" where
  "csv_lines s = (if s = [] then []
     else let l = strip_cr (takeWhile (\<lambda>c. c \<noteq> newline) s)
       in case dropWhile (\<lambda>c. c \<noteq> newline) s of
          [] \<Rightarrow> [l]
        | _ # rest \<Rightarrow> (l @ [newline]) # csv_lines rest)"
  by pat_completeness auto

termination
  by (relation "measure length") (auto dest: dropWhile_Cons_length)

declare csv_lines.simps [simp del]

datatype csv_record = CsvRow "string list" | CsvMalformed

definition drop_nl :: "string \<Rightarrow> string" where
  "drop_nl f = (if f \<noteq> [] \<and> last f = newline then butlast f else f)"

definition quote :: char where "quote = CHR 0x22"

text \<open>
  \<open>csv_fields\<close> parses from the start of a field and \<open>csv_quoted\<close> inside a quoted one,
  which may run on to the following lines; both return the lines not yet read.
\<close>

function csv_fields :: "string \<Rightarrow> string list \<Rightarrow> string list \<Rightarrow> csv_record \<times> string list"
  and csv_quoted :: "string \<Rightarrow> string list \<Rightarrow> string \<Rightarrow> string list \<Rightarrow> csv_record \<times> string list" where
  "csv_fields line rest fs =
     (if line \<noteq> [] \<and> hd line = quote then csv_quoted (tl line) rest [] fs
      else (case dropWhile (\<lambda>c. c \<noteq> CHR '','') line of
          [] \<Rightarrow> let field = drop_nl line
            in if quote \<in> set field then (CsvMalformed, rest) else (CsvRow (fs @ [field]), rest)
        | _ # after \<Rightarrow> let field = takeWhile (\<lambda>c. c \<noteq> CHR '','') line
            in if quote \<in> set field then (CsvMalformed, rest) else csv_fields after rest (fs @ [field])))"
| "csv_quoted line rest acc fs =
     (case dropWhile (\<lambda>c. c \<noteq> quote) line of
        _ # after \<Rightarrow> let acc' = acc @ takeWhile (\<lambda>c. c \<noteq> quote) line
          in if after \<noteq> [] \<and> hd after = quote then csv_quoted (tl after) rest (acc' @ [quote]) fs
             else if after \<noteq> [] \<and> hd after = CHR '','' then csv_fields (tl after) rest (fs @ [acc'])
             else if after = [] \<or> after = [newline] then (CsvRow (fs @ [acc']), rest)
             else (CsvMalformed, rest)
      | [] \<Rightarrow> if line = [] then (CsvMalformed, rest)
          else (case rest of [] \<Rightarrow> (CsvMalformed, []) | l # ls \<Rightarrow> csv_quoted l ls (acc @ line) fs))"
  by pat_completeness auto

termination
  by (relation "measure (\<lambda>x. case x of Inl (line, rest, _) \<Rightarrow> length line + sum_list (map length rest)
       | Inr (line, rest, _) \<Rightarrow> length line + sum_list (map length rest))")
     (auto dest: dropWhile_Cons_length)

declare csv_fields.simps [simp del] csv_quoted.simps [simp del]

lemma csv_rest_length:
  "length (snd (csv_fields line rest fs)) \<le> length rest"
  "length (snd (csv_quoted line rest acc fs)) \<le> length rest"
proof (induction line rest fs and line rest acc fs rule: csv_fields_csv_quoted.induct)
  case (1 line rest fs)
  then show ?case by (subst csv_fields.simps) (auto simp: Let_def split: list.splits)
next
  case (2 line rest acc fs)
  then show ?case by (subst csv_quoted.simps) (auto simp: Let_def split: list.splits)
qed

lemma csv_fields_length:
  assumes "dropWhile P lines = l # ls" and "csv_fields l ls fs = (r, rest)"
  shows "length rest < length lines"
  using dropWhile_Cons_length [OF assms(1)] csv_rest_length(1) [of l ls fs] assms(2) by simp

text \<open>The successive results of \<open>Read\<close>, empty lines skipped, up to the end or an error.\<close>

function csv_reads :: "string list \<Rightarrow> csv_record list" where
  "csv_reads lines = (case dropWhile (\<lambda>l. l = [] \<or> l = [newline]) lines of
     [] \<Rightarrow> []
   | l # ls \<Rightarrow> (case csv_fields l ls [] of
       (CsvMalformed, _) \<Rightarrow> [CsvMalformed]
     | (CsvRow r, rest) \<Rightarrow> CsvRow r # csv_reads rest))"
  by pat_completeness auto

termination
  by (relation "measure length") (auto intro: csv_fields_length [OF _ sym])

declare csv_reads.simps [simp del]

section \<open>Queries (gen/campaigns.sql.go)\<close>

definition gen_CreateCampaign :: "string \<Rightarrow> string \<Rightarrow> string \<Rightarrow> unit wop" where
  "gen_CreateCampaign cid org name = db_exec (\<lambda>t d.
     if List.find (\<lambda>r. cp_id r = cid) (campaigns d) \<noteq> None then Inl ErrUniqueViolation
     else Inr ((), d\<lparr>campaigns := campaigns d @ [\<lparr>cp_id = cid, cp_org_id = org, cp_name = name,
       cp_status = ''draft'', cp_target_count = 0, cp_created_at = t, cp_started_at = None,
       cp_scheduled_at = None\<rparr>]\<rparr>))"

definition gen_ListCampaignsByOrg :: "string \<Rightarrow> CampaignRow list wop" where
  "gen_ListCampaignsByOrg org = db_read (\<lambda>t d.
     Inr (order_by_desc cp_created_at (filter (\<lambda>r. cp_org_id r = org) (campaigns d))))"

definition gen_GetCampaign :: "string \<Rightarrow> CampaignRow wop" where
  "gen_GetCampaign cid = db_read (\<lambda>t d.
     case List.find (\<lambda>r. cp_id r = cid) (campaigns d) of None \<Rightarrow> Inl ErrNoRows | Some r \<Rightarrow> Inr r)"

definition gen_StartCampaign :: "string \<Rightarrow> string \<Rightarrow> int \<Rightarrow> unit wop" where
  "gen_StartCampaign cid org n = db_exec (\<lambda>t d. Inr ((), d\<lparr>campaigns :=
     upd_where (\<lambda>r. cp_id r = cid \<and> cp_org_id r = org \<and> cp_status r \<in> {''draft'', ''scheduled''})
       (\<lambda>r. r\<lparr>cp_status := ''completed'', cp_target_count := n, cp_started_at := Some t\<rparr>) (campaigns d)\<rparr>))"

definition gen_ScheduleCampaign :: "string \<Rightarrow> string \<Rightarrow> time \<Rightarrow> unit wop" where
  "gen_ScheduleCampaign cid org at = db_exec (\<lambda>t d. Inr ((), d\<lparr>campaigns :=
     upd_where (\<lambda>r. cp_id r = cid \<and> cp_org_id r = org \<and> cp_status r = ''draft'')
       (\<lambda>r. r\<lparr>cp_status := ''scheduled'', cp_scheduled_at := Some at\<rparr>) (campaigns d)\<rparr>))"

definition gen_AddRecipient :: "RecipientRow \<Rightarrow> unit wop" where
  "gen_AddRecipient row = db_exec (\<lambda>t d.
     if List.find (\<lambda>r. rp_campaign_id r = rp_campaign_id row \<and> rp_phone r = rp_phone row)
          (campaign_recipients d) \<noteq> None then Inr ((), d)
     else if List.find (\<lambda>r. rp_id r = rp_id row) (campaign_recipients d) \<noteq> None then Inl ErrUniqueViolation
     else if List.find (\<lambda>r. cp_id r = rp_campaign_id row) (campaigns d) = None
          then Inl fk_violation
     else Inr ((), d\<lparr>campaign_recipients := campaign_recipients d @ [row]\<rparr>))"

definition gen_ListRecipients :: "libs \<Rightarrow> string \<Rightarrow> RecipientRow list wop" where
  "gen_ListRecipients L cid = db_read (\<lambda>t d.
     Inr (order_by (\<lambda>r. lib_collate L (rp_phone r)) (filter (\<lambda>r. rp_campaign_id r = cid) (campaign_recipients d))))"

definition gen_DueCampaigns :: "time \<Rightarrow> CampaignRow list wop" where
  "gen_DueCampaigns now = db_read (\<lambda>t d.
     Inr (order_by (\<lambda>r. case cp_scheduled_at r of None \<Rightarrow> 0 | Some s \<Rightarrow> s)
       (filter (\<lambda>r. cp_status r = ''scheduled'' \<and> (case cp_scheduled_at r of None \<Rightarrow> False | Some s \<Rightarrow> s \<le> now))
         (campaigns d))))"

section \<open>The repository (postgres/campaigns.go)\<close>

definition campaign_of :: "CampaignRow \<Rightarrow> Campaign" where
  "campaign_of row = \<lparr>cg_ID = cp_id row, cg_Name = cp_name row, cg_Status = cp_status row,
     cg_TargetCount = cp_target_count row, cg_CreatedAt = cp_created_at row,
     cg_StartedAt = cp_started_at row, cg_ScheduledAt = cp_scheduled_at row\<rparr>"

definition pg_camp_Create :: "OrgID \<Rightarrow> string \<Rightarrow> string \<Rightarrow> unit wop" where
  "pg_camp_Create org cid name = gen_CreateCampaign cid org name"

definition pg_camp_ListByOrg :: "OrgID \<Rightarrow> Campaign list wop" where
  "pg_camp_ListByOrg org = bnd (gen_ListCampaignsByOrg org) (\<lambda>rows. ret (map campaign_of rows))"

definition pg_camp_Get :: "string \<Rightarrow> (Campaign \<times> OrgID) option wop" where
  "pg_camp_Get cid = attempt (gen_GetCampaign cid) (\<lambda>q. case q of
       Inl e \<Rightarrow> if e = ErrNoRows then ret None else fail e
     | Inr row \<Rightarrow> ret (Some (campaign_of row, cp_org_id row)))"

definition pg_camp_MarkStarted :: "OrgID \<Rightarrow> string \<Rightarrow> int \<Rightarrow> unit wop" where
  "pg_camp_MarkStarted org cid n = gen_StartCampaign cid org (go_int32 n)"

definition pg_camp_AddRecipient :: "OrgID \<Rightarrow> string \<Rightarrow> Recipient \<Rightarrow> unit wop" where
  "pg_camp_AddRecipient org cid r0 = bnd (draw (id_New ''rcp'')) (\<lambda>rid.
     gen_AddRecipient \<lparr>rp_id = rid, rp_campaign_id = cid, rp_org_id = org, rp_phone = rc_Phone r0, rp_name = rc_Name r0\<rparr>)"

definition pg_camp_Recipients :: "libs \<Rightarrow> string \<Rightarrow> Recipient list wop" where
  "pg_camp_Recipients L cid = bnd (gen_ListRecipients L cid) (\<lambda>rows.
     ret (map (\<lambda>row. \<lparr>rc_Phone = rp_phone row, rc_Name = rp_name row\<rparr>) rows))"

definition pg_camp_Schedule :: "OrgID \<Rightarrow> string \<Rightarrow> time \<Rightarrow> unit wop" where
  "pg_camp_Schedule org cid at = gen_ScheduleCampaign cid org at"

definition pg_camp_DueCampaigns :: "time \<Rightarrow> CampaignRef list wop" where
  "pg_camp_DueCampaigns now = bnd (gen_DueCampaigns now) (\<lambda>rows.
     ret (map (\<lambda>row. \<lparr>cf_ID = cp_id row, cf_OrgID = cp_org_id row\<rparr>) rows))"

definition pg_campaigns :: "libs \<Rightarrow> CampaignRepo" where
  "pg_campaigns L = \<lparr>cpr_Create = pg_camp_Create, cpr_ListByOrg = pg_camp_ListByOrg, cpr_Get = pg_camp_Get,
     cpr_MarkStarted = pg_camp_MarkStarted, cpr_AddRecipient = pg_camp_AddRecipient,
     cpr_Recipients = pg_camp_Recipients L, cpr_Schedule = pg_camp_Schedule,
     cpr_DueCampaigns = pg_camp_DueCampaigns\<rparr>"

section \<open>The service (service/campaigns)\<close>

text \<open>Where the code returns a count beside an error, no caller reads it; the error is the result here.\<close>

record CampaignsService =
  cs_repo :: CampaignRepo
  cs_customers :: CustomerRepo
  cs_flows :: FlowRepo
  cs_orch :: Orchestrator

definition campaignFlow :: string where
  "campaignFlow = ''order_confirm''"

definition campaigns_Create :: "CampaignsService \<Rightarrow> OrgID \<Rightarrow> string \<Rightarrow> string wop" where
  "campaigns_Create s org name = bnd (draw (id_New ''camp'')) (\<lambda>cid.
     bnd (cpr_Create (cs_repo s) org cid name) (\<lambda>_. ret cid))"

definition campaigns_List :: "CampaignsService \<Rightarrow> OrgID \<Rightarrow> Campaign list wop" where
  "campaigns_List s org = cpr_ListByOrg (cs_repo s) org"

definition campaigns_Get :: "CampaignsService \<Rightarrow> OrgID \<Rightarrow> string \<Rightarrow> Campaign wop" where
  "campaigns_Get s org cid = bnd (cpr_Get (cs_repo s) cid) (\<lambda>found. case found of
       None \<Rightarrow> fail ErrNotFound
     | Some (c, owner) \<Rightarrow> if owner \<noteq> org then fail ErrNotFound else ret c)"

fun import_rows :: "CampaignsService \<Rightarrow> OrgID \<Rightarrow> string \<Rightarrow> csv_record list \<Rightarrow> string set \<Rightarrow> int \<Rightarrow> int wop" where
  "import_rows s org cid [] had added = ret added"
| "import_rows s org cid (CsvMalformed # rest) had added = fail ErrFlowInvalid"
| "import_rows s org cid (CsvRow row # rest) had added =
     (case row of [] \<Rightarrow> import_rows s org cid rest had added
      | p # after \<Rightarrow> (case NormalizeBD (trim_space p) of
          None \<Rightarrow> import_rows s org cid rest had added
        | Some e164 \<Rightarrow>
            if e164 \<in> had then import_rows s org cid rest had added
            else bnd (cpr_AddRecipient (cs_repo s) org cid \<lparr>rc_Phone = e164,
                   rc_Name = (case after of [] \<Rightarrow> [] | n # _ \<Rightarrow> trim_space n)\<rparr>) (\<lambda>_.
                 import_rows s org cid rest (insert e164 had) (added + 1))))"

definition campaigns_ImportRecipients :: "CampaignsService \<Rightarrow> OrgID \<Rightarrow> string \<Rightarrow> string \<Rightarrow> int wop" where
  "campaigns_ImportRecipients s org cid csvData = bnd (campaigns_Get s org cid) (\<lambda>_.
     import_rows s org cid (csv_reads (csv_lines csvData)) {} 0)"

definition campaigns_Schedule :: "CampaignsService \<Rightarrow> OrgID \<Rightarrow> string \<Rightarrow> time \<Rightarrow> unit wop" where
  "campaigns_Schedule s org cid at = bnd (gets w_now) (\<lambda>now.
     if \<not> (at > now) then fail ErrFlowInvalid
     else bnd (campaigns_Get s org cid) (\<lambda>_. cpr_Schedule (cs_repo s) org cid at))"

fun recipient_targets :: "CampaignsService \<Rightarrow> OrgID \<Rightarrow> Recipient list \<Rightarrow> (string \<times> bool) list wop" where
  "recipient_targets s org [] = ret []"
| "recipient_targets s org (r # rs) =
     bnd (cur_Upsert (cs_customers s) org (rc_Phone r) (rc_Name r) []) (\<lambda>(_, dnd).
     bnd (recipient_targets s org rs) (\<lambda>ts. ret ((rc_Phone r, dnd) # ts)))"

fun enqueue_targets :: "CampaignsService \<Rightarrow> OrgID \<Rightarrow> FlowID \<Rightarrow> (string \<times> bool) list \<Rightarrow> int \<Rightarrow> int wop" where
  "enqueue_targets s org fid [] queued = ret queued"
| "enqueue_targets s org fid ((p, dnd) # ts) queued =
     (if dnd then enqueue_targets s org fid ts queued
      else bnd (orc_EnqueuePlaceCall (cs_orch s) \<lparr>pc_OrgID = org, pc_ToPhone = p, pc_FlowID = fid\<rparr>) (\<lambda>_.
           enqueue_targets s org fid ts (queued + 1)))"

definition campaigns_dispatch :: "CampaignsService \<Rightarrow> OrgID \<Rightarrow> string \<Rightarrow> int wop" where
  "campaigns_dispatch s org cid =
     bnd (attempt (flr_GetActiveFlow (cs_flows s) org campaignFlow) (\<lambda>q. case q of
            Inr (Some f) \<Rightarrow> ret (fl_ID f) | _ \<Rightarrow> ret [])) (\<lambda>fid.
     bnd (cpr_Recipients (cs_repo s) cid) (\<lambda>recips.
     bnd (if recips \<noteq> [] then recipient_targets s org recips
          else bnd (cur_ListByOrg (cs_customers s) org 500) (\<lambda>custs.
               ret (map (\<lambda>c. (cu_Phone c, cu_DND c)) custs))) (\<lambda>targets.
     enqueue_targets s org fid targets 0)))"

definition campaigns_Start :: "CampaignsService \<Rightarrow> OrgID \<Rightarrow> string \<Rightarrow> int wop" where
  "campaigns_Start s org cid = bnd (campaigns_Get s org cid) (\<lambda>c.
     if cg_Status c = ''completed'' then ret (cg_TargetCount c)
     else bnd (campaigns_dispatch s org cid) (\<lambda>queued.
          bnd (cpr_MarkStarted (cs_repo s) org cid queued) (\<lambda>_. ret queued)))"

fun run_refs :: "CampaignsService \<Rightarrow> CampaignRef list \<Rightarrow> int \<Rightarrow> int wop" where
  "run_refs s [] started = ret started"
| "run_refs s (ref # refs) started =
     attempt (campaigns_dispatch s (cf_OrgID ref) (cf_ID ref)) (\<lambda>q. case q of
       Inl _ \<Rightarrow> run_refs s refs started
     | Inr queued \<Rightarrow> attempt (cpr_MarkStarted (cs_repo s) (cf_OrgID ref) (cf_ID ref) queued) (\<lambda>q'. case q' of
         Inl _ \<Rightarrow> run_refs s refs started
       | Inr _ \<Rightarrow> run_refs s refs (started + 1)))"

definition campaigns_RunDue :: "CampaignsService \<Rightarrow> int wop" where
  "campaigns_RunDue s = bnd (gets w_now) (\<lambda>now.
     bnd (cpr_DueCampaigns (cs_repo s) now) (\<lambda>due. run_refs s due 0))"

definition campaigns_service :: "libs \<Rightarrow> Orchestrator \<Rightarrow> CampaignsService" where
  "campaigns_service L orch = \<lparr>cs_repo = pg_campaigns L, cs_customers = pg_customers, cs_flows = pg_flows L,
     cs_orch = orch\<rparr>"

section \<open>Facts about the repository\<close>

lemma campaigns_service_simps [simp]:
  "cs_repo (campaigns_service L orch) = pg_campaigns L" "cs_customers (campaigns_service L orch) = pg_customers"
  "cs_flows (campaigns_service L orch) = pg_flows L" "cs_orch (campaigns_service L orch) = orch"
  "cpr_Create (pg_campaigns L) = pg_camp_Create" "cpr_ListByOrg (pg_campaigns L) = pg_camp_ListByOrg"
  "cpr_Get (pg_campaigns L) = pg_camp_Get" "cpr_MarkStarted (pg_campaigns L) = pg_camp_MarkStarted"
  "cpr_AddRecipient (pg_campaigns L) = pg_camp_AddRecipient" "cpr_Recipients (pg_campaigns L) = pg_camp_Recipients L"
  "cpr_Schedule (pg_campaigns L) = pg_camp_Schedule" "cpr_DueCampaigns (pg_campaigns L) = pg_camp_DueCampaigns"
  by (simp_all add: campaigns_service_def pg_campaigns_def)

abbreviation campaign_row :: "database \<Rightarrow> string \<Rightarrow> CampaignRow option" where
  "campaign_row d cid \<equiv> List.find (\<lambda>r. cp_id r = cid) (campaigns d)"

lemma wp_campaigns_Get:
  "wp (campaigns_Get (campaigns_service L orch) org cid) (\<lambda>r w'. w_db w' = w_db w \<and> quiet w w' \<and> (case r of
      Inl e \<Rightarrow> e = ErrConn \<or> e = ErrNotFound \<and> (\<forall>row. campaign_row (w_db w) cid = Some row \<longrightarrow> cp_org_id row \<noteq> org)
    | Inr c \<Rightarrow> \<exists>row. campaign_row (w_db w) cid = Some row \<and> cp_org_id row = org \<and> c = campaign_of row)) w"
proof -
  have "wp (pg_camp_Get cid) (\<lambda>r w'. w_db w' = w_db w \<and> quiet w w' \<and> (case r of
      Inl e \<Rightarrow> e = ErrConn
    | Inr f \<Rightarrow> f = map_option (\<lambda>row. (campaign_of row, cp_org_id row)) (campaign_row (w_db w) cid))) w"
    unfolding pg_camp_Get_def gen_GetCampaign_def
    by (rule wp_attempt [where P = "\<lambda>r w'. w_db w' = w_db w \<and> quiet w w' \<and> (case r of
        Inl e \<Rightarrow> e = ErrConn \<or> e = ErrNoRows \<and> campaign_row (w_db w) cid = None
      | Inr row \<Rightarrow> campaign_row (w_db w) cid = Some row)"], rule wp_db_read)
       (auto simp: quiet_def env_frame_def split: option.splits sum.splits)
  then show ?thesis unfolding campaigns_Get_def campaigns_service_simps
    by (rule wp_bnd) (auto split: option.splits)
qed

text \<open>The numbers on a campaign's list, and the (campaign, number) keys of the table.\<close>

definition phones_of :: "database \<Rightarrow> string \<Rightarrow> string set" where
  "phones_of d cid = rp_phone ` {r \<in> set (campaign_recipients d). rp_campaign_id r = cid}"

text \<open>\<open>d'\<close> is \<open>d\<close> with new, pairwise different numbers out of \<open>P\<close> on the list of one campaign.\<close>

definition grown :: "OrgID \<Rightarrow> string \<Rightarrow> string set \<Rightarrow> database \<Rightarrow> database \<Rightarrow> bool" where
  "grown org cid P d d' \<longleftrightarrow> (\<exists>new. d' = d\<lparr>campaign_recipients := campaign_recipients d @ new\<rparr> \<and>
     (\<forall>r \<in> set new. rp_campaign_id r = cid \<and> rp_org_id r = org \<and> rp_phone r \<in> P - phones_of d cid) \<and>
     distinct (map rp_phone new))"

lemma grown_refl: "grown org cid P d d"
  unfolding grown_def by (rule exI [of _ "[]"]) simp

lemma phones_of_append:
  "phones_of (d\<lparr>campaign_recipients := campaign_recipients d @ new\<rparr>) cid =
     phones_of d cid \<union> rp_phone ` {r \<in> set new. rp_campaign_id r = cid}"
  by (auto simp: phones_of_def)

lemma grown_mono: "grown org cid P d d' \<Longrightarrow> P \<subseteq> Q \<Longrightarrow> grown org cid Q d d'"
  unfolding grown_def by blast

lemma grown_trans:
  assumes "grown org cid P d d1" and "grown org cid P d1 d2"
  shows "grown org cid P d d2"
proof -
  from assms obtain n1 n2 where n: "d1 = d\<lparr>campaign_recipients := campaign_recipients d @ n1\<rparr>"
    "d2 = d1\<lparr>campaign_recipients := campaign_recipients d1 @ n2\<rparr>"
    "\<forall>r \<in> set n1. rp_campaign_id r = cid \<and> rp_org_id r = org \<and> rp_phone r \<in> P - phones_of d cid"
    "\<forall>r \<in> set n2. rp_campaign_id r = cid \<and> rp_org_id r = org \<and> rp_phone r \<in> P - phones_of d1 cid"
    "distinct (map rp_phone n1)" "distinct (map rp_phone n2)" unfolding grown_def by blast
  have "phones_of d1 cid = phones_of d cid \<union> rp_phone ` set n1"
    using n(3) by (auto simp: n(1) phones_of_append)
  with n show ?thesis unfolding grown_def by (intro exI [of _ "n1 @ n2"]) (auto, metis imageI)
qed

lemma grown_phones: "grown org cid P d d' \<Longrightarrow> phones_of d cid \<subseteq> phones_of d' cid"
  by (auto simp: grown_def phones_of_append)

lemma wp_AddRecipient:
  "wp (pg_camp_AddRecipient org cid r0) (\<lambda>r w'. quiet w w' \<and> grown org cid {rc_Phone r0} (w_db w) (w_db w') \<and>
     (\<forall>u. r = Inr u \<longrightarrow> rc_Phone r0 \<in> phones_of (w_db w') cid)) w"
  unfolding pg_camp_AddRecipient_def wp_bnd_simps gen_AddRecipient_def
proof (rule wp_db_exec, goal_cases)
  case (1 w')
  then show ?case by (simp add: quiet_def env_frame_def grown_refl)
next
  case (2 w')
  let ?row = "\<lparr>rp_id = fst (id_New ''rcp'' w), rp_campaign_id = cid, rp_org_id = org, rp_phone = rc_Phone r0,
    rp_name = rc_Name r0\<rparr>"
  have new: "grown org cid {rc_Phone r0} d (d\<lparr>campaign_recipients := campaign_recipients d @ [?row]\<rparr>)"
    "rc_Phone r0 \<in> phones_of (d\<lparr>campaign_recipients := campaign_recipients d @ [?row]\<rparr>) cid"
    if "List.find (\<lambda>r. rp_campaign_id r = cid \<and> rp_phone r = rc_Phone r0) (campaign_recipients d) = None" for d
    using that by (auto simp: grown_def phones_of_append phones_of_def find_None_iff intro!: exI [of _ "[?row]"]
        image_eqI [where x = ?row])
  have old: "rc_Phone r0 \<in> phones_of d cid"
    if "List.find (\<lambda>r. rp_campaign_id r = cid \<and> rp_phone r = rc_Phone r0) (campaign_recipients d) = Some r" for d r
    using find_SomeD [OF that] by (force simp: phones_of_def)
  from 2 show ?case
    using new [of "w_db w"] old [of "w_db w"] by (auto simp: quiet_def env_frame_def grown_refl)
qed

section \<open>Facts about the import\<close>

definition csv_phones :: "csv_record list \<Rightarrow> string set" where
  "csv_phones rs = {e. \<exists>p after. CsvRow (p # after) \<in> set rs \<and> NormalizeBD (trim_space p) = Some e}"

lemma csv_phones_simps [simp]:
  "csv_phones [] = {}" "csv_phones (CsvMalformed # rs) = csv_phones rs" "csv_phones (CsvRow [] # rs) = csv_phones rs"
  "csv_phones (CsvRow (p # after) # rs) = set_option (NormalizeBD (trim_space p)) \<union> csv_phones rs"
  by (auto simp: csv_phones_def)

lemma finite_csv_phones [simp]: "finite (csv_phones rs)"
proof (induction rs)
  case (Cons r rs)
  show ?case
  proof (cases r)
    case (CsvRow row)
    with Cons show ?thesis by (cases row) auto
  qed (use Cons in simp)
qed simp

lemma wp_import_rows:
  "wp (import_rows (campaigns_service L orch) org cid rs had added) (\<lambda>r w'. quiet w w' \<and>
     grown org cid (csv_phones rs) (w_db w) (w_db w') \<and>
     (\<forall>n. r = Inr n \<longrightarrow> CsvMalformed \<notin> set rs \<and> csv_phones rs \<subseteq> had \<union> phones_of (w_db w') cid
        \<and> n = added + int (card (csv_phones rs - had)))) w"
proof (induction "campaigns_service L orch" org cid rs had added arbitrary: w rule: import_rows.induct)
  case (3 org cid row rs had added)
  show ?case
  proof (cases row)
    case Nil
    then show ?thesis using 3(1) [OF Nil, of w] by simp
  next
    case row: (Cons p after)
    show ?thesis
    proof (cases "NormalizeBD (trim_space p)")
      case None
      then show ?thesis using 3(2) [OF row None, of w] row by simp
    next
      case e: (Some e164)
      show ?thesis
      proof (cases "e164 \<in> had")
        case True
        then have "csv_phones (CsvRow row # rs) - had = csv_phones rs - had" by (auto simp: row e)
        moreover have "grown org cid (csv_phones rs) d d' \<Longrightarrow> grown org cid (csv_phones (CsvRow row # rs)) d d'" for d d'
          by (erule grown_mono) (auto simp: row)
        ultimately have "wp (import_rows (campaigns_service L orch) org cid rs had added) (\<lambda>r w'. quiet w w' \<and>
            grown org cid (csv_phones (CsvRow row # rs)) (w_db w) (w_db w') \<and>
            (\<forall>n. r = Inr n \<longrightarrow> CsvMalformed \<notin> set (CsvRow row # rs)
              \<and> csv_phones (CsvRow row # rs) \<subseteq> had \<union> phones_of (w_db w') cid
              \<and> n = added + int (card (csv_phones (CsvRow row # rs) - had)))) w"
          by (intro wp_mono [OF 3(3) [OF row e True, of w]]) (use True in \<open>auto simp: row e\<close>)
        with True show ?thesis by (simp add: row e)
      next
        case False
        have card: "card (csv_phones (CsvRow row # rs) - had) = Suc (card (csv_phones rs - insert e164 had))"
          if "e164 \<notin> had"
        proof -
          have "csv_phones (CsvRow row # rs) - had = insert e164 (csv_phones rs - insert e164 had)"
            using that by (auto simp: row e)
          then show ?thesis by simp
        qed
        show ?thesis unfolding row import_rows.simps list.case e option.case if_not_P [OF False] campaigns_service_simps
        proof (rule wp_bnd [OF wp_AddRecipient], goal_cases)
          case (1 err w1)
          then show ?case by (auto simp: e intro: grown_mono)
        next
          case (2 u w1)
          show ?case
          proof (rule wp_mono [OF 3(4) [OF row e False, of w1]], goal_cases)
            case (1 r w')
            have "grown org cid (csv_phones (CsvRow row # rs)) (w_db w) (w_db w')"
              by (rule grown_trans [OF grown_mono grown_mono]) (use 1 2 in \<open>auto simp: row e\<close>)
            moreover have "e164 \<in> phones_of (w_db w') cid" using 1 2 by (auto dest: grown_phones)
            ultimately show ?case using 1 2 card [OF False] by (auto simp: row e quiet_def)
          qed
        qed
      qed
    qed
  qed
qed (auto simp: quiet_def grown_refl)

section \<open>Facts about the dispatch\<close>

text \<open>The targets of a campaign, each with its opt-out flag, and those that may be called.\<close>

definition targets_of :: "libs \<Rightarrow> database \<Rightarrow> OrgID \<Rightarrow> string \<Rightarrow> (string \<times> bool) list" where
  "targets_of L d org cid =
     (let rs = order_by (\<lambda>r. lib_collate L (rp_phone r)) (filter (\<lambda>r. rp_campaign_id r = cid) (campaign_recipients d))
      in if rs \<noteq> [] then map (\<lambda>r. (rp_phone r, dnd_of d org (rp_phone r))) rs
         else map (\<lambda>r. (cm_phone r, cm_dnd r))
           (take 500 (order_by_desc cm_created_at (filter (\<lambda>r. cm_org_id r = org) (customers d)))))"

definition callable :: "(string \<times> bool) list \<Rightarrow> string list" where
  "callable ts = map fst (filter (\<lambda>t. \<not> snd t) ts)"

lemma callable_simps [simp]:
  "callable [] = []" "callable ((p, dnd) # ts) = (if dnd then callable ts else p # callable ts)"
  by (simp_all add: callable_def)

abbreviation call_job :: "OrgID \<Rightarrow> FlowID \<Rightarrow> string \<Rightarrow> PlaceCallInput" where
  "call_job org fid p \<equiv> \<lparr>pc_OrgID = org, pc_ToPhone = p, pc_FlowID = fid\<rparr>"

lemma wp_recipient_targets:
  "wp (recipient_targets (campaigns_service L orch) org rs) (\<lambda>r w'. quiet w w' \<and>
     (\<exists>cs. w_db w' = (w_db w)\<lparr>customers := cs\<rparr>) \<and> dnd_of (w_db w') = dnd_of (w_db w) \<and>
     (\<forall>ts. r = Inr ts \<longrightarrow> ts = map (\<lambda>r. (rc_Phone r, dnd_of (w_db w) org (rc_Phone r))) rs)) w"
proof (induction rs arbitrary: w)
  case Nil
  have "\<exists>cs. w_db w = (w_db w)\<lparr>customers := cs\<rparr>" by (rule exI [of _ "customers (w_db w)"]) simp
  then show ?case by (simp add: quiet_def)
next
  case (Cons x rs)
  show ?case unfolding recipient_targets.simps campaigns_service_simps ingest_service_simps
  proof (rule wp_bnd [OF wp_cust_Upsert], goal_cases)
    case (1 e w1)
    then show ?case by auto
  next
    case (2 cd w1)
    obtain c dnd where cd: "cd = (c, dnd)" by fastforce
    show ?case unfolding cd prod.case
      by (rule wp_bnd [OF Cons.IH]) (use 2 in \<open>auto simp: cd quiet_def\<close>)
  qed
qed

lemma wp_Recipients:
  "wp (pg_camp_Recipients L cid) (\<lambda>r w'. w_db w' = w_db w \<and> quiet w w' \<and> (\<forall>rs. r = Inr rs \<longrightarrow>
     rs = map (\<lambda>r. \<lparr>rc_Phone = rp_phone r, rc_Name = rp_name r\<rparr>)
       (order_by (\<lambda>r. lib_collate L (rp_phone r)) (filter (\<lambda>r. rp_campaign_id r = cid) (campaign_recipients (w_db w)))))) w"
  unfolding pg_camp_Recipients_def gen_ListRecipients_def
  by (rule wp_bnd [where P = "\<lambda>r w'. w_db w' = w_db w \<and> quiet w w' \<and> (\<forall>rs. r = Inr rs \<longrightarrow> rs =
       order_by (\<lambda>r. lib_collate L (rp_phone r)) (filter (\<lambda>r. rp_campaign_id r = cid) (campaign_recipients (w_db w))))"],
      rule wp_db_read) (auto simp: quiet_def env_frame_def)

lemma wp_cust_ListByOrg:
  "wp (pg_cust_ListByOrg org 500) (\<lambda>r w'. w_db w' = w_db w \<and> quiet w w' \<and> (\<forall>cs. r = Inr cs \<longrightarrow>
     map (\<lambda>c. (cu_Phone c, cu_DND c)) cs = map (\<lambda>r. (cm_phone r, cm_dnd r))
       (take 500 (order_by_desc cm_created_at (filter (\<lambda>r. cm_org_id r = org) (customers (w_db w))))))) w"
proof -
  have 500: "go_int32 500 = 500" by (rule go_int32_id) (simp add: in_int32_def)
  show ?thesis unfolding pg_cust_ListByOrg_def gen_ListCustomersByOrg_def 500
    by (rule wp_bnd [where P = "\<lambda>r w'. w_db w' = w_db w \<and> quiet w w' \<and> (\<forall>rs. r = Inr rs \<longrightarrow> rs =
         take 500 (order_by_desc cm_created_at (filter (\<lambda>r. cm_org_id r = org) (customers (w_db w)))))"],
        rule wp_db_read) (auto simp: quiet_def env_frame_def)
qed

lemma wp_MarkStarted:
  "wp (pg_camp_MarkStarted org cid n) (\<lambda>r w'. quiet w w' \<and> (\<forall>row. r = Inr () \<longrightarrow>
     campaign_row (w_db w) cid = Some row \<longrightarrow> cp_org_id row = org \<longrightarrow> cp_status row \<in> {''draft'', ''scheduled''} \<longrightarrow>
     (\<exists>row'. campaign_row (w_db w') cid = Some row' \<and> cp_org_id row' = org \<and> cp_status row' = ''completed''
        \<and> cp_target_count row' = go_int32 n))) w"
  unfolding pg_camp_MarkStarted_def gen_StartCampaign_def
  by (rule wp_db_exec) (auto simp: quiet_def env_frame_def find_upd_where dest: find_SomeD)

context orchestrator
begin

lemma wp_enqueue_targets:
  "wp (enqueue_targets (campaigns_service L orc) org fid ts n) (\<lambda>r w'. w_db w' = w_db w \<and> w_trace w' = w_trace w \<and>
     (\<exists>k. w_jobs w' = w_jobs w @ map (call_job org fid) (take k (callable ts)) \<and>
        (\<forall>m. r = Inr m \<longrightarrow> length (callable ts) \<le> k \<and> m = n + int (length (callable ts))))) w"
proof (induction "campaigns_service L orc" org fid ts n arbitrary: w rule: enqueue_targets.induct)
  case (2 org fid p dnd ts queued)
  show ?case
  proof (cases dnd)
    case True
    with 2(1) [OF True, of w] show ?thesis by simp
  next
    case False
    show ?thesis unfolding enqueue_targets.simps if_not_P [OF False] campaigns_service_simps
    proof (rule wp_bnd [OF enqueue], goal_cases)
      case (1 e w1)
      then have fr: "w_db w1 = w_db w" "w_trace w1 = w_trace w"
        and "w_jobs w1 = w_jobs w @ [call_job org fid p] \<or> w_jobs w1 = w_jobs w" by auto
      then have "\<exists>k. w_jobs w1 = w_jobs w @ map (call_job org fid) (take k (callable ((p, dnd) # ts)))"
        using False by (elim disjE) (rule exI [of _ "Suc 0"], simp, rule exI [of _ 0], simp)
      with fr show ?case by simp
    next
      case (2 u w1)
      show ?case
      proof (rule wp_mono [OF \<open>\<And>w. \<not> dnd \<Longrightarrow> wp (enqueue_targets (campaigns_service L orc) org fid ts (queued + 1)) _ w\<close>
            [OF False]], elim conjE exE, goal_cases)
        case (1 r w' k)
        with False 2 show ?case by (intro conjI exI [of _ "Suc k"]) (simp_all add: add.assoc)
      qed
    qed
  qed
qed (auto intro!: exI [of _ 0])

text \<open>
  What a dispatch leaves behind: it may store recipients as customers, and it has queued the
  calls of a prefix of the callable targets; all of them if it reports success.
\<close>

lemma wp_dispatch:
  "wp (campaigns_dispatch (campaigns_service L orc) org cid) (\<lambda>r w'. w_trace w' = w_trace w \<and>
     (\<exists>cs. w_db w' = (w_db w)\<lparr>customers := cs\<rparr>) \<and>
     (\<exists>fid k. (fid = [] \<or> fid \<in> fw_id ` set (active_named (w_db w) org campaignFlow)) \<and>
        w_jobs w' = w_jobs w @ map (call_job org fid) (take k (callable (targets_of L (w_db w) org cid))) \<and>
        (\<forall>m. r = Inr m \<longrightarrow> length (callable (targets_of L (w_db w) org cid)) \<le> k
           \<and> m = int (length (callable (targets_of L (w_db w) org cid)))))) w"
  (is "wp _ ?Q w")
proof -
  let ?ts = "targets_of L (w_db w) org cid" and ?fids = "fw_id ` set (active_named (w_db w) org campaignFlow)"
  have same: "\<exists>cs. d = d\<lparr>customers := cs\<rparr>" for d :: database by (rule exI [of _ "customers d"]) simp
  have none: "?Q (Inl e) w'" if "quiet w w'" "\<exists>cs. w_db w' = (w_db w)\<lparr>customers := cs\<rparr>" for e w'
    using that by (auto simp: quiet_def intro!: exI [of _ "[]"] exI [of _ 0])
  have flow: "wp (attempt (pg_GetActiveFlow L org campaignFlow) (\<lambda>q. case q of
        Inr (Some f) \<Rightarrow> ret (fl_ID f) | _ \<Rightarrow> ret [])) (\<lambda>r w'. w_db w' = w_db w \<and> quiet w w' \<and>
        (\<exists>fid. r = Inr fid \<and> (fid = [] \<or> fid \<in> ?fids))) w"
    by (rule wp_attempt [OF wp_conj [OF wp_GetActiveFlow wp_mrel [OF quiet_GetActiveFlow]]])
       (auto split: sum.splits option.splits)
  show ?thesis unfolding campaigns_dispatch_def campaigns_service_simps pg_flows_simps ingest_service_simps
  proof (rule wp_bnd [OF flow], goal_cases)
    case (2 fid w1)
    then have w1: "w_db w1 = w_db w" "quiet w w1" and fid: "fid = [] \<or> fid \<in> ?fids" by auto
    show ?case
    proof (rule wp_bnd [OF wp_Recipients], goal_cases)
      case (1 e w2)
      with w1 same show ?case by (intro none) (auto simp: quiet_def)
    next
      case (2 rs w2)
      then have w2: "w_db w2 = w_db w" "quiet w w2" using w1 by (auto simp: quiet_def)
      have rs: "rs = map (\<lambda>r. \<lparr>rc_Phone = rp_phone r, rc_Name = rp_name r\<rparr>) (order_by (\<lambda>r. lib_collate L (rp_phone r))
          (filter (\<lambda>r. rp_campaign_id r = cid) (campaign_recipients (w_db w))))" using 2 w1 by simp
      show ?case
      proof (rule wp_bnd [where P = "\<lambda>r w'. quiet w w' \<and> (\<exists>cs. w_db w' = (w_db w)\<lparr>customers := cs\<rparr>) \<and>
          (\<forall>ts. r = Inr ts \<longrightarrow> ts = ?ts)"], goal_cases)
        case 1
        show ?case
        proof (cases "rs = []")
          case True
          have "wp (bnd (pg_cust_ListByOrg org 500) (\<lambda>custs. ret (map (\<lambda>c. (cu_Phone c, cu_DND c)) custs)))
              (\<lambda>r w'. quiet w w' \<and> (\<exists>cs. w_db w' = (w_db w)\<lparr>customers := cs\<rparr>) \<and> (\<forall>ts. r = Inr ts \<longrightarrow> ts = ?ts)) w2"
            by (rule wp_bnd [OF wp_cust_ListByOrg]) (use w2 same True rs in \<open>auto simp: quiet_def targets_of_def Let_def\<close>)
          with True show ?thesis by simp
        next
          case False
          have "wp (recipient_targets (campaigns_service L orc) org rs)
              (\<lambda>r w'. quiet w w' \<and> (\<exists>cs. w_db w' = (w_db w)\<lparr>customers := cs\<rparr>) \<and> (\<forall>ts. r = Inr ts \<longrightarrow> ts = ?ts)) w2"
            by (rule wp_mono [OF wp_recipient_targets])
               (use w2 same False in \<open>auto simp: quiet_def targets_of_def Let_def rs\<close>)
          with False show ?thesis by simp
        qed
      next
        case (2 e w3)
        then show ?case by (intro none) auto
      next
        case (3 ts w3)
        then have ts: "ts = ?ts" by blast
        show ?case unfolding ts
          by (rule wp_mono [OF wp_enqueue_targets]) (use 3 fid in \<open>auto simp: quiet_def\<close>)
      qed
    qed
  qed auto
qed

lemma wp_Start:
  "wp (campaigns_Start (campaigns_service L orc) org cid) (\<lambda>r w'. \<exists>fid k.
     (fid = [] \<or> fid \<in> fw_id ` set (active_named (w_db w) org campaignFlow)) \<and>
     w_jobs w' = w_jobs w @ map (call_job org fid) (take k (callable (targets_of L (w_db w) org cid))) \<and>
     (\<forall>n. r = Inr n \<longrightarrow> (\<exists>row. campaign_row (w_db w) cid = Some row \<and> cp_org_id row = org \<and>
        (if cp_status row = ''completed'' then k = 0 \<and> n = cp_target_count row \<and> w_db w' = w_db w
         else length (callable (targets_of L (w_db w) org cid)) \<le> k \<and>
           n = int (length (callable (targets_of L (w_db w) org cid))) \<and>
           (cp_status row \<in> {''draft'', ''scheduled''} \<longrightarrow> (\<exists>row'. campaign_row (w_db w') cid = Some row' \<and>
              cp_org_id row' = org \<and> cp_status row' = ''completed'' \<and> cp_target_count row' = go_int32 n)))))) w"
  (is "wp _ ?Q w")
  unfolding campaigns_Start_def
proof (rule wp_bnd [OF wp_campaigns_Get], goal_cases)
  case (1 e w1)
  then show ?case by (auto simp: quiet_def intro!: exI [of _ "[]"] exI [of _ 0])
next
  case (2 c w1)
  then obtain row where row: "campaign_row (w_db w) cid = Some row" "cp_org_id row = org" "c = campaign_of row"
    and w1: "w_db w1 = w_db w" "w_jobs w1 = w_jobs w" by (auto simp: quiet_def)
  have st: "cg_Status c = cp_status row" "cg_TargetCount c = cp_target_count row" by (simp_all add: row(3) campaign_of_def)
  show ?case
  proof (cases "cg_Status c = ''completed''")
    case True
    with row w1 st show ?thesis by (auto intro!: exI [of _ "[]"] exI [of _ 0])
  next
    case False
    show ?thesis unfolding if_not_P [OF False] campaigns_service_simps
    proof (rule wp_bnd [OF wp_dispatch], goal_cases)
      case (1 e w2)
      with w1 show ?case by auto
    next
      case (2 n w2)
      then obtain fid k cs where d: "fid = [] \<or> fid \<in> fw_id ` set (active_named (w_db w) org campaignFlow)"
        "w_jobs w2 = w_jobs w @ map (call_job org fid) (take k (callable (targets_of L (w_db w) org cid)))"
        "length (callable (targets_of L (w_db w) org cid)) \<le> k"
        "n = int (length (callable (targets_of L (w_db w) org cid)))" "w_db w2 = (w_db w)\<lparr>customers := cs\<rparr>"
        unfolding w1 by blast
      have "wp (bnd (pg_camp_MarkStarted org cid n) (\<lambda>_. ret n)) (\<lambda>r w'. w_jobs w' = w_jobs w2 \<and> (\<forall>m. r = Inr m \<longrightarrow>
          m = n \<and> (cp_status row \<in> {''draft'', ''scheduled''} \<longrightarrow> (\<exists>row'. campaign_row (w_db w') cid = Some row' \<and>
              cp_org_id row' = org \<and> cp_status row' = ''completed'' \<and> cp_target_count row' = go_int32 n)))) w2"
        by (rule wp_bnd [OF wp_MarkStarted]) (use d(5) row(1,2) in \<open>auto simp: quiet_def\<close>)
      then show ?case
      proof (rule wp_mono)
        fix r :: "go_error + int" and w' :: world
        assume "w_jobs w' = w_jobs w2 \<and> (\<forall>m. r = Inr m \<longrightarrow>
          m = n \<and> (cp_status row \<in> {''draft'', ''scheduled''} \<longrightarrow> (\<exists>row'. campaign_row (w_db w') cid = Some row' \<and>
              cp_org_id row' = org \<and> cp_status row' = ''completed'' \<and> cp_target_count row' = go_int32 n)))"
        with d row st False show "?Q r w'" by (intro exI [of _ fid] exI [of _ k]) auto
      qed
    qed
  qed
qed

end

section \<open>Properties\<close>


definition list_world :: world where
  "list_world = (shop_world 1)\<lparr>w_db := (w_db (shop_world 1))\<lparr>
     campaigns := [\<lparr>cp_id = ''c'', cp_org_id = ''o'', cp_name = ''Eid'', cp_status = ''scheduled'', cp_target_count = 0,
       cp_created_at = 0, cp_started_at = None, cp_scheduled_at = Some 5\<rparr>],
     campaign_recipients := [\<lparr>rp_id = ''r'', rp_campaign_id = ''c'', rp_org_id = ''o'', rp_phone = ''+8801712345678'',
       rp_name = ''A''\<rparr>]\<rparr>\<rparr>"

lemma list_world_simps [simp]:
  "w_sched list_world = []" "w_now list_world = 14400 * second" "w_jobs list_world = []" "w_trace list_world = []"
  "campaigns (w_db list_world) = [\<lparr>cp_id = ''c'', cp_org_id = ''o'', cp_name = ''Eid'', cp_status = ''scheduled'',
     cp_target_count = 0, cp_created_at = 0, cp_started_at = None, cp_scheduled_at = Some 5\<rparr>]"
  "campaign_recipients (w_db list_world) = [\<lparr>rp_id = ''r'', rp_campaign_id = ''c'', rp_org_id = ''o'',
     rp_phone = ''+8801712345678'', rp_name = ''A''\<rparr>]"
  "customers (w_db list_world) = []" "flows (w_db list_world) = flows (w_db (shop_world 1))"
  by (simp_all add: list_world_def shop_world_def)

lemmas campaign_eval = campaigns_Get_def pg_camp_Get_def gen_GetCampaign_def campaign_of_def pg_camp_AddRecipient_def
  gen_AddRecipient_def bnd_def attempt_def ret_def fail_def gets_def perform_def draw_eq db_exec_quiet db_read_quiet

definition two_rows :: string where
  "two_rows = ''phone,name'' @ [newline] @ ''01712345678,A'' @ [newline] @ ''+880 1812-345678,B''"

lemma two_rows_read: "csv_reads (csv_lines two_rows) =
   [CsvRow [''phone'', ''name''], CsvRow [''01712345678'', ''A''], CsvRow [''+880 1812-345678'', ''B'']]"
  by code_simp


text \<open>
  Property C26: starting a campaign calls its targets and nobody else. Whatever fails, the
  jobs queued are calls of the caller's org to a prefix of the callable targets in order:
  the imported recipients, or the org's customers when there are none, without those who
  opted out. A reported success means that the campaign is the caller's and either was
  completed already, and nothing is queued, or every callable target was queued exactly
  once per entry, the count is theirs and the campaign is completed with it.
\<close>

theorem Start_dispatches:
  assumes "campaigns_Start (campaigns_service L local_orchestrator) org cid w = (r, w')"
    and "tgt = callable (targets_of L (w_db w) org cid)"
  shows "\<exists>fid k. (fid = [] \<or> fid \<in> fw_id ` set (active_named (w_db w) org campaignFlow)) \<and>
     w_jobs w' = w_jobs w @ map (call_job org fid) (take k tgt) \<and>
     (\<forall>n. r = Inr n \<longrightarrow> (\<exists>row. campaign_row (w_db w) cid = Some row \<and> cp_org_id row = org \<and>
        (if cp_status row = ''completed'' then k = 0 \<and> n = cp_target_count row \<and> w_db w' = w_db w
         else length tgt \<le> k \<and> n = int (length tgt) \<and>
           (cp_status row \<in> {''draft'', ''scheduled''} \<longrightarrow> (\<exists>row'. campaign_row (w_db w') cid = Some row' \<and>
              cp_org_id row' = org \<and> cp_status row' = ''completed'' \<and> cp_target_count row' = go_int32 n)))))"
  unfolding assms(2) by (rule wpD [OF localq.wp_Start assms(1)])

lemma list_world_targets: "targets_of demo_libs (w_db list_world) ''o'' ''c'' = [(''+8801712345678'', False)]"
  by (simp add: targets_of_def order_by_def dnd_of_def)

lemma list_world_start:
  "\<exists>n w'. campaigns_Start (campaigns_service demo_libs local_orchestrator) ''o'' ''c'' list_world = (Inr n, w')"
  by (simp add: campaigns_Start_def campaigns_dispatch_def campaign_eval pg_GetActiveFlow_def gen_GetActiveFlowByName_def
      pg_camp_Recipients_def gen_ListRecipients_def pg_cust_Upsert_def gen_UpsertCustomer_def order_by_def order_by_desc_def
      local_orchestrator_def local_EnqueuePlaceCall_def pg_camp_MarkStarted_def gen_StartCampaign_def pg_flows_simps
      shop_world_def demo_libs_def campaignFlow_def)

theorem Start_dispatches_witness:
  "\<exists>w' fid. campaigns_Start (campaigns_service demo_libs local_orchestrator) ''o'' ''c'' list_world = (Inr 1, w')
     \<and> w_jobs w' = [call_job ''o'' fid ''+8801712345678'']"
proof -
  from list_world_start obtain n w' where
    run: "campaigns_Start (campaigns_service demo_libs local_orchestrator) ''o'' ''c'' list_world = (Inr n, w')" by blast
  from Start_dispatches [OF run refl] run show ?thesis
    by (auto simp: list_world_targets)
qed

text \<open>
  A campaign is started once. After a successful start, and as long as the
  campaign table is not changed otherwise, starting it again queues nothing, changes
  nothing and reports the same count.
\<close>

theorem Start_once:
  assumes "list_all (\<lambda>c. cp_status c \<in> {''draft'', ''scheduled'', ''completed''}) (campaigns (w_db w))"
    and "campaigns_Start (campaigns_service L local_orchestrator) org cid w = (Inr n, w1)" and "in_int32 n"
    and "campaigns (w_db w2) = campaigns (w_db w1)"
    and "campaigns_Start (campaigns_service L local_orchestrator) org cid w2 = (r, w3)"
  shows "w_db w3 = w_db w2 \<and> w_jobs w3 = w_jobs w2 \<and> r \<in> {Inr n, Inl ErrConn}"
proof -
  from wpD [OF localq.wp_Start assms(2)] obtain row where row: "campaign_row (w_db w) cid = Some row" "cp_org_id row = org"
    "if cp_status row = ''completed'' then n = cp_target_count row \<and> w_db w1 = w_db w
     else cp_status row \<in> {''draft'', ''scheduled''} \<longrightarrow> (\<exists>row'. campaign_row (w_db w1) cid = Some row' \<and>
              cp_org_id row' = org \<and> cp_status row' = ''completed'' \<and> cp_target_count row' = go_int32 n)"
    by (elim exE conjE, elim allE [of _ n]) (simp, elim exE conjE, auto split: if_splits)
  moreover have "cp_status row \<in> {''draft'', ''scheduled'', ''completed''}"
    using assms(1) find_SomeD [OF row(1)] by (auto simp: list_all_iff)
  ultimately obtain row' where row': "campaign_row (w_db w2) cid = Some row'" "cp_org_id row' = org"
    "cp_status row' = ''completed''" "cp_target_count row' = n"
    using assms(3,4) by (auto simp: go_int32_id split: if_splits)
  have "wp (campaigns_Start (campaigns_service L local_orchestrator) org cid)
      (\<lambda>r w3. w_db w3 = w_db w2 \<and> w_jobs w3 = w_jobs w2 \<and> r \<in> {Inr n, Inl ErrConn}) w2"
    unfolding campaigns_Start_def
    by (rule wp_bnd [OF wp_campaigns_Get]) (use row' in \<open>auto simp: quiet_def campaign_of_def\<close>)
  from wpD [OF this assms(5)] show ?thesis .
qed

theorem Start_once_witness:
  "\<exists>w1. fst (campaigns_Start (campaigns_service demo_libs local_orchestrator) ''o'' ''c'' list_world) = Inr 1 \<and>
     w1 = snd (campaigns_Start (campaigns_service demo_libs local_orchestrator) ''o'' ''c'' list_world) \<and>
     w_jobs (snd (campaigns_Start (campaigns_service demo_libs local_orchestrator) ''o'' ''c'' w1)) = w_jobs w1"
proof -
  from list_world_start obtain n w1 where
    run: "campaigns_Start (campaigns_service demo_libs local_orchestrator) ''o'' ''c'' list_world = (Inr n, w1)" by blast
  from wpD [OF localq.wp_Start run] have n: "n = 1" by (auto simp: list_world_targets)
  obtain r w3 where again: "campaigns_Start (campaigns_service demo_libs local_orchestrator) ''o'' ''c'' w1 = (r, w3)" by fastforce
  have "w_jobs w3 = w_jobs w1"
    using Start_once [OF _ run _ refl again] by (simp add: n in_int32_def)
  with run again n show ?thesis by simp
qed

text \<open>
  A sweep whose last statement fails calls everybody again. The timer queues
  the calls of a due campaign before it marks it completed, so if marking fails the
  campaign stays scheduled and the next sweep queues the same calls a second time.
\<close>

theorem RunDue_calls_twice:
  "\<exists>w w1 job. campaigns_RunDue (campaigns_service demo_libs local_orchestrator) w = (Inr 0, w1) \<and> w_jobs w1 = [job] \<and>
     fst (campaigns_RunDue (campaigns_service demo_libs local_orchestrator) w1) = Inr 1 \<and>
     w_jobs (snd (campaigns_RunDue (campaigns_service demo_libs local_orchestrator) w1)) = [job, job]"
  by (rule exI [of _ "list_world\<lparr>w_sched := [(False, 0), (False, 0), (False, 0), (False, 0), (True, 0)]\<rparr>"])
     (simp add: campaigns_RunDue_def pg_camp_DueCampaigns_def gen_DueCampaigns_def campaigns_dispatch_def
      pg_GetActiveFlow_def gen_GetActiveFlowByName_def
      pg_camp_Recipients_def gen_ListRecipients_def pg_cust_Upsert_def gen_UpsertCustomer_def order_by_def order_by_desc_def
      local_orchestrator_def local_EnqueuePlaceCall_def pg_camp_MarkStarted_def gen_StartCampaign_def
      shop_world_def demo_libs_def campaignFlow_def bnd_def attempt_def ret_def fail_def gets_def perform_def draw_eq
      db_exec_def db_read_def env_step_def upd_where_def cust_key_def coalesce_def)

text \<open>Scheduling a campaign that is not a draft reports success and does nothing.\<close>

theorem Schedule_completed_noop:
  "\<exists>w'. campaigns_Schedule (campaigns_service demo_libs local_orchestrator) ''o'' ''c'' (14401 * second) list_world = (Inr (), w')
     \<and> w_db w' = w_db list_world"
  by (simp add: campaigns_Schedule_def campaign_eval pg_camp_Schedule_def gen_ScheduleCampaign_def upd_where_def)

end
