(* ===== verification/Yaver_Webhooks.thy ===== *)
theory Yaver_Webhooks
  imports Yaver_Calls
begin

text \<open>
  Outbound webhooks: secrets at rest (\<open>pkg/crypto\<close>), the endpoint, outbox and delivery
  tables (\<open>gen/webhooks.sql.go\<close>, \<open>WebhookRepo\<close> of \<open>postgres/webhooks.go\<close>) and the
  dispatcher (\<open>service/webhooks\<close>) that drains the outbox and posts signed deliveries
  with retries. The merchant's server is a parameter: it may answer anything, or nothing,
  and differently each time.
\<close>

section \<open>Secrets at rest (pkg/crypto)\<close>

text \<open>AES-GCM under the configured key is \<open>lib_seal\<close> and \<open>lib_open\<close>; the nonce has 12 bytes.\<close>

definition cipher_Encrypt :: "libs \<Rightarrow> string \<Rightarrow> string wop" where
  "cipher_Encrypt L p = bnd (draw (rand_bytes 12)) (\<lambda>b.
     let nonce = map char_of b in ret (nonce @ lib_seal L nonce p))"

definition cipher_Decrypt :: "libs \<Rightarrow> string \<Rightarrow> string option" where
  "cipher_Decrypt L c = (if length c < 12 then None else lib_open L (take 12 c) (drop 12 c))"

definition aead_ok :: "libs \<Rightarrow> bool" where
  "aead_ok L \<longleftrightarrow> (\<forall>n p. lib_open L n (lib_seal L n p) = Some p)"

section \<open>Queries (gen/webhooks.sql.go)\<close>

definition gen_UpsertWebhookEndpoint :: "string \<Rightarrow> string \<Rightarrow> string \<Rightarrow> string \<Rightarrow> string list \<Rightarrow> unit wop" where
  "gen_UpsertWebhookEndpoint eid org url secret_enc evs = db_exec (\<lambda>t d.
     if List.find (\<lambda>r. ep_org_id r = org) (webhook_endpoints d) \<noteq> None
     then Inr ((), d\<lparr>webhook_endpoints := upd_where (\<lambda>r. ep_org_id r = org)
       (\<lambda>r. r\<lparr>ep_url := url, ep_secret_enc := secret_enc, ep_events := evs, ep_active := True\<rparr>)
       (webhook_endpoints d)\<rparr>)
     else if List.find (\<lambda>r. ep_id r = eid) (webhook_endpoints d) \<noteq> None then Inl ErrUniqueViolation
     else Inr ((), d\<lparr>webhook_endpoints := webhook_endpoints d @ [\<lparr>ep_id = eid, ep_org_id = org, ep_url = url,
       ep_secret_enc = secret_enc, ep_events = evs, ep_active = True, ep_created_at = t\<rparr>]\<rparr>))"

definition gen_GetWebhookEndpoint :: "string \<Rightarrow> EndpointRow wop" where
  "gen_GetWebhookEndpoint org = db_read (\<lambda>t d.
     case List.find (\<lambda>r. ep_org_id r = org) (webhook_endpoints d) of None \<Rightarrow> Inl ErrNoRows | Some r \<Rightarrow> Inr r)"

definition gen_ClaimUndispatchedOutbox :: "int \<Rightarrow> OutboxRow list wop" where
  "gen_ClaimUndispatchedOutbox limit = db_read (\<lambda>t d.
     if limit < 0 then Inl (ErrOther ''LIMIT must not be negative'')
     else Inr (take (nat limit) (order_by ox_id (filter (\<lambda>r. ox_dispatched_at r = None) (webhook_outbox d)))))"

definition gen_CreateDelivery :: "libs \<Rightarrow> string \<Rightarrow> string \<Rightarrow> string \<Rightarrow> string \<Rightarrow> string \<Rightarrow> unit wop" where
  "gen_CreateDelivery L did org event url payload = db_exec (\<lambda>t d.
     case lib_jsonb L payload of
       None \<Rightarrow> Inl invalid_json
     | Some p \<Rightarrow>
         if List.find (\<lambda>r. dl_id r = did) (webhook_deliveries d) \<noteq> None then Inl ErrUniqueViolation
         else Inr ((), d\<lparr>webhook_deliveries := webhook_deliveries d @ [\<lparr>dl_id = did, dl_org_id = org, dl_event = event,
           dl_url = url, dl_payload = p, dl_status = ''pending'', dl_attempts = 0, dl_last_status_code = None,
           dl_last_error = None, dl_next_retry_at = t, dl_delivered_at = None, dl_created_at = t\<rparr>]\<rparr>))"

definition gen_MarkOutboxDispatched :: "int \<Rightarrow> unit wop" where
  "gen_MarkOutboxDispatched oid = db_exec (\<lambda>t d. Inr ((), d\<lparr>webhook_outbox :=
     upd_where (\<lambda>r. ox_id r = oid) (\<lambda>r. r\<lparr>ox_dispatched_at := Some t\<rparr>) (webhook_outbox d)\<rparr>))"

definition gen_DueDeliveries :: "int \<Rightarrow> DeliveryRow list wop" where
  "gen_DueDeliveries limit = db_read (\<lambda>t d.
     if limit < 0 then Inl (ErrOther ''LIMIT must not be negative'')
     else Inr (take (nat limit) (order_by dl_next_retry_at
       (filter (\<lambda>r. dl_status r = ''pending'' \<and> dl_next_retry_at r \<le> t) (webhook_deliveries d)))))"

definition attempts_fit :: "string \<Rightarrow> database \<Rightarrow> bool" where
  "attempts_fit did d = list_all (\<lambda>r. dl_id r = did \<longrightarrow> in_int32 (dl_attempts r + 1)) (webhook_deliveries d)"

definition delivered_row :: "int \<Rightarrow> time \<Rightarrow> DeliveryRow \<Rightarrow> DeliveryRow" where
  "delivered_row code t r = r\<lparr>dl_status := ''delivered'', dl_attempts := dl_attempts r + 1,
     dl_last_status_code := Some code, dl_delivered_at := Some t\<rparr>"

definition gen_MarkDelivered :: "string \<Rightarrow> int \<Rightarrow> unit wop" where
  "gen_MarkDelivered did code = db_exec (\<lambda>t d.
     if \<not> attempts_fit did d then Inl ErrOutOfRange
     else Inr ((), d\<lparr>webhook_deliveries := upd_where (\<lambda>r. dl_id r = did) (delivered_row code t) (webhook_deliveries d)\<rparr>))"

definition rescheduled_row :: "int \<Rightarrow> string option \<Rightarrow> string \<Rightarrow> time \<Rightarrow> DeliveryRow \<Rightarrow> DeliveryRow" where
  "rescheduled_row code msg status next r = r\<lparr>dl_status := status, dl_attempts := dl_attempts r + 1,
     dl_last_status_code := Some code, dl_last_error := msg, dl_next_retry_at := next\<rparr>"

definition gen_RescheduleDelivery :: "string \<Rightarrow> int \<Rightarrow> string option \<Rightarrow> string \<Rightarrow> time \<Rightarrow> unit wop" where
  "gen_RescheduleDelivery did code msg status next = db_exec (\<lambda>t d.
     if \<not> attempts_fit did d then Inl ErrOutOfRange
     else Inr ((), d\<lparr>webhook_deliveries :=
       upd_where (\<lambda>r. dl_id r = did) (rescheduled_row code msg status next) (webhook_deliveries d)\<rparr>))"

section \<open>The repository (postgres/webhooks.go)\<close>

definition pg_UpsertEndpoint :: "string \<Rightarrow> string \<Rightarrow> string \<Rightarrow> string \<Rightarrow> string list \<Rightarrow> unit wop" where
  "pg_UpsertEndpoint eid org url secretEnc evs = gen_UpsertWebhookEndpoint eid org url secretEnc evs"

definition pg_GetEndpoint :: "string \<Rightarrow> WebhookEndpointRow option wop" where
  "pg_GetEndpoint org = attempt (gen_GetWebhookEndpoint org) (\<lambda>q. case q of
       Inl e \<Rightarrow> if e = ErrNoRows then ret None else fail e
     | Inr row \<Rightarrow> ret (Some \<lparr>we_OrgID = ep_org_id row, we_URL = ep_url row, we_SecretEnc = ep_secret_enc row,
         we_Events = ep_events row, we_Active = ep_active row\<rparr>))"

definition subscribed :: "EndpointRow \<Rightarrow> string \<Rightarrow> bool" where
  "subscribed ep ev \<longleftrightarrow> ep_active ep \<and> (length (ep_events ep) = 0 \<or> ev \<in> set (ep_events ep))"

text \<open>
  The loop of \<open>DrainOutbox\<close>. A missing endpoint is no error to the database; any other
  error of the lookup aborts the transaction, in which PostgreSQL then refuses the
  statement that would mark the row.
\<close>

fun drain_rows :: "libs \<Rightarrow> OutboxRow list \<Rightarrow> int \<Rightarrow> int wop" where
  "drain_rows L [] created = ret created"
| "drain_rows L (row # rows) created =
     attempt (gen_GetWebhookEndpoint (ox_org_id row)) (\<lambda>q. case q of
       Inl e \<Rightarrow> if e = ErrNoRows
         then bnd (gen_MarkOutboxDispatched (ox_id row)) (\<lambda>_. drain_rows L rows created)
         else fail (ErrOther ''current transaction is aborted'')
     | Inr ep \<Rightarrow>
         if subscribed ep (ox_event row)
         then bnd (draw (id_New ''whd'')) (\<lambda>did.
              bnd (gen_CreateDelivery L did (ox_org_id row) (ox_event row) (ep_url ep) (ox_payload row)) (\<lambda>_.
              bnd (gen_MarkOutboxDispatched (ox_id row)) (\<lambda>_. drain_rows L rows (created + 1))))
         else bnd (gen_MarkOutboxDispatched (ox_id row)) (\<lambda>_. drain_rows L rows created))"

definition pg_DrainOutbox :: "libs \<Rightarrow> int \<Rightarrow> int wop" where
  "pg_DrainOutbox L limit = with_tx (bnd (gen_ClaimUndispatchedOutbox (go_int32 limit)) (\<lambda>rows.
     bnd (drain_rows L rows 0) (\<lambda>created. ret (Committed created))))"

definition due_of :: "DeliveryRow \<Rightarrow> DueDelivery" where
  "due_of row = \<lparr>dd_ID = dl_id row, dd_OrgID = dl_org_id row, dd_Event = dl_event row, dd_URL = dl_url row,
     dd_Payload = dl_payload row, dd_Attempts = dl_attempts row\<rparr>"

definition pg_DueDeliveries :: "int \<Rightarrow> DueDelivery list wop" where
  "pg_DueDeliveries limit = bnd (gen_DueDeliveries (go_int32 limit)) (\<lambda>rows. ret (map due_of rows))"

definition pg_MarkDelivered :: "string \<Rightarrow> int \<Rightarrow> unit wop" where
  "pg_MarkDelivered did code = gen_MarkDelivered did (go_int32 code)"

definition pg_Reschedule :: "string \<Rightarrow> int \<Rightarrow> string \<Rightarrow> string \<Rightarrow> time \<Rightarrow> unit wop" where
  "pg_Reschedule did code msg status next = gen_RescheduleDelivery did (go_int32 code) (strPtr msg) status next"

definition pg_webhooks :: "libs \<Rightarrow> WebhookRepo" where
  "pg_webhooks L = \<lparr>whr_UpsertEndpoint = pg_UpsertEndpoint, whr_GetEndpoint = pg_GetEndpoint,
     whr_DrainOutbox = pg_DrainOutbox L, whr_DueDeliveries = pg_DueDeliveries,
     whr_MarkDelivered = pg_MarkDelivered, whr_Reschedule = pg_Reschedule\<rparr>"

section \<open>The service (service/webhooks)\<close>

text \<open>
  \<open>wh_http\<close> is the answer of the merchant's server to a request made in a given state: a
  status code or a transport error. \<open>wh_url_ok\<close> tells the URLs \<open>http.NewRequest\<close> accepts.
\<close>

record WebhooksService =
  wh_repo :: WebhookRepo
  wh_libs :: libs
  wh_http :: "effect \<Rightarrow> world \<Rightarrow> string + int"
  wh_url_ok :: "string \<Rightarrow> bool"

definition maxAttempts :: int where
  "maxAttempts = 5"

definition backoff :: "int list" where
  "backoff = [2 * second, 5 * second, 15 * second, 60 * second, 300 * second]"

definition randToken :: "libs \<Rightarrow> world \<Rightarrow> string \<times> world" where
  "randToken L w = (case rand_bytes 24 w of (b, w') \<Rightarrow> (lib_base64url L b, w'))"

definition webhooks_SetEndpoint :: "WebhooksService \<Rightarrow> OrgID \<Rightarrow> string \<Rightarrow> string list option \<Rightarrow> string wop" where
  "webhooks_SetEndpoint s org url evs =
     bnd (draw (randToken (wh_libs s))) (\<lambda>tok.
     let secret = ''whsec_'' @ tok in
     bnd (cipher_Encrypt (wh_libs s) secret) (\<lambda>enc.
     bnd (draw (id_New ''whep'')) (\<lambda>eid.
     bnd (whr_UpsertEndpoint (wh_repo s) eid org url enc (case evs of None \<Rightarrow> [] | Some es \<Rightarrow> es)) (\<lambda>_.
     ret secret))))"

definition webhooks_Get :: "WebhooksService \<Rightarrow> OrgID \<Rightarrow> (string \<times> string list) option wop" where
  "webhooks_Get s org = bnd (whr_GetEndpoint (wh_repo s) org) (\<lambda>found. case found of
     None \<Rightarrow> ret None | Some ep \<Rightarrow> ret (Some (we_URL ep, we_Events ep)))"

definition webhooks_fail :: "WebhooksService \<Rightarrow> DueDelivery \<Rightarrow> int \<Rightarrow> string \<Rightarrow> unit wop" where
  "webhooks_fail s d code msg = bnd (gets w_now) (\<lambda>now.
     let attempts = dd_Attempts d + 1
     in if attempts \<ge> maxAttempts
        then ignore (whr_Reschedule (wh_repo s) (dd_ID d) code msg ''dead'' now)
        else if min (dd_Attempts d) (int (length backoff) - 1) < 0
        then fail (ErrOther ''panic: index out of range'')
        else ignore (whr_Reschedule (wh_repo s) (dd_ID d) code msg ''pending''
               (now + backoff ! nat (min (dd_Attempts d) (int (length backoff) - 1)))))"

definition sign :: "libs \<Rightarrow> string \<Rightarrow> string \<Rightarrow> string \<Rightarrow> string" where
  "sign L secret ts payload = ''sha256='' @ hex_encode (map of_char (lib_hmac L secret (ts @ ''.'' @ payload)))"

definition webhooks_deliver :: "WebhooksService \<Rightarrow> DueDelivery \<Rightarrow> unit wop" where
  "webhooks_deliver s d = attempt (whr_GetEndpoint (wh_repo s) (dd_OrgID d)) (\<lambda>q. case q of
       Inr (Some ep) \<Rightarrow> (case cipher_Decrypt (wh_libs s) (we_SecretEnc ep) of
           None \<Rightarrow> webhooks_fail s d 0 ''secret decrypt''
         | Some secret \<Rightarrow> bnd (gets w_now) (\<lambda>now.
             let ts = go_itoa (now div second);
                 req = WebhookPosted (dd_ID d) (dd_URL d) ts (sign (wh_libs s) secret ts (dd_Payload d)) (dd_Payload d)
             in if \<not> wh_url_ok s (dd_URL d) then fail PanicNilDeref
                else bnd (gets (wh_http s req)) (\<lambda>resp.
                     bnd (perform (emit_effect req)) (\<lambda>_.
                     case resp of
                       Inl err \<Rightarrow> webhooks_fail s d 0 err
                     | Inr code \<Rightarrow>
                         if 200 \<le> code \<and> code < 300 then ignore (whr_MarkDelivered (wh_repo s) (dd_ID d) code)
                         else webhooks_fail s d code ''non-2xx''))))
     | _ \<Rightarrow> webhooks_fail s d 0 ''endpoint missing'')"

definition webhooks_tick :: "WebhooksService \<Rightarrow> unit wop" where
  "webhooks_tick s = attempt (whr_DrainOutbox (wh_repo s) 100) (\<lambda>_.
     attempt (whr_DueDeliveries (wh_repo s) 50) (\<lambda>q. case q of
       Inl _ \<Rightarrow> ret ()
     | Inr due \<Rightarrow> each (webhooks_deliver s) due))"

definition webhooks_service :: "libs \<Rightarrow> (effect \<Rightarrow> world \<Rightarrow> string + int) \<Rightarrow> (string \<Rightarrow> bool) \<Rightarrow> WebhooksService" where
  "webhooks_service L http ok = \<lparr>wh_repo = pg_webhooks L, wh_libs = L, wh_http = http, wh_url_ok = ok\<rparr>"

section \<open>Facts about draining\<close>

lemma webhooks_service_simps [simp]:
  "wh_repo (webhooks_service L http ok) = pg_webhooks L" "wh_libs (webhooks_service L http ok) = L"
  "wh_http (webhooks_service L http ok) = http" "wh_url_ok (webhooks_service L http ok) = ok"
  "whr_UpsertEndpoint (pg_webhooks L) = pg_UpsertEndpoint" "whr_GetEndpoint (pg_webhooks L) = pg_GetEndpoint"
  "whr_DrainOutbox (pg_webhooks L) = pg_DrainOutbox L" "whr_DueDeliveries (pg_webhooks L) = pg_DueDeliveries"
  "whr_MarkDelivered (pg_webhooks L) = pg_MarkDelivered" "whr_Reschedule (pg_webhooks L) = pg_Reschedule"
  by (simp_all add: webhooks_service_def pg_webhooks_def)

abbreviation endpoint_of :: "database \<Rightarrow> string \<Rightarrow> EndpointRow option" where
  "endpoint_of d org \<equiv> List.find (\<lambda>r. ep_org_id r = org) (webhook_endpoints d)"

text \<open>Is there an endpoint that wants the event?\<close>

definition wanted :: "database \<Rightarrow> OutboxRow \<Rightarrow> bool" where
  "wanted d row = (case endpoint_of d (ox_org_id row) of None \<Rightarrow> False | Some ep \<Rightarrow> subscribed ep (ox_event row))"

text \<open>A delivery that a drained outbox row stands for.\<close>

definition delivery_for :: "libs \<Rightarrow> database \<Rightarrow> OutboxRow \<Rightarrow> DeliveryRow \<Rightarrow> bool" where
  "delivery_for L d row r \<longleftrightarrow> dl_org_id r = ox_org_id row \<and> dl_event r = ox_event row \<and>
     lib_jsonb L (ox_payload row) = Some (dl_payload r) \<and> map_option ep_url (endpoint_of d (ox_org_id row)) = Some (dl_url r) \<and>
     dl_status r = ''pending'' \<and> dl_attempts r = 0"

text \<open>
  \<open>drained\<close>: of the tables only outbox and deliveries differ; exactly the rows in \<open>rows\<close>
  are now marked, and exactly one new delivery with a fresh id was added for each of them
  that is wanted.
\<close>

definition dispatch_mark :: "int set \<Rightarrow> (int \<Rightarrow> time) \<Rightarrow> OutboxRow \<Rightarrow> OutboxRow" where
  "dispatch_mark ids t r = (if ox_id r \<in> ids then r\<lparr>ox_dispatched_at := Some (t (ox_id r))\<rparr> else r)"

definition drained :: "libs \<Rightarrow> OutboxRow list \<Rightarrow> database \<Rightarrow> database \<Rightarrow> bool" where
  "drained L rows d d' \<longleftrightarrow> (\<exists>t new. d' = d\<lparr>webhook_outbox := map (dispatch_mark (ox_id ` set rows) t) (webhook_outbox d),
       webhook_deliveries := webhook_deliveries d @ new\<rparr> \<and>
     list_all2 (delivery_for L d) (filter (wanted d) rows) new \<and>
     (distinct (map dl_id (webhook_deliveries d)) \<longrightarrow> distinct (map dl_id (webhook_deliveries d @ new))))"

lemma dispatch_mark_simps [simp]:
  "dispatch_mark {} t = (\<lambda>r. r)"
  "(\<lambda>r. if ox_id r = oid then r\<lparr>ox_dispatched_at := Some t0\<rparr> else r) = dispatch_mark {oid} (\<lambda>_. t0)"
  by (simp_all add: dispatch_mark_def fun_eq_iff)

lemma drained_Nil: "drained L [] d d"
  unfolding drained_def by (intro exI [of _ "\<lambda>_. 0"] exI [of _ "[]"]) simp

lemma wp_GetWebhookEndpoint:
  "wp (gen_GetWebhookEndpoint org) (\<lambda>r w'. w_db w' = w_db w \<and> env_frame w w' \<and> (case r of
      Inl e \<Rightarrow> e = ErrConn \<or> e = ErrNoRows \<and> endpoint_of (w_db w) org = None
    | Inr ep \<Rightarrow> endpoint_of (w_db w) org = Some ep)) w"
  unfolding gen_GetWebhookEndpoint_def by (rule wp_db_read) (auto split: option.splits)

lemma wp_mark:
  "wp (gen_MarkOutboxDispatched oid) (\<lambda>r w'. quiet w w' \<and> (case r of Inl e \<Rightarrow> w_db w' = w_db w
    | Inr _ \<Rightarrow> (\<exists>t. w_db w' = (w_db w)\<lparr>webhook_outbox := map (dispatch_mark {oid} (\<lambda>_. t)) (webhook_outbox (w_db w))\<rparr>))) w"
  unfolding gen_MarkOutboxDispatched_def upd_where_def
  by (rule wp_db_exec) (auto simp: quiet_def env_frame_def)

lemma wp_CreateDelivery:
  assumes "endpoint_of (w_db w) (ox_org_id row) = Some ep"
  shows "wp (gen_CreateDelivery L did (ox_org_id row) (ox_event row) (ep_url ep) (ox_payload row)) (\<lambda>r w'. quiet w w' \<and>
    (case r of Inl e \<Rightarrow> w_db w' = w_db w
     | Inr _ \<Rightarrow> \<exists>new. w_db w' = (w_db w)\<lparr>webhook_deliveries := webhook_deliveries (w_db w) @ [new]\<rparr> \<and>
         delivery_for L (w_db w) row new \<and> dl_id new \<notin> dl_id ` set (webhook_deliveries (w_db w)))) w"
  unfolding gen_CreateDelivery_def
  by (rule wp_db_exec)
     (use assms in \<open>auto simp: quiet_def env_frame_def delivery_for_def find_None_iff split: option.splits\<close>,
      rule exI, rule conjI, rule refl, auto)

text \<open>One row more.\<close>

lemma drained_step:
  assumes "d1 = d\<lparr>webhook_deliveries := webhook_deliveries d @ new\<rparr>"
    and "if wanted d row then \<exists>x. new = [x] \<and> delivery_for L d row x \<and> dl_id x \<notin> dl_id ` set (webhook_deliveries d)
      else new = []"
    and "d2 = d1\<lparr>webhook_outbox := map (dispatch_mark {ox_id row} (\<lambda>_. t0)) (webhook_outbox d1)\<rparr>"
    and "drained L rows d2 d3"
  shows "drained L (row # rows) d d3"
proof -
  from assms(4) obtain t new' where f: "d3 = d2\<lparr>webhook_outbox := map (dispatch_mark (ox_id ` set rows) t) (webhook_outbox d2),
       webhook_deliveries := webhook_deliveries d2 @ new'\<rparr>"
    "list_all2 (delivery_for L d2) (filter (wanted d2) rows) new'"
    "distinct (map dl_id (webhook_deliveries d2)) \<longrightarrow> distinct (map dl_id (webhook_deliveries d2 @ new'))"
    unfolding drained_def by blast
  have same: "delivery_for L d2 = delivery_for L d" "wanted d2 = wanted d"
    by (simp_all add: assms(1,3) delivery_for_def wanted_def fun_eq_iff)
  have "list_all2 (delivery_for L d) (filter (wanted d) (row # rows)) (new @ new')"
    using assms(2) f(2) same by (auto split: if_splits)
  moreover have "distinct (map dl_id (webhook_deliveries d)) \<longrightarrow> distinct (map dl_id (webhook_deliveries d @ new @ new'))"
    using f(3) assms(2) by (auto simp: assms(1,3) image_iff split: if_splits)
  moreover have "dispatch_mark (ox_id ` set rows) t (dispatch_mark {ox_id row} (\<lambda>_. t0) r) =
      dispatch_mark (ox_id ` set (row # rows)) (\<lambda>i. if i \<in> ox_id ` set rows then t i else t0) r" for r
    by (simp add: dispatch_mark_def)
  ultimately show ?thesis unfolding drained_def
    by (intro exI [of _ "\<lambda>i. if i \<in> ox_id ` set rows then t i else t0"] exI [of _ "new @ new'"])
       (simp add: f(1) assms(1,3) comp_def)
qed

lemma wp_drain_rows:
  "wp (drain_rows L rows n) (\<lambda>r w'. quiet w w' \<and> (\<forall>m. r = Inr m \<longrightarrow> drained L rows (w_db w) (w_db w') \<and>
     m = n + int (length (filter (wanted (w_db w)) rows)))) w"
proof (induction rows arbitrary: n w)
  case Nil
  then show ?case by (simp add: quiet_def drained_Nil)
next
  case (Cons row rows)
  have mark: "wp (bnd (gen_MarkOutboxDispatched (ox_id row)) (\<lambda>_. drain_rows L rows n')) (\<lambda>r w'. quiet v w' \<and> (\<forall>m. r = Inr m \<longrightarrow>
        drained L (row # rows) d (w_db w') \<and> m = n' + int (length (filter (wanted d) rows)))) v"
    if "w_db v = d\<lparr>webhook_deliveries := webhook_deliveries d @ new\<rparr>"
      "if wanted d row then \<exists>x. new = [x] \<and> delivery_for L d row x \<and> dl_id x \<notin> dl_id ` set (webhook_deliveries d)
      else new = []" for v d new n'
  proof (rule wp_bnd [OF wp_mark], goal_cases)
    case (1 e w1)
    then show ?case by simp
  next
    case (2 u w1)
    then obtain t where t: "w_db w1 = (w_db v)\<lparr>webhook_outbox := map (dispatch_mark {ox_id row} (\<lambda>_. t))
         (webhook_outbox (w_db v))\<rparr>" by auto
    have "wanted (w_db w1) = wanted d" by (simp add: t that(1) wanted_def fun_eq_iff)
    then show ?case
      by (intro wp_mono [OF Cons.IH]) (use 2 drained_step [OF that t] in \<open>auto simp: quiet_def\<close>)
  qed
  show ?case unfolding drain_rows.simps
  proof (rule wp_attempt [OF wp_GetWebhookEndpoint], goal_cases)
    case (1 r w1)
    have d: "w_db w1 = (w_db w)\<lparr>webhook_deliveries := webhook_deliveries (w_db w) @ []\<rparr>" and q: "quiet w w1"
      using 1 by (auto simp: quiet_def env_frame_def)
    show ?case
    proof (cases r)
      case (Inl e)
      show ?thesis
      proof (cases "e = ErrNoRows")
        case True
        with 1 Inl have nw: "\<not> wanted (w_db w) row" by (simp add: wanted_def)
        show ?thesis unfolding Inl sum.case if_P [OF True]
          by (rule wp_mono [OF mark [OF d]]) (use nw q in \<open>auto simp: quiet_def\<close>)
      qed (use Inl q in simp)
    next
      case (Inr ep)
      with 1 have ep: "endpoint_of (w_db w) (ox_org_id row) = Some ep" "w_db w1 = w_db w" by auto
      show ?thesis
      proof (cases "subscribed ep (ox_event row)")
        case False
        with ep have nw: "\<not> wanted (w_db w) row" by (simp add: wanted_def)
        show ?thesis unfolding Inr sum.case if_not_P [OF False]
          by (rule wp_mono [OF mark [OF d]]) (use nw q in \<open>auto simp: quiet_def\<close>)
      next
        case True
        with ep have wt: "wanted (w_db w) row" by (simp add: wanted_def)
        have e1: "endpoint_of (w_db (snd (id_New ''whd'' w1))) (ox_org_id row) = Some ep" using ep by simp
        show ?thesis unfolding Inr sum.case if_P [OF True] wp_bnd_simps
        proof (rule wp_bnd [OF wp_CreateDelivery [OF e1]], goal_cases)
          case (1 e w2)
          with q show ?case by (simp add: quiet_def)
        next
          case (2 u w2)
          then obtain x where x: "w_db w2 = (w_db w)\<lparr>webhook_deliveries := webhook_deliveries (w_db w) @ [x]\<rparr>"
            "delivery_for L (w_db w) row x" "dl_id x \<notin> dl_id ` set (webhook_deliveries (w_db w))" using ep by auto
          show ?case by (rule wp_mono [OF mark [OF x(1)]]) (use wt x q 2 in \<open>auto simp: quiet_def\<close>)
        qed
      qed
    qed
  qed
qed

text \<open>What \<open>DrainOutbox\<close> claims.\<close>

definition claimed :: "database \<Rightarrow> OutboxRow list" where
  "claimed d = take 100 (order_by ox_id (filter (\<lambda>r. ox_dispatched_at r = None) (webhook_outbox d)))"

lemma wp_DrainOutbox:
  "wp (pg_DrainOutbox L 100) (\<lambda>r w'. quiet w w' \<and> (case r of
      Inl e \<Rightarrow> w_db w' = w_db w
    | Inr m \<Rightarrow> drained L (claimed (w_db w)) (w_db w) (w_db w') \<and>
        m = int (length (filter (wanted (w_db w)) (claimed (w_db w)))))) w"
proof -
  have 100: "go_int32 100 = 100" by (rule go_int32_id) (simp add: in_int32_def)
  have claim: "wp (gen_ClaimUndispatchedOutbox 100) (\<lambda>r w'. w_db w' = w_db v \<and> quiet v w' \<and>
      (\<forall>rows. r = Inr rows \<longrightarrow> rows = claimed (w_db v))) v" for v
    unfolding gen_ClaimUndispatchedOutbox_def
    by (rule wp_db_read) (auto simp: claimed_def quiet_def env_frame_def)
  show ?thesis unfolding pg_DrainOutbox_def 100
  proof (rule wp_with_tx, goal_cases)
    case (1 w1)
    show ?case
    proof (rule wp_bnd [OF claim], goal_cases)
      case (1 e w2)
      with \<open>env_frame w w1\<close> show ?case by (simp add: quiet_def env_frame_def)
    next
      case (2 rows w2)
      then have rows: "rows = claimed (w_db w)" using \<open>w_db w1 = w_db w\<close> by simp
      show ?case unfolding rows
        by (rule wp_bnd [OF wp_drain_rows]) (use 1 2 in \<open>auto simp: quiet_def env_frame_def\<close>)
    qed
  next
    case (2 v)
    then show ?case by (simp add: quiet_def env_frame_def)
  qed
qed

section \<open>Facts about delivering\<close>

definition delivery_ok :: "DeliveryRow \<Rightarrow> bool" where
  "delivery_ok r \<longleftrightarrow> dl_status r = ''pending'' \<and> 0 \<le> dl_attempts r \<and> dl_attempts r < maxAttempts
     \<or> dl_status r = ''delivered'' \<and> 1 \<le> dl_attempts r \<and> dl_attempts r \<le> maxAttempts \<and> dl_delivered_at r \<noteq> None
     \<or> dl_status r = ''dead'' \<and> dl_attempts r = maxAttempts"

definition deliveries_ok :: "database \<Rightarrow> bool" where
  "deliveries_ok d \<longleftrightarrow> distinct (map dl_id (webhook_deliveries d)) \<and> list_all delivery_ok (webhook_deliveries d)"

definition same_head :: "DeliveryRow \<Rightarrow> DeliveryRow \<Rightarrow> bool" where
  "same_head r r' \<longleftrightarrow> dl_id r' = dl_id r \<and> dl_org_id r' = dl_org_id r \<and> dl_event r' = dl_event r \<and> dl_url r' = dl_url r
     \<and> dl_payload r' = dl_payload r"

text \<open>
  \<open>settled q x d d'\<close>: at most the row of \<open>x\<close> changed, as an attempt changes it; if \<open>q\<close>, the
  attempt was counted.
\<close>

definition settled :: "bool \<Rightarrow> DueDelivery \<Rightarrow> database \<Rightarrow> database \<Rightarrow> bool" where
  "settled q x d d' \<longleftrightarrow> (\<exists>f. d' = d\<lparr>webhook_deliveries := upd_where (\<lambda>r. dl_id r = dd_ID x) f (webhook_deliveries d)\<rparr> \<and>
     (\<forall>r. same_head r (f r) \<and> (q \<longrightarrow> dl_attempts (f r) = dl_attempts r + 1) \<and>
        (dl_status r = ''pending'' \<and> delivery_ok r \<and> dl_attempts r = dd_Attempts x \<longrightarrow> delivery_ok (f r))))"

lemma settled_refl: "settled False x d d"
  unfolding settled_def by (intro exI [of _ "\<lambda>r. r"]) (simp add: same_head_def upd_where_def)

lemma deliveries_ok_fit: "deliveries_ok d \<Longrightarrow> attempts_fit did d"
  by (auto simp: deliveries_ok_def attempts_fit_def list_all_iff delivery_ok_def maxAttempts_def in_int32_def)

lemma wp_Reschedule:
  assumes "attempts_fit (dd_ID x) (w_db w)"
    and "status = ''pending'' \<and> dd_Attempts x + 1 < maxAttempts \<or> status = ''dead'' \<and> dd_Attempts x + 1 \<ge> maxAttempts"
  shows "wp (ignore (pg_Reschedule (dd_ID x) code msg status next)) (\<lambda>r w'. r = Inr () \<and> quiet w w' \<and>
     (w_sched w = [] \<longrightarrow> w_sched w' = []) \<and> settled (w_sched w = []) x (w_db w) (w_db w')) w"
proof -
  let ?f = "rescheduled_row (go_int32 code) (strPtr msg) status next"
  have f: "settled q x d (d\<lparr>webhook_deliveries := upd_where (\<lambda>r. dl_id r = dd_ID x) ?f (webhook_deliveries d)\<rparr>)" for q d
  proof -
    have "same_head r (?f r) \<and> dl_attempts (?f r) = dl_attempts r + 1" for r
      by (simp add: same_head_def rescheduled_row_def)
    moreover have "delivery_ok (?f r)"
      if "delivery_ok r" "dl_status r = ''pending''" "dl_attempts r = dd_Attempts x" for r
    proof -
      have "0 \<le> dl_attempts r \<and> dl_attempts r < maxAttempts" using that(1,2) by (simp add: delivery_ok_def)
      with assms(2) that(3) show ?thesis by (auto simp: delivery_ok_def rescheduled_row_def maxAttempts_def)
    qed
    ultimately show ?thesis unfolding settled_def by (intro exI [of _ ?f]) simp
  qed
  have "wp (pg_Reschedule (dd_ID x) code msg status next) (\<lambda>r w'. quiet w w' \<and>
     (w_sched w = [] \<longrightarrow> w_sched w' = []) \<and> settled (w_sched w = []) x (w_db w) (w_db w')) w"
    unfolding pg_Reschedule_def gen_RescheduleDelivery_def
    by (rule wp_db_exec_sched) (use assms(1) f in \<open>auto simp: quiet_def env_frame_def settled_refl\<close>)
  then show ?thesis by (rule wp_ignore) simp
qed

lemma wp_MarkDelivered:
  assumes "attempts_fit (dd_ID x) (w_db w)"
  shows "wp (ignore (pg_MarkDelivered (dd_ID x) code)) (\<lambda>r w'. r = Inr () \<and> quiet w w' \<and>
     (w_sched w = [] \<longrightarrow> w_sched w' = []) \<and> settled (w_sched w = []) x (w_db w) (w_db w')) w"
proof -
  have f: "settled q x d (d\<lparr>webhook_deliveries := upd_where (\<lambda>r. dl_id r = dd_ID x) (delivered_row c t) (webhook_deliveries d)\<rparr>)"
    for q d c t
  proof -
    have "same_head r (delivered_row c t r) \<and> dl_attempts (delivered_row c t r) = dl_attempts r + 1" for r
      by (simp add: same_head_def delivered_row_def)
    moreover have "delivery_ok (delivered_row c t r)" if "delivery_ok r" "dl_status r = ''pending''" for r
    proof -
      have "0 \<le> dl_attempts r \<and> dl_attempts r < maxAttempts" using that by (simp add: delivery_ok_def)
      then show ?thesis by (simp add: delivery_ok_def delivered_row_def maxAttempts_def)
    qed
    ultimately show ?thesis unfolding settled_def by (intro exI [of _ "delivered_row c t"]) simp
  qed
  have "wp (pg_MarkDelivered (dd_ID x) code) (\<lambda>r w'. quiet w w' \<and>
     (w_sched w = [] \<longrightarrow> w_sched w' = []) \<and> settled (w_sched w = []) x (w_db w) (w_db w')) w"
    unfolding pg_MarkDelivered_def gen_MarkDelivered_def
    by (rule wp_db_exec_sched) (use assms f in \<open>auto simp: quiet_def env_frame_def settled_refl\<close>)
  then show ?thesis by (rule wp_ignore) simp
qed

lemma wp_webhooks_fail:
  assumes "attempts_fit (dd_ID x) (w_db w)" and "0 \<le> dd_Attempts x"
  shows "wp (webhooks_fail (webhooks_service L http ok) x code msg) (\<lambda>r w'. r = Inr () \<and> quiet w w' \<and>
     (w_sched w = [] \<longrightarrow> w_sched w' = []) \<and> settled (w_sched w = []) x (w_db w) (w_db w')) w"
proof -
  have "\<not> min (dd_Attempts x) (int (length backoff) - 1) < 0" using assms(2) by (simp add: backoff_def)
  then show ?thesis unfolding webhooks_fail_def wp_bnd_simps Let_def webhooks_service_simps
    using assms(1) by (auto intro!: wp_Reschedule)
qed

text \<open>A request signed with the secret of the org's endpoint.\<close>

definition signed_post :: "libs \<Rightarrow> database \<Rightarrow> DueDelivery \<Rightarrow> effect \<Rightarrow> bool" where
  "signed_post L d x e \<longleftrightarrow> (\<exists>ep secret ts. endpoint_of d (dd_OrgID x) = Some ep \<and>
     cipher_Decrypt L (ep_secret_enc ep) = Some secret \<and>
     e = WebhookPosted (dd_ID x) (dd_URL x) ts (sign L secret ts (dd_Payload x)) (dd_Payload x))"

lemma wp_GetEndpoint:
  "wp (pg_GetEndpoint org) (\<lambda>r w'. w_db w' = w_db w \<and> quiet w w' \<and> (w_sched w = [] \<longrightarrow> w_sched w' = []) \<and>
     (\<forall>ep. r = Inr (Some ep) \<longrightarrow> (\<exists>row. endpoint_of (w_db w) org = Some row \<and> we_SecretEnc ep = ep_secret_enc row))) w"
proof -
  have "wp (gen_GetWebhookEndpoint org) (\<lambda>r w'. w_db w' = w_db w \<and> quiet w w' \<and> (w_sched w = [] \<longrightarrow> w_sched w' = []) \<and>
     (\<forall>row. r = Inr row \<longrightarrow> endpoint_of (w_db w) org = Some row)) w"
    unfolding gen_GetWebhookEndpoint_def db_read_def
    by (rule wp_db_exec_sched) (auto simp: quiet_def env_frame_def split: option.splits)
  then show ?thesis unfolding pg_GetEndpoint_def
    by (rule wp_attempt) (auto split: sum.splits)
qed

definition delivered_once :: "libs \<Rightarrow> DueDelivery \<Rightarrow> world \<Rightarrow> go_error + unit \<Rightarrow> world \<Rightarrow> bool" where
  "delivered_once L x w r w' \<longleftrightarrow> r \<in> {Inr (), Inl PanicNilDeref} \<and> w_jobs w' = w_jobs w \<and>
     (w_sched w = [] \<longrightarrow> w_sched w' = []) \<and> (\<exists>new. w_trace w' = w_trace w @ new \<and> length new \<le> 1 \<and>
       list_all (signed_post L (w_db w) x) new \<and>
       (if r = Inr () then settled (w_sched w = []) x (w_db w) (w_db w') else new = [] \<and> w_db w' = w_db w))"

lemma wp_deliver:
  assumes "attempts_fit (dd_ID x) (w_db w)" and "0 \<le> dd_Attempts x"
  shows "wp (webhooks_deliver (webhooks_service L http ok) x) (delivered_once L x w) w"
proof -
  let ?s = "webhooks_service L http ok"
  have silent: "wp (webhooks_fail ?s x code msg) (delivered_once L x w) v"
    if "w_db v = w_db w" "quiet w v" "w_sched w = [] \<longrightarrow> w_sched v = []" for code msg v
  proof -
    have "wp (webhooks_fail ?s x code msg) (\<lambda>r w'. r = Inr () \<and> quiet v w' \<and>
       (w_sched v = [] \<longrightarrow> w_sched w' = []) \<and> settled (w_sched v = []) x (w_db v) (w_db w')) v"
      by (rule wp_webhooks_fail) (use assms that(1) in simp_all)
    then show ?thesis
      by (rule wp_mono) (use that in \<open>auto simp: delivered_once_def quiet_def settled_def\<close>)
  qed
  have posted: "delivered_once L x w r w'"
    if "w_db v = w_db w" "w_jobs v = w_jobs w" "w_trace v = w_trace w @ [e]" "signed_post L (w_db w) x e"
      "w_sched w = [] \<longrightarrow> w_sched v = []" "r = Inr ()" "quiet v w'" "w_sched v = [] \<longrightarrow> w_sched w' = []"
      "settled (w_sched v = []) x (w_db v) (w_db w')" for v e r w'
    using that by (auto simp: delivered_once_def quiet_def settled_def)
  show ?thesis unfolding webhooks_deliver_def webhooks_service_simps
  proof (rule wp_attempt [OF wp_GetEndpoint], goal_cases)
    case (1 q w1)
    then have w1: "w_db w1 = w_db w" "quiet w w1" "w_sched w = [] \<longrightarrow> w_sched w1 = []" by auto
    show ?case
    proof (cases "\<exists>ep secret. q = Inr (Some ep) \<and> cipher_Decrypt L (we_SecretEnc ep) = Some secret")
      case False
      then show ?thesis using silent [OF w1] by (auto split: sum.splits option.splits)
    next
      case True
      then obtain ep secret where q: "q = Inr (Some ep)" "cipher_Decrypt L (we_SecretEnc ep) = Some secret" by blast
      define ts where "ts = go_itoa (w_now w1 div second)"
      define e where "e = WebhookPosted (dd_ID x) (dd_URL x) ts (sign L secret ts (dd_Payload x)) (dd_Payload x)"
      have sp: "signed_post L (w_db w) x e" using 1 q unfolding signed_post_def e_def by auto
      define v where "v = emit_effect e w1"
      have v: "w_db v = w_db w" "w_jobs v = w_jobs w" "w_trace v = w_trace w @ [e]" "w_sched w = [] \<longrightarrow> w_sched v = []"
        using w1 by (simp_all add: v_def emit_effect_def quiet_def)
      have fit: "attempts_fit (dd_ID x) (w_db v)" using assms(1) v(1) by simp
      have mark: "wp (ignore (pg_MarkDelivered (dd_ID x) code)) (delivered_once L x w) v" for code
        by (rule wp_mono [OF wp_MarkDelivered [OF fit]]) (auto intro: posted [OF v(1-3) sp v(4)])
      have failed: "wp (webhooks_fail ?s x code msg) (delivered_once L x w) v" for code msg
        by (rule wp_mono [OF wp_webhooks_fail [OF fit assms(2)]]) (auto intro: posted [OF v(1-3) sp v(4)])
      have "delivered_once L x w (Inl PanicNilDeref) w1"
        using w1 by (auto simp: delivered_once_def quiet_def)
      then show ?thesis using mark failed
        by (auto simp: q Let_def simp flip: ts_def e_def v_def split: sum.splits)
    qed
  qed
qed

text \<open>The requests made for one delivery.\<close>

definition posts :: "string \<Rightarrow> effect list \<Rightarrow> nat" where
  "posts did tr = length (filter (\<lambda>e. case e of WebhookPosted i _ _ _ _ \<Rightarrow> i = did | _ \<Rightarrow> False) tr)"

lemma posts_append [simp]: "posts did (a @ b) = posts did a + posts did b"
  by (simp add: posts_def)

lemma posts_Nil [simp]: "posts did [] = 0"
  by (simp add: posts_def)

lemma posts_signed: "list_all (signed_post L d x) new \<Longrightarrow> posts did new = (if did = dd_ID x then length new else 0)"
  by (induction new) (auto simp: posts_def signed_post_def)

text \<open>
  One round over the due deliveries \<open>xs\<close>: only their rows changed and keep what is sent, the
  table stays well-formed, every request is signed and, if \<open>q\<close>, counted.
\<close>

definition round_ok :: "libs \<Rightarrow> bool \<Rightarrow> DueDelivery list \<Rightarrow> database \<Rightarrow> database \<Rightarrow> effect list \<Rightarrow> bool" where
  "round_ok L q xs d d' new \<longleftrightarrow> (\<exists>h. d' = d\<lparr>webhook_deliveries := map h (webhook_deliveries d)\<rparr> \<and>
     (\<forall>r. same_head r (h r) \<and> (dl_id r \<notin> dd_ID ` set xs \<longrightarrow> h r = r)) \<and> deliveries_ok d' \<and>
     list_all (\<lambda>e. \<exists>x \<in> set xs. signed_post L d x e) new \<and>
     (q \<longrightarrow> (\<forall>r \<in> set (webhook_deliveries d). int (posts (dl_id r) new) \<le> dl_attempts (h r) - dl_attempts r)))"

definition due_row :: "database \<Rightarrow> DueDelivery \<Rightarrow> bool" where
  "due_row d x \<longleftrightarrow> (\<exists>r \<in> set (webhook_deliveries d). due_of r = x \<and> dl_status r = ''pending'')"

lemma round_ok_Nil: "deliveries_ok d \<Longrightarrow> round_ok L q xs d d []"
  unfolding round_ok_def by (rule exI [of _ "\<lambda>r. r"]) (simp add: same_head_def)

lemma round_ok_weaken: "round_ok L p xs d d' new \<Longrightarrow> (q \<longrightarrow> p) \<Longrightarrow> round_ok L q xs d d' new"
  unfolding round_ok_def by blast

lemma due_row_attempts:
  assumes "deliveries_ok d" and "due_row d x"
  shows "0 \<le> dd_Attempts x"
  using assms by (auto simp: due_row_def deliveries_ok_def list_all_iff delivery_ok_def due_of_def)

lemma settled_ok:
  assumes "deliveries_ok d" and "due_row d x" and "settled q x d d'"
  shows "deliveries_ok d'"
proof -
  from assms(3) obtain f where f: "d' = d\<lparr>webhook_deliveries := upd_where (\<lambda>r. dl_id r = dd_ID x) f (webhook_deliveries d)\<rparr>"
    "\<And>r. same_head r (f r)" "\<And>r. dl_status r = ''pending'' \<Longrightarrow> delivery_ok r \<Longrightarrow> dl_attempts r = dd_Attempts x \<Longrightarrow> delivery_ok (f r)"
    unfolding settled_def by blast
  from assms(2) obtain r where r: "r \<in> set (webhook_deliveries d)" "due_of r = x" "dl_status r = ''pending''"
    by (auto simp: due_row_def)
  have uniq: "q = r" if "q \<in> set (webhook_deliveries d)" "dl_id q = dd_ID x" for q
    using that r assms(1) by (auto simp: deliveries_ok_def due_of_def distinct_map dest: inj_onD)
  have ids: "map dl_id (webhook_deliveries d') = map dl_id (webhook_deliveries d)"
    using f(2) by (simp add: f(1) upd_where_def same_head_def comp_def)
  have "delivery_ok q'" if "q' \<in> set (webhook_deliveries d')" for q'
  proof -
    from that obtain q where q: "q \<in> set (webhook_deliveries d)" "q' = (if dl_id q = dd_ID x then f q else q)"
      by (auto simp: f(1) upd_where_def)
    have "delivery_ok q" using assms(1) q(1) by (auto simp: deliveries_ok_def list_all_iff)
    with q uniq [OF q(1)] f(3) [of r] r show ?thesis by (auto simp: due_of_def)
  qed
  with ids assms(1) show ?thesis by (simp add: deliveries_ok_def list_all_iff)
qed

lemma round_ok_step:
  assumes "deliveries_ok d" and "due_row d x" and "settled q x d d1" and "list_all (signed_post L d x) new"
    and "length new \<le> 1" and "round_ok L q xs d1 d2 new'"
  shows "round_ok L q (x # xs) d d2 (new @ new')"
proof -
  from assms(3) obtain f where f: "d1 = d\<lparr>webhook_deliveries := upd_where (\<lambda>r. dl_id r = dd_ID x) f (webhook_deliveries d)\<rparr>"
    "\<And>r. same_head r (f r)" "\<And>r. q \<Longrightarrow> dl_attempts (f r) = dl_attempts r + 1" unfolding settled_def by blast
  let ?g = "\<lambda>r. if dl_id r = dd_ID x then f r else r"
  from assms(6) obtain h where h: "d2 = d1\<lparr>webhook_deliveries := map h (webhook_deliveries d1)\<rparr>"
    "\<And>r. same_head r (h r)" "\<And>r. dl_id r \<notin> dd_ID ` set xs \<Longrightarrow> h r = r" "deliveries_ok d2"
    "list_all (\<lambda>e. \<exists>x \<in> set xs. signed_post L d1 x e) new'"
    "\<And>r. q \<Longrightarrow> r \<in> set (webhook_deliveries d1) \<Longrightarrow> int (posts (dl_id r) new') \<le> dl_attempts (h r) - dl_attempts r"
    unfolding round_ok_def by blast
  have g: "same_head r (?g r)" for r using f(2) by (simp add: same_head_def)
  have "same_head r (h (?g r))" for r using g [of r] h(2) [of "?g r"] by (simp only: same_head_def)
  moreover have "h (?g r) = r" if "dl_id r \<notin> dd_ID ` set (x # xs)" for r using that h(3) by auto
  moreover have "list_all (\<lambda>e. \<exists>x' \<in> set (x # xs). signed_post L d x' e) (new @ new')"
    using assms(4) h(5) by (auto simp: list_all_iff signed_post_def f(1))
  moreover have "int (posts (dl_id r) (new @ new')) \<le> dl_attempts (h (?g r)) - dl_attempts r"
    if "q" "r \<in> set (webhook_deliveries d)" for r
  proof -
    have "?g r \<in> set (webhook_deliveries d1)" using that(2) by (auto simp: f(1) upd_where_def)
    from h(6) [OF that(1) this] g [of r] have
      "int (posts (dl_id r) new') \<le> dl_attempts (h (?g r)) - dl_attempts (?g r)" by (simp add: same_head_def)
    then show ?thesis using f(3) [OF that(1), of r] posts_signed [OF assms(4), of "dl_id r"] assms(5) by auto
  qed
  moreover have "d2 = d\<lparr>webhook_deliveries := map (\<lambda>r. h (?g r)) (webhook_deliveries d)\<rparr>"
    by (simp add: h(1) f(1) upd_where_def comp_def)
  ultimately show ?thesis unfolding round_ok_def using h(4) by (intro exI [of _ "\<lambda>r. h (?g r)"]) blast
qed

lemma wp_round:
  assumes "deliveries_ok (w_db w)" and "\<forall>x \<in> set xs. due_row (w_db w) x" and "distinct (map dd_ID xs)"
  shows "wp (each (webhooks_deliver (webhooks_service L http ok)) xs) (\<lambda>r w'. w_jobs w' = w_jobs w \<and>
     (w_sched w = [] \<longrightarrow> w_sched w' = []) \<and>
     (\<exists>new. w_trace w' = w_trace w @ new \<and> round_ok L (w_sched w = []) xs (w_db w) (w_db w') new)) w"
  using assms
proof (induction xs arbitrary: w)
  case Nil
  then show ?case by (auto intro!: exI [of _ "[]"] round_ok_Nil)
next
  case (Cons x xs)
  have x: "due_row (w_db w) x" using Cons.prems by simp
  show ?case unfolding each.simps
  proof (rule wp_bnd [OF wp_deliver [OF deliveries_ok_fit [OF Cons.prems(1)] due_row_attempts [OF Cons.prems(1) x]]], goal_cases)
    case (1 e w1)
    then show ?case using Cons.prems(1) by (auto simp: delivered_once_def intro: round_ok_Nil)
  next
    case (2 u w1)
    then obtain new where w1: "w_jobs w1 = w_jobs w" "w_sched w = [] \<longrightarrow> w_sched w1 = []" "w_trace w1 = w_trace w @ new"
      "length new \<le> 1" "list_all (signed_post L (w_db w) x) new" "settled (w_sched w = []) x (w_db w) (w_db w1)"
      by (auto simp: delivered_once_def)
    have ok1: "deliveries_ok (w_db w1)" by (rule settled_ok [OF Cons.prems(1) x w1(6)])
    have "due_row (w_db w1) y" if "y \<in> set xs" for y
    proof -
      from Cons.prems(2) that obtain r where r: "r \<in> set (webhook_deliveries (w_db w))" "due_of r = y" "dl_status r = ''pending''"
        by (auto simp: due_row_def)
      have "dd_ID y \<noteq> dd_ID x" using Cons.prems(3) imageI [OF that, of dd_ID] by auto
      then have "dl_id r \<noteq> dd_ID x" using r(2) by (auto simp: due_of_def)
      with r w1(6) show ?thesis
        by (auto simp: due_row_def settled_def upd_where_def intro!: bexI [of _ r] image_eqI [of _ _ r])
    qed
    with ok1 Cons.prems(3) have "wp (each (webhooks_deliver (webhooks_service L http ok)) xs) (\<lambda>r w'. w_jobs w' = w_jobs w1 \<and>
     (w_sched w1 = [] \<longrightarrow> w_sched w' = []) \<and>
     (\<exists>new. w_trace w' = w_trace w1 @ new \<and> round_ok L (w_sched w1 = []) xs (w_db w1) (w_db w') new)) w1"
      by (intro Cons.IH) auto
    then show ?case
    proof (rule wp_mono, elim conjE exE, goal_cases)
      case (1 r w' new')
      have "round_ok L (w_sched w = []) xs (w_db w1) (w_db w') new'"
        by (rule round_ok_weaken [where p = "w_sched w1 = []"]) (use 1 w1(2) in simp_all)
      from round_ok_step [OF Cons.prems(1) x w1(6,5,4) this] 1 w1 show ?case by auto
    qed
  qed
qed

lemma kept_calm_DrainOutbox: "mrel kept_calm (pg_DrainOutbox L n)"
proof -
  have "mrel kept_calm (drain_rows L rows m)" for rows m
    by (induction rows arbitrary: m)
       (auto simp: gen_GetWebhookEndpoint_def gen_MarkOutboxDispatched_def gen_CreateDelivery_def intro!: mrel_intros)
  then show ?thesis unfolding pg_DrainOutbox_def gen_ClaimUndispatchedOutbox_def by (intro mrel_intros) auto
qed

lemma wp_DueDeliveries:
  assumes "deliveries_ok (w_db w)"
  shows "wp (pg_DueDeliveries 50) (\<lambda>r w'. w_db w' = w_db w \<and> quiet w w' \<and> kept_calm w w' \<and>
     (\<forall>xs. r = Inr xs \<longrightarrow> (\<forall>x \<in> set xs. due_row (w_db w) x) \<and> distinct (map dd_ID xs))) w"
proof -
  have 50: "go_int32 50 = 50" by (rule go_int32_id) (simp add: in_int32_def)
  have "wp (gen_DueDeliveries 50) (\<lambda>r w'. w_db w' = w_db w \<and> quiet w w' \<and> kept_calm w w' \<and> (\<forall>rows. r = Inr rows \<longrightarrow>
      (\<exists>t. rows = take 50 (order_by dl_next_retry_at (filter (\<lambda>r. dl_status r = ''pending'' \<and> dl_next_retry_at r \<le> t)
        (webhook_deliveries (w_db w))))))) w"
    unfolding gen_DueDeliveries_def db_read_def
    by (rule wp_db_exec_sched) (auto simp: quiet_def env_frame_def kept_calm_def)
  then show ?thesis unfolding pg_DueDeliveries_def 50
  proof (rule wp_bnd, goal_cases)
    case (2 rows w1)
    then obtain t where t: "rows = take 50 (order_by dl_next_retry_at (filter (\<lambda>r. dl_status r = ''pending'' \<and>
      dl_next_retry_at r \<le> t) (webhook_deliveries (w_db w))))" by blast
    let ?due = "filter (\<lambda>r. dl_status r = ''pending'' \<and> dl_next_retry_at r \<le> t) (webhook_deliveries (w_db w))"
    have "distinct (map dl_id ?due)" using assms by (auto simp: deliveries_ok_def intro: distinct_map_filter)
    then have "inj_on dl_id (set ?due)" "distinct ?due" by (simp_all add: distinct_map)
    then have "distinct (map dl_id (order_by dl_next_retry_at ?due))" by (simp add: distinct_map order_by_def)
    then have "distinct (map dl_id rows)" unfolding t take_map [symmetric] by (rule distinct_take)
    moreover have "due_row (w_db w) (due_of r)" if "r \<in> set rows" for r
      using that by (auto simp: t due_row_def dest!: in_set_takeD)
    ultimately show ?case using 2 by (auto simp: due_of_def comp_def)
  qed auto
qed

lemma drained_ok:
  assumes "deliveries_ok d" and "drained L rows d d'"
  shows "deliveries_ok d'"
proof -
  from assms(2) obtain t new where d': "d' = d\<lparr>webhook_outbox := map (dispatch_mark (ox_id ` set rows) t) (webhook_outbox d),
       webhook_deliveries := webhook_deliveries d @ new\<rparr>"
    "list_all2 (delivery_for L d) (filter (wanted d) rows) new"
    "distinct (map dl_id (webhook_deliveries d)) \<longrightarrow> distinct (map dl_id (webhook_deliveries d @ new))"
    unfolding drained_def by blast
  have "delivery_ok r" if "r \<in> set new" for r
  proof -
    from that d'(2) obtain row where "delivery_for L d row r" by (auto simp: list_all2_conv_all_nth in_set_conv_nth)
    then show ?thesis by (simp add: delivery_for_def delivery_ok_def maxAttempts_def)
  qed
  with assms(1) d' show ?thesis by (auto simp: deliveries_ok_def list_all_iff)
qed

text \<open>One tick: first perhaps a drain, then one round over deliveries that are due.\<close>

lemma wp_tick:
  assumes "deliveries_ok (w_db w)"
  shows "wp (webhooks_tick (webhooks_service L http ok)) (\<lambda>r w'. w_jobs w' = w_jobs w \<and> kept_calm w w' \<and>
     (\<exists>d1 xs new. (d1 = w_db w \<or> drained L (claimed (w_db w)) (w_db w) d1) \<and> (\<forall>x \<in> set xs. due_row d1 x) \<and>
        w_trace w' = w_trace w @ new \<and> round_ok L (w_sched w = []) xs d1 (w_db w') new)) w"
  unfolding webhooks_tick_def webhooks_service_simps
proof (rule wp_attempt [OF wp_conj [OF wp_DrainOutbox wp_mrel [OF kept_calm_DrainOutbox]]], goal_cases)
  case (1 r w1)
  then have w1: "quiet w w1" "kept_calm w w1" "w_db w1 = w_db w \<or> drained L (claimed (w_db w)) (w_db w) (w_db w1)"
    by (auto split: sum.splits)
  have ok1: "deliveries_ok (w_db w1)" using w1(3) assms drained_ok by auto
  show ?case
  proof (rule wp_attempt [OF wp_DueDeliveries [OF ok1]], goal_cases)
    case (1 q w2)
    then have w2: "w_db w2 = w_db w1" "quiet w1 w2" "kept_calm w1 w2" by auto
    show ?case
    proof (cases q)
      case (Inl e)
      have "round_ok L (w_sched w = []) [] (w_db w1) (w_db w2) []" using round_ok_Nil [OF ok1] w2(1) by simp
      with w1 w2 show ?thesis unfolding Inl
        by (auto simp: quiet_def kept_calm_def intro!: exI [of _ "w_db w1"] exI [of _ "[]"])
    next
      case (Inr xs)
      have xs: "\<forall>x \<in> set xs. due_row (w_db w2) x" "distinct (map dd_ID xs)" using 1 Inr w2(1) by auto
      have ok2: "deliveries_ok (w_db w2)" using ok1 w2(1) by simp
      show ?thesis unfolding Inr sum.case
      proof (rule wp_mono [OF wp_round [OF ok2 xs]], elim conjE exE, goal_cases)
        case (1 r w' new)
        have "round_ok L (w_sched w = []) xs (w_db w1) (w_db w') new"
          by (rule round_ok_weaken [where p = "w_sched w2 = []"]) (use 1 w1(2) w2 in \<open>simp_all add: kept_calm_def\<close>)
        with 1 w1 w2 xs show ?case
          by (intro conjI exI [of _ "w_db w1"] exI [of _ xs] exI [of _ new]) (auto simp: quiet_def kept_calm_def)
      qed
    qed
  qed
qed

section \<open>Facts about endpoints and outcomes\<close>

lemma rand_bytes_frame [simp]:
  "w_db (snd (rand_bytes n w)) = w_db w" "w_trace (snd (rand_bytes n w)) = w_trace w"
  "w_jobs (snd (rand_bytes n w)) = w_jobs w" "w_sched (snd (rand_bytes n w)) = w_sched w"
  "length (fst (rand_bytes n w)) = n"
  by (simp_all add: rand_bytes_def)

lemma randToken_frame [simp]:
  "w_db (snd (randToken L w)) = w_db w" "w_trace (snd (randToken L w)) = w_trace w"
  "w_jobs (snd (randToken L w)) = w_jobs w" "w_sched (snd (randToken L w)) = w_sched w"
  by (simp_all add: randToken_def rand_bytes_def)

lemma cipher_roundtrip:
  assumes "aead_ok L"
  shows "wp (cipher_Encrypt L p) (\<lambda>r w'. w_db w' = w_db w \<and> quiet w w' \<and> kept_calm w w' \<and>
     (\<exists>c. r = Inr c \<and> cipher_Decrypt L c = Some p)) w"
  using assms by (simp add: cipher_Encrypt_def Let_def quiet_def kept_calm_def cipher_Decrypt_def aead_ok_def)

lemma wp_UpsertEndpoint:
  "wp (pg_UpsertEndpoint eid org url enc evs) (\<lambda>r w'. quiet w w' \<and> kept_calm w w' \<and>
     (\<exists>eps. w_db w' = (w_db w)\<lparr>webhook_endpoints := eps\<rparr>) \<and>
     (\<forall>o'. o' \<noteq> org \<longrightarrow> endpoint_of (w_db w') o' = endpoint_of (w_db w) o') \<and>
     (r = Inr () \<longrightarrow> (\<exists>ep. endpoint_of (w_db w') org = Some ep \<and> ep_url ep = url \<and> ep_secret_enc ep = enc \<and>
        ep_events ep = evs \<and> ep_active ep))) w"
proof -
  have same: "\<exists>eps. d = d\<lparr>webhook_endpoints := eps\<rparr>" for d :: database
    by (rule exI [of _ "webhook_endpoints d"]) simp
  have "mrel kept_calm (pg_UpsertEndpoint eid org url enc evs)"
    unfolding pg_UpsertEndpoint_def gen_UpsertWebhookEndpoint_def by (rule mrel_intros)
  from wp_mrel [OF this] have "wp (pg_UpsertEndpoint eid org url enc evs) (\<lambda>r w'. kept_calm w w') w" .
  moreover have "wp (pg_UpsertEndpoint eid org url enc evs) (\<lambda>r w'. quiet w w' \<and>
     (\<exists>eps. w_db w' = (w_db w)\<lparr>webhook_endpoints := eps\<rparr>) \<and>
     (\<forall>o'. o' \<noteq> org \<longrightarrow> endpoint_of (w_db w') o' = endpoint_of (w_db w) o') \<and>
     (r = Inr () \<longrightarrow> (\<exists>ep. endpoint_of (w_db w') org = Some ep \<and> ep_url ep = url \<and> ep_secret_enc ep = enc \<and>
        ep_events ep = evs \<and> ep_active ep))) w"
    unfolding pg_UpsertEndpoint_def gen_UpsertWebhookEndpoint_def
  proof (rule wp_db_exec, goal_cases)
    case (1 w')
    then show ?case using same [of "w_db w"] by (simp add: quiet_def env_frame_def)
  next
    case (2 w')
    let ?f = "\<lambda>r. r\<lparr>ep_url := url, ep_secret_enc := enc, ep_events := evs, ep_active := True\<rparr>"
    have upd: "List.find (\<lambda>r. ep_org_id r = o') (upd_where (\<lambda>r. ep_org_id r = org) ?f eps) =
        map_option (\<lambda>r. if ep_org_id r = org then ?f r else r) (List.find (\<lambda>r. ep_org_id r = o') eps)" for o' eps
      by (rule find_upd_where) simp
    have own: "List.find (\<lambda>r. ep_org_id r = org) (upd_where (\<lambda>r. ep_org_id r = org) ?f eps) =
        map_option ?f (List.find (\<lambda>r. ep_org_id r = org) eps)" for eps
      unfolding upd by (cases "List.find (\<lambda>r. ep_org_id r = org) eps") (auto dest: find_SomeD)
    have other: "List.find (\<lambda>r. ep_org_id r = o') (upd_where (\<lambda>r. ep_org_id r = org) ?f eps) =
        List.find (\<lambda>r. ep_org_id r = o') eps" if "o' \<noteq> org" for o' eps
      unfolding upd using that by (cases "List.find (\<lambda>r. ep_org_id r = o') eps") (auto dest: find_SomeD)
    from 2 show ?case
      using same [of "w_db w"]
      by (auto simp: quiet_def env_frame_def own other find_append split: option.splits dest: find_SomeD)
  qed
  ultimately show ?thesis by (rule wp_mono [OF wp_conj]) auto
qed

lemma wp_SetEndpoint:
  assumes "aead_ok L"
  shows "wp (webhooks_SetEndpoint (webhooks_service L http ok) org url evs) (\<lambda>r w'. quiet w w' \<and> kept_calm w w' \<and>
     (\<exists>eps. w_db w' = (w_db w)\<lparr>webhook_endpoints := eps\<rparr>) \<and>
     (\<forall>o'. o' \<noteq> org \<longrightarrow> endpoint_of (w_db w') o' = endpoint_of (w_db w) o') \<and>
     (\<forall>secret. r = Inr secret \<longrightarrow> (\<exists>ep. endpoint_of (w_db w') org = Some ep \<and> ep_url ep = url \<and> ep_active ep \<and>
        ep_events ep = (case evs of None \<Rightarrow> [] | Some es \<Rightarrow> es) \<and> cipher_Decrypt L (ep_secret_enc ep) = Some secret))) w"
  unfolding webhooks_SetEndpoint_def Let_def wp_bnd_simps webhooks_service_simps
proof (rule wp_bnd [OF cipher_roundtrip [OF assms]], goal_cases)
  case (1 e w1)
  then show ?case by auto
next
  case (2 enc w1)
  show ?case unfolding wp_bnd_simps
    by (rule wp_bnd [OF wp_UpsertEndpoint]) (use 2 in \<open>auto simp: quiet_def kept_calm_def\<close>)
qed

section \<open>The life of the delivery table\<close>

text \<open>Everything that touches the outbox, the endpoints or the deliveries, in any order.\<close>

datatype wh_op = Tick | Outcome Call "OutboxEvent option" | Endpoint OrgID string "string list option"

fun run_wh_op :: "libs \<Rightarrow> (effect \<Rightarrow> world \<Rightarrow> string + int) \<Rightarrow> (string \<Rightarrow> bool) \<Rightarrow> wh_op \<Rightarrow> world \<Rightarrow> world" where
  "run_wh_op L http ok Tick w = snd (webhooks_tick (webhooks_service L http ok) w)"
| "run_wh_op L http ok (Outcome c ob) w = snd (pg_RecordCallOutcome L c ob w)"
| "run_wh_op L http ok (Endpoint org url evs) w = snd (webhooks_SetEndpoint (webhooks_service L http ok) org url evs w)"

text \<open>The attempts recorded for an id, and the invariant that no request goes unrecorded.\<close>

definition attempts_of :: "database \<Rightarrow> string \<Rightarrow> int" where
  "attempts_of d did = (case List.find (\<lambda>r. dl_id r = did) (webhook_deliveries d) of None \<Rightarrow> 0 | Some r \<Rightarrow> dl_attempts r)"

definition counted :: "world \<Rightarrow> bool" where
  "counted w \<longleftrightarrow> (\<forall>did. int (posts did (w_trace w)) \<le> attempts_of (w_db w) did)"

lemma attempts_of_drained:
  assumes "drained L rows d d'"
  shows "attempts_of d did \<le> attempts_of d' did"
proof -
  from assms obtain new where new: "webhook_deliveries d' = webhook_deliveries d @ new"
    and at: "list_all2 (delivery_for L d) (filter (wanted d) rows) new" by (auto simp: drained_def)
  have "0 \<le> dl_attempts r" if "r \<in> set new" for r
    using that at by (auto simp: list_all2_conv_all_nth in_set_conv_nth delivery_for_def)
  then show ?thesis by (auto simp: attempts_of_def new find_append split: option.splits dest: find_SomeD)
qed

lemma attempts_of_round:
  assumes "deliveries_ok d" and "round_ok L True xs d d' new" and "\<forall>x \<in> set xs. due_row d x"
  shows "attempts_of d did + int (posts did new) \<le> attempts_of d' did"
proof -
  from assms(2) obtain h where h: "d' = d\<lparr>webhook_deliveries := map h (webhook_deliveries d)\<rparr>" "\<And>r. same_head r (h r)"
    "list_all (\<lambda>e. \<exists>x \<in> set xs. signed_post L d x e) new"
    "\<And>r. r \<in> set (webhook_deliveries d) \<Longrightarrow> int (posts (dl_id r) new) \<le> dl_attempts (h r) - dl_attempts r"
    unfolding round_ok_def by blast
  have fh: "List.find (\<lambda>r. dl_id r = did) (map h rs) = map_option h (List.find (\<lambda>r. dl_id r = did) rs)" for rs
    using h(2) by (induction rs) (auto simp: same_head_def)
  show ?thesis
  proof (cases "List.find (\<lambda>r. dl_id r = did) (webhook_deliveries d)")
    case (Some r)
    with h(4) [of r] find_SomeD [OF Some] show ?thesis by (auto simp: attempts_of_def h(1) fh)
  next
    case None
    have "posts did new = 0"
      unfolding posts_def length_0_conv filter_empty_conv
    proof
      fix e assume "e \<in> set new"
      with h(3) obtain x where "x \<in> set xs" "signed_post L d x e" by (auto simp: list_all_iff)
      moreover then have "dd_ID x \<noteq> did" using assms(3) None by (fastforce simp: due_row_def due_of_def find_None_iff)
      ultimately show "\<not> (case e of WebhookPosted i _ _ _ _ \<Rightarrow> i = did | _ \<Rightarrow> False)" by (auto simp: signed_post_def)
    qed
    with None show ?thesis by (simp add: attempts_of_def h(1) fh)
  qed
qed

lemma run_wh_op_ok:
  assumes "aead_ok L" and "deliveries_ok (w_db w)"
  shows "deliveries_ok (w_db (run_wh_op L http ok op w)) \<and>
     (w_sched w = [] \<and> counted w \<longrightarrow> w_sched (run_wh_op L http ok op w) = [] \<and> counted (run_wh_op L http ok op w))"
proof (cases op)
  case Tick
  obtain r w' where run: "webhooks_tick (webhooks_service L http ok) w = (r, w')" by fastforce
  from wpD [OF wp_tick [OF assms(2)] run] obtain d1 xs new where t: "kept_calm w w'"
    "d1 = w_db w \<or> drained L (claimed (w_db w)) (w_db w) d1" "\<forall>x \<in> set xs. due_row d1 x"
    "w_trace w' = w_trace w @ new" "round_ok L (w_sched w = []) xs d1 (w_db w') new" by blast
  have ok1: "deliveries_ok d1" using t(2) assms(2) drained_ok by auto
  have "counted w'" if "w_sched w = []" "counted w"
    unfolding counted_def t(4)
  proof
    fix did
    have "int (posts did (w_trace w)) \<le> attempts_of (w_db w) did" using that(2) by (simp add: counted_def)
    also have "\<dots> \<le> attempts_of d1 did" using t(2) attempts_of_drained by auto
    finally show "int (posts did (w_trace w @ new)) \<le> attempts_of (w_db w') did"
      using attempts_of_round [OF ok1 _ t(3), of L "w_db w'" new did] t(5) that(1) by simp
  qed
  with t(1,5) run show ?thesis by (auto simp: Tick kept_calm_def round_ok_def)
next
  case (Outcome c ob)
  obtain r w' where run: "pg_RecordCallOutcome L c ob w = (r, w')" by fastforce
  have "mrel kept_calm (pg_RecordCallOutcome L c ob)"
    unfolding pg_RecordCallOutcome_def gen_CreateCall_def gen_InsertOutbox_def by (intro mrel_intros) auto
  from mrelD [OF this run] wpD [OF wp_Record run] have "kept_calm w w'" "quiet w w'"
    "webhook_deliveries (w_db w') = webhook_deliveries (w_db w)" by (auto split: sum.splits)
  with assms(2) run show ?thesis by (auto simp: Outcome kept_calm_def quiet_def counted_def attempts_of_def deliveries_ok_def)
next
  case (Endpoint org url evs)
  obtain r w' where run: "webhooks_SetEndpoint (webhooks_service L http ok) org url evs w = (r, w')" by fastforce
  from wpD [OF wp_SetEndpoint [OF assms(1)] run] have "kept_calm w w'" "quiet w w'"
    "webhook_deliveries (w_db w') = webhook_deliveries (w_db w)" by auto
  with assms(2) run show ?thesis by (auto simp: Endpoint kept_calm_def quiet_def counted_def attempts_of_def deliveries_ok_def)
qed

lemma run_wh_ops_ok:
  assumes "aead_ok L" and "deliveries_ok (w_db w)"
  shows "deliveries_ok (w_db (fold (run_wh_op L http ok) ops w)) \<and>
     (w_sched w = [] \<and> counted w \<longrightarrow> counted (fold (run_wh_op L http ok) ops w))"
  using assms(2)
proof (induction ops arbitrary: w)
  case (Cons op ops)
  from run_wh_op_ok [OF assms(1) Cons.prems, of http ok op] Cons.IH [of "run_wh_op L http ok op w"] show ?case by auto
qed simp

section \<open>Properties\<close>

text \<open>
  Property C14: draining the outbox is exact. Either nothing happened, or the oldest
  undispatched rows, a hundred at most, and no others are now marked, and for each of them
  whose org has an active endpoint subscribed to the event there is exactly one new
  delivery, with a fresh id, that row's event and payload and the endpoint's URL.
\<close>

theorem DrainOutbox_exact:
  "case pg_DrainOutbox L 100 w of
     (Inl e, w') \<Rightarrow> w_db w' = w_db w
   | (Inr m, w') \<Rightarrow> drained L (claimed (w_db w)) (w_db w) (w_db w') \<and>
       m = int (length (filter (wanted (w_db w)) (claimed (w_db w))))"
proof -
  obtain r w' where run: "pg_DrainOutbox L 100 w = (r, w')" by fastforce
  from wpD [OF wp_DrainOutbox this] run show ?thesis by (auto split: sum.splits)
qed

text \<open>
  Property C15: what a tick sends, whatever the merchant's server answers and whatever
  database statement fails. Every request is for a recorded delivery, carries its payload
  to its URL, and is signed with the secret of the org's endpoint. Deliveries that were
  finished before, delivered or dead, are neither sent again nor changed.
\<close>

theorem tick_posts:
  assumes "deliveries_ok (w_db w)" and "webhooks_tick (webhooks_service L http ok) w = (r, w')"
  shows "\<exists>new. w_trace w' = w_trace w @ new \<and>
     list_all (\<lambda>e. \<exists>row \<in> set (webhook_deliveries (w_db w')). signed_post L (w_db w) (due_of row) e) new \<and>
     (\<forall>r \<in> set (webhook_deliveries (w_db w)). dl_status r \<noteq> ''pending'' \<longrightarrow>
        r \<in> set (webhook_deliveries (w_db w')) \<and> posts (dl_id r) new = 0)"
proof -
  from wpD [OF wp_tick [OF assms(1)] assms(2)] obtain d1 xs new where
    d1: "d1 = w_db w \<or> drained L (claimed (w_db w)) (w_db w) d1" and xs: "\<And>x. x \<in> set xs \<Longrightarrow> due_row d1 x"
    and new: "w_trace w' = w_trace w @ new" and round: "round_ok L (w_sched w = []) xs d1 (w_db w') new" by blast
  have sub: "set (webhook_deliveries (w_db w)) \<subseteq> set (webhook_deliveries d1)" "webhook_endpoints d1 = webhook_endpoints (w_db w)"
    using d1 by (auto simp: drained_def)
  have ok1: "deliveries_ok d1" using d1 assms(1) drained_ok by auto
  from round obtain h where h: "w_db w' = d1\<lparr>webhook_deliveries := map h (webhook_deliveries d1)\<rparr>"
    "\<And>r. same_head r (h r)" "\<And>r. dl_id r \<notin> dd_ID ` set xs \<Longrightarrow> h r = r"
    "\<And>e. e \<in> set new \<Longrightarrow> \<exists>x \<in> set xs. signed_post L d1 x e" unfolding round_ok_def list_all_iff by blast
  have "\<exists>row \<in> set (webhook_deliveries (w_db w')). signed_post L (w_db w) (due_of row) e" if "e \<in> set new" for e
  proof -
    from h(4) [OF that] obtain x where x: "x \<in> set xs" "signed_post L d1 x e" by blast
    from xs [OF x(1)] obtain row where row: "row \<in> set (webhook_deliveries d1)" "due_of row = x" by (auto simp: due_row_def)
    have "signed_post L (w_db w) (due_of (h row)) e"
      using x(2) row(2) h(2) [of row] sub(2) by (auto simp: signed_post_def due_of_def same_head_def)
    then show ?thesis using row(1) by (auto simp: h(1))
  qed
  moreover have "r \<in> set (webhook_deliveries (w_db w')) \<and> posts (dl_id r) new = 0"
    if r: "r \<in> set (webhook_deliveries (w_db w))" "dl_status r \<noteq> ''pending''" for r
  proof -
    have notin: "dl_id r \<notin> dd_ID ` set xs"
    proof
      assume "dl_id r \<in> dd_ID ` set xs"
      then obtain x where "x \<in> set xs" "dl_id r = dd_ID x" by blast
      then obtain row where row: "row \<in> set (webhook_deliveries d1)" "dl_id row = dl_id r" "dl_status row = ''pending''"
        using xs by (fastforce simp: due_row_def due_of_def)
      have "inj_on dl_id (set (webhook_deliveries d1))" using ok1 by (simp add: deliveries_ok_def distinct_map)
      then have "row = r" by (rule inj_onD) (use row r(1) sub(1) in auto)
      with row r(2) show False by simp
    qed
    then have "h r = r" by (rule h(3))
    moreover have "\<forall>e \<in> set new. \<not> (case e of WebhookPosted i _ _ _ _ \<Rightarrow> i = dl_id r | _ \<Rightarrow> False)"
    proof
      fix e assume "e \<in> set new"
      then obtain x where "x \<in> set xs" "signed_post L d1 x e" using h(4) by blast
      moreover then have "dd_ID x \<noteq> dl_id r" using notin by (metis imageI)
      ultimately show "\<not> (case e of WebhookPosted i _ _ _ _ \<Rightarrow> i = dl_id r | _ \<Rightarrow> False)" by (auto simp: signed_post_def)
    qed
    ultimately show ?thesis using r(1) sub(1) by (auto simp: h(1) posts_def image_iff) (metis subsetD)
  qed
  ultimately show ?thesis using new by (auto simp: list_all_iff)
qed

text \<open>A shop with one pending delivery to an endpoint whose secret is \<open>s\<close>.\<close>

definition hook_world :: "string \<Rightarrow> world" where
  "hook_world url = init_world\<lparr>w_db := empty_db\<lparr>
     webhook_endpoints := [\<lparr>ep_id = ''e'', ep_org_id = ''o'', ep_url = url, ep_secret_enc = ''123456789012s'', ep_events = [],
       ep_active = True, ep_created_at = 0\<rparr>],
     webhook_deliveries := [\<lparr>dl_id = ''d'', dl_org_id = ''o'', dl_event = ''call.completed'', dl_url = url, dl_payload = ''{}'',
       dl_status = ''pending'', dl_attempts = 0, dl_last_status_code = None, dl_last_error = None, dl_next_retry_at = 0,
       dl_delivered_at = None, dl_created_at = 0\<rparr>]\<rparr>\<rparr>"

lemma hook_world_ok: "deliveries_ok (w_db (hook_world url))"
  by (simp add: hook_world_def deliveries_ok_def delivery_ok_def maxAttempts_def)

lemmas tick_eval = webhooks_tick_def webhooks_deliver_def webhooks_fail_def pg_DrainOutbox_def gen_ClaimUndispatchedOutbox_def
  pg_DueDeliveries_def gen_DueDeliveries_def pg_GetEndpoint_def gen_GetWebhookEndpoint_def
  pg_MarkDelivered_def gen_MarkDelivered_def pg_Reschedule_def gen_RescheduleDelivery_def attempts_fit_def
  delivered_row_def rescheduled_row_def due_of_def cipher_Decrypt_def maxAttempts_def backoff_def upd_where_def
  bnd_def attempt_def ignore_def ret_def fail_def gets_def perform_def draw_eq with_tx_def env_step_quiet db_exec_quiet db_read_quiet
  order_by_def emit_effect_def Let_def in_int32_def go_int32_id

theorem tick_posts_witness:
  "\<exists>w' ts. webhooks_tick (webhooks_service demo_libs (\<lambda>_ _. Inr 200) (\<lambda>_. True)) (hook_world ''http://a'') = (Inr (), w') \<and>
     w_trace w' = [WebhookPosted ''d'' ''http://a'' ts (sign demo_libs ''s'' ts ''{}'') ''{}'']"
proof -
  let ?s = "webhooks_service demo_libs (\<lambda>_ _. Inr 200) (\<lambda>_. True)" and ?w = "hook_world ''http://a''"
  obtain r w' where run: "webhooks_tick ?s ?w = (r, w')" by fastforce
  have one: "r = Inr () \<and> length (w_trace w') = 1"
    using run by (auto simp: tick_eval hook_world_def demo_libs_def)
  from tick_posts [OF hook_world_ok run] obtain new where "w_trace w' = new"
    "list_all (\<lambda>e. \<exists>row \<in> set (webhook_deliveries (w_db w')). signed_post demo_libs (w_db ?w) (due_of row) e) new"
    by (auto simp: hook_world_def)
  with one show ?thesis using run by (cases new) (auto simp: tick_eval hook_world_def demo_libs_def)
qed

text \<open>
  Property C16: the delivery table stays well-formed. Along any sequence of ticks, recorded
  call outcomes and endpoint changes, whatever the servers answer and whichever statements
  fail, ids stay unique and every delivery is pending with fewer than five attempts,
  delivered within five, or dead after exactly five.
\<close>

theorem deliveries_stay_ok:
  assumes "aead_ok L" and "deliveries_ok (w_db w)"
  shows "deliveries_ok (w_db (fold (run_wh_op L http ok) ops w))"
  using run_wh_ops_ok [OF assms] by blast

lemma demo_aead: "aead_ok demo_libs"
  by (simp add: aead_ok_def demo_libs_def)

theorem deliveries_stay_ok_witness:
  "deliveries_ok (w_db (fold (run_wh_op demo_libs (\<lambda>_ _. Inr 500) (\<lambda>_. True))
     [Tick, Endpoint ''o'' ''http://b'' None, Tick] (hook_world ''http://a'')))"
  by (rule deliveries_stay_ok [OF demo_aead hook_world_ok])



text \<open>
  Property C18: the merchant holds the secret deliveries are signed with. When setting an
  endpoint succeeds, the stored secret decrypts to the one that was returned, the endpoint
  is active with the given URL and subscriptions, and no other org's endpoint changed.
\<close>

theorem SetEndpoint_roundtrip:
  assumes "aead_ok L" and "webhooks_SetEndpoint (webhooks_service L http ok) org url evs w = (Inr secret, w')"
  shows "\<exists>ep. endpoint_of (w_db w') org = Some ep \<and> ep_url ep = url \<and> ep_active ep \<and>
     ep_events ep = (case evs of None \<Rightarrow> [] | Some es \<Rightarrow> es) \<and> cipher_Decrypt L (ep_secret_enc ep) = Some secret \<and>
     (\<forall>o'. o' \<noteq> org \<longrightarrow> endpoint_of (w_db w') o' = endpoint_of (w_db w) o')"
  using wpD [OF wp_SetEndpoint [OF assms(1)] assms(2)] by auto

theorem SetEndpoint_roundtrip_witness:
  "\<exists>secret w' ep. webhooks_SetEndpoint (webhooks_service demo_libs (\<lambda>_ _. Inr 200) (\<lambda>_. True)) ''o'' ''http://a'' None init_world = (Inr secret, w')
     \<and> endpoint_of (w_db w') ''o'' = Some ep \<and> cipher_Decrypt demo_libs (ep_secret_enc ep) = Some secret"
proof -
  let ?s = "webhooks_service demo_libs (\<lambda>_ _. Inr 200) (\<lambda>_. True)"
  have "\<exists>secret w'. webhooks_SetEndpoint ?s ''o'' ''http://a'' None init_world = (Inr secret, w')"
    by (simp add: webhooks_SetEndpoint_def cipher_Encrypt_def pg_UpsertEndpoint_def gen_UpsertWebhookEndpoint_def Let_def
        bnd_def ret_def draw_eq db_exec_quiet)
  then obtain secret w' where run: "webhooks_SetEndpoint ?s ''o'' ''http://a'' None init_world = (Inr secret, w')" by blast
  from SetEndpoint_roundtrip [OF demo_aead run] run show ?thesis by blast
qed

text \<open>
  A malformed endpoint URL stops all deliveries. The URL is stored unchecked;
  the dispatcher ignores the error of building a request for it and uses the missing
  request, which crashes the process. The delivery is still due afterwards, so the next
  tick crashes again, before any later delivery is reached.
\<close>

theorem bad_url_crashes_dispatcher:
  "\<exists>w'. webhooks_tick (webhooks_service demo_libs http (\<lambda>u. u \<noteq> ''http://[''))
       (hook_world ''http://['') = (Inl PanicNilDeref, w') \<and> w_db w' = w_db (hook_world ''http://['') \<and>
     fst (webhooks_tick (webhooks_service demo_libs http (\<lambda>u. u \<noteq> ''http://['')) w') = Inl PanicNilDeref"
  by (simp add: tick_eval hook_world_def demo_libs_def)

text \<open>The longest delay of the table is never used: the fifth failure is final.\<close>

lemma backoff_last_unused:
  assumes "dd_Attempts x + 1 < maxAttempts" and "0 \<le> dd_Attempts x"
  shows "backoff ! nat (min (dd_Attempts x) (int (length backoff) - 1)) \<in> {2 * second, 5 * second, 15 * second, 60 * second}"
proof -
  have "dd_Attempts x \<in> {0, 1, 2, 3}" using assms by (auto simp: maxAttempts_def)
  then show ?thesis by (auto simp: backoff_def numeral_eq_Suc)
qed

end
