(* ===== verification/Yaver_ApiKeys.thy ===== *)
theory Yaver_ApiKeys
  imports Yaver_Calls
begin

text \<open>
  Merchant API keys: the key format and its verification (\<open>pkg/apikey\<close>), the key table
  (\<open>gen/ingest.sql.go\<close>, \<open>APIKeyRepo\<close> of \<open>postgres/ingest.go\<close>) and the service that mints
  and authenticates keys (\<open>service/apikeys\<close>). SHA-256 and base64 are library functions.
\<close>

section \<open>The key format (pkg/apikey)\<close>

definition SecretScheme :: string where
  "SecretScheme = ''yvr_sk_''"

definition PublishableScheme :: string where
  "PublishableScheme = ''yvr_pk_''"

definition prefixLen :: nat where
  "prefixLen = length SecretScheme + 8"

definition randLen :: nat where
  "randLen = 24"

text \<open>Slicing the prefix off a shorter string would panic.\<close>

definition apikey_gen :: "libs \<Rightarrow> string \<Rightarrow> (string \<times> string \<times> string) wop" where
  "apikey_gen L scheme = bnd (draw (rand_bytes randLen)) (\<lambda>b.
     let full = scheme @ lib_base64url L b
     in if length full < prefixLen then fail (ErrOther ''panic: slice bounds out of range'')
        else ret (full, take prefixLen full, lib_sha256 L full))"

definition apikey_Generate :: "libs \<Rightarrow> (string \<times> string \<times> string) wop" where
  "apikey_Generate L = apikey_gen L SecretScheme"

definition apikey_GeneratePublishable :: "libs \<Rightarrow> (string \<times> string \<times> string) wop" where
  "apikey_GeneratePublishable L = apikey_gen L PublishableScheme"

definition apikey_Prefix :: "string \<Rightarrow> string option" where
  "apikey_Prefix full = (if \<not> has_prefix full ''yvr_'' \<or> length full < prefixLen then None
     else Some (take prefixLen full))"

definition apikey_Verify :: "libs \<Rightarrow> string \<Rightarrow> string \<Rightarrow> bool" where
  "apikey_Verify L full storedHash \<longleftrightarrow> lib_sha256 L full = storedHash"

section \<open>Queries (gen/ingest.sql.go) and repository (postgres/ingest.go)\<close>

definition gen_CreateAPIKey :: "ApiKeyRow \<Rightarrow> unit wop" where
  "gen_CreateAPIKey row = db_exec (\<lambda>t d.
     if List.find (\<lambda>r. ak_id r = ak_id row \<or> ak_prefix r = ak_prefix row) (api_keys d) \<noteq> None then Inl ErrUniqueViolation
     else Inr ((), d\<lparr>api_keys := api_keys d @ [row\<lparr>ak_created_at := t, ak_last_used_at := None\<rparr>]\<rparr>))"

definition gen_GetAPIKeyByPrefix :: "string \<Rightarrow> ApiKeyRow wop" where
  "gen_GetAPIKeyByPrefix prefix = db_read (\<lambda>t d.
     case List.find (\<lambda>r. ak_prefix r = prefix) (api_keys d) of None \<Rightarrow> Inl ErrNoRows | Some r \<Rightarrow> Inr r)"

definition gen_ListAPIKeysByOrg :: "string \<Rightarrow> ApiKeyRow list wop" where
  "gen_ListAPIKeysByOrg org = db_read (\<lambda>t d.
     Inr (order_by_desc ak_created_at (filter (\<lambda>r. ak_org_id r = org) (api_keys d))))"

definition gen_TouchAPIKey :: "string \<Rightarrow> unit wop" where
  "gen_TouchAPIKey kid = db_exec (\<lambda>t d. Inr ((), d\<lparr>api_keys :=
     upd_where (\<lambda>r. ak_id r = kid) (\<lambda>r. r\<lparr>ak_last_used_at := Some t\<rparr>) (api_keys d)\<rparr>))"

definition pg_key_Create :: "string \<Rightarrow> string \<Rightarrow> string \<Rightarrow> string \<Rightarrow> string \<Rightarrow> string \<Rightarrow> unit wop" where
  "pg_key_Create kid org prefix hash name kind = gen_CreateAPIKey \<lparr>ak_id = kid, ak_org_id = org, ak_prefix = prefix,
     ak_secret_hash = hash, ak_name = strPtr name, ak_created_at = 0, ak_last_used_at = None, ak_kind = kind\<rparr>"

definition pg_key_ByPrefix :: "string \<Rightarrow> (string \<times> string \<times> string \<times> string) option wop" where
  "pg_key_ByPrefix prefix = attempt (gen_GetAPIKeyByPrefix prefix) (\<lambda>q. case q of
       Inl e \<Rightarrow> if e = ErrNoRows then ret None else fail e
     | Inr row \<Rightarrow> ret (Some (ak_id row, ak_org_id row, ak_kind row, ak_secret_hash row)))"

definition pg_key_Touch :: "string \<Rightarrow> unit wop" where
  "pg_key_Touch kid = gen_TouchAPIKey kid"

definition pg_key_ListByOrg :: "string \<Rightarrow> APIKeyInfo list wop" where
  "pg_key_ListByOrg org = bnd (gen_ListAPIKeysByOrg org) (\<lambda>rows.
     ret (map (\<lambda>r. \<lparr>ki_Prefix = ak_prefix r, ki_Name = deref (ak_name r), ki_Kind = ak_kind r,
       ki_CreatedAt = ak_created_at r, ki_LastUsedAt = ak_last_used_at r\<rparr>) rows))"

definition pg_apikeys :: APIKeyRepo where
  "pg_apikeys = \<lparr>akr_Create = pg_key_Create, akr_ByPrefix = pg_key_ByPrefix, akr_Touch = pg_key_Touch,
     akr_ListByOrg = pg_key_ListByOrg\<rparr>"

section \<open>The service (service/apikeys)\<close>

definition apikeys_Mint :: "libs \<Rightarrow> APIKeyRepo \<Rightarrow> OrgID \<Rightarrow> string \<Rightarrow> string wop" where
  "apikeys_Mint L repo org name = bnd (apikey_Generate L) (\<lambda>(full, prefix, hash).
     bnd (draw (id_New ''key'')) (\<lambda>kid.
     bnd (akr_Create repo kid org prefix hash name ''secret'') (\<lambda>_. ret full)))"

definition apikeys_MintPublishable :: "libs \<Rightarrow> APIKeyRepo \<Rightarrow> OrgID \<Rightarrow> string \<Rightarrow> string wop" where
  "apikeys_MintPublishable L repo org name = bnd (apikey_GeneratePublishable L) (\<lambda>(full, prefix, hash).
     bnd (draw (id_New ''key'')) (\<lambda>kid.
     bnd (akr_Create repo kid org prefix hash name ''publishable'') (\<lambda>_. ret full)))"

definition apikeys_List :: "APIKeyRepo \<Rightarrow> OrgID \<Rightarrow> APIKeyInfo list wop" where
  "apikeys_List repo org = akr_ListByOrg repo org"

definition apikeys_Authenticate :: "libs \<Rightarrow> APIKeyRepo \<Rightarrow> string \<Rightarrow> (OrgID \<times> string) option wop" where
  "apikeys_Authenticate L repo presented = (case apikey_Prefix presented of
       None \<Rightarrow> ret None
     | Some prefix \<Rightarrow> bnd (akr_ByPrefix repo prefix) (\<lambda>found. case found of
           None \<Rightarrow> ret None
         | Some (keyID, org, k, hash) \<Rightarrow>
             if \<not> apikey_Verify L presented hash then ret None
             else bnd (ignore (akr_Touch repo keyID)) (\<lambda>_. ret (Some (org, k)))))"

section \<open>Facts\<close>

lemma pg_apikeys_simps [simp]:
  "akr_Create pg_apikeys = pg_key_Create" "akr_ByPrefix pg_apikeys = pg_key_ByPrefix"
  "akr_Touch pg_apikeys = pg_key_Touch" "akr_ListByOrg pg_apikeys = pg_key_ListByOrg"
  by (simp_all add: pg_apikeys_def)

text \<open>The part of a key row that decides an authentication.\<close>

definition key_entry :: "ApiKeyRow \<Rightarrow> string \<times> string \<times> string \<times> string \<times> string" where
  "key_entry r = (ak_id r, ak_prefix r, ak_secret_hash r, ak_org_id r, ak_kind r)"

definition key_view :: "database \<Rightarrow> (string \<times> string \<times> string \<times> string \<times> string) list" where
  "key_view d = map key_entry (api_keys d)"

definition keys_unique :: "database \<Rightarrow> bool" where
  "keys_unique d \<longleftrightarrow> distinct (map ak_prefix (api_keys d))"

lemma wp_ByPrefix:
  "wp (pg_key_ByPrefix prefix) (\<lambda>r w'. w_db w' = w_db w \<and> quiet w w' \<and> (case r of
      Inl e \<Rightarrow> e = ErrConn
    | Inr None \<Rightarrow> List.find (\<lambda>r. ak_prefix r = prefix) (api_keys (w_db w)) = None
    | Inr (Some (kid, org, k, h)) \<Rightarrow> (\<exists>row. List.find (\<lambda>r. ak_prefix r = prefix) (api_keys (w_db w)) = Some row \<and>
        kid = ak_id row \<and> org = ak_org_id row \<and> k = ak_kind row \<and> h = ak_secret_hash row))) w"
  unfolding pg_key_ByPrefix_def gen_GetAPIKeyByPrefix_def
  by (rule wp_attempt [where P = "\<lambda>r w'. w_db w' = w_db w \<and> quiet w w' \<and> (case r of
        Inl e \<Rightarrow> e = ErrConn \<or> e = ErrNoRows \<and> List.find (\<lambda>r. ak_prefix r = prefix) (api_keys (w_db w)) = None
      | Inr row \<Rightarrow> List.find (\<lambda>r. ak_prefix r = prefix) (api_keys (w_db w)) = Some row)"], rule wp_db_read)
     (auto simp: quiet_def env_frame_def split: option.splits sum.splits)

lemma wp_Touch:
  "wp (ignore (pg_key_Touch kid)) (\<lambda>r w'. r = Inr () \<and> quiet w w' \<and> key_view (w_db w') = key_view (w_db w)) w"
proof -
  have "map key_entry (upd_where (\<lambda>r. ak_id r = kid) (\<lambda>r. r\<lparr>ak_last_used_at := t\<rparr>) rs) = map key_entry rs" for t rs
    by (induction rs) (auto simp: table_simps key_entry_def)
  then have "wp (pg_key_Touch kid) (\<lambda>r w'. quiet w w' \<and> key_view (w_db w') = key_view (w_db w)) w"
    unfolding pg_key_Touch_def gen_TouchAPIKey_def
    by (intro wp_db_exec) (auto simp: quiet_def env_frame_def key_view_def)
  then show ?thesis by (rule wp_ignore) simp
qed

lemma wp_Authenticate:
  "wp (apikeys_Authenticate L pg_apikeys presented) (\<lambda>r w'. quiet w w' \<and> key_view (w_db w') = key_view (w_db w) \<and> (case r of
      Inl e \<Rightarrow> e = ErrConn
    | Inr None \<Rightarrow> (\<forall>prefix row. apikey_Prefix presented = Some prefix \<longrightarrow>
        List.find (\<lambda>r. ak_prefix r = prefix) (api_keys (w_db w)) = Some row \<longrightarrow> ak_secret_hash row \<noteq> lib_sha256 L presented)
    | Inr (Some (org, k)) \<Rightarrow> (\<exists>row \<in> set (api_keys (w_db w)). apikey_Prefix presented = Some (ak_prefix row) \<and>
        ak_secret_hash row = lib_sha256 L presented \<and> org = ak_org_id row \<and> k = ak_kind row))) w"
proof (cases "apikey_Prefix presented")
  case None
  then show ?thesis by (simp add: apikeys_Authenticate_def quiet_def)
next
  case (Some prefix)
  show ?thesis unfolding apikeys_Authenticate_def Some option.case pg_apikeys_simps
  proof (rule wp_bnd [OF wp_ByPrefix], goal_cases)
    case (1 e w1)
    then show ?case by simp
  next
    case (2 found w1)
    show ?case
    proof (cases found)
      case None
      with 2 show ?thesis by (auto dest: find_SomeD)
    next
      case (Some x)
      obtain kid org k h where x: "x = (kid, org, k, h)" by (cases x)
      from 2 Some x obtain row where row: "List.find (\<lambda>r. ak_prefix r = prefix) (api_keys (w_db w)) = Some row"
        "kid = ak_id row" "org = ak_org_id row" "k = ak_kind row" "h = ak_secret_hash row" and w1: "w_db w1 = w_db w" "quiet w w1" by auto
      note fr = find_SomeD [OF row(1)]
      show ?thesis
      proof (cases "apikey_Verify L presented h")
        case False
        then have t: "(\<not> apikey_Verify L presented h) = True" by simp
        show ?thesis unfolding Some x option.case prod.case t if_True wp_ret
          using row(1,5) w1 False \<open>apikey_Prefix presented = Some prefix\<close> by (simp add: apikey_Verify_def)
      next
        case True
        have f: "(\<not> apikey_Verify L presented h) = False" using True by simp
        show ?thesis unfolding Some x option.case prod.case f if_False
          by (rule wp_bnd [OF wp_Touch]) (use row w1 fr True in \<open>auto simp: quiet_def apikey_Verify_def\<close>)
      qed
    qed
  qed
qed

text \<open>The two mints are one operation, with a scheme and a kind.\<close>

definition mint :: "libs \<Rightarrow> bool \<Rightarrow> OrgID \<Rightarrow> string \<Rightarrow> string wop" where
  "mint L publishable org name = (if publishable then apikeys_MintPublishable L pg_apikeys org name
     else apikeys_Mint L pg_apikeys org name)"

definition kind_of :: "bool \<Rightarrow> string" where
  "kind_of publishable = (if publishable then ''publishable'' else ''secret'')"

lemma wp_gen_CreateAPIKey:
  "wp (gen_CreateAPIKey row) (\<lambda>r w'. quiet w w' \<and> (case r of Inl e \<Rightarrow> w_db w' = w_db w
    | Inr _ \<Rightarrow> key_view (w_db w') = key_view (w_db w) @ [key_entry row] \<and>
        (keys_unique (w_db w) \<longrightarrow> keys_unique (w_db w')))) w"
  unfolding gen_CreateAPIKey_def
  by (rule wp_db_exec)
     (auto simp: quiet_def env_frame_def key_view_def key_entry_def keys_unique_def find_None_iff)

lemma wp_apikey_gen:
  assumes "scheme \<in> {SecretScheme, PublishableScheme}"
  shows "wp (apikey_gen L scheme) (\<lambda>r w'. w_db w' = w_db w \<and> quiet w w' \<and> (\<forall>full prefix hash. r = Inr (full, prefix, hash) \<longrightarrow>
     apikey_Prefix full = Some prefix \<and> hash = lib_sha256 L full)) w"
  using assms
  by (auto simp: apikey_gen_def Let_def rand_bytes_def quiet_def apikey_Prefix_def has_prefix_def SecretScheme_def PublishableScheme_def)

lemma wp_mint:
  "wp (mint L pub org name) (\<lambda>r w'. quiet w w' \<and> (case r of Inl e \<Rightarrow> w_db w' = w_db w
    | Inr key \<Rightarrow> (\<exists>kid prefix. apikey_Prefix key = Some prefix \<and>
        key_view (w_db w') = key_view (w_db w) @ [(kid, prefix, lib_sha256 L key, org, kind_of pub)]) \<and>
        (keys_unique (w_db w) \<longrightarrow> keys_unique (w_db w')))) w"
proof -
  define scheme where "scheme = (if pub then PublishableScheme else SecretScheme)"
  have m: "mint L pub org name = bnd (apikey_gen L scheme) (\<lambda>(full, prefix, hash). bnd (draw (id_New ''key'')) (\<lambda>kid.
      bnd (pg_key_Create kid org prefix hash name (kind_of pub)) (\<lambda>_. ret full)))"
    by (simp add: mint_def apikeys_Mint_def apikeys_MintPublishable_def apikey_Generate_def apikey_GeneratePublishable_def
        kind_of_def scheme_def)
  have sch: "scheme \<in> {SecretScheme, PublishableScheme}" by (simp add: scheme_def)
  show ?thesis unfolding m
  proof (rule wp_bnd [OF wp_apikey_gen [OF sch]], goal_cases)
    case (1 e w1)
    then show ?case by simp
  next
    case (2 x w1)
    obtain full prefix hash where x: "x = (full, prefix, hash)" by (cases x)
    show ?case unfolding x prod.case wp_bnd_simps pg_key_Create_def
      by (rule wp_bnd [OF wp_gen_CreateAPIKey]) (use 2 x in \<open>auto simp: quiet_def key_entry_def key_view_def keys_unique_def\<close>)
  qed
qed

text \<open>The keys handed out by a sequence of mints, with the org and kind each was for.\<close>

fun run_mints :: "libs \<Rightarrow> (bool \<times> OrgID \<times> string) list \<Rightarrow> world \<Rightarrow> (string \<times> OrgID \<times> string) list \<times> world" where
  "run_mints L [] w = ([], w)"
| "run_mints L ((pub, org, name) # ops) w =
     (case mint L pub org name w of
        (Inl _, w1) \<Rightarrow> run_mints L ops w1
      | (Inr key, w1) \<Rightarrow> (case run_mints L ops w1 of (issued, w2) \<Rightarrow> ((key, org, kind_of pub) # issued, w2)))"

lemma run_mints_view:
  assumes "run_mints L ops w = (issued, w')"
  shows "map snd (key_view (w_db w')) = map snd (key_view (w_db w)) @
      map (\<lambda>(key, org, k). (the (apikey_Prefix key), lib_sha256 L key, org, k)) issued \<and>
    list_all (\<lambda>(key, org, k). apikey_Prefix key \<noteq> None) issued \<and> (keys_unique (w_db w) \<longrightarrow> keys_unique (w_db w'))"
  using assms
proof (induction L ops w arbitrary: issued w' rule: run_mints.induct)
  case (2 L pub org name ops w)
  obtain r w1 where m: "mint L pub org name w = (r, w1)" by fastforce
  note spec = wpD [OF wp_mint m]
  show ?case
  proof (cases r)
    case (Inl e)
    with 2(1) [OF m [symmetric] Inl, of issued w'] 2(3) m spec show ?thesis by simp
  next
    case (Inr key)
    obtain iss w2 where rest: "run_mints L ops w1 = (iss, w2)" by fastforce
    with 2(3) m Inr have "issued = (key, org, kind_of pub) # iss" "w' = w2" by simp_all
    with 2(2) [OF m [symmetric] Inr, of iss w2] rest spec Inr show ?thesis by auto
  qed
qed simp

lemma minted_accepted:
  assumes "mint L pub org name w = (Inr key, w1)"
    and "set (key_view (w_db w1)) \<subseteq> set (key_view (w_db w2))" and "keys_unique (w_db w2)"
    and "apikeys_Authenticate L pg_apikeys key w2 = (r, w3)"
  shows "r \<in> {Inr (Some (org, kind_of pub)), Inl ErrConn}"
proof -
  from wpD [OF wp_mint assms(1)] obtain kid prefix where p: "apikey_Prefix key = Some prefix"
    and "key_view (w_db w1) = key_view (w_db w) @ [(kid, prefix, lib_sha256 L key, org, kind_of pub)]" by auto
  then have "(kid, prefix, lib_sha256 L key, org, kind_of pub) \<in> set (key_view (w_db w1))" by simp
  with assms(2) obtain row where row: "row \<in> set (api_keys (w_db w2))"
    "key_entry row = (kid, prefix, lib_sha256 L key, org, kind_of pub)" by (auto simp: key_view_def)
  have "inj_on ak_prefix (set (api_keys (w_db w2)))" using assms(3) by (simp add: keys_unique_def distinct_map)
  from inj_onD [OF this] have uniq: "q = row" if "q \<in> set (api_keys (w_db w2))" "ak_prefix q = prefix" for q
    using row that by (simp add: key_entry_def)
  have fr: "List.find (\<lambda>r. ak_prefix r = prefix) (api_keys (w_db w2)) = Some row"
  proof (cases "List.find (\<lambda>r. ak_prefix r = prefix) (api_keys (w_db w2))")
    case None
    with row show ?thesis by (auto simp: find_None_iff key_entry_def)
  next
    case (Some q)
    with uniq [of q] find_SomeD [OF Some] show ?thesis by simp
  qed
  have rw: "ak_secret_hash row = lib_sha256 L key" "ak_org_id row = org" "ak_kind row = kind_of pub"
    using row(2) by (simp_all add: key_entry_def)
  note auth = wpD [OF wp_Authenticate assms(4)]
  show ?thesis
  proof (cases r)
    case (Inl e)
    with auth show ?thesis by simp
  next
    case (Inr opt)
    show ?thesis
    proof (cases opt)
      case None
      with auth Inr p fr rw(1) show ?thesis by simp
    next
      case (Some x)
      obtain o' k where x: "x = (o', k)" by (cases x)
      with auth Inr Some obtain row' where "row' \<in> set (api_keys (w_db w2))" "apikey_Prefix key = Some (ak_prefix row')"
        "o' = ak_org_id row'" "k = ak_kind row'" by auto
      moreover then have "row' = row" using p by (intro uniq) simp_all
      ultimately show ?thesis using Inr Some x rw by simp
    qed
  qed
qed

lemma Authenticate_calm:
  assumes "w_sched w = []"
  shows "fst (apikeys_Authenticate L pg_apikeys presented w) \<noteq> Inl e"
  using assms
  by (auto simp: apikeys_Authenticate_def pg_key_ByPrefix_def gen_GetAPIKeyByPrefix_def bnd_def attempt_def
      ret_def fail_def ignore_def db_read_quiet split: option.splits prod.splits)

lemma kept_calm_mint: "mrel kept_calm (mint L pub org name)"
  unfolding mint_def apikeys_Mint_def apikeys_MintPublishable_def apikey_Generate_def apikey_GeneratePublishable_def
    apikey_gen_def Let_def pg_apikeys_simps pg_key_Create_def gen_CreateAPIKey_def
  by (intro mrel_intros) auto

section \<open>Properties\<close>

text \<open>
  Minting and authenticating are inverse. A key returned by either mint is
  accepted later, as long as its row is still there and prefixes are unique, for the org it
  was minted for and with its kind; a secret key never passes as a publishable one or vice
  versa. Only a lost connection keeps it from being accepted.
\<close>

theorem Mint_Authenticate:
  assumes "mint L pub org name w = (Inr key, w1)"
    and "set (key_view (w_db w1)) \<subseteq> set (key_view (w_db w2))" and "keys_unique (w_db w2)"
    and "apikeys_Authenticate L pg_apikeys key w2 = (r, w3)"
  shows "r \<in> {Inr (Some (org, kind_of pub)), Inl ErrConn}"
  using assms by (rule minted_accepted)


text \<open>A library whose hash is the identity and whose encoding is hexadecimal serves as example.\<close>

lemma demo_mint:
  "\<exists>key w1. mint demo_libs pub ''o'' ''n'' init_world = (Inr key, w1)"
  by (simp add: mint_def apikeys_Mint_def apikeys_MintPublishable_def apikey_Generate_def apikey_GeneratePublishable_def
      apikey_gen_def Let_def bnd_def draw_eq ret_def fail_def pg_key_Create_def gen_CreateAPIKey_def rand_bytes_def randLen_def
      prefixLen_def SecretScheme_def PublishableScheme_def demo_libs_def hex_encode_def db_exec_quiet init_world_def
      id_New_def upt_rec)

theorem Mint_Authenticate_witness:
  "\<exists>key w1 r w3. mint demo_libs False ''o'' ''n'' init_world = (Inr key, w1) \<and>
     apikeys_Authenticate demo_libs pg_apikeys key w1 = (r, w3) \<and> r \<in> {Inr (Some (''o'', ''secret'')), Inl ErrConn}"
proof -
  from demo_mint obtain key w1 where m: "mint demo_libs False ''o'' ''n'' init_world = (Inr key, w1)" by blast
  obtain r w3 where a: "apikeys_Authenticate demo_libs pg_apikeys key w1 = (r, w3)" by fastforce
  have "keys_unique (w_db w1)" using wpD [OF wp_mint m] by (simp add: keys_unique_def)
  from Mint_Authenticate [OF m _ this a] m a show ?thesis by (auto simp: kind_of_def)
qed


end
