(* ===== verification/Yaver_Auth.thy ===== *)
theory Yaver_Auth
  imports Yaver_Orgs
begin

text \<open>
  Identity: one-time codes, passwords and server-side sessions. The queries
  (\<open>gen/auth.sql.go\<close>), the repository (\<open>postgres/auth.go\<close>), the service (\<open>service/auth\<close>)
  and the SMS sender used in development. HMAC, SHA-256, bcrypt, base64, the UUID parser
  and the Unicode case mappings of Go and of PostgreSQL are library functions.
\<close>

section \<open>Queries (gen/auth.sql.go)\<close>

text \<open>The ids are drawn by the database (\<open>gen_random_uuid()\<close>).\<close>

definition gen_UpsertUserByPhone :: "string \<Rightarrow> UserRow wop" where
  "gen_UpsertUserByPhone phone = bnd (draw new_uuid) (\<lambda>uid. db_exec (\<lambda>t d.
     case List.find (\<lambda>r. ur_phone r = Some phone) (users d) of
       Some r \<Rightarrow> Inr (r, d)
     | None \<Rightarrow>
         if List.find (\<lambda>r. ur_id r = uid) (users d) \<noteq> None then Inl ErrUniqueViolation
         else let r = \<lparr>ur_id = uid, ur_phone = Some phone, ur_email = None, ur_name = None, ur_created_at = t,
                ur_password_hash = None\<rparr>
              in Inr (r, d\<lparr>users := users d @ [r]\<rparr>)))"

definition gen_InsertOTP :: "string \<Rightarrow> string \<Rightarrow> time \<Rightarrow> unit wop" where
  "gen_InsertOTP phone hash exp = bnd (draw new_uuid) (\<lambda>oid. db_exec (\<lambda>t d.
     if List.find (\<lambda>r. ot_id r = oid) (otp_codes d) \<noteq> None then Inl ErrUniqueViolation
     else Inr ((), d\<lparr>otp_codes := otp_codes d @ [\<lparr>ot_id = oid, ot_phone = phone, ot_code_hash = hash, ot_attempts = 0,
       ot_expires_at = exp, ot_consumed_at = None, ot_created_at = t\<rparr>]\<rparr>)))"

definition live :: "string \<Rightarrow> time \<Rightarrow> OtpRow \<Rightarrow> bool" where
  "live phone t r \<longleftrightarrow> ot_phone r = phone \<and> ot_consumed_at r = None \<and> ot_expires_at r > t"

definition gen_LatestLiveOTP :: "string \<Rightarrow> OtpRow wop" where
  "gen_LatestLiveOTP phone = db_read (\<lambda>t d.
     case order_by_desc ot_created_at (filter (live phone t) (otp_codes d)) of [] \<Rightarrow> Inl ErrNoRows | r # _ \<Rightarrow> Inr r)"

definition gen_IncrementOTPAttempts :: "string \<Rightarrow> unit wop" where
  "gen_IncrementOTPAttempts oid = db_exec (\<lambda>t d.
     if list_all (\<lambda>r. ot_id r = oid \<longrightarrow> in_int32 (ot_attempts r + 1)) (otp_codes d)
     then Inr ((), d\<lparr>otp_codes := upd_where (\<lambda>r. ot_id r = oid) (\<lambda>r. r\<lparr>ot_attempts := ot_attempts r + 1\<rparr>) (otp_codes d)\<rparr>)
     else Inl ErrOutOfRange)"

definition gen_ConsumeOTP :: "string \<Rightarrow> unit wop" where
  "gen_ConsumeOTP oid = db_exec (\<lambda>t d. Inr ((), d\<lparr>otp_codes :=
     upd_where (\<lambda>r. ot_id r = oid) (\<lambda>r. r\<lparr>ot_consumed_at := Some t\<rparr>) (otp_codes d)\<rparr>))"

definition gen_CreateSession :: "string \<Rightarrow> string \<Rightarrow> time \<Rightarrow> SessionRow wop" where
  "gen_CreateSession hash uid exp = bnd (draw new_uuid) (\<lambda>sid. db_exec (\<lambda>t d.
     if List.find (\<lambda>r. se_id r = sid \<or> se_token_hash r = hash) (sessions d) \<noteq> None then Inl ErrUniqueViolation
     else if List.find (\<lambda>r. ur_id r = uid) (users d) = None then Inl fk_violation
     else let r = \<lparr>se_id = sid, se_token_hash = hash, se_user_id = uid, se_expires_at = exp, se_created_at = t\<rparr>
          in Inr (r, d\<lparr>sessions := sessions d @ [r]\<rparr>)))"

definition gen_DeleteSession :: "string \<Rightarrow> unit wop" where
  "gen_DeleteSession hash = db_exec (\<lambda>t d.
     Inr ((), d\<lparr>sessions := filter (\<lambda>r. se_token_hash r \<noteq> hash) (sessions d)\<rparr>))"

section \<open>The repository (postgres/auth.go)\<close>

text \<open>\<open>low\<close> stands for PostgreSQL's \<open>lower\<close>, over which the e-mail index is unique.\<close>

definition email_is :: "(string \<Rightarrow> string) \<Rightarrow> string \<Rightarrow> UserRow \<Rightarrow> bool" where
  "email_is low email r = (case ur_email r of None \<Rightarrow> False | Some e \<Rightarrow> low e = low email)"

definition user_of :: "UserRow \<Rightarrow> User" where
  "user_of r = \<lparr>us_ID = ur_id r, us_Phone = deref (ur_phone r), us_Email = deref (ur_email r), us_Name = deref (ur_name r)\<rparr>"

definition pg_CreateUserWithPassword :: "(string \<Rightarrow> string) \<Rightarrow> string \<Rightarrow> string \<Rightarrow> string \<Rightarrow> User wop" where
  "pg_CreateUserWithPassword low email name hash = bnd (draw new_uuid) (\<lambda>uid.
     attempt (db_exec (\<lambda>t d.
       if List.find (\<lambda>r. ur_id r = uid \<or> email_is low email r) (users d) \<noteq> None then Inl ErrUniqueViolation
       else Inr ((), d\<lparr>users := users d @ [\<lparr>ur_id = uid, ur_phone = None, ur_email = Some email, ur_name = Some name,
              ur_created_at = t, ur_password_hash = Some hash\<rparr>]\<rparr>))) (\<lambda>q. case q of
         Inl e \<Rightarrow> if e = ErrUniqueViolation then fail ErrEmailTaken else fail e
       | Inr _ \<Rightarrow> ret \<lparr>us_ID = uid, us_Phone = [], us_Email = email, us_Name = name\<rparr>))"

definition pg_UserByEmail :: "(string \<Rightarrow> string) \<Rightarrow> string \<Rightarrow> (User \<times> string) option wop" where
  "pg_UserByEmail low email = attempt (db_read (\<lambda>t d.
       case List.find (email_is low email) (users d) of None \<Rightarrow> Inl ErrNoRows | Some r \<Rightarrow> Inr r)) (\<lambda>q. case q of
       Inl e \<Rightarrow> if e = ErrNoRows then ret None else fail e
     | Inr r \<Rightarrow> ret (Some (user_of r, deref (ur_password_hash r))))"

definition pg_UpsertUserByPhone :: "string \<Rightarrow> User wop" where
  "pg_UpsertUserByPhone phone = bnd (gen_UpsertUserByPhone phone) (\<lambda>r. ret (user_of r))"

definition pg_InsertOTP :: "string \<Rightarrow> string \<Rightarrow> time \<Rightarrow> unit wop" where
  "pg_InsertOTP phone hash exp = gen_InsertOTP phone hash exp"

definition pg_LatestLiveOTP :: "string \<Rightarrow> OTP option wop" where
  "pg_LatestLiveOTP phone = attempt (gen_LatestLiveOTP phone) (\<lambda>q. case q of
       Inl e \<Rightarrow> if e = ErrNoRows then ret None else fail e
     | Inr o' \<Rightarrow> ret (Some \<lparr>op_ID = ot_id o', op_CodeHash = ot_code_hash o', op_Attempts = ot_attempts o'\<rparr>))"

definition pg_IncrementOTPAttempts :: "libs \<Rightarrow> string \<Rightarrow> unit wop" where
  "pg_IncrementOTPAttempts L otpID = bnd (uuid_Parse L otpID) gen_IncrementOTPAttempts"

definition pg_ConsumeOTP :: "libs \<Rightarrow> string \<Rightarrow> unit wop" where
  "pg_ConsumeOTP L otpID = bnd (uuid_Parse L otpID) gen_ConsumeOTP"

definition pg_CreateSession :: "libs \<Rightarrow> string \<Rightarrow> string \<Rightarrow> time \<Rightarrow> unit wop" where
  "pg_CreateSession L hash userID exp = bnd (uuid_Parse L userID) (\<lambda>uid.
     bnd (gen_CreateSession hash uid exp) (\<lambda>_. ret ()))"

definition pg_SessionUser :: "string \<Rightarrow> SessionUser option wop" where
  "pg_SessionUser hash = attempt (db_read (\<lambda>t d.
       case List.find (\<lambda>s. se_token_hash s = hash \<and> se_expires_at s > t) (sessions d) of
         None \<Rightarrow> Inl ErrNoRows
       | Some s \<Rightarrow> (case List.find (\<lambda>u. ur_id u = se_user_id s) (users d) of
             None \<Rightarrow> Inl ErrNoRows
           | Some u \<Rightarrow> Inr (u, se_expires_at s)))) (\<lambda>q. case q of
       Inl e \<Rightarrow> if e = ErrNoRows then ret None else fail e
     | Inr (u, exp) \<Rightarrow> ret (Some \<lparr>su_UserID = ur_id u, su_Phone = deref (ur_phone u), su_Email = deref (ur_email u),
         su_Name = deref (ur_name u), su_ExpiresAt = exp\<rparr>))"

definition pg_DeleteSession :: "string \<Rightarrow> unit wop" where
  "pg_DeleteSession hash = gen_DeleteSession hash"

definition pg_auth :: "libs \<Rightarrow> (string \<Rightarrow> string) \<Rightarrow> AuthRepo" where
  "pg_auth L low = \<lparr>aur_UpsertUserByPhone = pg_UpsertUserByPhone, aur_InsertOTP = pg_InsertOTP,
     aur_LatestLiveOTP = pg_LatestLiveOTP, aur_IncrementOTPAttempts = pg_IncrementOTPAttempts L,
     aur_ConsumeOTP = pg_ConsumeOTP L, aur_CreateUserWithPassword = pg_CreateUserWithPassword low,
     aur_UserByEmail = pg_UserByEmail low, aur_CreateSession = pg_CreateSession L,
     aur_SessionUser = pg_SessionUser, aur_DeleteSession = pg_DeleteSession\<rparr>"

section \<open>The service (service/auth)\<close>

record AuthService =
  as_repo :: AuthRepo
  as_libs :: libs
  as_ToLower :: "string \<Rightarrow> string"
  as_secret :: string
  as_sms :: SMSSender
  as_devEcho :: bool

definition minPasswordLen :: nat where "minPasswordLen = 8"

definition otpTTL :: int where "otpTTL = 5 * 60 * second"

definition sessionTTL :: int where "sessionTTL = 30 * 24 * 3600 * second"

definition otp_maxAttempts :: int where "otp_maxAttempts = 5"

definition hashCode :: "AuthService \<Rightarrow> string \<Rightarrow> string" where
  "hashCode s code = lib_hmac (as_libs s) (as_secret s) code"

definition hashToken :: "libs \<Rightarrow> string \<Rightarrow> string" where
  "hashToken L token = lib_sha256 L token"

text \<open>\<open>%06d\<close> of a number below a million.\<close>

definition randomCode :: "world \<Rightarrow> string \<times> world" where
  "randomCode w = (case rand_below 1000000 w of (n, w') \<Rightarrow>
     (replicate (6 - length (digits_of n)) (CHR ''0'') @ digits_of n, w'))"

definition randomToken :: "libs \<Rightarrow> world \<Rightarrow> string \<times> world" where
  "randomToken L w = (case rand_bytes 32 w of (b, w') \<Rightarrow> (lib_base64url L b, w'))"

definition auth_RequestOTP :: "AuthService \<Rightarrow> string \<Rightarrow> string wop" where
  "auth_RequestOTP s phone = bnd (draw randomCode) (\<lambda>code.
     bnd (gets w_now) (\<lambda>now.
     bnd (aur_InsertOTP (as_repo s) phone (hashCode s code) (now + otpTTL)) (\<lambda>_.
     bnd (sms_Send (as_sms s) phone (''Your Yaver verification code is '' @ code)) (\<lambda>_.
     ret (if as_devEcho s then code else [])))))"

definition auth_issueSession :: "AuthService \<Rightarrow> User \<Rightarrow> (string \<times> SessionUser) wop" where
  "auth_issueSession s user = bnd (draw (randomToken (as_libs s))) (\<lambda>token.
     bnd (gets w_now) (\<lambda>now.
     let exp = now + sessionTTL in
     bnd (aur_CreateSession (as_repo s) (hashToken (as_libs s) token) (us_ID user) exp) (\<lambda>_.
     ret (token, \<lparr>su_UserID = us_ID user, su_Phone = us_Phone user, su_Email = us_Email user, su_Name = us_Name user,
       su_ExpiresAt = exp\<rparr>))))"

definition auth_VerifyOTP :: "AuthService \<Rightarrow> string \<Rightarrow> string \<Rightarrow> (string \<times> SessionUser) wop" where
  "auth_VerifyOTP s phone code = bnd (aur_LatestLiveOTP (as_repo s) phone) (\<lambda>found. case found of
       None \<Rightarrow> fail ErrInvalidOTP
     | Some otp \<Rightarrow>
         if op_Attempts otp \<ge> otp_maxAttempts then fail ErrInvalidOTP
         else if op_CodeHash otp \<noteq> hashCode s code
         then bnd (ignore (aur_IncrementOTPAttempts (as_repo s) (op_ID otp))) (\<lambda>_. fail ErrInvalidOTP)
         else bnd (aur_ConsumeOTP (as_repo s) (op_ID otp)) (\<lambda>_.
              bnd (aur_UpsertUserByPhone (as_repo s) phone) (\<lambda>user. auth_issueSession s user)))"

text \<open>\<open>bcrypt.GenerateFromPassword\<close> draws a 16-byte salt and refuses passwords over 72 bytes.\<close>

definition auth_Register :: "AuthService \<Rightarrow> string \<Rightarrow> string \<Rightarrow> string \<Rightarrow> (string \<times> SessionUser) wop" where
  "auth_Register s email password name =
     (let em = trim_space (as_ToLower s email)
      in if em = [] \<or> length password < minPasswordLen then fail ErrInvalidCredentials
         else bnd (draw (rand_bytes 16)) (\<lambda>salt.
              case lib_bcrypt (as_libs s) (map char_of salt) password of
                None \<Rightarrow> fail (ErrOther ''bcrypt: password length exceeds 72 bytes'')
              | Some hash \<Rightarrow>
                  bnd (aur_CreateUserWithPassword (as_repo s) em (trim_space name) hash) (\<lambda>user.
                  auth_issueSession s user)))"

definition auth_Login :: "AuthService \<Rightarrow> string \<Rightarrow> string \<Rightarrow> (string \<times> SessionUser) wop" where
  "auth_Login s email password =
     bnd (aur_UserByEmail (as_repo s) (trim_space (as_ToLower s email))) (\<lambda>found. case found of
       None \<Rightarrow> fail ErrInvalidCredentials
     | Some (user, hash) \<Rightarrow>
         if length hash = 0 \<or> \<not> lib_bcrypt_ok (as_libs s) hash password then fail ErrInvalidCredentials
         else auth_issueSession s user)"

definition auth_Resolve :: "AuthService \<Rightarrow> string \<Rightarrow> SessionUser option wop" where
  "auth_Resolve s token = (if token = [] then ret None else aur_SessionUser (as_repo s) (hashToken (as_libs s) token))"

definition auth_Logout :: "AuthService \<Rightarrow> string \<Rightarrow> unit wop" where
  "auth_Logout s token = (if token = [] then ret () else aur_DeleteSession (as_repo s) (hashToken (as_libs s) token))"

definition sms_logsender :: SMSSender where
  "sms_logsender = \<lparr>sms_Send = (\<lambda>to body. perform (emit_effect (SmsSent to body)))\<rparr>"

definition auth_service :: "libs \<Rightarrow> (string \<Rightarrow> string) \<Rightarrow> (string \<Rightarrow> string) \<Rightarrow> string \<Rightarrow> string \<Rightarrow> SMSSender \<Rightarrow> AuthService" where
  "auth_service L low lower secret env sms = \<lparr>as_repo = pg_auth L low, as_libs = L, as_ToLower = lower, as_secret = secret,
     as_sms = sms, as_devEcho = (env = ''dev'')\<rparr>"

section \<open>Facts about users and sessions\<close>

lemma auth_service_simps [simp]:
  "as_repo (auth_service L low lower secret env sms) = pg_auth L low" "as_libs (auth_service L low lower secret env sms) = L"
  "as_ToLower (auth_service L low lower secret env sms) = lower" "as_secret (auth_service L low lower secret env sms) = secret"
  "as_sms (auth_service L low lower secret env sms) = sms" "as_devEcho (auth_service L low lower secret env sms) = (env = ''dev'')"
  "aur_UpsertUserByPhone (pg_auth L low) = pg_UpsertUserByPhone" "aur_InsertOTP (pg_auth L low) = pg_InsertOTP"
  "aur_LatestLiveOTP (pg_auth L low) = pg_LatestLiveOTP" "aur_IncrementOTPAttempts (pg_auth L low) = pg_IncrementOTPAttempts L"
  "aur_ConsumeOTP (pg_auth L low) = pg_ConsumeOTP L"
  "aur_CreateUserWithPassword (pg_auth L low) = pg_CreateUserWithPassword low" "aur_UserByEmail (pg_auth L low) = pg_UserByEmail low"
  "aur_CreateSession (pg_auth L low) = pg_CreateSession L" "aur_SessionUser (pg_auth L low) = pg_SessionUser"
  "aur_DeleteSession (pg_auth L low) = pg_DeleteSession"
  by (simp_all add: auth_service_def pg_auth_def)

lemma hashCode_eq [simp]: "hashCode (auth_service L low lower secret env sms) code = lib_hmac L secret code"
  by (simp add: hashCode_def)

text \<open>What is relied on of the UUID library: the canonical text of a UUID parses to itself.\<close>

definition uuid_lib :: "libs \<Rightarrow> bool" where
  "uuid_lib L \<longleftrightarrow> (\<forall>bs. length bs = 16 \<longrightarrow> lib_uuid L (uuid_string bs) = Some (uuid_string bs))"

definition users_ok :: "libs \<Rightarrow> database \<Rightarrow> bool" where
  "users_ok L d \<longleftrightarrow> distinct (map ur_id (users d)) \<and> list_all (\<lambda>u. lib_uuid L (ur_id u) = Some (ur_id u)) (users d)"

definition sessions_ok :: "database \<Rightarrow> bool" where
  "sessions_ok d \<longleftrightarrow> distinct (map se_token_hash (sessions d))"

definition has_user :: "database \<Rightarrow> User \<Rightarrow> bool" where
  "has_user d user \<longleftrightarrow> user \<in> user_of ` set (users d)"

lemma new_uuid_parses: "uuid_lib L \<Longrightarrow> lib_uuid L (fst (new_uuid w)) = Some (fst (new_uuid w))"
  by (simp add: uuid_lib_def new_uuid_def rand_bytes_def)

lemma users_ok_snoc:
  "users_ok L (d\<lparr>users := users d @ [u]\<rparr>) \<longleftrightarrow>
     users_ok L d \<and> ur_id u \<notin> ur_id ` set (users d) \<and> lib_uuid L (ur_id u) = Some (ur_id u)"
  by (auto simp: users_ok_def)

text \<open>The effects on the tables that the steps of a sign-in may have.\<close>

definition accounts_grow :: "libs \<Rightarrow> database \<Rightarrow> database \<Rightarrow> bool" where
  "accounts_grow L d d' \<longleftrightarrow> (users_ok L d \<longrightarrow> users_ok L d') \<and> set (users d) \<subseteq> set (users d') \<and> sessions d' = sessions d"

lemma accounts_grow_refl: "accounts_grow L d d"
  by (simp add: accounts_grow_def)

lemma wp_UpsertUserByPhone:
  assumes "uuid_lib L"
  shows "wp (pg_UpsertUserByPhone phone) (\<lambda>r w'. quiet w w' \<and> accounts_grow L (w_db w) (w_db w') \<and>
     otp_codes (w_db w') = otp_codes (w_db w) \<and>
     (\<forall>u. r = Inr u \<longrightarrow> has_user (w_db w') u \<and> us_Phone u = phone)) w"
proof -
  have "wp (gen_UpsertUserByPhone phone) (\<lambda>r w'. quiet w w' \<and> accounts_grow L (w_db w) (w_db w') \<and>
     otp_codes (w_db w') = otp_codes (w_db w) \<and>
     (\<forall>u. r = Inr u \<longrightarrow> u \<in> set (users (w_db w')) \<and> ur_phone u = Some phone)) w"
    unfolding gen_UpsertUserByPhone_def wp_bnd_simps Let_def
    by (rule wp_db_exec)
       (auto simp: quiet_def env_frame_def accounts_grow_def users_ok_snoc new_uuid_parses [OF assms] find_None_iff
         split: option.splits dest: find_SomeD)
  then show ?thesis unfolding pg_UpsertUserByPhone_def
    by (rule wp_bnd) (auto simp: has_user_def user_of_def deref_def)
qed

lemma wp_CreateUser:
  assumes "uuid_lib L"
  shows "wp (pg_CreateUserWithPassword low email name hash) (\<lambda>r w'. quiet w w' \<and> accounts_grow L (w_db w) (w_db w') \<and>
     (\<forall>u. r = Inr u \<longrightarrow> has_user (w_db w') u \<and> (\<exists>row. List.find (email_is low email) (users (w_db w')) = Some row \<and>
        user_of row = u \<and> ur_password_hash row = Some hash))) w"
proof -
  let ?row = "\<lambda>t. \<lparr>ur_id = fst (new_uuid w), ur_phone = None, ur_email = Some email, ur_name = Some name,
    ur_created_at = t, ur_password_hash = Some hash\<rparr>"
  have "wp (db_exec (\<lambda>t d.
       if List.find (\<lambda>r. ur_id r = fst (new_uuid w) \<or> email_is low email r) (users d) \<noteq> None then Inl ErrUniqueViolation
       else Inr ((), d\<lparr>users := users d @ [?row t]\<rparr>))) (\<lambda>r w'. quiet w w' \<and> accounts_grow L (w_db w) (w_db w') \<and>
       (\<forall>u. r = Inr u \<longrightarrow> (\<exists>t. ?row t \<in> set (users (w_db w')) \<and>
          List.find (email_is low email) (users (w_db w')) = Some (?row t)))) (snd (new_uuid w))"
  proof (rule wp_db_exec, goal_cases)
    case (1 w')
    then show ?case by (simp add: quiet_def env_frame_def accounts_grow_refl)
  next
    case (2 w')
    have new: "List.find (email_is low email) (users d @ [?row t]) = Some (?row t)"
      if "List.find (\<lambda>r. ur_id r = fst (new_uuid w) \<or> email_is low email r) (users d) = None" for d t
    proof -
      have "List.find (email_is low email) (users d) = None" using that by (simp add: find_None_iff)
      then show ?thesis by (simp add: find_append email_is_def)
    qed
    from 2 show ?case
      using new [of "w_db w" "w_now w'"]
      by (auto simp: quiet_def env_frame_def accounts_grow_def users_ok_snoc new_uuid_parses [OF assms] find_None_iff)
  qed
  then show ?thesis unfolding pg_CreateUserWithPassword_def wp_bnd_simps
    by (rule wp_attempt)
       (auto simp: has_user_def user_of_def deref_def image_iff split: sum.splits intro!: bexI exI)
qed

lemma wp_UserByEmail:
  "wp (pg_UserByEmail low email) (\<lambda>r w'. w_db w' = w_db w \<and> quiet w w' \<and> (case r of
      Inl e \<Rightarrow> e = ErrConn
    | Inr None \<Rightarrow> List.find (email_is low email) (users (w_db w)) = None
    | Inr (Some (u, h)) \<Rightarrow> (\<exists>row. List.find (email_is low email) (users (w_db w)) = Some row \<and> u = user_of row
        \<and> h = deref (ur_password_hash row)))) w"
  unfolding pg_UserByEmail_def
  by (rule wp_attempt [where P = "\<lambda>r w'. w_db w' = w_db w \<and> quiet w w' \<and> (case r of
        Inl e \<Rightarrow> e = ErrConn \<or> e = ErrNoRows \<and> List.find (email_is low email) (users (w_db w)) = None
      | Inr row \<Rightarrow> List.find (email_is low email) (users (w_db w)) = Some row)"], rule wp_db_read)
     (auto simp: quiet_def env_frame_def split: option.splits sum.splits)

text \<open>A session for a token, and the account it belongs to, as a sign-in leaves them.\<close>

definition session_for :: "libs \<Rightarrow> string \<Rightarrow> SessionUser \<Rightarrow> database \<Rightarrow> bool" where
  "session_for L token su d \<longleftrightarrow> (\<exists>row \<in> set (sessions d). se_token_hash row = hashToken L token \<and>
       se_user_id row = su_UserID su \<and> se_expires_at row = su_ExpiresAt su) \<and>
     has_user d \<lparr>us_ID = su_UserID su, us_Phone = su_Phone su, us_Email = su_Email su, us_Name = su_Name su\<rparr>"

lemma randomToken_frame [simp]:
  "w_db (snd (randomToken L w)) = w_db w" "w_trace (snd (randomToken L w)) = w_trace w"
  "w_jobs (snd (randomToken L w)) = w_jobs w" "w_now (snd (randomToken L w)) = w_now w"
  by (simp_all add: randomToken_def rand_bytes_def)

lemma wp_CreateSession:
  "wp (pg_CreateSession L hash userID exp) (\<lambda>r w'. quiet w w' \<and> (case r of Inl e \<Rightarrow> w_db w' = w_db w
    | Inr _ \<Rightarrow> (\<exists>row uid. lib_uuid L userID = Some uid \<and> w_db w' = (w_db w)\<lparr>sessions := sessions (w_db w) @ [row]\<rparr> \<and>
        se_token_hash row = hash \<and> se_user_id row = uid \<and> se_expires_at row = exp \<and>
        hash \<notin> se_token_hash ` set (sessions (w_db w))))) w"
  unfolding pg_CreateSession_def
proof (rule wp_bnd [OF wp_uuid_Parse], goal_cases)
  case (1 e w')
  then show ?case by (simp add: quiet_def)
next
  case (2 uid w1)
  have "wp (gen_CreateSession hash uid exp) (\<lambda>r w'. quiet w w' \<and> (case r of Inl e \<Rightarrow> w_db w' = w_db w
    | Inr _ \<Rightarrow> (\<exists>row. w_db w' = (w_db w)\<lparr>sessions := sessions (w_db w) @ [row]\<rparr> \<and>
        se_token_hash row = hash \<and> se_user_id row = uid \<and> se_expires_at row = exp \<and>
        hash \<notin> se_token_hash ` set (sessions (w_db w))))) w"
    unfolding gen_CreateSession_def wp_bnd_simps Let_def
    by (rule wp_db_exec) (auto simp: quiet_def env_frame_def find_None_iff split: option.splits)
  with 2 show ?case by (auto intro: wp_bnd)
qed

lemma wp_issueSession:
  assumes "users_ok L (w_db w)" and "has_user (w_db w) user"
  shows "wp (auth_issueSession (auth_service L low lower secret env sms) user) (\<lambda>r w'. quiet w w' \<and>
     (\<exists>ss. w_db w' = (w_db w)\<lparr>sessions := ss\<rparr>) \<and> (sessions_ok (w_db w) \<longrightarrow> sessions_ok (w_db w')) \<and>
     (\<forall>token su. r = Inr (token, su) \<longrightarrow> session_for L token su (w_db w') \<and> su_UserID su = us_ID user \<and>
        su_Phone su = us_Phone user \<and> su_Email su = us_Email user)) w"
proof -
  have same: "\<exists>ss. d = d\<lparr>sessions := ss\<rparr>" for d :: database by (rule exI [of _ "sessions d"]) simp
  have uid: "lib_uuid L (us_ID user) = Some (us_ID user)"
    using assms by (auto simp: users_ok_def has_user_def list_all_iff user_of_def)
  have us: "\<lparr>us_ID = us_ID user, us_Phone = us_Phone user, us_Email = us_Email user, us_Name = us_Name user\<rparr> = user" by simp
  show ?thesis unfolding auth_issueSession_def Let_def wp_bnd_simps auth_service_simps
  proof (rule wp_bnd [OF wp_CreateSession], goal_cases)
    case (1 e w1)
    then show ?case using same by (simp add: quiet_def)
  next
    case (2 u w1)
    with uid obtain row where row: "w_db w1 = (w_db w)\<lparr>sessions := sessions (w_db w) @ [row]\<rparr>"
      "se_token_hash row = hashToken L (fst (randomToken L w))" "se_user_id row = us_ID user" "se_expires_at row = w_now w + sessionTTL"
      "hashToken L (fst (randomToken L w)) \<notin> se_token_hash ` set (sessions (w_db w))" and q: "quiet w w1"
      by (auto simp: quiet_def)
    have hu: "has_user (w_db w1) user" using assms(2) row(1) by (simp add: has_user_def)
    have mem: "row \<in> set (sessions (w_db w1))" by (simp add: row(1))
    have "session_for L (fst (randomToken L w)) \<lparr>su_UserID = us_ID user, su_Phone = us_Phone user,
        su_Email = us_Email user, su_Name = us_Name user, su_ExpiresAt = w_now w + sessionTTL\<rparr> (w_db w1)"
      unfolding session_for_def using mem row(2-4) hu by (auto simp: us)
    moreover have "sessions_ok (w_db w) \<longrightarrow> sessions_ok (w_db w1)"
      using row(2,5) by (simp add: sessions_ok_def row(1))
    moreover have "\<exists>ss. w_db w1 = (w_db w)\<lparr>sessions := ss\<rparr>" using row(1) by blast
    ultimately show ?case using q by simp
  qed
qed

datatype sign_in = ByOTP string string | ByPassword string string | SignUp string string string

fun run_sign_in :: "AuthService \<Rightarrow> sign_in \<Rightarrow> (string \<times> SessionUser) wop" where
  "run_sign_in s (ByOTP phone code) = auth_VerifyOTP s phone code"
| "run_sign_in s (ByPassword email password) = auth_Login s email password"
| "run_sign_in s (SignUp email password name) = auth_Register s email password name"

lemma wp_LatestLiveOTP:
  "wp (pg_LatestLiveOTP phone) (\<lambda>r w'. w_db w' = w_db w \<and> quiet w w' \<and> kept_calm w w' \<and> w_now w \<le> w_now w' \<and> (case r of
      Inl e \<Rightarrow> e = ErrConn \<and> w_sched w \<noteq> []
    | Inr None \<Rightarrow> filter (live phone (w_now w')) (otp_codes (w_db w)) = []
    | Inr (Some otp) \<Rightarrow> (\<exists>o' rest. order_by_desc ot_created_at (filter (live phone (w_now w')) (otp_codes (w_db w))) = o' # rest \<and>
        otp = \<lparr>op_ID = ot_id o', op_CodeHash = ot_code_hash o', op_Attempts = ot_attempts o'\<rparr>))) w"
proof -
  have nil: "order_by_desc k rows = [] \<longleftrightarrow> rows = []" for k and rows :: "OtpRow list"
    by (metis set_empty set_order_by_desc)
  have "wp (gen_LatestLiveOTP phone) (\<lambda>r w'. w_db w' = w_db w \<and> quiet w w' \<and> kept_calm w w' \<and> w_now w \<le> w_now w' \<and> (case r of
      Inl e \<Rightarrow> e = ErrConn \<and> w_sched w \<noteq> [] \<or> e = ErrNoRows \<and> filter (live phone (w_now w')) (otp_codes (w_db w)) = []
    | Inr o' \<Rightarrow> (\<exists>rest. order_by_desc ot_created_at (filter (live phone (w_now w')) (otp_codes (w_db w))) = o' # rest))) w"
    unfolding gen_LatestLiveOTP_def db_read_def
    by (rule wp_db_exec_sched) (auto simp: quiet_def env_frame_def kept_calm_def nil split: list.splits)
  then show ?thesis unfolding pg_LatestLiveOTP_def
    by (rule wp_attempt) (auto split: sum.splits)
qed

lemma wp_ConsumeOTP:
  "wp (pg_ConsumeOTP L oid) (\<lambda>r w'. quiet w w' \<and> (\<exists>os. w_db w' = (w_db w)\<lparr>otp_codes := os\<rparr>) \<and>
     (r = Inr () \<longrightarrow> (\<exists>u t. lib_uuid L oid = Some u \<and> otp_codes (w_db w') =
        upd_where (\<lambda>r. ot_id r = u) (\<lambda>r. r\<lparr>ot_consumed_at := Some t\<rparr>) (otp_codes (w_db w))))) w"
proof -
  have same: "\<exists>os. d = d\<lparr>otp_codes := os\<rparr>" for d :: database by (rule exI [of _ "otp_codes d"]) simp
  show ?thesis unfolding pg_ConsumeOTP_def
  proof (rule wp_bnd [OF wp_uuid_Parse], goal_cases)
    case (2 u w1)
    then show ?case unfolding gen_ConsumeOTP_def
      by (intro wp_db_exec) (use same in \<open>auto simp: quiet_def env_frame_def\<close>)
  qed (use same in \<open>simp add: quiet_def\<close>)
qed

lemma wp_IncrementOTP:
  "wp (ignore (pg_IncrementOTPAttempts L oid)) (\<lambda>r w'. r = Inr () \<and> quiet w w' \<and> kept_calm w w' \<and>
     (w_sched w = [] \<longrightarrow> w_now w' = w_now w) \<and>
     (\<exists>os. w_db w' = (w_db w)\<lparr>otp_codes := os\<rparr>) \<and>
     (w_sched w = [] \<and> lib_uuid L oid = Some oid \<and> list_all (\<lambda>r. in_int32 (ot_attempts r + 1)) (otp_codes (w_db w)) \<longrightarrow>
        otp_codes (w_db w') =
        upd_where (\<lambda>r. ot_id r = oid) (\<lambda>r. r\<lparr>ot_attempts := ot_attempts r + 1\<rparr>) (otp_codes (w_db w)))) w"
proof -
  have same: "\<exists>os. d = d\<lparr>otp_codes := os\<rparr>" for d :: database by (rule exI [of _ "otp_codes d"]) simp
  show ?thesis
  proof (cases "w_sched w = []")
    case True
    show ?thesis
      using same True
      by (auto simp: wp_def pg_IncrementOTPAttempts_def uuid_Parse_def gen_IncrementOTPAttempts_def ignore_def bnd_def ret_def
          fail_def db_exec_quiet quiet_def kept_calm_def list_all_iff split: option.splits)
  next
    case False
    have "wp (pg_IncrementOTPAttempts L oid) (\<lambda>r w'. quiet w w' \<and> (\<exists>os. w_db w' = (w_db w)\<lparr>otp_codes := os\<rparr>)) w"
      unfolding pg_IncrementOTPAttempts_def
    proof (rule wp_bnd [OF wp_uuid_Parse], goal_cases)
      case (2 u w1)
      then show ?case unfolding gen_IncrementOTPAttempts_def
        by (intro wp_db_exec) (use same in \<open>auto simp: quiet_def env_frame_def\<close>)
    qed (use same in \<open>simp add: quiet_def\<close>)
    then show ?thesis by (rule wp_ignore) (use False in \<open>auto simp: kept_calm_def\<close>)
  qed
qed

text \<open>What every successful sign-in leaves behind, and every sign-in preserves.\<close>

definition signed_in :: "libs \<Rightarrow> world \<Rightarrow> go_error + (string \<times> SessionUser) \<Rightarrow> world \<Rightarrow> bool" where
  "signed_in L w r w' \<longleftrightarrow> users_ok L (w_db w') \<and> (sessions_ok (w_db w) \<longrightarrow> sessions_ok (w_db w')) \<and>
     (\<forall>token su. r = Inr (token, su) \<longrightarrow> session_for L token su (w_db w'))"

lemma wp_issue_signed_in:
  assumes "users_ok L (w_db v)" and "has_user (w_db v) user" and "sessions (w_db v) = sessions (w_db w)"
  shows "wp (auth_issueSession (auth_service L low lower secret env sms) user) (signed_in L w) v"
proof (rule wp_mono [OF wp_issueSession [OF assms(1,2)]], elim conjE exE, goal_cases)
  case (1 r w' ss)
  then have "users_ok L (w_db w')" using assms(1) by (simp add: users_ok_def)
  moreover have "sessions_ok (w_db w) \<longrightarrow> sessions_ok (w_db w')" using 1 assms(3) by (simp add: sessions_ok_def)
  ultimately show ?case using 1 unfolding signed_in_def by blast
qed

lemma consumed_codes:
  assumes "otp_codes d' = upd_where (\<lambda>r. ot_id r = oid) (\<lambda>r. r\<lparr>ot_consumed_at := Some t\<rparr>) (otp_codes d)"
  shows "\<forall>q \<in> set (otp_codes d'). ot_id q = oid \<longrightarrow> ot_consumed_at q \<noteq> None"
proof (intro ballI impI)
  fix q assume "q \<in> set (otp_codes d')" and "ot_id q = oid"
  then obtain r where "q = (if ot_id r = oid then r\<lparr>ot_consumed_at := Some t\<rparr> else r)"
    unfolding assms upd_where_def set_map by blast
  with \<open>ot_id q = oid\<close> show "ot_consumed_at q \<noteq> None" by (simp split: if_splits)
qed

text \<open>The accepting branch: the code is consumed before the user is looked up and the session opened.\<close>

lemma wp_redeem:
  assumes "uuid_lib L" and "users_ok L (w_db w)" and "w_db v = w_db w"
  shows "wp (bnd (pg_ConsumeOTP L oid) (\<lambda>_. bnd (pg_UpsertUserByPhone phone)
       (\<lambda>user. auth_issueSession (auth_service L low lower secret env sms) user)))
     (\<lambda>r w'. signed_in L w r w' \<and> (\<forall>token su. r = Inr (token, su) \<longrightarrow> su_Phone su = phone \<and>
        (\<forall>q \<in> set (otp_codes (w_db w')). Some (ot_id q) = lib_uuid L oid \<longrightarrow> ot_consumed_at q \<noteq> None))) v"
proof (rule wp_bnd [OF wp_ConsumeOTP], goal_cases)
  case (1 e w2)
  then show ?case using assms(2,3) by (auto simp: signed_in_def users_ok_def sessions_ok_def)
next
  case (2 u w2)
  then obtain i t os where c: "lib_uuid L oid = Some i" "w_db w2 = (w_db w)\<lparr>otp_codes := os\<rparr>"
    "otp_codes (w_db w2) = upd_where (\<lambda>r. ot_id r = i) (\<lambda>r. r\<lparr>ot_consumed_at := Some t\<rparr>) (otp_codes (w_db w))"
    unfolding assms(3) by auto
  note cons = consumed_codes [OF c(3)]
  show ?case
  proof (rule wp_bnd [OF wp_UpsertUserByPhone [OF assms(1)]], goal_cases)
    case (1 e w3)
    then show ?case using c(2) assms(2) by (auto simp: signed_in_def accounts_grow_def users_ok_def sessions_ok_def)
  next
    case (2 user w3)
    have ok3: "users_ok L (w_db w3)" "sessions (w_db w3) = sessions (w_db w)" "has_user (w_db w3) user"
      "us_Phone user = phone" "otp_codes (w_db w3) = otp_codes (w_db w2)"
      using 2 c(2) assms(2) by (auto simp: accounts_grow_def users_ok_def)
    show ?case
    proof (rule wp_mono [OF wp_conj [OF wp_issue_signed_in [OF ok3(1,3,2)] wp_issueSession [OF ok3(1,3)]]], goal_cases)
      case (1 r w')
      have "otp_codes (w_db w') = otp_codes (w_db w2)" using 1 ok3(5) by auto
      with cons have "\<forall>q \<in> set (otp_codes (w_db w')). Some (ot_id q) = lib_uuid L oid \<longrightarrow> ot_consumed_at q \<noteq> None"
        unfolding c(1) by simp
      moreover have "\<forall>token su. r = Inr (token, su) \<longrightarrow> su_Phone su = phone" using 1 ok3(4) by blast
      ultimately show ?case using 1 by blast
    qed
  qed
qed

lemma wp_VerifyOTP:
  assumes "uuid_lib L" and "users_ok L (w_db w)"
  shows "wp (auth_VerifyOTP (auth_service L low lower secret env sms) phone code) (\<lambda>r w'. signed_in L w r w' \<and>
     (\<forall>token su. r = Inr (token, su) \<longrightarrow> su_Phone su = phone \<and> (\<exists>o' \<in> set (otp_codes (w_db w)). live phone (w_now w) o' \<and>
        ot_attempts o' < otp_maxAttempts \<and> ot_code_hash o' = lib_hmac L secret code \<and>
        (\<forall>q \<in> set (otp_codes (w_db w')). Some (ot_id q) = lib_uuid L (ot_id o') \<longrightarrow> ot_consumed_at q \<noteq> None)))) w"
  (is "wp _ ?Q w")
  unfolding auth_VerifyOTP_def auth_service_simps
proof (rule wp_bnd [OF wp_LatestLiveOTP], goal_cases)
  case (1 e w1)
  with assms(2) show ?case by (simp add: signed_in_def)
next
  case (2 found w1)
  then have w1: "w_db w1 = w_db w" "w_now w \<le> w_now w1" by auto
  have bad: "?Q (Inl ErrInvalidOTP) w'" if "\<exists>os. w_db w' = (w_db w)\<lparr>otp_codes := os\<rparr>" for w'
    using that assms(2) by (auto simp: signed_in_def users_ok_def sessions_ok_def)
  have "\<exists>os. w_db w1 = (w_db w)\<lparr>otp_codes := os\<rparr>" by (rule exI [of _ "otp_codes (w_db w)"]) (simp add: w1)
  note refused = bad [OF this]
  have guess: "wp (bnd (ignore (pg_IncrementOTPAttempts L i)) (\<lambda>_. fail ErrInvalidOTP)) ?Q w1" for i
  proof (rule wp_bnd [OF wp_IncrementOTP], goal_cases)
    case (2 u w2)
    then have "\<exists>os. w_db w2 = (w_db w)\<lparr>otp_codes := os\<rparr>" using w1(1) by auto
    with bad show ?case by simp
  qed simp
  show ?case
  proof (cases found)
    case None
    with refused show ?thesis by simp
  next
    case (Some otp)
    with 2 obtain o' rest where o': "order_by_desc ot_created_at (filter (live phone (w_now w1)) (otp_codes (w_db w))) = o' # rest"
      and otp: "otp = \<lparr>op_ID = ot_id o', op_CodeHash = ot_code_hash o', op_Attempts = ot_attempts o'\<rparr>" by auto
    have "o' \<in> set (filter (live phone (w_now w1)) (otp_codes (w_db w)))"
      using o' by (metis list.set_intros(1) set_order_by_desc)
    then have mem: "o' \<in> set (otp_codes (w_db w))" "live phone (w_now w) o'" using w1(2) by (auto simp: live_def)
    have "wp (bnd (pg_ConsumeOTP L (op_ID otp)) (\<lambda>_. bnd (pg_UpsertUserByPhone phone)
        (\<lambda>user. auth_issueSession (auth_service L low lower secret env sms) user))) ?Q w1"
      if "ot_attempts o' < otp_maxAttempts" "ot_code_hash o' = lib_hmac L secret code"
    proof (rule wp_mono [OF wp_redeem [OF assms w1(1)]], goal_cases)
      case (1 r w')
      with that mem show ?case unfolding otp OTP.simps by blast
    qed
    with refused guess show ?thesis unfolding Some option.case by (simp add: otp)
  qed
qed

lemma wp_Login:
  assumes "users_ok L (w_db w)"
  shows "wp (auth_Login (auth_service L low lower secret env sms) email password) (\<lambda>r w'. signed_in L w r w' \<and>
     (\<forall>row. List.find (email_is low (trim_space (lower email))) (users (w_db w)) = Some row \<longrightarrow>
        (\<forall>token su. r = Inr (token, su) \<longrightarrow> su_UserID su = ur_id row \<and> lib_bcrypt_ok L (deref (ur_password_hash row)) password) \<and>
        (deref (ur_password_hash row) \<noteq> [] \<and> lib_bcrypt_ok L (deref (ur_password_hash row)) password \<longrightarrow>
           r \<noteq> Inl ErrInvalidCredentials))) w"
  (is "wp _ ?Q w")
  unfolding auth_Login_def auth_service_simps
proof (rule wp_bnd [OF wp_UserByEmail], goal_cases)
  case (1 e w1)
  with assms show ?case by (simp add: signed_in_def)
next
  case (2 found w1)
  then have w1: "w_db w1 = w_db w" by auto
  have refused: "signed_in L w (Inl ErrInvalidCredentials) w1" using assms w1 by (simp add: signed_in_def)
  show ?case
  proof (cases found)
    case None
    with 2 refused show ?thesis by simp
  next
    case (Some x)
    obtain user hash where x: "x = (user, hash)" by (cases x)
    with 2 Some obtain row where row: "List.find (email_is low (trim_space (lower email))) (users (w_db w)) = Some row"
      "user = user_of row" "hash = deref (ur_password_hash row)" by auto
    show ?thesis
    proof (cases "length hash = 0 \<or> \<not> lib_bcrypt_ok L hash password")
      case True
      with refused row show ?thesis unfolding Some x option.case prod.case if_P [OF True] by auto
    next
      case False
      have ok1: "users_ok L (w_db w1)" "has_user (w_db w1) user" "sessions (w_db w1) = sessions (w_db w)"
        using assms w1 find_SomeD [OF row(1)] row(2) by (simp_all add: has_user_def)
      have err: "wp (auth_issueSession (auth_service L low lower secret env sms) user)
          (\<lambda>r w'. r \<noteq> Inl ErrInvalidCredentials) w1"
        unfolding auth_issueSession_def Let_def wp_bnd_simps auth_service_simps pg_CreateSession_def uuid_Parse_def gen_CreateSession_def
        by (auto intro!: wp_bnd [where P = "\<lambda>r w'. r \<noteq> Inl ErrInvalidCredentials"] wp_db_exec simp: fk_violation_def Let_def
            split: option.splits)
      show ?thesis unfolding Some x option.case prod.case if_not_P [OF False]
      proof (rule wp_mono [OF wp_conj [OF err wp_conj [OF wp_issue_signed_in [OF ok1] wp_issueSession [OF ok1(1,2)]]]], goal_cases)
        case (1 r w')
        then show ?case using False row by (auto simp: user_of_def)
      qed
    qed
  qed
qed

lemma wp_Register:
  assumes "uuid_lib L" and "users_ok L (w_db w)"
  shows "wp (auth_Register (auth_service L low lower secret env sms) email password name) (\<lambda>r w'. signed_in L w r w' \<and>
     (\<forall>token su. r = Inr (token, su) \<longrightarrow> (\<exists>row salt hash. List.find (email_is low (trim_space (lower email))) (users (w_db w')) = Some row \<and>
        ur_id row = su_UserID su \<and> ur_password_hash row = Some hash \<and> lib_bcrypt L salt password = Some hash))) w"
  (is "wp _ ?Q w")
proof (cases "trim_space (lower email) = [] \<or> length password < minPasswordLen")
  case True
  then show ?thesis using assms(2) by (simp add: auth_Register_def Let_def signed_in_def)
next
  case False
  have refused: "?Q (Inl e) w'" if "accounts_grow L (w_db w) (w_db w')" for e w'
    using that assms(2) by (simp add: signed_in_def accounts_grow_def sessions_ok_def)
  define w0 where "w0 = snd (rand_bytes 16 w)"
  have w0: "w_db w0 = w_db w" "quiet w w0" by (simp_all add: w0_def rand_bytes_def quiet_def)
  define salt :: string where "salt = map char_of (fst (rand_bytes 16 w))"
  show ?thesis
  proof (cases "lib_bcrypt L salt password")
    case None
    with False refused [of w0] w0(1) show ?thesis
      by (simp add: auth_Register_def Let_def accounts_grow_refl flip: salt_def w0_def)
  next
    case (Some hash)
    have "wp (bnd (pg_CreateUserWithPassword low (trim_space (lower email)) (trim_space name) hash)
        (\<lambda>user. auth_issueSession (auth_service L low lower secret env sms) user)) ?Q w0"
    proof (rule wp_bnd [OF wp_CreateUser [OF assms(1)]], goal_cases)
      case (1 e w1)
      then show ?case using refused w0(1) by simp
    next
      case (2 user w1)
      have g: "accounts_grow L (w_db w) (w_db w1)" "has_user (w_db w1) user" using 2 w0(1) by auto
      then have ok1: "users_ok L (w_db w1)" "has_user (w_db w1) user" "sessions (w_db w1) = sessions (w_db w)"
        using assms(2) by (simp_all add: accounts_grow_def)
      from 2 obtain row where row: "List.find (email_is low (trim_space (lower email))) (users (w_db w1)) = Some row"
        "user_of row = user" "ur_password_hash row = Some hash" by blast
      show ?case
      proof (rule wp_mono [OF wp_conj [OF wp_issue_signed_in [OF ok1] wp_issueSession [OF ok1(1,2)]]], goal_cases)
        case (1 r w')
        then have "users (w_db w') = users (w_db w1)" by auto
        with 1 row Some show ?case by (auto simp: user_of_def)
      qed
    qed
    with Some show ?thesis unfolding auth_Register_def Let_def if_not_P [OF False] auth_service_simps wp_bnd_simps
      by (simp flip: salt_def w0_def)
  qed
qed

lemma wp_sign_in:
  assumes "uuid_lib L" and "users_ok L (w_db w)"
  shows "wp (run_sign_in (auth_service L low lower secret env sms) x) (signed_in L w) w"
proof (cases x)
  case (ByOTP phone code)
  show ?thesis unfolding ByOTP run_sign_in.simps by (rule wp_mono [OF wp_VerifyOTP [OF assms]]) blast
next
  case (ByPassword email password)
  show ?thesis unfolding ByPassword run_sign_in.simps by (rule wp_mono [OF wp_Login [OF assms(2)]]) blast
next
  case (SignUp email password name)
  show ?thesis unfolding SignUp run_sign_in.simps by (rule wp_mono [OF wp_Register [OF assms]]) blast
qed

text \<open>What resolving a session reads at a given time.\<close>

definition resolved :: "database \<Rightarrow> string \<Rightarrow> time \<Rightarrow> SessionUser option" where
  "resolved d hash t = (case List.find (\<lambda>s. se_token_hash s = hash \<and> se_expires_at s > t) (sessions d) of
     None \<Rightarrow> None
   | Some s \<Rightarrow> map_option (\<lambda>u. \<lparr>su_UserID = ur_id u, su_Phone = deref (ur_phone u), su_Email = deref (ur_email u),
       su_Name = deref (ur_name u), su_ExpiresAt = se_expires_at s\<rparr>) (List.find (\<lambda>u. ur_id u = se_user_id s) (users d)))"

lemma wp_SessionUser:
  "wp (pg_SessionUser hash) (\<lambda>r w'. w_db w' = w_db w \<and> quiet w w' \<and>
     r \<in> {Inr (resolved (w_db w) hash (w_now w')), Inl ErrConn}) w"
  unfolding pg_SessionUser_def
  by (rule wp_attempt [where P = "\<lambda>r w'. w_db w' = w_db w \<and> quiet w w' \<and> (case r of
        Inl e \<Rightarrow> e = ErrConn \<or> e = ErrNoRows \<and> resolved (w_db w) hash (w_now w') = None
      | Inr (u, exp) \<Rightarrow> resolved (w_db w) hash (w_now w') = Some \<lparr>su_UserID = ur_id u, su_Phone = deref (ur_phone u),
          su_Email = deref (ur_email u), su_Name = deref (ur_name u), su_ExpiresAt = exp\<rparr>)"], rule wp_db_read)
     (auto simp: quiet_def env_frame_def resolved_def split: option.splits sum.splits)

lemma resolved_session:
  assumes "session_for L token su d" and "sessions_ok d" and "users_ok L d"
  shows "resolved d (hashToken L token) t = (if t < su_ExpiresAt su then Some su else None)"
proof -
  from assms(1) obtain row u where row: "row \<in> set (sessions d)" "se_token_hash row = hashToken L token"
    "se_user_id row = su_UserID su" "se_expires_at row = su_ExpiresAt su"
    and u: "u \<in> set (users d)" "user_of u = \<lparr>us_ID = su_UserID su, us_Phone = su_Phone su, us_Email = su_Email su, us_Name = su_Name su\<rparr>"
    by (auto simp: session_for_def has_user_def)
  have "inj_on se_token_hash (set (sessions d))" "inj_on ur_id (set (users d))"
    using assms(2,3) by (simp_all add: sessions_ok_def users_ok_def distinct_map)
  note inj = inj_onD [OF this(1)] inj_onD [OF this(2)]
  have find_u: "List.find (\<lambda>u. ur_id u = su_UserID su) (users d) = Some u"
  proof (cases "List.find (\<lambda>u. ur_id u = su_UserID su) (users d)")
    case None
    with u show ?thesis by (auto simp: find_None_iff user_of_def)
  next
    case (Some v)
    with find_SomeD [OF Some] inj(2) [of v u] u show ?thesis by (simp add: user_of_def)
  qed
  show ?thesis
  proof (cases "List.find (\<lambda>s. se_token_hash s = hashToken L token \<and> se_expires_at s > t) (sessions d)")
    case None
    then have "\<not> t < su_ExpiresAt su" using row unfolding find_None_iff by metis
    with None show ?thesis unfolding resolved_def by simp
  next
    case (Some s)
    from find_SomeD [OF Some] inj(1) [of s row] row have "s = row" "t < su_ExpiresAt su" by auto
    with Some find_u row u show ?thesis by (simp add: resolved_def user_of_def)
  qed
qed

section \<open>Properties\<close>


text \<open>
  Logging out revokes the session. After a successful logout the token
  resolves to nobody, however the other sessions change, unless a session with the same
  token hash is created anew.
\<close>

theorem Logout_revokes:
  assumes "auth_Logout (auth_service L low lower secret env sms) token w = (Inr (), w1)"
    and "list_all (\<lambda>s. s \<in> set (sessions (w_db w1)) \<or> se_token_hash s \<noteq> hashToken L token) (sessions (w_db w2))"
    and "auth_Resolve (auth_service L low lower secret env sms) token w2 = (r, w3)"
  shows "r \<in> {Inr None, Inl ErrConn}"
proof (cases "token = []")
  case True
  with assms(3) show ?thesis by (simp add: auth_Resolve_def ret_def)
next
  case False
  have "wp (pg_DeleteSession (hashToken L token)) (\<lambda>r w'. r = Inr () \<longrightarrow>
      (\<forall>s \<in> set (sessions (w_db w')). se_token_hash s \<noteq> hashToken L token)) w"
    unfolding pg_DeleteSession_def gen_DeleteSession_def by (rule wp_db_exec) auto
  from wpD [OF this] assms(1) False have "\<forall>s \<in> set (sessions (w_db w1)). se_token_hash s \<noteq> hashToken L token"
    by (simp add: auth_Logout_def)
  with assms(2) have "\<forall>s \<in> set (sessions (w_db w2)). se_token_hash s \<noteq> hashToken L token" by (auto simp: list_all_iff)
  then have none: "resolved (w_db w2) (hashToken L token) t = None" for t
    by (auto simp: resolved_def split: option.splits dest: find_SomeD)
  have "wp (auth_Resolve (auth_service L low lower secret env sms) token) (\<lambda>r w'. r \<in> {Inr None, Inl ErrConn}) w2"
    unfolding auth_Resolve_def if_not_P [OF False] auth_service_simps by (rule wp_mono [OF wp_SessionUser]) (auto simp: none)
  from wpD [OF this assms(3)] show ?thesis .
qed

text \<open>
  Property C20: a code signs in only the phone it was sent for, and only once. A successful
  verification means that the table held an unexpired, unconsumed code of that phone with
  fewer than five wrong guesses and the hash of the code presented; that code is consumed
  afterwards, and the session is for the user with that phone.
\<close>

theorem VerifyOTP_sound:
  assumes "uuid_lib L" and "users_ok L (w_db w)"
    and "auth_VerifyOTP (auth_service L low lower secret env sms) phone code w = (Inr (token, su), w')"
  shows "su_Phone su = phone \<and> session_for L token su (w_db w') \<and> (\<exists>o' \<in> set (otp_codes (w_db w)). live phone (w_now w) o' \<and>
     ot_attempts o' < 5 \<and> ot_code_hash o' = lib_hmac L secret code \<and>
     (\<forall>q \<in> set (otp_codes (w_db w')). Some (ot_id q) = lib_uuid L (ot_id o') \<longrightarrow> ot_consumed_at q \<noteq> None))"
  using wpD [OF wp_VerifyOTP [OF assms(1,2)] assms(3)] unfolding otp_maxAttempts_def signed_in_def by blast

text \<open>
  Whoever registered can log in. With the same e-mail address, up to case and
  surrounding space, and the same password, a later login on the same accounts is never
  refused as invalid, and it signs in the account that was registered.
\<close>

theorem Register_Login:
  assumes "uuid_lib L" and "users_ok L (w_db w)"
    and "\<forall>salt p h. lib_bcrypt L salt p = Some h \<longrightarrow> h \<noteq> [] \<and> lib_bcrypt_ok L h p"
    and "auth_Register (auth_service L low lower secret env sms) email password name w = (Inr (token, su), w1)"
    and "users (w_db w2) = users (w_db w1)" and "trim_space (lower email') = trim_space (lower email)"
    and "auth_Login (auth_service L low lower secret env sms) email' password w2 = (r, w3)"
  shows "r \<noteq> Inl ErrInvalidCredentials \<and> (\<forall>token' su'. r = Inr (token', su') \<longrightarrow> su_UserID su' = su_UserID su)"
proof -
  have reg: "users_ok L (w_db w1)" "\<exists>row salt hash. List.find (email_is low (trim_space (lower email))) (users (w_db w1)) = Some row \<and>
      ur_id row = su_UserID su \<and> ur_password_hash row = Some hash \<and> lib_bcrypt L salt password = Some hash"
    using wpD [OF wp_Register [OF assms(1,2)] assms(4)] unfolding signed_in_def by (blast, blast)
  then obtain row salt hash where
    row: "List.find (email_is low (trim_space (lower email'))) (users (w_db w2)) = Some row" "ur_id row = su_UserID su"
    "ur_password_hash row = Some hash" "lib_bcrypt L salt password = Some hash"
    unfolding assms(5,6) by blast
  have ok2: "users_ok L (w_db w2)" using reg(1) assms(5) by (simp add: users_ok_def)
  have h: "deref (ur_password_hash row) = hash" by (simp add: row(3) deref_def)
  have hash: "hash \<noteq> []" "lib_bcrypt_ok L hash password" using assms(3) row(4) by blast+
  note login = mp [OF spec [OF conjunct2 [OF wpD [OF wp_Login [OF ok2] assms(7)]]] row(1)]
  show ?thesis
  proof (intro conjI allI impI)
    show "r \<noteq> Inl ErrInvalidCredentials" by (rule mp [OF conjunct2 [OF login]]) (simp add: h hash)
    fix token' su' assume "r = Inr (token', su')"
    then show "su_UserID su' = su_UserID su" using conjunct1 [OF login] row(2) by simp
  qed
qed

text \<open>Guessing: a sequence of verifications of one phone, whatever their answers.\<close>

fun guesses :: "AuthService \<Rightarrow> string \<Rightarrow> string list \<Rightarrow> world \<Rightarrow> world" where
  "guesses s phone [] w = w"
| "guesses s phone (c # cs) w = guesses s phone cs (snd (auth_VerifyOTP s phone c w))"

definition latest :: "string \<Rightarrow> world \<Rightarrow> OtpRow option" where
  "latest phone w = (case order_by_desc ot_created_at (filter (live phone (w_now w)) (otp_codes (w_db w))) of
     [] \<Rightarrow> None | r # _ \<Rightarrow> Some r)"

definition otps_ok :: "libs \<Rightarrow> world \<Rightarrow> bool" where
  "otps_ok L w \<longleftrightarrow> list_all (\<lambda>r. lib_uuid L (ot_id r) = Some (ot_id r) \<and> 0 \<le> ot_attempts r \<and> ot_attempts r \<le> 5) (otp_codes (w_db w))
     \<and> distinct (map ot_id (otp_codes (w_db w)))"

lemma LatestLiveOTP_calm:
  assumes "w_sched w = []"
  shows "pg_LatestLiveOTP phone w = (Inr (map_option (\<lambda>o'. \<lparr>op_ID = ot_id o', op_CodeHash = ot_code_hash o',
     op_Attempts = ot_attempts o'\<rparr>) (latest phone w)), w)"
  using assms
  by (simp add: pg_LatestLiveOTP_def gen_LatestLiveOTP_def attempt_def db_read_quiet latest_def ret_def split: list.splits)

lemma latest_mem: "latest phone w = Some o' \<Longrightarrow> o' \<in> set (otp_codes (w_db w))"
proof -
  assume "latest phone w = Some o'"
  then have "o' \<in> set (order_by_desc ot_created_at (filter (live phone (w_now w)) (otp_codes (w_db w))))"
    by (cases "order_by_desc ot_created_at (filter (live phone (w_now w)) (otp_codes (w_db w)))") (simp_all add: latest_def)
  then show ?thesis by simp
qed

text \<open>A wrong guess counts on the code that is the latest, until the cap.\<close>

lemma wrong_guess:
  assumes calm: "w_sched w = []" and ok: "otps_ok L w" and o': "latest phone w = Some o'"
    and wrong: "lib_hmac L secret c \<noteq> ot_code_hash o'"
    and w'_def: "w' = snd (auth_VerifyOTP (auth_service L low lower secret env sms) phone c w)"
  shows "w_sched w' = [] \<and> otps_ok L w' \<and> (\<exists>q. latest phone w' = Some q \<and> ot_code_hash q = ot_code_hash o' \<and>
     ot_attempts q = min 5 (ot_attempts o' + 1))"
proof (cases "ot_attempts o' \<ge> 5")
  case True
  then have "w' = w"
    by (simp add: w'_def auth_VerifyOTP_def bnd_def LatestLiveOTP_calm [OF calm] o' fail_def otp_maxAttempts_def)
  with calm ok o' True latest_mem [OF o'] show ?thesis by (auto simp: otps_ok_def list_all_iff)
next
  case False
  let ?inc = "\<lambda>r. r\<lparr>ot_attempts := ot_attempts r + 1\<rparr>"
  have mem: "o' \<in> set (otp_codes (w_db w))" by (rule latest_mem [OF o'])
  have id: "lib_uuid L (ot_id o') = Some (ot_id o')" using ok mem by (auto simp: otps_ok_def list_all_iff)
  have range: "list_all (\<lambda>r. ot_id r = ot_id o' \<longrightarrow> in_int32 (ot_attempts r + 1)) (otp_codes (w_db w))"
    using ok by (auto simp: otps_ok_def list_all_iff in_int32_def)
  have w': "w' = w\<lparr>w_db := (w_db w)\<lparr>otp_codes := upd_where (\<lambda>r. ot_id r = ot_id o') ?inc (otp_codes (w_db w))\<rparr>\<rparr>"
    using False wrong calm range
    by (simp add: w'_def auth_VerifyOTP_def bnd_def LatestLiveOTP_calm [OF calm] o' fail_def otp_maxAttempts_def ignore_def
        pg_IncrementOTPAttempts_def uuid_Parse_def id ret_def gen_IncrementOTPAttempts_def db_exec_quiet)
  have inj: "inj_on ot_id (set (otp_codes (w_db w)))" using ok by (simp add: otps_ok_def distinct_map)
  have "otps_ok L w'"
  proof -
    have "ot_attempts r < 5" if "r \<in> set (otp_codes (w_db w))" "ot_id r = ot_id o'" for r
      using inj_onD [OF inj that(2) that(1) mem] False by simp
    then have "list_all (\<lambda>r. lib_uuid L (ot_id r) = Some (ot_id r) \<and> 0 \<le> ot_attempts r \<and> ot_attempts r \<le> 5) (otp_codes (w_db w'))"
      using ok by (fastforce simp: w' otps_ok_def list_all_iff upd_where_def)
    moreover have "map ot_id (otp_codes (w_db w')) = map ot_id (otp_codes (w_db w))" by (simp add: w' map_key_upd_where)
    ultimately show ?thesis using ok unfolding otps_ok_def by simp
  qed
  moreover have "latest phone w' = Some (?inc o')"
  proof -
    have "order_by_desc ot_created_at (filter (live phone (w_now w)) (upd_where (\<lambda>r. ot_id r = ot_id o') ?inc (otp_codes (w_db w))))
        = upd_where (\<lambda>r. ot_id r = ot_id o') ?inc (order_by_desc ot_created_at (filter (live phone (w_now w)) (otp_codes (w_db w))))"
      by (rule order_by_desc_upd_where) (simp_all add: live_def)
    with o' show ?thesis by (auto simp: latest_def w' upd_where_Nil upd_where_Cons split: list.splits)
  qed
  ultimately show ?thesis using calm False by (simp add: w')
qed

lemma wrong_guesses:
  assumes "w_sched w = []" and "otps_ok L w" and "latest phone w = Some o'"
    and "list_all (\<lambda>c. lib_hmac L secret c \<noteq> ot_code_hash o') cs"
  shows "w_sched (guesses (auth_service L low lower secret env sms) phone cs w) = [] \<and>
     (\<exists>q. latest phone (guesses (auth_service L low lower secret env sms) phone cs w) = Some q \<and>
        min 5 (ot_attempts o' + int (length cs)) \<le> ot_attempts q)"
  using assms
proof (induction cs arbitrary: w o')
  case Nil
  then show ?case by simp
next
  case (Cons c cs)
  from wrong_guess [OF Cons.prems(1-3) _ refl, of secret c low lower env sms] Cons.prems(4) obtain q where
    step: "w_sched (snd (auth_VerifyOTP (auth_service L low lower secret env sms) phone c w)) = []"
    "otps_ok L (snd (auth_VerifyOTP (auth_service L low lower secret env sms) phone c w))"
    "latest phone (snd (auth_VerifyOTP (auth_service L low lower secret env sms) phone c w)) = Some q"
    and q: "ot_code_hash q = ot_code_hash o'" "ot_attempts q = min 5 (ot_attempts o' + 1)" by auto
  have "list_all (\<lambda>c. lib_hmac L secret c \<noteq> ot_code_hash q) cs" using Cons.prems(4) by (simp add: q(1))
  from Cons.IH [OF step this] show ?case by (auto simp: q(2))
qed


section \<open>Examples\<close>

text \<open>A library with a recognisable password hash.\<close>

definition auth_libs :: libs where
  "auth_libs = demo_libs\<lparr>lib_bcrypt := \<lambda>salt p. Some (CHR ''$'' # p), lib_bcrypt_ok := \<lambda>h p. h = CHR ''$'' # p\<rparr>"

abbreviation demo_auth :: AuthService where
  "demo_auth \<equiv> auth_service auth_libs id id [] ''dev'' sms_logsender"

lemma demo_lib_ok:
  "uuid_lib auth_libs" "users_ok auth_libs (w_db init_world)" "sessions_ok (w_db init_world)"
  by (simp_all add: uuid_lib_def users_ok_def sessions_ok_def auth_libs_def demo_libs_def)

lemma demo_bcrypt: "\<forall>salt p h. lib_bcrypt auth_libs salt p = Some h \<longrightarrow> h \<noteq> [] \<and> lib_bcrypt_ok auth_libs h p"
  by (simp add: auth_libs_def)

lemma demo_trim: "trim_space ''a@b'' = ''a@b''" "trim_space ''n'' = ''n''"
  by code_simp+

lemma demo_register:
  "\<exists>token su w1. auth_Register demo_auth ''a@b'' ''password'' ''n'' init_world = (Inr (token, su), w1) \<and> token \<noteq> [] \<and> w_sched w1 = []"
  by (simp add: auth_Register_def Let_def demo_trim minPasswordLen_def auth_libs_def demo_libs_def bnd_def draw_eq ret_def fail_def gets_def
      pg_CreateUserWithPassword_def attempt_def db_exec_quiet auth_issueSession_def pg_CreateSession_def uuid_Parse_def
      gen_CreateSession_def randomToken_def rand_bytes_def new_uuid_def hex_encode_def upt_rec)


theorem Logout_revokes_witness:
  "\<exists>token su w1 w2 r w3. auth_Register demo_auth ''a@b'' ''password'' ''n'' init_world = (Inr (token, su), w1) \<and>
     auth_Logout demo_auth token w1 = (Inr (), w2) \<and> auth_Resolve demo_auth token w2 = (r, w3) \<and> r \<in> {Inr None, Inl ErrConn}"
proof -
  from demo_register obtain token su w1 where reg: "auth_Register demo_auth ''a@b'' ''password'' ''n'' init_world = (Inr (token, su), w1)"
    and calm: "w_sched w1 = []" by blast
  have "\<exists>w2. auth_Logout demo_auth token w1 = (Inr (), w2)"
    by (simp add: auth_Logout_def ret_def pg_DeleteSession_def gen_DeleteSession_def db_exec_quiet calm)
  then obtain w2 where out: "auth_Logout demo_auth token w1 = (Inr (), w2)" by blast
  obtain r w3 where res: "auth_Resolve demo_auth token w2 = (r, w3)" by fastforce
  have "list_all (\<lambda>s. s \<in> set (sessions (w_db w2)) \<or> se_token_hash s \<noteq> hashToken auth_libs token) (sessions (w_db w2))"
    by (simp add: list_all_iff)
  from Logout_revokes [OF out this res] reg out res show ?thesis by blast
qed

theorem Register_Login_witness:
  "\<exists>token su w1 r w3. auth_Register demo_auth ''a@b'' ''password'' ''n'' init_world = (Inr (token, su), w1) \<and>
     auth_Login demo_auth ''a@b'' ''password'' w1 = (r, w3) \<and> r \<noteq> Inl ErrInvalidCredentials \<and>
     (\<forall>token' su'. r = Inr (token', su') \<longrightarrow> su_UserID su' = su_UserID su)"
proof -
  have "\<exists>token su w1. auth_Register demo_auth ''a@b'' ''password'' ''n'' init_world = (Inr (token, su), w1)"
    using demo_register by blast
  then obtain token su w1 where reg: "auth_Register demo_auth ''a@b'' ''password'' ''n'' init_world = (Inr (token, su), w1)" by blast
  obtain r w3 where log: "auth_Login demo_auth ''a@b'' ''password'' w1 = (r, w3)" by fastforce
  from Register_Login [OF demo_lib_ok(1,2) demo_bcrypt reg refl refl log] reg log show ?thesis by blast
qed

text \<open>The world after one code was requested: \<open>000000\<close>, with the demonstration entropy.\<close>

definition demo_otp :: world where
  "demo_otp = snd (auth_RequestOTP demo_auth ''p'' init_world)"

lemma demo_code: "randomCode init_world = (''000000'', init_world\<lparr>w_pos := 1\<rparr>)"
proof -
  have "replicate (6 - length (digits_of 0)) (CHR ''0'') @ digits_of 0 = ''000000''" by code_simp
  then show ?thesis by (simp add: randomCode_def rand_below_def init_world_def)
qed

lemma demo_otp_codes:
  "otp_codes (w_db demo_otp) = [\<lparr>ot_id = fst (new_uuid (init_world\<lparr>w_pos := 1\<rparr>)), ot_phone = ''p'', ot_code_hash = ''000000'',
     ot_attempts = 0, ot_expires_at = otpTTL, ot_consumed_at = None, ot_created_at = 0\<rparr>]"
  "w_sched demo_otp = []" "w_now demo_otp = 0" "users (w_db demo_otp) = []" "sessions (w_db demo_otp) = []"
  by (simp_all add: demo_otp_def auth_RequestOTP_def bnd_def draw_eq gets_def demo_code pg_InsertOTP_def
      gen_InsertOTP_def db_exec_quiet new_uuid_def rand_bytes_def sms_logsender_def perform_def emit_effect_def ret_def
      hashCode_def auth_libs_def demo_libs_def)

lemma demo_otp_ok: "users_ok auth_libs (w_db demo_otp)" "otps_ok auth_libs demo_otp"
  "latest ''p'' demo_otp = Some (hd (otp_codes (w_db demo_otp)))"
  by (simp_all add: users_ok_def otps_ok_def latest_def demo_otp_codes live_def otpTTL_def order_by_desc_def
      auth_libs_def demo_libs_def)


theorem VerifyOTP_sound_witness:
  "\<exists>token su w'. auth_VerifyOTP demo_auth ''p'' ''000000'' demo_otp = (Inr (token, su), w') \<and> su_Phone su = ''p'' \<and>
     (\<exists>o' \<in> set (otp_codes (w_db demo_otp)). ot_code_hash o' = ''000000'' \<and>
       (\<forall>q \<in> set (otp_codes (w_db w')). ot_id q = ot_id o' \<longrightarrow> ot_consumed_at q \<noteq> None))"
proof -
  have "\<exists>token su w'. auth_VerifyOTP demo_auth ''p'' ''000000'' demo_otp = (Inr (token, su), w')"
    by (simp add: auth_VerifyOTP_def LatestLiveOTP_calm demo_otp_ok demo_otp_codes otp_maxAttempts_def bnd_def ret_def fail_def
      pg_ConsumeOTP_def uuid_Parse_def gen_ConsumeOTP_def db_exec_quiet pg_UpsertUserByPhone_def gen_UpsertUserByPhone_def
      draw_eq gets_def Let_def user_of_def auth_issueSession_def pg_CreateSession_def gen_CreateSession_def upd_where_Cons upd_where_Nil
      new_uuid_def randomToken_def rand_bytes_def auth_libs_def demo_libs_def)
  then obtain token su w' where v: "auth_VerifyOTP demo_auth ''p'' ''000000'' demo_otp = (Inr (token, su), w')" by blast
  from VerifyOTP_sound [OF demo_lib_ok(1) demo_otp_ok(1) v] v show ?thesis
    by (auto simp: auth_libs_def demo_libs_def)
qed

end
