(* ===== verification/Yaver_Chat.thy ===== *)
theory Yaver_Chat
  imports Yaver_Calls
begin

text \<open>
  The chat channel: conversations, messages, insights and settings (\<open>gen/chat.sql.go\<close>,
  \<open>gen/insights.sql.go\<close>, \<open>gen/chatsettings.sql.go\<close> and their repositories), the service
  (\<open>service/chat\<close>) and the built-in assistant and summarizer (\<open>adapter/chat/builtin\<close>).
  Another assistant is a parameter with the contract of the locale \<open>assistant\<close>. Free texts
  that reach a \<open>TEXT\<close> column are checked to be UTF-8, as PostgreSQL does; \<open>strings.ToLower\<close>
  is the parameter \<open>lower\<close>.
\<close>

section \<open>UTF-8\<close>

definition cont :: "nat \<Rightarrow> bool" where "cont b \<longleftrightarrow> 0x80 \<le> b \<and> b < 0xC0"

text \<open>Well-formed UTF-8 (RFC 3629): no stray bytes, no overlong forms, no surrogates.\<close>

fun utf8_bytes :: "nat list \<Rightarrow> bool" where
  "utf8_bytes [] = True"
| "utf8_bytes (a # s) =
     (if a < 0x80 then utf8_bytes s
      else case s of
        [] \<Rightarrow> False
      | b # s2 \<Rightarrow>
          if 0xC2 \<le> a \<and> a < 0xE0 then cont b \<and> utf8_bytes s2
          else (case s2 of
            [] \<Rightarrow> False
          | c # s3 \<Rightarrow>
              if 0xE0 \<le> a \<and> a < 0xF0
              then cont b \<and> cont c \<and> (a = 0xE0 \<longrightarrow> 0xA0 \<le> b) \<and> (a = 0xED \<longrightarrow> b < 0xA0) \<and> utf8_bytes s3
              else (case s3 of
                [] \<Rightarrow> False
              | e # s4 \<Rightarrow> 0xF0 \<le> a \<and> a < 0xF5 \<and> cont b \<and> cont c \<and> cont e \<and>
                  (a = 0xF0 \<longrightarrow> 0x90 \<le> b) \<and> (a = 0xF4 \<longrightarrow> b < 0x90) \<and> utf8_bytes s4)))"

definition utf8 :: "string \<Rightarrow> bool" where
  "utf8 s = utf8_bytes (map of_char s)"

definition invalid_utf8 :: go_error where
  "invalid_utf8 = ErrOther ''invalid byte sequence for encoding UTF8''"

section \<open>Queries (gen/chat.sql.go)\<close>

definition new_conversation :: "string \<Rightarrow> string \<Rightarrow> string \<Rightarrow> string option \<Rightarrow> unit wop" where
  "new_conversation cid org channel user = db_exec (\<lambda>t d.
     if List.find (\<lambda>r. cr_id r = cid) (conversations d) \<noteq> None then Inl ErrUniqueViolation
     else Inr ((), d\<lparr>conversations := conversations d @ [\<lparr>cr_id = cid, cr_org_id = org, cr_channel = channel,
       cr_customer_id = None, cr_status = ''open'', cr_created_at = t, cr_updated_at = t, cr_external_user = user\<rparr>]\<rparr>))"

definition gen_CreateChannelConversation :: "string \<Rightarrow> string \<Rightarrow> string \<Rightarrow> string option \<Rightarrow> unit wop" where
  "gen_CreateChannelConversation cid org channel user = new_conversation cid org channel user"

definition gen_CreateConversation :: "string \<Rightarrow> string \<Rightarrow> unit wop" where
  "gen_CreateConversation cid org = new_conversation cid org ''chat'' None"

text \<open>A comparison with NULL holds for no row.\<close>

definition gen_FindOpenChannelConversation :: "string \<Rightarrow> string \<Rightarrow> string option \<Rightarrow> string wop" where
  "gen_FindOpenChannelConversation org channel user = db_read (\<lambda>t d.
     case order_by_desc cr_updated_at (filter (\<lambda>r. cr_org_id r = org \<and> cr_channel r = channel \<and> user \<noteq> None \<and>
         cr_external_user r = user \<and> cr_status r = ''open'') (conversations d)) of
       [] \<Rightarrow> Inl ErrNoRows | r # _ \<Rightarrow> Inr (cr_id r))"

definition gen_GetConversation :: "string \<Rightarrow> ConversationRow wop" where
  "gen_GetConversation cid = db_read (\<lambda>t d.
     case List.find (\<lambda>r. cr_id r = cid) (conversations d) of None \<Rightarrow> Inl ErrNoRows | Some r \<Rightarrow> Inr r)"

definition gen_GetConversationTarget :: "string \<Rightarrow> (string \<times> string) wop" where
  "gen_GetConversationTarget cid = db_read (\<lambda>t d.
     case List.find (\<lambda>r. cr_id r = cid) (conversations d) of
       None \<Rightarrow> Inl ErrNoRows | Some r \<Rightarrow> Inr (cr_channel r, deref (cr_external_user r)))"

definition gen_InsertMessage :: "string \<Rightarrow> string \<Rightarrow> string \<Rightarrow> string \<Rightarrow> unit wop" where
  "gen_InsertMessage mid cid role content = db_exec (\<lambda>t d.
     if \<not> utf8 content then Inl invalid_utf8
     else if List.find (\<lambda>r. mg_id r = mid) (messages d) \<noteq> None then Inl ErrUniqueViolation
     else if List.find (\<lambda>r. cr_id r = cid) (conversations d) = None then Inl fk_violation
     else Inr ((), d\<lparr>messages := messages d @ [\<lparr>mg_id = mid, mg_conversation_id = cid, mg_role = role,
       mg_content = content, mg_created_at = t\<rparr>]\<rparr>))"

definition last_message :: "database \<Rightarrow> string \<Rightarrow> string" where
  "last_message d cid = (case order_by_desc mg_created_at (filter (\<lambda>m. mg_conversation_id m = cid) (messages d)) of
     [] \<Rightarrow> [] | m # _ \<Rightarrow> mg_content m)"

definition gen_ListConversationsByOrg :: "string \<Rightarrow> int \<Rightarrow> (ConversationRow \<times> string \<times> int) list wop" where
  "gen_ListConversationsByOrg org limit = db_read (\<lambda>t d.
     if limit < 0 then Inl (ErrOther ''LIMIT must not be negative'')
     else Inr (map (\<lambda>r. (r, last_message d (cr_id r),
         int (length (filter (\<lambda>m. mg_conversation_id m = cr_id r) (messages d)))))
       (take (nat limit) (order_by_desc cr_updated_at (filter (\<lambda>r. cr_org_id r = org) (conversations d))))))"

definition gen_ListMessages :: "string \<Rightarrow> MessageRow list wop" where
  "gen_ListMessages cid = db_read (\<lambda>t d.
     Inr (order_by mg_created_at (filter (\<lambda>m. mg_conversation_id m = cid) (messages d))))"

definition gen_SetConversationStatus :: "string \<Rightarrow> string \<Rightarrow> unit wop" where
  "gen_SetConversationStatus cid status = db_exec (\<lambda>t d. Inr ((), d\<lparr>conversations :=
     upd_where (\<lambda>r. cr_id r = cid) (\<lambda>r. r\<lparr>cr_status := status, cr_updated_at := t\<rparr>) (conversations d)\<rparr>))"

definition gen_TouchConversation :: "string \<Rightarrow> unit wop" where
  "gen_TouchConversation cid = db_exec (\<lambda>t d. Inr ((), d\<lparr>conversations :=
     upd_where (\<lambda>r. cr_id r = cid) (\<lambda>r. r\<lparr>cr_updated_at := t\<rparr>) (conversations d)\<rparr>))"

section \<open>Queries (gen/insights.sql.go, gen/chatsettings.sql.go)\<close>

definition gen_GetInsight :: "string \<Rightarrow> InsightRow wop" where
  "gen_GetInsight cid = db_read (\<lambda>t d.
     case List.find (\<lambda>r. in_conversation_id r = cid) (conversation_insights d) of None \<Rightarrow> Inl ErrNoRows | Some r \<Rightarrow> Inr r)"

definition gen_UpsertInsight :: "string \<Rightarrow> string \<Rightarrow> string \<Rightarrow> string \<Rightarrow> string \<Rightarrow> string \<Rightarrow> unit wop" where
  "gen_UpsertInsight cid org summary outcome sentiment action = db_exec (\<lambda>t d.
     if \<not> (utf8 summary \<and> utf8 action) then Inl invalid_utf8
     else if List.find (\<lambda>r. in_conversation_id r = cid) (conversation_insights d) \<noteq> None
     then Inr ((), d\<lparr>conversation_insights := upd_where (\<lambda>r. in_conversation_id r = cid)
       (\<lambda>r. r\<lparr>in_summary := summary, in_outcome := outcome, in_sentiment := sentiment, in_next_action := action,
         in_created_at := t\<rparr>) (conversation_insights d)\<rparr>)
     else if List.find (\<lambda>r. cr_id r = cid) (conversations d) = None then Inl fk_violation
     else Inr ((), d\<lparr>conversation_insights := conversation_insights d @ [\<lparr>in_conversation_id = cid, in_org_id = org,
       in_summary = summary, in_outcome = outcome, in_sentiment = sentiment, in_next_action = action, in_created_at = t\<rparr>]\<rparr>))"

definition gen_GetChatSettings :: "string \<Rightarrow> ChatSettingRow wop" where
  "gen_GetChatSettings org = db_read (\<lambda>t d.
     case List.find (\<lambda>r. ct_org_id r = org) (chat_settings d) of None \<Rightarrow> Inl ErrNoRows | Some r \<Rightarrow> Inr r)"

definition gen_UpsertChatSettings :: "string \<Rightarrow> string \<Rightarrow> string \<Rightarrow> string \<Rightarrow> string \<Rightarrow> unit wop" where
  "gen_UpsertChatSettings org instructions title welcome accent = db_exec (\<lambda>t d.
     let row = \<lparr>ct_org_id = org, ct_instructions = instructions, ct_widget_title = title, ct_welcome = welcome,
           ct_accent = accent, ct_updated_at = t\<rparr>
     in if \<not> (utf8 instructions \<and> utf8 title \<and> utf8 welcome \<and> utf8 accent) then Inl invalid_utf8
        else if List.find (\<lambda>r. ct_org_id r = org) (chat_settings d) \<noteq> None
        then Inr ((), d\<lparr>chat_settings := upd_where (\<lambda>r. ct_org_id r = org) (\<lambda>_. row) (chat_settings d)\<rparr>)
        else Inr ((), d\<lparr>chat_settings := chat_settings d @ [row]\<rparr>))"

section \<open>The repositories (postgres/chat.go, insights.go, chatsettings.go)\<close>

definition pg_CreateConversation :: "OrgID \<Rightarrow> string \<Rightarrow> unit wop" where
  "pg_CreateConversation org cid = gen_CreateConversation cid org"

definition pg_FindOrCreate :: "OrgID \<Rightarrow> string \<Rightarrow> string \<Rightarrow> string wop" where
  "pg_FindOrCreate org channel user =
     attempt (gen_FindOpenChannelConversation org channel (strPtr user)) (\<lambda>q. case q of
       Inr existing \<Rightarrow> ret existing
     | Inl e \<Rightarrow>
         if e \<noteq> ErrNoRows then fail e
         else bnd (draw (id_New ''conv'')) (\<lambda>cid.
              bnd (gen_CreateChannelConversation cid org channel (strPtr user)) (\<lambda>_. ret cid)))"

definition pg_GetConversation :: "string \<Rightarrow> (OrgID \<times> string) option wop" where
  "pg_GetConversation cid = attempt (gen_GetConversation cid) (\<lambda>q. case q of
       Inl e \<Rightarrow> if e = ErrNoRows then ret None else fail e
     | Inr r \<Rightarrow> ret (Some (cr_org_id r, cr_status r)))"

definition pg_ChannelTarget :: "string \<Rightarrow> (string \<times> string) wop" where
  "pg_ChannelTarget cid = gen_GetConversationTarget cid"

definition pg_conv_SetStatus :: "string \<Rightarrow> string \<Rightarrow> unit wop" where
  "pg_conv_SetStatus cid status = gen_SetConversationStatus cid status"

definition pg_ListConversations :: "OrgID \<Rightarrow> int \<Rightarrow> Conversation list wop" where
  "pg_ListConversations org limit = bnd (gen_ListConversationsByOrg org (go_int32 limit)) (\<lambda>rows.
     ret (map (\<lambda>(r, lm, n). \<lparr>cv_ID = cr_id r, cv_Channel = cr_channel r, cv_ExternalUser = deref (cr_external_user r),
       cv_Status = cr_status r, cv_LastMessage = lm, cv_MessageCount = n, cv_CreatedAt = cr_created_at r,
       cv_UpdatedAt = cr_updated_at r\<rparr>) rows))"

definition pg_AddMessage :: "string \<Rightarrow> string \<Rightarrow> string \<Rightarrow> unit wop" where
  "pg_AddMessage cid role content = bnd (draw (id_New ''msg'')) (\<lambda>mid.
     bnd (gen_InsertMessage mid cid role content) (\<lambda>_. gen_TouchConversation cid))"

definition message_of :: "MessageRow \<Rightarrow> Message" where
  "message_of r = \<lparr>ms_Role = mg_role r, ms_Content = mg_content r, ms_CreatedAt = mg_created_at r\<rparr>"

definition pg_Messages :: "string \<Rightarrow> Message list wop" where
  "pg_Messages cid = bnd (gen_ListMessages cid) (\<lambda>rows. ret (map message_of rows))"

definition pg_chat :: ChatRepo where
  "pg_chat = \<lparr>ctr_CreateConversation = pg_CreateConversation, ctr_GetConversation = pg_GetConversation,
     ctr_ChannelTarget = pg_ChannelTarget, ctr_SetStatus = pg_conv_SetStatus, ctr_ListConversations = pg_ListConversations,
     ctr_AddMessage = pg_AddMessage, ctr_Messages = pg_Messages, ctr_FindOrCreate = pg_FindOrCreate\<rparr>"

definition pg_insight_Save :: "OrgID \<Rightarrow> string \<Rightarrow> ConversationInsight \<Rightarrow> unit wop" where
  "pg_insight_Save org cid i = gen_UpsertInsight cid org (ci_Summary i) (ci_Outcome i) (ci_Sentiment i) (ci_NextAction i)"

definition pg_insight_Get :: "string \<Rightarrow> ConversationInsight option wop" where
  "pg_insight_Get cid = attempt (gen_GetInsight cid) (\<lambda>q. case q of
       Inl e \<Rightarrow> if e = ErrNoRows then ret None else fail e
     | Inr r \<Rightarrow> ret (Some \<lparr>ci_Summary = in_summary r, ci_Outcome = in_outcome r, ci_Sentiment = in_sentiment r,
         ci_NextAction = in_next_action r, ci_CreatedAt = in_created_at r\<rparr>))"

definition pg_insights :: InsightRepo where
  "pg_insights = \<lparr>isr_Save = pg_insight_Save, isr_Get = pg_insight_Get\<rparr>"

definition pg_settings_Get :: "OrgID \<Rightarrow> ChatSettings wop" where
  "pg_settings_Get org = attempt (gen_GetChatSettings org) (\<lambda>q. case q of
       Inl e \<Rightarrow> if e = ErrNoRows then ret DefaultChatSettings else fail e
     | Inr r \<Rightarrow> ret \<lparr>ch_Instructions = ct_instructions r, ch_WidgetTitle = ct_widget_title r, ch_Welcome = ct_welcome r,
         ch_Accent = ct_accent r\<rparr>)"

definition pg_settings_Upsert :: "OrgID \<Rightarrow> ChatSettings \<Rightarrow> unit wop" where
  "pg_settings_Upsert org s = gen_UpsertChatSettings org (ch_Instructions s) (ch_WidgetTitle s) (ch_Welcome s) (ch_Accent s)"

definition pg_chat_settings :: ChatSettingsRepo where
  "pg_chat_settings = \<lparr>csr_Get = pg_settings_Get, csr_Upsert = pg_settings_Upsert\<rparr>"

section \<open>The built-in assistant (adapter/chat/builtin/builtin.go)\<close>

record intent =
  it_triggers :: "string list"
  it_reply :: string

definition intents :: "intent list" where
  "intents = [
    \<lparr>it_triggers = [''hi'', ''hello'', ''hey'', ''salam'', ''assalam''],
      it_reply = ''Hello! '' @ [CHR 0xF0, CHR 0x9F, CHR 0x91, CHR 0x8B] @ '' I'm here to help with your order '' @
        [CHR 0xE2, CHR 0x80, CHR 0x94] @ '' tracking, returns, delivery, or anything else. What do you need?''\<rparr>,
    \<lparr>it_triggers = [''track'', ''where'', ''status'', ''order status'', ''kobe'', ''delivery date''],
      it_reply = ''I can check that for you. Could you share your order number? Most orders arrive within 2'' @
        [CHR 0xE2, CHR 0x80, CHR 0x93] @ ''3 working days inside Dhaka and 3'' @ [CHR 0xE2, CHR 0x80, CHR 0x93] @
        ''5 days outside.''\<rparr>,
    \<lparr>it_triggers = [''return'', ''refund'', ''exchange'', ''ferot''],
      it_reply = ''No problem '' @ [CHR 0xE2, CHR 0x80, CHR 0x94] @
        '' returns are accepted within 7 days of delivery for unused items. Would you like me to start a return request?''\<rparr>,
    \<lparr>it_triggers = [''delivery'', ''shipping'', ''charge'', ''cost of delivery'', ''koto''],
      it_reply = ''Delivery is 60'' @ [CHR 0xE0, CHR 0xA7, CHR 0xB3] @ '' inside Dhaka and 120'' @
        [CHR 0xE0, CHR 0xA7, CHR 0xB3] @ '' outside. Cash on delivery is available everywhere.''\<rparr>,
    \<lparr>it_triggers = [''cancel''],
      it_reply = ''I can help cancel that. If the order hasn't shipped yet, cancellation is free '' @
        [CHR 0xE2, CHR 0x80, CHR 0x94] @ '' please share your order number.''\<rparr>,
    \<lparr>it_triggers = [''thanks'', ''thank'', ''dhonnobad''],
      it_reply = ''You're welcome! '' @ [CHR 0xF0, CHR 0x9F, CHR 0x99, CHR 0x8F] @ '' Anything else I can help with?''\<rparr>
  ]"

definition builtin_answer :: "string \<Rightarrow> string" where
  "builtin_answer text = (if text = [] then ''Hello! How can I help you today?''
     else case List.find (\<lambda>i. list_ex (contains text) (it_triggers i)) intents of
         Some i \<Rightarrow> it_reply i
       | None \<Rightarrow> ''Thanks for your message! I've noted it and a team member will follow up shortly. Meanwhile, I can help with order tracking, returns, or delivery info.'')"

definition builtin_Reply :: "(string \<Rightarrow> string) \<Rightarrow> Message list \<Rightarrow> string" where
  "builtin_Reply lower history = builtin_answer
     (case List.find (\<lambda>m. ms_Role m = ''user'') (rev history) of None \<Rightarrow> [] | Some m \<Rightarrow> lower (ms_Content m))"

definition builtin_model :: "(string \<Rightarrow> string) \<Rightarrow> ChatModel" where
  "builtin_model lower = \<lparr>cml_Reply = (\<lambda>_ history. ret (builtin_Reply lower history))\<rparr>"

section \<open>The built-in summarizer (adapter/chat/builtin/summarize.go)\<close>

definition negativeWords :: "string list" where
  "negativeWords = [''angry'', ''worst'', ''terrible'', ''scam'', ''cheat'', ''refund'', ''complaint'', ''kharap'', ''baje'', ''problem'']"

definition positiveWords :: "string list" where
  "positiveWords = [''thanks'', ''thank'', ''great'', ''perfect'', ''dhonnobad'', ''good'', ''love'', ''happy'']"

definition humanWords :: "string list" where
  "humanWords = [''human'', ''agent'', ''manager'', ''speak to'', ''talk to someone'', ''representative'', ''call me'']"

definition saleWords :: "string list" where
  "saleWords = [''buy'', ''order'', ''purchase'', ''checkout'', ''confirm'', ''place order'', ''kinbo'', ''kinte chai'']"

definition resolvedWords :: "string list" where
  "resolvedWords = [''thanks'', ''thank'', ''solved'', ''got it'', ''understood'', ''dhonnobad'', ''ok thanks'']"

definition containsAny :: "string \<Rightarrow> string list \<Rightarrow> bool" where
  "containsAny s ws = list_ex (contains s) ws"

text \<open>The digits are written from the last one; twenty bytes hold every \<open>int\<close>.\<close>

fun itoa_loop :: "nat \<Rightarrow> string \<Rightarrow> string" where
  "itoa_loop n acc = (if n = 0 then acc else itoa_loop (n div 10) (char_of (48 + n mod 10) # acc))"

declare itoa_loop.simps [simp del]

definition itoa :: "int \<Rightarrow> string" where
  "itoa n = (if n = 0 then ''0'' else itoa_loop (nat n) [])"

definition ellipsis :: string where
  "ellipsis = [CHR 0xE2, CHR 0x80, CHR 0xA6]"

definition summarize :: "string \<Rightarrow> int \<Rightarrow> string" where
  "summarize lastUser turns =
     (let msg = trim_space lastUser;
          msg' = (if length msg > 140 then trim_space (take 140 msg) @ ellipsis else msg);
          turnWord = (if turns \<noteq> 1 then ''messages'' else ''message'')
      in itoa turns @ '' customer '' @ turnWord @ ''; latest: '' @ [CHR 0x22] @ msg' @ [CHR 0x22])"

definition summary_outcome :: "string \<Rightarrow> string \<Rightarrow> string \<times> string" where
  "summary_outcome userText sentiment =
     (if containsAny userText humanWords
      then (''needs_human'', ''Assign a team member '' @ [CHR 0xE2, CHR 0x80, CHR 0x94] @ '' the customer asked for a person.'')
      else if containsAny userText saleWords
      then (''sale'', ''Confirm the order details and payment method.'')
      else if containsAny userText resolvedWords
      then (''resolved'', ''No action needed '' @ [CHR 0xE2, CHR 0x80, CHR 0x94] @ '' the customer's question was answered.'')
      else if sentiment = ''negative''
      then (''needs_human'', ''Reach out personally '' @ [CHR 0xE2, CHR 0x80, CHR 0x94] @ '' the customer sounds unhappy.'')
      else (''pending'', ''Follow up with the customer to close the loop.''))"

definition builtin_Summarize :: "(string \<Rightarrow> string) \<Rightarrow> Message list \<Rightarrow> ConversationInsight" where
  "builtin_Summarize lower history =
     (let user = filter (\<lambda>m. ms_Role m = ''user'') history;
          userText = concat (map (\<lambda>m. '' '' @ lower (ms_Content m)) user);
          sentiment = (if containsAny userText negativeWords then ''negative''
            else if containsAny userText positiveWords then ''positive'' else ''neutral'')
      in if user = []
         then \<lparr>ci_Summary = ''No customer messages yet.'', ci_Outcome = ''unknown'', ci_Sentiment = ''neutral'',
           ci_NextAction = ''Wait for the customer to reply.'', ci_CreatedAt = zero_time\<rparr>
         else (case summary_outcome userText sentiment of (outcome, nextAction) \<Rightarrow>
           \<lparr>ci_Summary = summarize (ms_Content (last user)) (int (length user)), ci_Outcome = outcome,
             ci_Sentiment = sentiment, ci_NextAction = nextAction, ci_CreatedAt = zero_time\<rparr>))"

definition builtin_summarizer :: "(string \<Rightarrow> string) \<Rightarrow> Summarizer" where
  "builtin_summarizer lower = \<lparr>smz_Summarize = (\<lambda>history. ret (builtin_Summarize lower history))\<rparr>"

section \<open>The service (service/chat)\<close>

record ChatService =
  cs_repo :: ChatRepo
  cs_settings :: ChatSettingsRepo
  cs_model :: ChatModel
  cs_summarizer :: Summarizer
  cs_insights :: InsightRepo
  cs_activity :: "ActivityPublisher option"

definition defaultPrompt :: string where
  "defaultPrompt = ''You are a friendly customer-support assistant for a Bangladeshi online store. '' @
     ''Be concise and helpful.''"

definition chat_publish :: "ChatService \<Rightarrow> ActivityEvent \<Rightarrow> world \<Rightarrow> world" where
  "chat_publish s e w = (case cs_activity s of None \<Rightarrow> w | Some a \<Rightarrow> act_Publish a e w)"

definition preview :: "string \<Rightarrow> string" where
  "preview text = (if length text > 80 then take 80 text @ ellipsis else text)"

definition chat_Settings :: "ChatService \<Rightarrow> OrgID \<Rightarrow> ChatSettings wop" where
  "chat_Settings s org = csr_Get (cs_settings s) org"

definition chat_SaveSettings :: "ChatService \<Rightarrow> OrgID \<Rightarrow> ChatSettings \<Rightarrow> unit wop" where
  "chat_SaveSettings s org cs = csr_Upsert (cs_settings s) org cs"

definition chat_owns :: "ChatService \<Rightarrow> OrgID \<Rightarrow> string \<Rightarrow> unit wop" where
  "chat_owns s org cid = bnd (ctr_GetConversation (cs_repo s) cid) (\<lambda>found. case found of
       None \<Rightarrow> fail ErrNotFound
     | Some (owner, _) \<Rightarrow> if owner \<noteq> org then fail ErrNotFound else ret ())"

definition chat_reply :: "ChatService \<Rightarrow> OrgID \<Rightarrow> string \<Rightarrow> string \<Rightarrow> string wop" where
  "chat_reply s org cid text =
     bnd (ctr_AddMessage (cs_repo s) cid ''user'' text) (\<lambda>_.
     bnd (perform (chat_publish s \<lparr>av_Type = ''chat.message'', av_OrgID = org, av_Title = ''New chat message'',
       av_Detail = preview text, av_At = zero_time\<rparr>)) (\<lambda>_.
     bnd (ctr_GetConversation (cs_repo s) cid) (\<lambda>found.
     if (case found of None \<Rightarrow> [] | Some (_, status) \<Rightarrow> status) = ''handling'' then ret []
     else
       bnd (ctr_Messages (cs_repo s) cid) (\<lambda>history.
       attempt (csr_Get (cs_settings s) org) (\<lambda>q.
       let prompt = (case q of Inr cs \<Rightarrow> if ch_Instructions cs \<noteq> [] then ch_Instructions cs else defaultPrompt
             | Inl _ \<Rightarrow> defaultPrompt)
       in bnd (cml_Reply (cs_model s) prompt history) (\<lambda>reply.
          bnd (ctr_AddMessage (cs_repo s) cid ''assistant'' reply) (\<lambda>_. ret reply)))))))"

definition chat_Send :: "ChatService \<Rightarrow> OrgID \<Rightarrow> string \<Rightarrow> string \<Rightarrow> (string \<times> string) wop" where
  "chat_Send s org cid text =
     bnd (if cid = []
          then bnd (draw (id_New ''conv'')) (\<lambda>new. bnd (ctr_CreateConversation (cs_repo s) org new) (\<lambda>_. ret new))
          else bnd (chat_owns s org cid) (\<lambda>_. ret cid)) (\<lambda>conv.
     bnd (chat_reply s org conv text) (\<lambda>reply. ret (conv, reply)))"

definition chat_SendChannel :: "ChatService \<Rightarrow> OrgID \<Rightarrow> string \<Rightarrow> string \<Rightarrow> string \<Rightarrow> string wop" where
  "chat_SendChannel s org channel user text = bnd (ctr_FindOrCreate (cs_repo s) org channel user) (\<lambda>cid.
     chat_reply s org cid text)"

definition chat_List :: "ChatService \<Rightarrow> OrgID \<Rightarrow> Conversation list wop" where
  "chat_List s org = ctr_ListConversations (cs_repo s) org 100"

definition chat_Messages :: "ChatService \<Rightarrow> OrgID \<Rightarrow> string \<Rightarrow> Message list wop" where
  "chat_Messages s org cid = bnd (chat_owns s org cid) (\<lambda>_. ctr_Messages (cs_repo s) cid)"

text \<open>A missing insight is the zero value, as \<open>Get\<close> returns it.\<close>

definition zero_insight :: ConversationInsight where
  "zero_insight = \<lparr>ci_Summary = [], ci_Outcome = [], ci_Sentiment = [], ci_NextAction = [], ci_CreatedAt = zero_time\<rparr>"

definition chat_Summarize :: "ChatService \<Rightarrow> OrgID \<Rightarrow> string \<Rightarrow> ConversationInsight wop" where
  "chat_Summarize s org cid = bnd (chat_owns s org cid) (\<lambda>_.
     bnd (ctr_Messages (cs_repo s) cid) (\<lambda>history.
     bnd (smz_Summarize (cs_summarizer s) history) (\<lambda>i.
     bnd (isr_Save (cs_insights s) org cid i) (\<lambda>_.
     bnd (isr_Get (cs_insights s) cid) (\<lambda>saved. ret (case saved of None \<Rightarrow> zero_insight | Some j \<Rightarrow> j))))))"

definition chat_Insight :: "ChatService \<Rightarrow> OrgID \<Rightarrow> string \<Rightarrow> ConversationInsight option wop" where
  "chat_Insight s org cid = bnd (chat_owns s org cid) (\<lambda>_. isr_Get (cs_insights s) cid)"

definition validStatus :: "string set" where
  "validStatus = {''open'', ''handling'', ''closed''}"

definition chat_SetStatus :: "ChatService \<Rightarrow> OrgID \<Rightarrow> string \<Rightarrow> string \<Rightarrow> unit wop" where
  "chat_SetStatus s org cid status = (if status \<notin> validStatus then fail ErrFlowInvalid
     else bnd (chat_owns s org cid) (\<lambda>_. ctr_SetStatus (cs_repo s) cid status))"

definition chat_AgentReply :: "ChatService \<Rightarrow> OrgID \<Rightarrow> string \<Rightarrow> string \<Rightarrow> (string \<times> string) wop" where
  "chat_AgentReply s org cid text = bnd (chat_owns s org cid) (\<lambda>_.
     bnd (ctr_SetStatus (cs_repo s) cid ''handling'') (\<lambda>_.
     bnd (ctr_AddMessage (cs_repo s) cid ''agent'' text) (\<lambda>_.
     ctr_ChannelTarget (cs_repo s) cid)))"

definition chat_service :: "ChatModel \<Rightarrow> Summarizer \<Rightarrow> ActivityPublisher option \<Rightarrow> ChatService" where
  "chat_service m z a = \<lparr>cs_repo = pg_chat, cs_settings = pg_chat_settings, cs_model = m, cs_summarizer = z,
     cs_insights = pg_insights, cs_activity = a\<rparr>"

section \<open>Tenancy\<close>

text \<open>
  What belongs to the other orgs: their conversations, the messages and insights of those,
  and their settings. Conversation ids are unique (primary key).
\<close>

definition chats_ok :: "database \<Rightarrow> bool" where
  "chats_ok d \<longleftrightarrow> distinct (map cr_id (conversations d))"

definition other_convs :: "OrgID \<Rightarrow> database \<Rightarrow> string set" where
  "other_convs org d = cr_id ` {r \<in> set (conversations d). cr_org_id r \<noteq> org}"

definition others :: "OrgID \<Rightarrow> database \<Rightarrow> ConversationRow list \<times> MessageRow list \<times> InsightRow list \<times> ChatSettingRow list" where
  "others org d = (filter (\<lambda>r. cr_org_id r \<noteq> org) (conversations d),
     filter (\<lambda>m. mg_conversation_id m \<in> other_convs org d) (messages d),
     filter (\<lambda>i. in_conversation_id i \<in> other_convs org d) (conversation_insights d),
     filter (\<lambda>r. ct_org_id r \<noteq> org) (chat_settings d))"

text \<open>What an operation on a conversation \<open>cid\<close> that is not another org's may do.\<close>

definition within :: "OrgID \<Rightarrow> string \<Rightarrow> database \<Rightarrow> database \<Rightarrow> bool" where
  "within org cid d d' \<longleftrightarrow> (chats_ok d \<and> cid \<notin> other_convs org d \<longrightarrow>
     chats_ok d' \<and> cid \<notin> other_convs org d' \<and> others org d' = others org d)"

lemma preorder_within [simp, intro]: "preorder_rel (within org cid)"
  by (rule preorder_relI) (auto simp: within_def)

lemma within_refl [simp, intro]: "within org cid d d"
  by (simp add: within_def)

lemma filter_upd_conv:
  assumes "cid \<notin> other_convs org d" and "\<And>r. cr_id (f r) = cr_id r \<and> cr_org_id (f r) = cr_org_id r"
  shows "filter (\<lambda>r. cr_org_id r \<noteq> org) (upd_where (\<lambda>r. cr_id r = cid) f (conversations d))
     = filter (\<lambda>r. cr_org_id r \<noteq> org) (conversations d)"
proof -
  have "filter (\<lambda>r. cr_org_id r \<noteq> org) (upd_where (\<lambda>r. cr_id r = cid) f rows) = filter (\<lambda>r. cr_org_id r \<noteq> org) rows"
    if "set rows \<subseteq> set (conversations d)" for rows
    using that assms by (induction rows) (auto simp: upd_where_def other_convs_def)
  then show ?thesis by simp
qed

lemma other_convs_filter: "other_convs org d = cr_id ` set (filter (\<lambda>r. cr_org_id r \<noteq> org) (conversations d))"
  by (auto simp: other_convs_def)

lemma within_conv_update:
  assumes "\<And>r. cr_id (f r) = cr_id r \<and> cr_org_id (f r) = cr_org_id r"
  shows "within org cid d (d\<lparr>conversations := upd_where (\<lambda>r. cr_id r = cid) f (conversations d)\<rparr>)"
proof -
  have "map cr_id (upd_where (\<lambda>r. cr_id r = cid) f (conversations d)) = map cr_id (conversations d)"
    using assms by (simp add: map_key_upd_where)
  then show ?thesis
    using filter_upd_conv [OF _ assms, of cid org d]
    by (simp add: within_def others_def other_convs_filter chats_ok_def)
qed

lemma within_new_conv:
  assumes "List.find (\<lambda>r. cr_id r = cid') (conversations d) = None" and "cr_id row = cid'" and "cr_org_id row = org"
  shows "within org cid d (d\<lparr>conversations := conversations d @ [row]\<rparr>)"
  using assms by (auto simp: within_def others_def other_convs_filter chats_ok_def find_None_iff)

lemma within_append:
  assumes "mg_conversation_id m = cid"
  shows "within org cid d (d\<lparr>messages := messages d @ [m]\<rparr>)"
  using assms by (simp add: within_def others_def other_convs_filter chats_ok_def)

lemma within_statements [mrel_intros]:
  "mrel (dbrel (within org cid)) (gen_InsertMessage mid cid role content)"
  "mrel (dbrel (within org cid)) (gen_TouchConversation cid)"
  "mrel (dbrel (within org cid)) (gen_SetConversationStatus cid status)"
  "mrel (dbrel (within org cid)) (new_conversation cid' org channel user)"
  unfolding gen_InsertMessage_def gen_TouchConversation_def gen_SetConversationStatus_def new_conversation_def
  by (rule mrel_db_exec; auto intro: within_append within_conv_update within_new_conv split: if_splits)+

lemma within_insight [mrel_intros]: "mrel (dbrel (within org cid)) (gen_UpsertInsight cid org' a b c e)"
proof -
  have upd: "filter (\<lambda>i. in_conversation_id i \<in> S) (upd_where (\<lambda>r. in_conversation_id r = cid) f rows)
      = filter (\<lambda>i. in_conversation_id i \<in> S) rows"
    if "cid \<notin> S" "\<And>r. in_conversation_id (f r) = in_conversation_id r" for S f rows
    by (rule filter_upd_where_other) (simp add: that)
  show ?thesis unfolding gen_UpsertInsight_def
    by (rule mrel_db_exec)
       (auto simp: within_def others_def other_convs_filter chats_ok_def upd split: if_splits)
qed

lemma within_settings [mrel_intros]: "mrel (dbrel (within org cid)) (gen_UpsertChatSettings org a b c e)"
  unfolding gen_UpsertChatSettings_def Let_def
  by (rule mrel_db_exec)
     (auto simp: within_def others_def other_convs_filter chats_ok_def filter_upd_where_other split: if_splits)

text \<open>The conversation with an id, when there is one.\<close>

abbreviation conv :: "string \<Rightarrow> database \<Rightarrow> ConversationRow option" where
  "conv cid d \<equiv> List.find (\<lambda>r. cr_id r = cid) (conversations d)"

lemma wp_GetConversation:
  "wp (pg_GetConversation cid) (\<lambda>r w'. w_db w' = w_db w \<and> env_frame w w' \<and> kept_calm w w' \<and> (case r of
      Inl e \<Rightarrow> e = ErrConn \<and> w_sched w \<noteq> []
    | Inr found \<Rightarrow> found = map_option (\<lambda>row. (cr_org_id row, cr_status row)) (conv cid (w_db w)))) w"
proof -
  have "wp (gen_GetConversation cid) (\<lambda>r w'. w_db w' = w_db w \<and> env_frame w w' \<and> kept_calm w w' \<and> (case r of
      Inl e \<Rightarrow> e = ErrConn \<and> w_sched w \<noteq> [] \<or> e = ErrNoRows \<and> conv cid (w_db w) = None
    | Inr row \<Rightarrow> conv cid (w_db w) = Some row)) w"
    unfolding gen_GetConversation_def db_read_def
    by (rule wp_db_exec_sched) (auto simp: kept_calm_def split: option.splits)
  then show ?thesis unfolding pg_GetConversation_def by (rule wp_attempt) (auto split: sum.splits)
qed

lemma mine:
  assumes "chats_ok d" and "conv cid d = Some row" and "cr_org_id row = org"
  shows "cid \<notin> other_convs org d"
  using assms find_SomeD [OF assms(2)] by (auto simp: chats_ok_def other_convs_def distinct_map dest: inj_onD)

text \<open>The contract of an assistant: it answers, it publishes, and it touches no table.\<close>

locale assistant =
  fixes m :: ChatModel and z :: Summarizer and a :: "ActivityPublisher option"
  assumes answer_db: "mrel (dbrel (\<lambda>d d'. d' = d)) (cml_Reply m p h)"
    and summary_db: "mrel (dbrel (\<lambda>d d'. d' = d)) (smz_Summarize z h)"
    and feed_db: "w_db (chat_publish (chat_service m z a) e w) = w_db w"
begin

lemma svc_simps [simp]:
  "ctr_AddMessage (cs_repo (chat_service m z a)) = pg_AddMessage" "ctr_GetConversation (cs_repo (chat_service m z a)) = pg_GetConversation"
  "ctr_Messages (cs_repo (chat_service m z a)) = pg_Messages" "csr_Get (cs_settings (chat_service m z a)) = pg_settings_Get"
  "csr_Upsert (cs_settings (chat_service m z a)) = pg_settings_Upsert" "cs_model (chat_service m z a) = m" "cs_summarizer (chat_service m z a) = z"
  "ctr_CreateConversation (cs_repo (chat_service m z a)) = pg_CreateConversation" "ctr_FindOrCreate (cs_repo (chat_service m z a)) = pg_FindOrCreate"
  "ctr_SetStatus (cs_repo (chat_service m z a)) = pg_conv_SetStatus" "ctr_ChannelTarget (cs_repo (chat_service m z a)) = pg_ChannelTarget"
  "isr_Save (cs_insights (chat_service m z a)) = pg_insight_Save" "isr_Get (cs_insights (chat_service m z a)) = pg_insight_Get"
  "ctr_ListConversations (cs_repo (chat_service m z a)) = pg_ListConversations"
  by (simp_all add: chat_service_def pg_chat_def pg_chat_settings_def pg_insights_def)

lemma no_db_write:
  "mrel (dbrel (\<lambda>d d'. d' = d)) n \<Longrightarrow> mrel (dbrel (within org cid)) n"
  by (erule mrel_mono) (simp add: dbrel_def)

lemma within_publish: "mrel (dbrel (within org cid)) (perform (chat_publish (chat_service m z a) e))"
  by (rule mrel_perform) (simp add: dbrel_def feed_db)

lemmas repo_defs = pg_AddMessage_def pg_GetConversation_def gen_GetConversation_def pg_Messages_def gen_ListMessages_def
  pg_settings_Get_def gen_GetChatSettings_def pg_conv_SetStatus_def pg_ChannelTarget_def gen_GetConversationTarget_def
  pg_insight_Save_def pg_insight_Get_def gen_GetInsight_def

lemma within_reply: "mrel (dbrel (within org cid)) (chat_reply (chat_service m z a) org cid text)"
  unfolding chat_reply_def svc_simps repo_defs Let_def
  by (intro mrel_intros within_publish no_db_write [OF answer_db]) auto

lemma wp_owns:
  "wp (chat_owns (chat_service m z a) org cid) (\<lambda>r w'. w_db w' = w_db w \<and> env_frame w w' \<and> kept_calm w w' \<and> (case r of
      Inr _ \<Rightarrow> (\<exists>row. conv cid (w_db w) = Some row \<and> cr_org_id row = org)
    | Inl e \<Rightarrow> e = ErrConn \<and> w_sched w \<noteq> [] \<or> e = ErrNotFound \<and> (\<forall>row. conv cid (w_db w) = Some row \<longrightarrow> cr_org_id row \<noteq> org))) w"
  unfolding chat_owns_def svc_simps
  by (rule wp_bnd [OF wp_GetConversation]) (auto split: option.splits)

text \<open>An operation behind the ownership check stays within the org.\<close>

lemma guarded:
  assumes "\<And>v. mrel (dbrel (within org cid)) (k v)" and "chats_ok (w_db w)"
  shows "wp (bnd (chat_owns (chat_service m z a) org cid) k) (\<lambda>r w'. chats_ok (w_db w') \<and> others org (w_db w') = others org (w_db w)) w"
proof (rule wp_bnd [OF wp_owns], goal_cases)
  case (1 e w1)
  with assms(2) show ?case by simp
next
  case (2 u w1)
  then have "cid \<notin> other_convs org (w_db w1)" using mine assms(2) by auto
  with 2 assms(2) show ?case by (intro wp_mono [OF wp_mrel [OF assms(1)]]) (auto simp: dbrel_def within_def)
qed

text \<open>Opening a conversation: its id was free, so it is not another org's.\<close>

lemma wp_new_conversation:
  assumes "chats_ok (w_db w)"
  shows "wp (new_conversation cid org channel user) (\<lambda>r w'. env_frame w w' \<and> (case r of
      Inl e \<Rightarrow> w_db w' = w_db w
    | Inr _ \<Rightarrow> chats_ok (w_db w') \<and> others org (w_db w') = others org (w_db w) \<and> cid \<notin> other_convs org (w_db w') \<and>
        (\<exists>row. w_db w' = (w_db w)\<lparr>conversations := conversations (w_db w) @ [row]\<rparr> \<and> conv cid (w_db w) = None \<and>
          cr_id row = cid \<and> cr_org_id row = org \<and> cr_status row = ''open''))) w"
proof -
  have free: "cid \<notin> other_convs org d" if "conv cid d = None" for d
    using that by (auto simp: other_convs_def find_None_iff)
  show ?thesis unfolding new_conversation_def
  proof (rule wp_db_exec, goal_cases)
    case (2 w')
    show ?case
    proof (cases "conv cid (w_db w)")
      case None
      let ?row = "\<lparr>cr_id = cid, cr_org_id = org, cr_channel = channel, cr_customer_id = None, cr_status = ''open'',
        cr_created_at = w_now w', cr_updated_at = w_now w', cr_external_user = user\<rparr>"
      from within_new_conv [OF None, of ?row org cid] free [OF None] assms None 2 show ?thesis by (auto simp: within_def)
    qed (use 2 in simp)
  qed simp
qed

lemma wp_FindOrCreate:
  assumes "chats_ok (w_db w)"
  shows "wp (pg_FindOrCreate org channel user) (\<lambda>r w'. chats_ok (w_db w') \<and> others org (w_db w') = others org (w_db w) \<and>
     (\<forall>cid. r = Inr cid \<longrightarrow> cid \<notin> other_convs org (w_db w'))) w"
proof -
  have own: "cr_id row \<notin> other_convs org (w_db w)"
    if "order_by_desc cr_updated_at (filter (\<lambda>r. cr_org_id r = org \<and> P r) (conversations (w_db w))) = row # rest" for row rest P
  proof -
    have "row \<in> set (filter (\<lambda>r. cr_org_id r = org \<and> P r) (conversations (w_db w)))"
      using that by (metis list.set_intros(1) set_order_by_desc)
    then show ?thesis using assms by (auto simp: other_convs_def chats_ok_def distinct_map dest: inj_onD)
  qed
  have find: "wp (gen_FindOpenChannelConversation org channel u) (\<lambda>r w'. w_db w' = w_db w \<and>
      (\<forall>cid. r = Inr cid \<longrightarrow> cid \<notin> other_convs org (w_db w))) w" for u
    unfolding gen_FindOpenChannelConversation_def by (rule wp_db_read) (auto dest: own split: list.splits)
  show ?thesis unfolding pg_FindOrCreate_def
  proof (rule wp_attempt [OF find], goal_cases)
    case (1 q w1)
    show ?case
    proof (cases q)
      case (Inl e)
      have "chats_ok (w_db (snd (id_New ''conv'' w1)))" using 1 assms by simp
      from wp_new_conversation [OF this] show ?thesis
        unfolding Inl sum.case gen_CreateChannelConversation_def
        using 1 assms by (auto intro!: wp_bnd)
    next
      case (Inr cid)
      with 1 assms show ?thesis by simp
    qed
  qed
qed

lemma reply_within:
  assumes "chats_ok (w_db w)" and "cid \<notin> other_convs org (w_db w)"
  shows "wp (chat_reply (chat_service m z a) org cid text)
     (\<lambda>r w'. chats_ok (w_db w') \<and> others org (w_db w') = others org (w_db w)) w"
  by (rule wp_mono [OF wp_mrel [OF within_reply]]) (use assms in \<open>auto simp: dbrel_def within_def\<close>)

end

text \<open>The operations of the service that change tables.\<close>

datatype chat_op = SendMsg string string | ChannelMsg string string string | MoveTo string string | AgentSays string string
  | SummarizeConv string | SaveCfg ChatSettings

fun run_chat_op :: "ChatService \<Rightarrow> OrgID \<Rightarrow> chat_op \<Rightarrow> world \<Rightarrow> world" where
  "run_chat_op s org (SendMsg cid msg) w = snd (chat_Send s org cid msg w)"
| "run_chat_op s org (ChannelMsg channel user msg) w = snd (chat_SendChannel s org channel user msg w)"
| "run_chat_op s org (MoveTo cid status) w = snd (chat_SetStatus s org cid status w)"
| "run_chat_op s org (AgentSays cid msg) w = snd (chat_AgentReply s org cid msg w)"
| "run_chat_op s org (SummarizeConv cid) w = snd (chat_Summarize s org cid w)"
| "run_chat_op s org (SaveCfg cs) w = snd (chat_SaveSettings s org cs w)"

context assistant
begin

lemma Send_within:
  assumes "chats_ok (w_db w)"
  shows "wp (chat_Send (chat_service m z a) org cid msg) (\<lambda>r w'. chats_ok (w_db w') \<and> others org (w_db w') = others org (w_db w)) w"
proof -
  have start: "wp (if cid = []
          then bnd (draw (id_New ''conv'')) (\<lambda>new. bnd (pg_CreateConversation org new) (\<lambda>_. ret new))
          else bnd (chat_owns (chat_service m z a) org cid) (\<lambda>_. ret cid))
      (\<lambda>r w'. chats_ok (w_db w') \<and> others org (w_db w') = others org (w_db w) \<and>
        (\<forall>c. r = Inr c \<longrightarrow> c \<notin> other_convs org (w_db w'))) w"
  proof (cases "cid = []")
    case True
    have "chats_ok (w_db (snd (id_New ''conv'' w)))" using assms by simp
    from wp_new_conversation [OF this] show ?thesis
      unfolding pg_CreateConversation_def gen_CreateConversation_def if_P [OF True]
      using assms by (auto intro!: wp_bnd)
  next
    case False
    show ?thesis unfolding if_not_P [OF False]
      by (rule wp_bnd [OF wp_owns]) (use assms mine in auto)
  qed
  show ?thesis unfolding chat_Send_def svc_simps
  proof (rule wp_bnd [OF start], goal_cases)
    case (2 c w1)
    then show ?case by (intro wp_bnd [OF reply_within]) auto
  qed simp
qed

lemma op_within:
  assumes "chats_ok (w_db w)"
  shows "chats_ok (w_db (run_chat_op (chat_service m z a) org x w)) \<and>
     others org (w_db (run_chat_op (chat_service m z a) org x w)) = others org (w_db w)"
proof -
  note step = wpD [OF _ surjective_pairing]
  have set: "mrel (dbrel (within org cid)) (ctr_SetStatus (cs_repo (chat_service m z a)) cid st)" for cid st
    unfolding svc_simps repo_defs by (intro mrel_intros)
  have says: "mrel (dbrel (within org cid)) (bnd (ctr_SetStatus (cs_repo (chat_service m z a)) cid ''handling'') (\<lambda>_.
     bnd (ctr_AddMessage (cs_repo (chat_service m z a)) cid ''agent'' msg) (\<lambda>_.
     ctr_ChannelTarget (cs_repo (chat_service m z a)) cid)))" for cid msg
    unfolding svc_simps repo_defs by (intro mrel_intros) auto
  have summ: "mrel (dbrel (within org cid)) (bnd (ctr_Messages (cs_repo (chat_service m z a)) cid) (\<lambda>history.
     bnd (smz_Summarize (cs_summarizer (chat_service m z a)) history) (\<lambda>i.
     bnd (isr_Save (cs_insights (chat_service m z a)) org cid i) (\<lambda>_.
     bnd (isr_Get (cs_insights (chat_service m z a)) cid) (\<lambda>saved. ret (case saved of None \<Rightarrow> zero_insight | Some j \<Rightarrow> j))))))" for cid
    unfolding svc_simps repo_defs by (intro mrel_intros no_db_write [OF summary_db]) auto
  show ?thesis
  proof (cases x)
    case (SendMsg cid msg)
    then show ?thesis using step [OF Send_within [OF assms]] by simp
  next
    case (ChannelMsg channel user msg)
    have "wp (chat_SendChannel (chat_service m z a) org channel user msg)
        (\<lambda>r w'. chats_ok (w_db w') \<and> others org (w_db w') = others org (w_db w)) w"
      unfolding chat_SendChannel_def svc_simps
    proof (rule wp_bnd [OF wp_FindOrCreate [OF assms]], goal_cases)
      case (2 c w1)
      with reply_within [of w1 c org msg] show ?case by simp
    qed simp
    from step [OF this] ChannelMsg show ?thesis by simp
  next
    case (MoveTo cid st)
    then show ?thesis using assms step [OF guarded [of org cid "\<lambda>_. ctr_SetStatus (cs_repo (chat_service m z a)) cid st", OF set assms]]
      by (auto simp: chat_SetStatus_def fail_def)
  next
    case (AgentSays cid msg)
    then show ?thesis using step [OF guarded [OF says assms]] by (simp add: chat_AgentReply_def)
  next
    case (SummarizeConv cid)
    then show ?thesis using step [OF guarded [OF summ assms]] by (simp add: chat_Summarize_def)
  next
    case (SaveCfg cs)
    obtain c where c: "c \<notin> other_convs org (w_db w)" using ex_new_if_finite [of "other_convs org (w_db w)"]
      by (auto simp: other_convs_def infinite_UNIV_listI)
    have "mrel (dbrel (within org c)) (chat_SaveSettings (chat_service m z a) org cs)"
      unfolding chat_SaveSettings_def svc_simps pg_settings_Upsert_def by (intro mrel_intros)
    from wpD [OF wp_mrel [OF this] surjective_pairing] SaveCfg c assms show ?thesis by (auto simp: dbrel_def within_def)
  qed
qed

end

text \<open>The feed of the dashboard and the built-in assistant meet the contract.\<close>

interpretation builtin: assistant "builtin_model lower" "builtin_summarizer lower" "Some feed_publisher" for lower
  by unfold_locales
     (auto simp: builtin_model_def builtin_summarizer_def chat_publish_def chat_service_def feed_publisher_def intro!: mrel_intros)

text \<open>The service as the program wires it without an external language model.\<close>

abbreviation builtin_chat :: "(string \<Rightarrow> string) \<Rightarrow> ChatService" where
  "builtin_chat lower \<equiv> chat_service (builtin_model lower) (builtin_summarizer lower) (Some feed_publisher)"

section \<open>Replies\<close>

text \<open>A conversation as it is read back: who said what.\<close>

definition thread :: "string \<Rightarrow> database \<Rightarrow> (string \<times> string) list" where
  "thread cid d = map (\<lambda>m. (mg_role m, mg_content m)) (filter (\<lambda>m. mg_conversation_id m = cid) (messages d))"

text \<open>
  Adding a message: on success it is the newest of its thread and its conversation keeps its
  owner and status; an error may come after the message was stored.
\<close>

lemma wp_AddMessage:
  "wp (pg_AddMessage cid role content) (\<lambda>r w'. quiet w w' \<and> kept_calm w w' \<and> w_now w \<le> w_now w' \<and>
     map_option cr_status (conv cid (w_db w')) = map_option cr_status (conv cid (w_db w)) \<and>
     (\<exists>new. messages (w_db w') = messages (w_db w) @ new \<and> length new \<le> 1 \<and>
        (\<forall>q \<in> set new. mg_conversation_id q = cid \<and> mg_role q = role \<and> mg_content q = content \<and> w_now w \<le> mg_created_at q \<and>
           mg_created_at q \<le> w_now w') \<and>
        (\<forall>u. r = Inr u \<longrightarrow> length new = 1))) w"
proof -
  let ?P = "\<lambda>r w'. quiet w w' \<and> kept_calm w w' \<and> w_now w \<le> w_now w' \<and> conversations (w_db w') = conversations (w_db w) \<and>
     (\<exists>new. messages (w_db w') = messages (w_db w) @ new \<and> length new \<le> 1 \<and>
        (\<forall>q \<in> set new. mg_conversation_id q = cid \<and> mg_role q = role \<and> mg_content q = content \<and> w_now w \<le> mg_created_at q \<and>
           mg_created_at q \<le> w_now w') \<and>
        (\<forall>u. r = Inr u \<longrightarrow> length new = 1))"
  have ins: "wp (gen_InsertMessage mid cid role content) ?P (snd (id_New ''msg'' w))" for mid
    unfolding gen_InsertMessage_def
    by (rule wp_db_exec_sched) (auto simp: quiet_def env_frame_def kept_calm_def)
  have upd: "map_option cr_status (List.find (\<lambda>r. cr_id r = cid) (upd_where (\<lambda>r. cr_id r = cid) (\<lambda>r. r\<lparr>cr_updated_at := t\<rparr>) rows)) =
      map_option cr_status (List.find (\<lambda>r. cr_id r = cid) rows)" for t rows
    by (induction rows) (auto simp: upd_where_def)
  show ?thesis unfolding pg_AddMessage_def wp_bnd_simps
  proof (rule wp_bnd [OF ins], goal_cases)
    case (1 e w1)
    then show ?case by auto
  next
    case (2 u w1)
    show ?case unfolding gen_TouchConversation_def
      by (rule wp_db_exec_sched) (use 2 upd in \<open>fastforce simp: quiet_def env_frame_def kept_calm_def\<close>)+
  qed
qed

text \<open>A message that is not older than the others is read last.\<close>

lemma order_by_snoc:
  assumes "\<And>y. y \<in> set xs \<Longrightarrow> k y \<le> k x"
  shows "order_by k (xs @ [x]) = order_by k xs @ [x]"
proof -
  have ins: "insort_key k y (zs @ [x]) = insort_key k y zs @ [x]" if "k y \<le> k x" for y zs
    using that by (induction zs) auto
  show ?thesis unfolding order_by_def using assms by (induction xs) (simp_all add: ins)
qed

definition timely :: "string \<Rightarrow> world \<Rightarrow> bool" where
  "timely cid w \<longleftrightarrow> list_all (\<lambda>q. mg_conversation_id q = cid \<longrightarrow> mg_created_at q \<le> w_now w) (messages (w_db w))"

definition handled :: "string \<Rightarrow> database \<Rightarrow> bool" where
  "handled cid d \<longleftrightarrow> map_option cr_status (conv cid d) = Some ''handling''"

lemma thread_snoc:
  "messages d' = messages d @ new \<Longrightarrow> \<forall>q \<in> set new. mg_conversation_id q = cid \<and> mg_role q = role \<and> mg_content q = content \<Longrightarrow>
   length new = 1 \<Longrightarrow> thread cid d' = thread cid d @ [(role, content)]"
  by (auto simp: thread_def length_Suc_conv)

definition says :: "string list \<Rightarrow> string \<Rightarrow> database \<Rightarrow> database \<Rightarrow> bool" where
  "says roles cid d d' \<longleftrightarrow> (\<exists>added. thread cid d' = thread cid d @ added \<and> set (map fst added) \<subseteq> set roles)"

lemma says_refl: "thread cid d' = thread cid d \<Longrightarrow> says roles cid d d'"
  by (simp add: says_def)

lemma says_new:
  assumes "says roles cid d d1" and "messages d' = messages d1 @ new"
    and "\<forall>q \<in> set new. mg_role q = role" and "role \<in> set roles"
  shows "says roles cid d d'"
proof -
  from assms(1) obtain added where "thread cid d1 = thread cid d @ added" "set (map fst added) \<subseteq> set roles"
    by (auto simp: says_def)
  with assms(2-4) show ?thesis unfolding says_def
    by (intro exI [of _ "added @ map (\<lambda>m. (mg_role m, mg_content m)) (filter (\<lambda>m. mg_conversation_id m = cid) new)"])
       (auto simp: thread_def)
qed

lemma wp_Messages:
  "wp (pg_Messages cid) (\<lambda>r w'. w_db w' = w_db w \<and> quiet w w' \<and> kept_calm w w' \<and> w_now w \<le> w_now w' \<and> (\<forall>h. r = Inr h \<longrightarrow>
     h = map message_of (order_by mg_created_at (filter (\<lambda>q. mg_conversation_id q = cid) (messages (w_db w)))))) w"
proof -
  have "wp (gen_ListMessages cid) (\<lambda>r w'. w_db w' = w_db w \<and> quiet w w' \<and> kept_calm w w' \<and> w_now w \<le> w_now w' \<and> (\<forall>h. r = Inr h \<longrightarrow>
     h = order_by mg_created_at (filter (\<lambda>q. mg_conversation_id q = cid) (messages (w_db w))))) w"
    unfolding gen_ListMessages_def db_read_def
    by (rule wp_db_exec_sched) (auto simp: quiet_def env_frame_def kept_calm_def)
  then show ?thesis unfolding pg_Messages_def by (rule wp_bnd) auto
qed

lemma wp_settings_Get:
  "wp (pg_settings_Get org) (\<lambda>r w'. w_db w' = w_db w \<and> quiet w w' \<and> kept_calm w w' \<and> w_now w \<le> w_now w') w"
proof -
  have "wp (gen_GetChatSettings org) (\<lambda>r w'. w_db w' = w_db w \<and> quiet w w' \<and> kept_calm w w' \<and> w_now w \<le> w_now w') w"
    unfolding gen_GetChatSettings_def db_read_def
    by (rule wp_db_exec_sched) (auto simp: quiet_def env_frame_def kept_calm_def split: option.splits)
  then show ?thesis unfolding pg_settings_Get_def by (rule wp_attempt) (auto split: sum.splits)
qed

text \<open>The built-in assistant answers the message it was sent.\<close>

lemma answers_last:
  assumes "timely cid w" and "messages d = messages (w_db w) @ new" and "length new = 1"
    and "\<forall>q \<in> set new. mg_conversation_id q = cid \<and> mg_role q = ''user'' \<and> mg_content q = msg \<and> w_now w \<le> mg_created_at q"
  shows "builtin_Reply lower (map message_of (order_by mg_created_at (filter (\<lambda>q. mg_conversation_id q = cid) (messages d))))
    = builtin_answer (lower msg)"
proof -
  from assms(3) obtain q where q: "new = [q]" by (auto simp: length_Suc_conv)
  have "order_by mg_created_at (filter (\<lambda>q. mg_conversation_id q = cid) (messages (w_db w)) @ [q])
      = order_by mg_created_at (filter (\<lambda>q. mg_conversation_id q = cid) (messages (w_db w))) @ [q]"
    using assms(1,4) by (intro order_by_snoc) (fastforce simp: timely_def list_all_iff q)
  with assms(2,4) show ?thesis by (simp add: q builtin_Reply_def message_of_def)
qed

text \<open>
  One turn of a conversation: what is added to the thread, and what a success means. A
  handled conversation gets the customer's message only.
\<close>

definition turn :: "(string \<Rightarrow> string) \<Rightarrow> string \<Rightarrow> string \<Rightarrow> world \<Rightarrow> go_error + string \<Rightarrow> world \<Rightarrow> bool" where
  "turn lower cid msg w r w' \<longleftrightarrow>
     says (if handled cid (w_db w) then [''user''] else [''user'', ''assistant'']) cid (w_db w) (w_db w') \<and>
     (\<forall>reply. r = Inr reply \<longrightarrow>
        (if handled cid (w_db w) then reply = [] \<and> thread cid (w_db w') = thread cid (w_db w) @ [(''user'', msg)]
         else thread cid (w_db w') = thread cid (w_db w) @ [(''user'', msg), (''assistant'', reply)] \<and>
           (timely cid w \<longrightarrow> reply = builtin_answer (lower msg))))"

lemma turn_error:
  "says (if handled cid (w_db w) then [''user''] else [''user'', ''assistant'']) cid (w_db w) (w_db w') \<Longrightarrow> turn lower cid msg w (Inl e) w'"
  by (simp add: turn_def)

text \<open>The state once the customer's message \<open>msg\<close> is stored; \<open>d\<close> is the database before the turn.\<close>

definition told :: "string \<Rightarrow> string \<Rightarrow> world \<Rightarrow> database \<Rightarrow> bool" where
  "told cid msg w d \<longleftrightarrow> map_option cr_status (conv cid d) = map_option cr_status (conv cid (w_db w)) \<and>
     (\<exists>new. messages d = messages (w_db w) @ new \<and> length new = 1 \<and> (\<forall>q \<in> set new. mg_conversation_id q = cid \<and>
        mg_role q = ''user'' \<and> mg_content q = msg \<and> w_now w \<le> mg_created_at q))"

lemma told_thread: "told cid msg w d \<Longrightarrow> thread cid d = thread cid (w_db w) @ [(''user'', msg)]"
  unfolding told_def using thread_snoc [of d "w_db w" _ cid "''user''" msg] by blast

lemma told_status: "told cid msg w d \<Longrightarrow> map_option cr_status (conv cid d) = map_option cr_status (conv cid (w_db w))"
  by (simp add: told_def)

lemma told_error: "told cid msg w (w_db w') \<Longrightarrow> turn lower cid msg w (Inl e) w'"
  by (rule turn_error) (simp add: says_def told_thread)

text \<open>The assistant's half of the turn, for a history read after the customer's message.\<close>

lemma wp_answer:
  assumes told: "told cid msg w (w_db v)" and free: "\<not> handled cid (w_db w)"
    and hist: "history = map message_of (order_by mg_created_at (filter (\<lambda>q. mg_conversation_id q = cid) (messages (w_db v))))"
  shows "wp (bnd (pg_AddMessage cid ''assistant'' (builtin_Reply lower history)) (\<lambda>_. ret (builtin_Reply lower history)))
    (turn lower cid msg w) v"
proof (rule wp_bnd [OF wp_AddMessage], goal_cases)
  case (1 e w6)
  then obtain more' where m: "messages (w_db w6) = messages (w_db v) @ more'" "\<forall>q \<in> set more'. mg_role q = ''assistant''"
    by blast
  have "says [''user'', ''assistant''] cid (w_db w) (w_db v)" using told_thread [OF told] by (simp add: says_def)
  from says_new [OF this m] free show ?case by (intro turn_error) simp
next
  case (2 u w6)
  then obtain more' where m: "messages (w_db w6) = messages (w_db v) @ more'" "length more' = 1"
    "\<forall>q \<in> set more'. mg_conversation_id q = cid \<and> mg_role q = ''assistant'' \<and> mg_content q = builtin_Reply lower history"
    by blast
  have "thread cid (w_db w6) = thread cid (w_db w) @ [(''user'', msg), (''assistant'', builtin_Reply lower history)]"
    using thread_snoc [OF m(1,3,2)] told_thread [OF told] by simp
  moreover have "timely cid w \<longrightarrow> builtin_Reply lower history = builtin_answer (lower msg)"
    using told answers_last [of cid w] unfolding hist told_def by blast
  ultimately show ?case using free by (simp add: turn_def says_def)
qed

lemma wp_reply: "wp (chat_reply (builtin_chat lower) org cid msg) (turn lower cid msg w) w"
proof -
  have pub: "w_db (chat_publish (builtin_chat lower) e v) = w_db v" for e v
    by (simp add: chat_publish_def chat_service_def feed_publisher_def)
  have model: "cml_Reply (builtin_model lower) prompt h = ret (builtin_Reply lower h)" for prompt h
    by (simp add: builtin_model_def fun_eq_iff)
  show ?thesis unfolding chat_reply_def builtin.svc_simps wp_bnd_simps Let_def
  proof (rule wp_bnd [OF wp_AddMessage], goal_cases)
    case (1 e w1)
    then obtain new where "messages (w_db w1) = messages (w_db w) @ new" "\<forall>q \<in> set new. mg_role q = ''user''" by blast
    then show ?case by (intro turn_error, rule says_new [OF says_refl [OF refl]]) simp
  next
    case (2 u w1)
    then have told: "told cid msg w (w_db w1)" unfolding told_def by blast
    show ?case unfolding wp_bnd_simps
    proof (rule wp_bnd [OF wp_GetConversation], goal_cases)
      case (1 e w3)
      then show ?case by (intro told_error) (simp add: pub told)
    next
      case (2 found w3)
      then have w3: "w_db w3 = w_db w1" and found: "found = map_option (\<lambda>row. (cr_org_id row, cr_status row)) (conv cid (w_db w1))"
        by (simp_all add: pub)
      have h: "((case found of None \<Rightarrow> [] | Some (_, status) \<Rightarrow> status) = ''handling'') = handled cid (w_db w)"
        unfolding found handled_def told_status [OF told, symmetric] by (cases "conv cid (w_db w1)") auto
      show ?case
      proof (cases "handled cid (w_db w)")
        case True
        then show ?thesis using told_thread [OF told] by (simp add: h w3 turn_def says_def)
      next
        case False
        show ?thesis unfolding h if_not_P [OF False]
        proof (rule wp_bnd [OF wp_Messages], goal_cases)
          case (1 e w4)
          then show ?case by (intro told_error) (simp add: w3 told)
        next
          case (2 history w4)
          then show ?case using told False w3
            by (intro wp_attempt [OF wp_settings_Get]) (simp add: model wp_answer)
        qed
      qed
    qed
  qed
qed

section \<open>Properties\<close>

text \<open>
  An org's chat operations stay in that org. Whatever an org sends, moves,
  answers, summarizes or configures, with whatever conversation id and whatever statements
  fail, the conversations of the other orgs, their messages, insights and settings are
  unchanged, and conversation ids stay unique.
\<close>

theorem chat_tenancy:
  assumes "chats_ok (w_db w)"
  shows "chats_ok (w_db (run_chat_op (builtin_chat lower) org x w)) \<and>
     others org (w_db (run_chat_op (builtin_chat lower) org x w)) = others org (w_db w)"
  using assms by (rule builtin.op_within)

text \<open>
  Property C23: one turn of the web chat. A message to an existing conversation of the org is
  appended to its thread; unless a human is handling the conversation the reply is appended
  after it and returned, and it is the built-in answer to exactly that message. For another
  org's conversation, or none, the answer is not found. Errors never put words of the
  assistant into a handled thread.
\<close>

theorem Send_turn:
  assumes "cid \<noteq> []" and "chat_Send (builtin_chat lower) org cid msg w = (r, w')" and "timely cid w"
  shows "case r of
      Inr (c, reply) \<Rightarrow> c = cid \<and> map_option cr_org_id (conv cid (w_db w)) = Some org \<and>
        (if handled cid (w_db w) then reply = [] \<and> thread cid (w_db w') = thread cid (w_db w) @ [(''user'', msg)]
         else reply = builtin_answer (lower msg) \<and>
           thread cid (w_db w') = thread cid (w_db w) @ [(''user'', msg), (''assistant'', reply)])
    | Inl e \<Rightarrow> (map_option cr_org_id (conv cid (w_db w)) \<noteq> Some org \<longrightarrow> e \<in> {ErrNotFound, ErrConn} \<and> w_db w' = w_db w) \<and>
        says (if handled cid (w_db w) then [''user''] else [''user'', ''assistant'']) cid (w_db w) (w_db w')"
    (is "?Q r w'")
proof -
  have "wp (chat_Send (builtin_chat lower) org cid msg) ?Q w"
    unfolding chat_Send_def if_not_P [OF assms(1)] bnd_assoc bnd_ret
  proof (rule wp_bnd [OF builtin.wp_owns], goal_cases)
    case (1 e w1)
    then show ?case by (auto simp: says_def)
  next
    case (2 u w1)
    then have w1: "w_db w1 = w_db w" "w_now w \<le> w_now w1" and own: "map_option cr_org_id (conv cid (w_db w)) = Some org"
      by (auto simp: env_frame_def)
    have tm: "timely cid w1" using assms(3) w1 by (auto simp: timely_def list_all_iff)
    show ?case
    proof (rule wp_bnd [OF wp_reply], goal_cases)
      case (1 e w2)
      then show ?case using own by (simp add: turn_def w1)
    next
      case (2 reply w2)
      then show ?case using own tm by (simp add: turn_def w1)
    qed
  qed
  from wpD [OF this assms(2)] show ?thesis .
qed

text \<open>
  The assistant does not talk over a person. Once an agent has answered in a
  conversation, and as long as nobody moves it to another status, the customer's web
  messages are stored and get no automatic reply, whatever fails in between.
\<close>

theorem takeover_silences:
  assumes "chat_AgentReply (builtin_chat lower) org cid agent_msg w = (Inr t, w1)"
    and "map_option cr_status (conv cid (w_db w2)) = map_option cr_status (conv cid (w_db w1))"
    and "cid \<noteq> []" and "chat_Send (builtin_chat lower) org' cid msg w2 = (r, w3)"
  shows "says [''user''] cid (w_db w2) (w_db w3) \<and> (\<forall>c reply. r = Inr (c, reply) \<longrightarrow> reply = [])"
proof -
  have set: "map_option cr_status (List.find (\<lambda>r. cr_id r = cid) (upd_where (\<lambda>r. cr_id r = cid) (\<lambda>r. r\<lparr>cr_status := st, cr_updated_at := t\<rparr>) rows)) =
      map_option (\<lambda>_. st) (List.find (\<lambda>r. cr_id r = cid) rows)" for st t rows
    by (induction rows) (auto simp: upd_where_def)
  have "wp (chat_AgentReply (builtin_chat lower) org cid agent_msg) (\<lambda>r w'. \<forall>t. r = Inr t \<longrightarrow> handled cid (w_db w')) w"
    unfolding chat_AgentReply_def builtin.svc_simps
  proof (rule wp_bnd [OF builtin.wp_owns], goal_cases)
    case (2 u v)
    then obtain row where row: "conv cid (w_db v) = Some row" by auto
    have st: "wp (pg_conv_SetStatus cid ''handling'') (\<lambda>r w'. \<forall>u. r = Inr u \<longrightarrow> handled cid (w_db w')) v"
      unfolding pg_conv_SetStatus_def gen_SetConversationStatus_def by (rule wp_db_exec) (simp_all add: handled_def set row del: map_option_eq_Some)
    show ?case
    proof (rule wp_bnd [OF st], goal_cases)
      case (2 u v1)
      then have h: "map_option cr_status (conv cid (w_db v1)) = Some ''handling''" by (simp add: handled_def)
      show ?case
      proof (rule wp_bnd [OF wp_AddMessage], goal_cases)
        case (2 u v2)
        with h have "handled cid (w_db v2)" by (simp add: handled_def)
        then show ?case unfolding pg_ChannelTarget_def gen_GetConversationTarget_def by (intro wp_db_read) auto
      qed simp
    qed simp
  qed simp
  from wpD [OF this assms(1)] assms(2) have h: "handled cid (w_db w2)" by (simp add: handled_def)
  have "wp (chat_Send (builtin_chat lower) org' cid msg)
      (\<lambda>r w'. says [''user''] cid (w_db w2) (w_db w') \<and> (\<forall>c reply. r = Inr (c, reply) \<longrightarrow> reply = [])) w2"
    unfolding chat_Send_def if_not_P [OF assms(3)] bnd_assoc bnd_ret
  proof (rule wp_bnd [OF builtin.wp_owns], goal_cases)
    case (1 e v)
    then show ?case by (simp add: says_def)
  next
    case (2 u v)
    then show ?case by (intro wp_bnd [OF wp_reply]) (use h in \<open>auto simp: turn_def\<close>)
  qed
  from wpD [OF this assms(4)] show ?thesis .
qed

lemma contains_concat:
  assumes "q \<in> set qs" and "contains (f q) x"
  shows "contains (concat (map (\<lambda>q. g q @ f q) qs)) x"
proof -
  from assms(1) obtain ys zs where qs: "qs = ys @ q # zs" by (auto simp: in_set_conv_decomp)
  from assms(2) obtain a b where "f q = a @ x @ b" by (auto simp: contains_iff)
  then have "concat (map (\<lambda>q. g q @ f q) qs) =
      (concat (map (\<lambda>q. g q @ f q) ys) @ g q @ a) @ x @ (b @ concat (map (\<lambda>q. g q @ f q) zs))" by (simp add: qs)
  then show ?thesis unfolding contains_iff by blast
qed

lemma summary_outcome_typed:
  "fst (summary_outcome u se) \<in> {''resolved'', ''pending'', ''sale'', ''needs_human''} \<and>
   utf8 (snd (summary_outcome u se)) \<and> snd (summary_outcome u se) \<noteq> []"
proof -
  have "utf8 (''Assign a team member '' @ [CHR 0xE2, CHR 0x80, CHR 0x94] @ '' the customer asked for a person.'')"
    "utf8 ''Confirm the order details and payment method.''"
    "utf8 (''No action needed '' @ [CHR 0xE2, CHR 0x80, CHR 0x94] @ '' the customer's question was answered.'')"
    "utf8 (''Reach out personally '' @ [CHR 0xE2, CHR 0x80, CHR 0x94] @ '' the customer sounds unhappy.'')"
    "utf8 ''Follow up with the customer to close the loop.''" by code_simp+
  then show ?thesis by (simp add: summary_outcome_def)
qed

text \<open>
  Property C25: insights use their closed vocabularies. For every history the built-in
  summarizer returns an outcome and a sentiment of the sets the inbox knows, a summary, and
  a suggested action that the database accepts; a customer who asks for a person is always
  handed to one.
\<close>

theorem Summarize_typed:
  "ci_Outcome (builtin_Summarize lower h) \<in> {''resolved'', ''pending'', ''sale'', ''needs_human'', ''unknown''} \<and>
   ci_Sentiment (builtin_Summarize lower h) \<in> {''positive'', ''neutral'', ''negative''} \<and>
   ci_Summary (builtin_Summarize lower h) \<noteq> [] \<and> ci_NextAction (builtin_Summarize lower h) \<noteq> [] \<and>
   utf8 (ci_NextAction (builtin_Summarize lower h)) \<and>
   ((\<exists>q \<in> set h. ms_Role q = ''user'' \<and> containsAny (lower (ms_Content q)) humanWords) \<longrightarrow>
      ci_Outcome (builtin_Summarize lower h) = ''needs_human'')"
proof (cases "filter (\<lambda>q. ms_Role q = ''user'') h = []")
  case True
  then have "\<not> (\<exists>q \<in> set h. ms_Role q = ''user'')" by (auto simp: filter_empty_conv)
  moreover have "utf8 ''Wait for the customer to reply.''" by code_simp
  ultimately show ?thesis using True by (auto simp: builtin_Summarize_def)
next
  case False
  let ?u = "concat (map (\<lambda>q. '' '' @ lower (ms_Content q)) (filter (\<lambda>q. ms_Role q = ''user'') h))"
  define se where "se = (if containsAny ?u negativeWords then ''negative''
            else if containsAny ?u positiveWords then ''positive'' else ''neutral'')"
  have eq: "builtin_Summarize lower h = \<lparr>ci_Summary = summarize (ms_Content (last (filter (\<lambda>q. ms_Role q = ''user'') h)))
        (int (length (filter (\<lambda>q. ms_Role q = ''user'') h))), ci_Outcome = fst (summary_outcome ?u se),
        ci_Sentiment = se, ci_NextAction = snd (summary_outcome ?u se), ci_CreatedAt = zero_time\<rparr>"
    unfolding builtin_Summarize_def Let_def if_not_P [OF False] se_def by (simp split: prod.splits)
  have person: "fst (summary_outcome ?u se) = ''needs_human''"
    if "q \<in> set h" "ms_Role q = ''user''" "containsAny (lower (ms_Content q)) humanWords" for q
  proof -
    from that(3) obtain x where "x \<in> set humanWords" "contains (lower (ms_Content q)) x"
      by (auto simp: containsAny_def list_ex_iff)
    with that(1,2) have "containsAny ?u humanWords"
      unfolding containsAny_def list_ex_iff
      by (intro bexI [of _ x] contains_concat [of q _ "\<lambda>q. lower (ms_Content q)" x "\<lambda>_. '' ''"]) auto
    then show ?thesis by (simp add: summary_outcome_def)
  qed
  have "se \<in> {''positive'', ''neutral'', ''negative''}" by (simp add: se_def)
  moreover have "summarize c n \<noteq> []" for c n by (simp add: summarize_def Let_def)
  ultimately show ?thesis
    unfolding eq ConversationInsight.simps using summary_outcome_typed [of ?u se] person by blast
qed

theorem Summarize_typed_witness:
  "ci_Outcome (builtin_Summarize id [\<lparr>ms_Role = ''user'', ms_Content = ''let me talk to a human'', ms_CreatedAt = 0\<rparr>]) = ''needs_human''"
proof -
  have "containsAny ''let me talk to a human'' humanWords" by code_simp
  with Summarize_typed [of id "[\<lparr>ms_Role = ''user'', ms_Content = ''let me talk to a human'', ms_CreatedAt = 0\<rparr>]"]
  show ?thesis by simp
qed

text \<open>The loop prints the decimal digits, and a count never needs more than twenty of them.\<close>

lemma itoa_loop_digits: "0 < n \<Longrightarrow> itoa_loop n acc = digits_of n @ acc"
proof (induction n acc rule: itoa_loop.induct)
  case (1 n acc)
  show ?case
  proof (cases "n < 10")
    case True
    with 1(2) show ?thesis by (simp add: itoa_loop.simps digits_of.simps)
  next
    case False
    with 1 show ?thesis by (subst itoa_loop.simps, subst digits_of.simps) simp
  qed
qed

lemma itoa_decimal: "0 \<le> n \<Longrightarrow> itoa n = go_itoa n"
  by (cases "n = 0") (simp_all add: itoa_def go_itoa_def itoa_loop_digits, code_simp)

section \<open>Examples\<close>

definition demo_conv :: ConversationRow where
  "demo_conv = \<lparr>cr_id = ''c'', cr_org_id = ''o'', cr_channel = ''chat'', cr_customer_id = None, cr_status = ''open'',
     cr_created_at = 0, cr_updated_at = 0, cr_external_user = None\<rparr>"

definition demo_chat :: world where
  "demo_chat = init_world\<lparr>w_db := empty_db\<lparr>conversations := [demo_conv]\<rparr>\<rparr>"

lemma demo_chat_simps [simp]:
  "conversations (w_db demo_chat) = [demo_conv]" "messages (w_db demo_chat) = []" "w_sched demo_chat = []" "w_now demo_chat = 0"
  "chat_settings (w_db demo_chat) = []" "w_pos demo_chat = 0" "w_entropy demo_chat = (\<lambda>i. i)"
  "cr_id demo_conv = ''c''" "cr_org_id demo_conv = ''o''" "cr_status demo_conv = ''open''" "chats_ok (w_db demo_chat)"
  by (simp_all add: demo_chat_def demo_conv_def chats_ok_def init_world_def)

lemma demo_timely: "timely ''c'' demo_chat"
  by (simp add: timely_def)

theorem chat_tenancy_witness:
  "others ''p'' (w_db (run_chat_op (builtin_chat id) ''p'' (MoveTo ''c'' ''closed'') demo_chat)) = others ''p'' (w_db demo_chat)"
  using chat_tenancy [of demo_chat id "''p''" "MoveTo ''c'' ''closed''"] by simp

lemma utf8_answer: "utf8 (builtin_answer t)"
proof -
  have "list_all (\<lambda>i. utf8 (it_reply i)) intents" "utf8 ''Hello! How can I help you today?''"
    "utf8 (builtin_answer ''?'')" by code_simp+
  moreover have "List.find (\<lambda>i. list_ex (contains ''?'') (it_triggers i)) intents = None" by code_simp
  ultimately show ?thesis
    unfolding builtin_answer_def by (auto simp: list_all_iff split: option.splits dest: find_SomeD)
qed

lemmas chat_eval = bnd_def attempt_def ret_def fail_def perform_def draw_eq db_exec_quiet db_read_quiet chat_owns_def
  pg_GetConversation_def gen_GetConversation_def pg_AddMessage_def gen_InsertMessage_def gen_TouchConversation_def
  pg_Messages_def gen_ListMessages_def pg_settings_Get_def gen_GetChatSettings_def upd_where_Nil upd_where_Cons
  chat_service_def pg_chat_def pg_chat_settings_def builtin_model_def chat_publish_def feed_publisher_def

lemma demo_utf8: "utf8 ''hi''"
  by code_simp

lemma demo_ids: "id_at p (\<lambda>i. i) 0 \<noteq> id_at p (\<lambda>i. i) 12"
  by (rule id_at_neq) simp

lemma demo_send: "\<exists>reply w'. chat_Send (builtin_chat id) ''o'' ''c'' ''hi'' demo_chat = (Inr (''c'', reply), w')"
  by (simp add: chat_Send_def chat_reply_def Let_def chat_eval demo_utf8 utf8_answer builtin_Reply_def fst_id_New
      emit_effect_def demo_ids)

theorem Send_turn_witness:
  "\<exists>reply w'. chat_Send (builtin_chat id) ''o'' ''c'' ''hi'' demo_chat = (Inr (''c'', reply), w') \<and>
     reply = builtin_answer ''hi'' \<and> thread ''c'' (w_db w') = [(''user'', ''hi''), (''assistant'', reply)]"
proof -
  from demo_send obtain reply w' where run: "chat_Send (builtin_chat id) ''o'' ''c'' ''hi'' demo_chat = (Inr (''c'', reply), w')" by blast
  have "\<not> handled ''c'' (w_db demo_chat)" "thread ''c'' (w_db demo_chat) = []" by (simp_all add: handled_def thread_def)
  with Send_turn [OF _ run demo_timely] run show ?thesis by simp
qed

lemma demo_takeover: "\<exists>w1. chat_AgentReply (builtin_chat id) ''o'' ''c'' ''hi'' demo_chat = (Inr (''chat'', []), w1)"
  by (simp add: chat_AgentReply_def chat_eval demo_utf8 pg_conv_SetStatus_def gen_SetConversationStatus_def pg_ChannelTarget_def
      gen_GetConversationTarget_def) (simp add: demo_conv_def deref_def)

theorem takeover_silences_witness:
  "\<exists>w1 r w3. chat_AgentReply (builtin_chat id) ''o'' ''c'' ''hi'' demo_chat = (Inr (''chat'', []), w1) \<and>
     chat_Send (builtin_chat id) ''o'' ''c'' ''hi'' w1 = (r, w3) \<and> says [''user''] ''c'' (w_db w1) (w_db w3)"
proof -
  from demo_takeover obtain w1 where a: "chat_AgentReply (builtin_chat id) ''o'' ''c'' ''hi'' demo_chat = (Inr (''chat'', []), w1)" by blast
  obtain r w3 where b: "chat_Send (builtin_chat id) ''o'' ''c'' ''hi'' w1 = (r, w3)" by fastforce
  from takeover_silences [OF a refl _ b] a b show ?thesis by auto
qed

section \<open>Where the assistant falls short\<close>

text \<open>
  The trigger \<open>shipping\<close> of the delivery intent is dead: the word contains \<open>hi\<close>, a trigger
  of the greeting, which comes first.
\<close>

theorem shipping_is_a_greeting:
  assumes "contains t ''shipping''"
  shows "builtin_answer t = it_reply (hd intents)"
proof -
  have "contains ''shipping'' ''hi''" by code_simp
  with assms have hi: "contains t ''hi''" by (rule contains_trans)
  have intents: "intents = hd intents # tl intents" "''hi'' \<in> set (it_triggers (hd intents))" by (simp_all add: intents_def)
  have "t \<noteq> []" using assms by auto
  have "List.find (\<lambda>i. list_ex (contains t) (it_triggers i)) (hd intents # tl intents) = Some (hd intents)"
    using hi intents(2) by (auto simp: list_ex_iff)
  then show ?thesis using \<open>t \<noteq> []\<close> intents(1) by (simp add: builtin_answer_def)
qed

text \<open>
  A summary cuts the last message after 140 bytes, inside a character if need be, and the
  database refuses it: a conversation whose last customer message is fifty Bangla letters
  (three bytes each) can never be summarized.
\<close>

definition bangla_ka :: string where
  "bangla_ka = [CHR 0xE0, CHR 0xA6, CHR 0x95]"

lemma utf8_ascii_prefix:
  "list_all (\<lambda>c. of_char c < (128 :: nat)) a \<Longrightarrow> utf8 (a @ b) = utf8 b"
  unfolding utf8_def by (induction a) simp_all

lemma itoa_ascii: "list_all (\<lambda>c. of_char c < (128 :: nat)) (itoa n)"
proof -
  have "list_all (\<lambda>c. of_char c < (128 :: nat)) acc \<Longrightarrow> list_all (\<lambda>c. of_char c < (128 :: nat)) (itoa_loop k acc)" for k acc
  proof (induction k acc rule: itoa_loop.induct)
    case (1 n acc)
    then show ?case by (subst itoa_loop.simps) simp
  qed
  then show ?thesis by (simp add: itoa_def)
qed

lemma cut_summary: "\<not> utf8 (summarize (concat (replicate 50 bangla_ka)) n)"
proof -
  have cut: "\<not> utf8 ([CHR 0x22] @ trim_space (take 140 (trim_space (concat (replicate 50 bangla_ka)))) @ ellipsis @ [CHR 0x22])"
    "length (trim_space (concat (replicate 50 bangla_ka))) > 140" by code_simp+
  have ascii: "list_all (\<lambda>c. of_char c < (128 :: nat)) ('' customer '' @ word @ ''; latest: '')"
    if "word \<in> {''messages'', ''message''}" for word using that by auto
  have "utf8 (summarize (concat (replicate 50 bangla_ka)) n) =
      utf8 ([CHR 0x22] @ trim_space (take 140 (trim_space (concat (replicate 50 bangla_ka)))) @ ellipsis @ [CHR 0x22])"
    unfolding summarize_def Let_def if_P [OF cut(2)]
    using utf8_ascii_prefix [OF itoa_ascii] utf8_ascii_prefix [OF ascii] by (simp del: append.simps)
  with cut(1) show ?thesis by blast
qed

text \<open>
  A cut summary is never stored. If the newest customer message of a
  conversation is fifty Bangla letters, every attempt to summarize the conversation fails
  and no insight changes.
\<close>

theorem cut_summary_rejected:
  assumes "filter (\<lambda>q. mg_role q = ''user'') (order_by mg_created_at (filter (\<lambda>q. mg_conversation_id q = cid) (messages (w_db w)))) = qs @ [q]"
    and "mg_content q = concat (replicate 50 bangla_ka)"
    and "chat_Summarize (builtin_chat lower) org cid w = (r, w')"
  shows "(\<exists>e. r = Inl e) \<and> w_db w' = w_db w"
proof -
  let ?h = "map message_of (order_by mg_created_at (filter (\<lambda>q. mg_conversation_id q = cid) (messages (w_db w))))"
  have user: "filter (\<lambda>q. ms_Role q = ''user'') ?h = map message_of (qs @ [q])"
    unfolding assms(1) [symmetric] by (simp add: filter_map comp_def message_of_def)
  have bad: "\<not> utf8 (ci_Summary (builtin_Summarize lower ?h))"
    unfolding builtin_Summarize_def Let_def user using assms(2) cut_summary
    by (simp add: message_of_def split: prod.splits)
  have "wp (chat_Summarize (builtin_chat lower) org cid) (\<lambda>r w'. (\<exists>e. r = Inl e) \<and> w_db w' = w_db w) w"
    unfolding chat_Summarize_def builtin.svc_simps
  proof (rule wp_bnd [OF builtin.wp_owns], goal_cases)
    case (2 u w1)
    then have w1: "w_db w1 = w_db w" by simp
    show ?case
    proof (rule wp_bnd [OF wp_Messages], goal_cases)
      case (2 h w2)
      then have w2: "w_db w2 = w_db w" and h: "h = ?h" using w1 by simp_all
      have save: "wp (pg_insight_Save org cid (builtin_Summarize lower h)) (\<lambda>r w'. (\<exists>e. r = Inl e) \<and> w_db w' = w_db w) w2"
        unfolding pg_insight_Save_def gen_UpsertInsight_def h by (rule wp_db_exec) (use w2 bad in auto)
      show ?case unfolding builtin_summarizer_def Summarizer.simps bnd_ret by (rule wp_bnd [OF save]) auto
    qed (simp add: w1)
  qed simp
  from wpD [OF this assms(3)] show ?thesis .
qed

theorem cut_summary_rejected_witness:
  "\<exists>r w'. chat_Summarize (builtin_chat id) ''o'' ''c'' (demo_chat\<lparr>w_db := (w_db demo_chat)\<lparr>messages :=
     [\<lparr>mg_id = ''m'', mg_conversation_id = ''c'', mg_role = ''user'', mg_content = concat (replicate 50 bangla_ka), mg_created_at = 0\<rparr>]\<rparr>\<rparr>)
     = (r, w') \<and> (\<exists>e. r = Inl e)"
    (is "\<exists>r w'. chat_Summarize _ _ _ ?w = _ \<and> _")
proof -
  obtain r w' where run: "chat_Summarize (builtin_chat id) ''o'' ''c'' ?w = (r, w')" by fastforce
  have "filter (\<lambda>q. mg_role q = ''user'') (order_by mg_created_at (filter (\<lambda>q. mg_conversation_id q = ''c'') (messages (w_db ?w)))) =
      [] @ [\<lparr>mg_id = ''m'', mg_conversation_id = ''c'', mg_role = ''user'', mg_content = concat (replicate 50 bangla_ka), mg_created_at = 0\<rparr>]"
    by (simp add: order_by_def)
  from cut_summary_rejected [OF this _ run] run show ?thesis by auto
qed

end
