(* ===== verification/Yaver_Messaging.thy ===== *)
theory Yaver_Messaging
  imports Yaver_Chat Yaver_Webhooks
begin

text \<open>
  Messaging channels: connections (\<open>gen/channels.sql.go\<close>, \<open>postgres/channels.go\<close>), the two
  senders (\<open>adapter/messaging/logsender\<close> and \<open>meta\<close>) and the service (\<open>service/messaging\<close>) that
  routes an inbound message through the chat assistant and back. Meta's HTTP service is a
  parameter of its sender.
\<close>

section \<open>Queries (gen/channels.sql.go)\<close>

definition gen_DeleteChannel :: "string \<Rightarrow> string \<Rightarrow> unit wop" where
  "gen_DeleteChannel org typ = db_exec (\<lambda>t d. Inr ((), d\<lparr>channel_connections :=
     filter (\<lambda>r. \<not> (cx_org_id r = org \<and> cx_type r = typ)) (channel_connections d)\<rparr>))"

definition gen_GetChannelByExternalID :: "string \<Rightarrow> ChannelRow wop" where
  "gen_GetChannelByExternalID ext = db_read (\<lambda>t d.
     case List.find (\<lambda>r. cx_external_id r = ext) (channel_connections d) of None \<Rightarrow> Inl ErrNoRows | Some r \<Rightarrow> Inr r)"

definition gen_GetChannelByOrgAndType :: "string \<Rightarrow> string \<Rightarrow> ChannelRow wop" where
  "gen_GetChannelByOrgAndType org typ = db_read (\<lambda>t d.
     case List.find (\<lambda>r. cx_org_id r = org \<and> cx_type r = typ) (channel_connections d) of
       None \<Rightarrow> Inl ErrNoRows | Some r \<Rightarrow> Inr r)"

definition gen_GetChannelByVerifyToken :: "string \<Rightarrow> ChannelRow wop" where
  "gen_GetChannelByVerifyToken token = db_read (\<lambda>t d.
     case List.find (\<lambda>r. cx_verify_token r = token) (channel_connections d) of None \<Rightarrow> Inl ErrNoRows | Some r \<Rightarrow> Inr r)"

definition gen_ListChannelsByOrg :: "libs \<Rightarrow> string \<Rightarrow> ChannelRow list wop" where
  "gen_ListChannelsByOrg L org = db_read (\<lambda>t d.
     Inr (order_by (\<lambda>r. lib_collate L (cx_type r)) (filter (\<lambda>r. cx_org_id r = org) (channel_connections d))))"

text \<open>
  The conflict target is \<open>(org_id, type)\<close>; \<open>external_id\<close> is unique as well, and a clash
  there is an error, for the insert and for the update.
\<close>

definition gen_UpsertChannel :: "string \<Rightarrow> string \<Rightarrow> string \<Rightarrow> string \<Rightarrow> string \<Rightarrow> string \<Rightarrow> unit wop" where
  "gen_UpsertChannel xid org typ ext token verify = db_exec (\<lambda>t d.
     if List.find (\<lambda>r. cx_external_id r = ext \<and> \<not> (cx_org_id r = org \<and> cx_type r = typ)) (channel_connections d) \<noteq> None
     then Inl ErrUniqueViolation
     else if List.find (\<lambda>r. cx_org_id r = org \<and> cx_type r = typ) (channel_connections d) \<noteq> None
     then Inr ((), d\<lparr>channel_connections := upd_where (\<lambda>r. cx_org_id r = org \<and> cx_type r = typ)
       (\<lambda>r. r\<lparr>cx_external_id := ext, cx_access_token := token, cx_verify_token := verify\<rparr>) (channel_connections d)\<rparr>)
     else if List.find (\<lambda>r. cx_id r = xid) (channel_connections d) \<noteq> None then Inl ErrUniqueViolation
     else Inr ((), d\<lparr>channel_connections := channel_connections d @ [\<lparr>cx_id = xid, cx_org_id = org, cx_type = typ,
       cx_external_id = ext, cx_access_token = token, cx_verify_token = verify, cx_created_at = t\<rparr>]\<rparr>))"

section \<open>The repository (postgres/channels.go)\<close>

definition pg_chan_Upsert :: "OrgID \<Rightarrow> string \<Rightarrow> string \<Rightarrow> string \<Rightarrow> string \<Rightarrow> unit wop" where
  "pg_chan_Upsert org typ ext token verify = bnd (draw (id_New ''chan'')) (\<lambda>xid.
     gen_UpsertChannel xid org typ ext token verify)"

definition pg_chan_List :: "libs \<Rightarrow> OrgID \<Rightarrow> ChannelConnection list wop" where
  "pg_chan_List L org = bnd (gen_ListChannelsByOrg L org) (\<lambda>rows.
     ret (map (\<lambda>r. \<lparr>cc_Type = cx_type r, cc_ExternalID = cx_external_id r, cc_CreatedAt = cx_created_at r,
       cc_AccessToken = [], cc_VerifyToken = []\<rparr>) rows))"

definition pg_chan_Delete :: "OrgID \<Rightarrow> string \<Rightarrow> unit wop" where
  "pg_chan_Delete org typ = gen_DeleteChannel org typ"

definition pg_chan_ByExternalID :: "string \<Rightarrow> (OrgID \<times> string \<times> string \<times> string) option wop" where
  "pg_chan_ByExternalID ext = attempt (gen_GetChannelByExternalID ext) (\<lambda>q. case q of
       Inl e \<Rightarrow> if e = ErrNoRows then ret None else fail e
     | Inr r \<Rightarrow> ret (Some (cx_org_id r, cx_type r, cx_access_token r, cx_verify_token r)))"

definition pg_chan_ByOrgAndType :: "OrgID \<Rightarrow> string \<Rightarrow> (string \<times> string) option wop" where
  "pg_chan_ByOrgAndType org typ = attempt (gen_GetChannelByOrgAndType org typ) (\<lambda>q. case q of
       Inl e \<Rightarrow> if e = ErrNoRows then ret None else fail e
     | Inr r \<Rightarrow> ret (Some (cx_external_id r, cx_access_token r)))"

definition pg_chan_OrgForVerifyToken :: "string \<Rightarrow> bool wop" where
  "pg_chan_OrgForVerifyToken token = attempt (gen_GetChannelByVerifyToken token) (\<lambda>q. case q of
       Inl e \<Rightarrow> if e = ErrNoRows then ret False else fail e
     | Inr r \<Rightarrow> ret True)"

definition pg_channels :: "libs \<Rightarrow> ChannelRepo" where
  "pg_channels L = \<lparr>chr_Upsert = pg_chan_Upsert, chr_List = pg_chan_List L, chr_Delete = pg_chan_Delete,
     chr_ByExternalID = pg_chan_ByExternalID, chr_ByOrgAndType = pg_chan_ByOrgAndType,
     chr_OrgForVerifyToken = pg_chan_OrgForVerifyToken\<rparr>"

section \<open>Senders (adapter/messaging)\<close>

definition messaging_logsender :: MessagingSender where
  "messaging_logsender = \<lparr>msd_Send = (\<lambda>m. perform (emit_effect (ChannelSent m)))\<rparr>"

definition graphBase :: string where
  "graphBase = ''https://graph.facebook.com/v21.0''"

definition json_member :: "string \<Rightarrow> string \<Rightarrow> string" where
  "json_member k v = json_string k @ '':'' @ v"

text \<open>The request body: maps are marshalled in key order.\<close>

definition meta_body :: "OutboundMessage \<Rightarrow> string option" where
  "meta_body m =
     (if om_Type m = ''whatsapp''
      then Some (''{'' @ json_member ''messaging_product'' (json_string ''whatsapp'') @ '','' @
        json_member ''text'' (json_object [(''body'', om_Text m)]) @ '','' @
        json_member ''to'' (json_string (om_To m)) @ '','' @ json_member ''type'' (json_string ''text'') @ ''}'')
      else if om_Type m = ''messenger''
      then Some (''{'' @ json_member ''message'' (json_object [(''text'', om_Text m)]) @ '','' @
        json_member ''recipient'' (json_object [(''id'', om_To m)]) @ ''}'')
      else None)"

definition meta_url :: "OutboundMessage \<Rightarrow> string" where
  "meta_url m = graphBase @ ''/'' @ om_FromExternalID m @ ''/messages?access_token='' @ om_AccessToken m"

text \<open>
  \<open>http url body\<close> posts a request and returns the status code, the status line and the
  body of the answer, or the error of building the request or of the exchange.
\<close>

definition meta_Send :: "(string \<Rightarrow> string \<Rightarrow> (int \<times> string \<times> string) wop) \<Rightarrow> OutboundMessage \<Rightarrow> unit wop" where
  "meta_Send http m = (case meta_body m of
       None \<Rightarrow> fail (ErrOther (''meta: unsupported channel '' @ [CHR 0x22] @ om_Type m @ [CHR 0x22]))
     | Some body \<Rightarrow> bnd (http (meta_url m) body) (\<lambda>(code, status, answer).
         if code \<ge> 300 then fail (ErrOther (''meta send: '' @ status @ '': '' @ take 2048 answer)) else ret ()))"

section \<open>The service (service/messaging)\<close>

record MessagingService =
  me_conns :: ChannelRepo
  me_SendChannel :: "OrgID \<Rightarrow> string \<Rightarrow> string \<Rightarrow> string \<Rightarrow> string wop"
  me_sender :: MessagingSender
  me_libs :: libs

definition decrypt_err :: go_error where
  "decrypt_err = ErrOther ''cipher: message authentication failed''"

definition messaging_Connect :: "MessagingService \<Rightarrow> OrgID \<Rightarrow> string \<Rightarrow> string \<Rightarrow> string \<Rightarrow> string \<Rightarrow> unit wop" where
  "messaging_Connect s org typ ext accessToken verifyToken = bnd (cipher_Encrypt (me_libs s) accessToken) (\<lambda>enc.
     chr_Upsert (me_conns s) org typ ext enc verifyToken)"

definition messaging_List :: "MessagingService \<Rightarrow> OrgID \<Rightarrow> ChannelConnection list wop" where
  "messaging_List s org = chr_List (me_conns s) org"

definition messaging_Disconnect :: "MessagingService \<Rightarrow> OrgID \<Rightarrow> string \<Rightarrow> unit wop" where
  "messaging_Disconnect s org typ = chr_Delete (me_conns s) org typ"

definition messaging_SendOutbound :: "MessagingService \<Rightarrow> OrgID \<Rightarrow> string \<Rightarrow> string \<Rightarrow> string \<Rightarrow> unit wop" where
  "messaging_SendOutbound s org channel toUser msg = bnd (chr_ByOrgAndType (me_conns s) org channel) (\<lambda>found. case found of
       None \<Rightarrow> ret ()
     | Some (ext, enc) \<Rightarrow> (case cipher_Decrypt (me_libs s) enc of
           None \<Rightarrow> fail decrypt_err
         | Some token \<Rightarrow> msd_Send (me_sender s) \<lparr>om_Type = channel, om_FromExternalID = ext, om_AccessToken = token,
             om_To = toUser, om_Text = msg\<rparr>))"

definition messaging_VerifyChallenge :: "MessagingService \<Rightarrow> string \<Rightarrow> bool wop" where
  "messaging_VerifyChallenge s verifyToken = attempt (chr_OrgForVerifyToken (me_conns s) verifyToken) (\<lambda>q. case q of
       Inl _ \<Rightarrow> ret False | Inr ok \<Rightarrow> ret ok)"

definition messaging_HandleInbound :: "MessagingService \<Rightarrow> string \<Rightarrow> string \<Rightarrow> string \<Rightarrow> unit wop" where
  "messaging_HandleInbound s ext sender msg = bnd (chr_ByExternalID (me_conns s) ext) (\<lambda>found. case found of
       None \<Rightarrow> ret ()
     | Some (org, typ, enc, _) \<Rightarrow>
         bnd (me_SendChannel s org typ sender msg) (\<lambda>reply.
         if reply = [] then ret ()
         else (case cipher_Decrypt (me_libs s) enc of
             None \<Rightarrow> fail decrypt_err
           | Some token \<Rightarrow> msd_Send (me_sender s) \<lparr>om_Type = typ, om_FromExternalID = ext, om_AccessToken = token,
               om_To = sender, om_Text = reply\<rparr>)))"

definition messaging_service :: "libs \<Rightarrow> ChatService \<Rightarrow> MessagingSender \<Rightarrow> MessagingService" where
  "messaging_service L chat sender = \<lparr>me_conns = pg_channels L, me_SendChannel = chat_SendChannel chat, me_sender = sender,
     me_libs = L\<rparr>"

section \<open>What is sent\<close>

fun sends :: "effect list \<Rightarrow> OutboundMessage list" where
  "sends [] = []"
| "sends (ChannelSent m # es) = m # sends es"
| "sends (e # es) = sends es"

lemma sends_append [simp]: "sends (xs @ ys) = sends xs @ sends ys"
  by (induction xs rule: sends.induct) simp_all

definition unsent :: "world \<Rightarrow> world \<Rightarrow> bool" where
  "unsent w w' \<longleftrightarrow> sends (w_trace w') = sends (w_trace w)"

lemma preorder_unsent [simp, intro]: "preorder_rel unsent"
  by (rule preorder_relI) (auto simp: unsent_def)

lemma quiet_unsent: "mrel quiet n \<Longrightarrow> mrel unsent n"
  by (erule mrel_mono) (simp add: quiet_def unsent_def)

lemmas unsent_intros [mrel_intros] = quiet_unsent [OF quiet_db_exec] quiet_unsent [OF quiet_db_read] quiet_unsent [OF quiet_id_New]

lemma unsent_SendChannel: "mrel unsent (chat_SendChannel (builtin_chat lower) org channel user msg)"
proof -
  have pub: "mrel unsent (perform (chat_publish (builtin_chat lower) e))" for e
    by (rule mrel_perform) (simp add: unsent_def chat_publish_def chat_service_def feed_publisher_def)
  have model: "mrel unsent (cml_Reply (builtin_model lower) prompt h)" for prompt h
    by (simp add: builtin_model_def mrel_ret)
  show ?thesis
    unfolding chat_SendChannel_def chat_reply_def builtin.svc_simps builtin.repo_defs pg_FindOrCreate_def
      gen_FindOpenChannelConversation_def gen_CreateChannelConversation_def new_conversation_def gen_InsertMessage_def
      gen_TouchConversation_def Let_def
    by (intro mrel_intros pub model) auto
qed

lemma wp_ByExternalID:
  "wp (pg_chan_ByExternalID ext) (\<lambda>r w'. w_db w' = w_db w \<and> env_frame w w' \<and> kept_calm w w' \<and> (case r of
      Inl e \<Rightarrow> e = ErrConn
    | Inr found \<Rightarrow> found = map_option (\<lambda>row. (cx_org_id row, cx_type row, cx_access_token row, cx_verify_token row))
        (List.find (\<lambda>r. cx_external_id r = ext) (channel_connections (w_db w))))) w"
proof -
  have "wp (gen_GetChannelByExternalID ext) (\<lambda>r w'. w_db w' = w_db w \<and> env_frame w w' \<and> kept_calm w w' \<and> (case r of
      Inl e \<Rightarrow> e = ErrConn \<or> e = ErrNoRows \<and> List.find (\<lambda>r. cx_external_id r = ext) (channel_connections (w_db w)) = None
    | Inr row \<Rightarrow> List.find (\<lambda>r. cx_external_id r = ext) (channel_connections (w_db w)) = Some row)) w"
    unfolding gen_GetChannelByExternalID_def db_read_def
    by (rule wp_db_exec_sched) (auto simp: kept_calm_def split: option.splits)
  then show ?thesis unfolding pg_chan_ByExternalID_def by (rule wp_attempt) (auto split: sum.splits)
qed

lemma wp_ByOrgAndType:
  "wp (pg_chan_ByOrgAndType org typ) (\<lambda>r w'. w_db w' = w_db w \<and> env_frame w w' \<and> (case r of
      Inl e \<Rightarrow> e = ErrConn
    | Inr found \<Rightarrow> found = map_option (\<lambda>row. (cx_external_id row, cx_access_token row))
        (List.find (\<lambda>r. cx_org_id r = org \<and> cx_type r = typ) (channel_connections (w_db w))))) w"
proof -
  have "wp (gen_GetChannelByOrgAndType org typ) (\<lambda>r w'. w_db w' = w_db w \<and> env_frame w w' \<and> (case r of
      Inl e \<Rightarrow> e = ErrConn \<or> e = ErrNoRows \<and> List.find (\<lambda>r. cx_org_id r = org \<and> cx_type r = typ) (channel_connections (w_db w)) = None
    | Inr row \<Rightarrow> List.find (\<lambda>r. cx_org_id r = org \<and> cx_type r = typ) (channel_connections (w_db w)) = Some row)) w"
    unfolding gen_GetChannelByOrgAndType_def by (rule wp_db_read) (auto split: option.splits)
  then show ?thesis unfolding pg_chan_ByOrgAndType_def by (rule wp_attempt) (auto split: sum.splits)
qed

text \<open>The service with the built-in assistant and the logging sender.\<close>

abbreviation builtin_messaging :: "libs \<Rightarrow> (string \<Rightarrow> string) \<Rightarrow> MessagingService" where
  "builtin_messaging L lower \<equiv> messaging_service L (builtin_chat lower) messaging_logsender"

lemma messaging_simps [simp]:
  "chr_Upsert (me_conns (messaging_service L c sd)) = pg_chan_Upsert"
  "chr_ByOrgAndType (me_conns (messaging_service L c sd)) = pg_chan_ByOrgAndType"
  "chr_ByExternalID (me_conns (messaging_service L c sd)) = pg_chan_ByExternalID"
  "me_SendChannel (messaging_service L c sd) = chat_SendChannel c" "me_sender (messaging_service L c sd) = sd"
  "me_libs (messaging_service L c sd) = L" "msd_Send messaging_logsender m = perform (emit_effect (ChannelSent m))"
  by (simp_all add: messaging_service_def pg_channels_def messaging_logsender_def)

section \<open>Properties\<close>

text \<open>
  Property C24: an inbound message stays with the org whose channel received it. It changes
  nothing when the channel is unknown; otherwise no other org's chat data change, and at most
  one message is sent: to the sender, on the receiving channel, under that connection's own
  access token, and never an empty one.
\<close>

theorem HandleInbound_routed:
  assumes "chats_ok (w_db w)" and "messaging_HandleInbound (builtin_messaging L lower) ext sender msg w = (r, w')"
  shows "case List.find (\<lambda>c. cx_external_id c = ext) (channel_connections (w_db w)) of
      None \<Rightarrow> w_db w' = w_db w \<and> w_trace w' = w_trace w
    | Some c \<Rightarrow> others (cx_org_id c) (w_db w') = others (cx_org_id c) (w_db w) \<and>
        (\<exists>ms. sends (w_trace w') = sends (w_trace w) @ ms \<and> length ms \<le> 1 \<and> (\<forall>m \<in> set ms. om_To m = sender \<and>
           om_Type m = cx_type c \<and> om_FromExternalID m = ext \<and> om_Text m \<noteq> [] \<and>
           cipher_Decrypt L (cx_access_token c) = Some (om_AccessToken m)))"
    (is "?Q r w'")
proof -
  have "wp (messaging_HandleInbound (builtin_messaging L lower) ext sender msg) ?Q w"
    unfolding messaging_HandleInbound_def messaging_simps
  proof (rule wp_bnd [OF wp_ByExternalID], goal_cases)
    case (1 e w1)
    then show ?case by (auto simp: env_frame_def split: option.splits)
  next
    case (2 found w1)
    then have w1: "w_db w1 = w_db w" "w_trace w1 = w_trace w" by (auto simp: env_frame_def)
    show ?case
    proof (cases "List.find (\<lambda>c. cx_external_id c = ext) (channel_connections (w_db w))")
      case None
      with 2 w1 show ?thesis by simp
    next
      case (Some c)
      with 2 have found: "found = Some (cx_org_id c, cx_type c, cx_access_token c, cx_verify_token c)" by simp
      have chat: "wp (chat_SendChannel (builtin_chat lower) (cx_org_id c) (cx_type c) sender msg)
          (\<lambda>r w'. others (cx_org_id c) (w_db w') = others (cx_org_id c) (w_db w) \<and> sends (w_trace w') = sends (w_trace w)) w1"
      proof -
        have "wp (chat_SendChannel (builtin_chat lower) (cx_org_id c) (cx_type c) sender msg)
            (\<lambda>r w'. others (cx_org_id c) (w_db w') = others (cx_org_id c) (w_db w)) w1"
          using builtin.op_within [of w1 lower "cx_org_id c" "ChannelMsg (cx_type c) sender msg"] assms(1)
          by (auto simp: wp_def w1)
        from wp_mono [OF wp_conj [OF this wp_mrel [OF unsent_SendChannel]]] show ?thesis by (simp add: unsent_def w1)
      qed
      show ?thesis unfolding found option.case prod.case
      proof (rule wp_bnd [OF chat], goal_cases)
        case (2 reply w2)
        then show ?case by (auto simp: Some split: option.splits)
      qed (simp add: Some)
    qed
  qed
  from wpD [OF this assms(2)] show ?thesis .
qed

text \<open>
  What a merchant connects is what messages go out with. After a channel was
  connected, and until the connections change, an agent's message on it is sent exactly once,
  from the connected account and with the access token that was given, which is stored
  encrypted; only a lost connection prevents it.
\<close>

theorem Connect_SendOutbound:
  assumes "aead_ok L" and "messaging_Connect (builtin_messaging L lower) org typ ext token verify w = (Inr (), w1)"
    and "channel_connections (w_db w2) = channel_connections (w_db w1)"
    and "messaging_SendOutbound (builtin_messaging L lower) org typ user msg w2 = (r, w3)"
  shows "(r = Inr () \<and> w_trace w3 = w_trace w2 @ [ChannelSent \<lparr>om_Type = typ, om_FromExternalID = ext, om_AccessToken = token,
       om_To = user, om_Text = msg\<rparr>]) \<or> (r = Inl ErrConn \<and> w_trace w3 = w_trace w2)"
proof -
  have rnd: "length (fst (rand_bytes 12 v)) = 12" for v by (simp add: rand_bytes_def)
  have upd: "List.find (\<lambda>r. cx_org_id r = org \<and> cx_type r = typ) (upd_where (\<lambda>r. cx_org_id r = org \<and> cx_type r = typ) f rows)
      = map_option f (List.find (\<lambda>r. cx_org_id r = org \<and> cx_type r = typ) rows)"
    if "\<And>r. cx_org_id (f r) = cx_org_id r \<and> cx_type (f r) = cx_type r" for f rows
    using that by (induction rows) (auto simp: upd_where_def)
  let ?enc = "\<lambda>n. n @ lib_seal L n token"
  have "wp (messaging_Connect (builtin_messaging L lower) org typ ext token verify) (\<lambda>r w'. r = Inr () \<longrightarrow>
      (\<exists>c n. List.find (\<lambda>r. cx_org_id r = org \<and> cx_type r = typ) (channel_connections (w_db w')) = Some c \<and>
        cx_external_id c = ext \<and> cx_access_token c = ?enc n \<and> length n = 12)) w"
    unfolding messaging_Connect_def messaging_simps cipher_Encrypt_def pg_chan_Upsert_def Let_def bnd_assoc wp_bnd_simps bnd_ret
      gen_UpsertChannel_def
    by (rule wp_db_exec) (auto simp: upd find_append rnd intro!: exI)
  from wpD [OF this assms(2)] obtain c n where
    c: "List.find (\<lambda>r. cx_org_id r = org \<and> cx_type r = typ) (channel_connections (w_db w2)) = Some c"
    "cx_external_id c = ext" "cx_access_token c = ?enc n" "length n = 12" unfolding assms(3) by blast
  have dec: "cipher_Decrypt L (cx_access_token c) = Some token"
    using assms(1) c(3,4) by (simp add: cipher_Decrypt_def aead_ok_def)
  have "wp (messaging_SendOutbound (builtin_messaging L lower) org typ user msg) (\<lambda>r w'.
      (r = Inr () \<and> w_trace w' = w_trace w2 @ [ChannelSent \<lparr>om_Type = typ, om_FromExternalID = ext, om_AccessToken = token,
       om_To = user, om_Text = msg\<rparr>]) \<or> (r = Inl ErrConn \<and> w_trace w' = w_trace w2)) w2"
    unfolding messaging_SendOutbound_def messaging_simps
    by (rule wp_bnd [OF wp_ByOrgAndType]) (auto simp: c(1,2) dec env_frame_def)
  from wpD [OF this assms(4)] show ?thesis .
qed

section \<open>Examples\<close>

text \<open>An org with a connected WhatsApp number \<open>e\<close> and an open conversation with the customer \<open>u\<close>.\<close>

definition wa_conn :: ChannelRow where
  "wa_conn = \<lparr>cx_id = ''x'', cx_org_id = ''o'', cx_type = ''whatsapp'', cx_external_id = ''e'',
     cx_access_token = ''123456789012token'', cx_verify_token = ''v'', cx_created_at = 0\<rparr>"

definition wa_world :: world where
  "wa_world = init_world\<lparr>w_db := empty_db\<lparr>channel_connections := [wa_conn],
     conversations := [demo_conv\<lparr>cr_channel := ''whatsapp'', cr_external_user := Some ''u''\<rparr>]\<rparr>\<rparr>"

lemma wa_ok: "chats_ok (w_db wa_world)"
  by (simp add: wa_world_def chats_ok_def)

lemma wa_find: "List.find (\<lambda>c. cx_external_id c = ''e'') (channel_connections (w_db wa_world)) = Some wa_conn"
  by (simp add: wa_world_def wa_conn_def)

theorem HandleInbound_routed_witness:
  "\<exists>r w'. messaging_HandleInbound (builtin_messaging demo_libs id) ''e'' ''u'' ''hi'' wa_world = (r, w') \<and>
     others ''o'' (w_db w') = others ''o'' (w_db wa_world) \<and>
     (\<exists>ms. sends (w_trace w') = sends (w_trace wa_world) @ ms \<and> length ms \<le> 1)"
proof -
  obtain r w' where run: "messaging_HandleInbound (builtin_messaging demo_libs id) ''e'' ''u'' ''hi'' wa_world = (r, w')" by fastforce
  have "cx_org_id wa_conn = ''o''" by (simp add: wa_conn_def)
  with HandleInbound_routed [OF wa_ok run] run show ?thesis unfolding wa_find option.case by auto
qed

theorem Connect_SendOutbound_witness:
  "\<exists>w1 r w3. messaging_Connect (builtin_messaging demo_libs id) ''o'' ''whatsapp'' ''e'' ''token'' ''v'' init_world = (Inr (), w1) \<and>
     messaging_SendOutbound (builtin_messaging demo_libs id) ''o'' ''whatsapp'' ''u'' ''hi'' w1 = (r, w3) \<and>
     (r = Inr () \<and> w_trace w3 = w_trace w1 @ [ChannelSent \<lparr>om_Type = ''whatsapp'', om_FromExternalID = ''e'', om_AccessToken = ''token'',
       om_To = ''u'', om_Text = ''hi''\<rparr>] \<or> r = Inl ErrConn \<and> w_trace w3 = w_trace w1)"
proof -
  have "\<exists>w1. messaging_Connect (builtin_messaging demo_libs id) ''o'' ''whatsapp'' ''e'' ''token'' ''v'' init_world = (Inr (), w1)"
    by (simp add: messaging_Connect_def cipher_Encrypt_def pg_chan_Upsert_def gen_UpsertChannel_def Let_def bnd_def ret_def draw_eq
        db_exec_quiet rand_bytes_def)
  then obtain w1 where c: "messaging_Connect (builtin_messaging demo_libs id) ''o'' ''whatsapp'' ''e'' ''token'' ''v'' init_world = (Inr (), w1)"
    by blast
  obtain r w3 where o: "messaging_SendOutbound (builtin_messaging demo_libs id) ''o'' ''whatsapp'' ''u'' ''hi'' w1 = (r, w3)" by fastforce
  from Connect_SendOutbound [OF demo_aead c refl o] c o show ?thesis by blast
qed


end
