(* ===== verification/Yaver_Float.thy ===== *)
theory Yaver_Float
  imports Complex_Main Yaver_Prelude "HOL-Library.Log_Nat"
begin

text \<open>
  Go's \<open>float64\<close> as the sources use it: a finite double is the rational number it
  denotes, and every operation is the exact result rounded to the nearest double, ties to
  even (\<open>round64\<close>, a 53-bit significand). The values of this program (shares of counts,
  seconds between requests, tokens of a bucket) stay far inside the exponent range, so the
  exponent is left unbounded. The laws the clients need are the locale \<open>rounding\<close>, which
  \<open>round64\<close> interprets.
\<close>

section \<open>Rounding to a 53-bit significand\<close>

text \<open>\<open>2\<^sup>e\<close> for a possibly negative exponent, and the exponent of a positive number.\<close>

definition pow2 :: "int \<Rightarrow> rat" where
  "pow2 e = (if 0 \<le> e then 2 ^ nat e else 1 / 2 ^ nat (- e))"

definition exponent64 :: "rat \<Rightarrow> int" where
  "exponent64 x = (case quotient_of x of (p, q) \<Rightarrow>
     let e = int (floorlog 2 (nat p)) - int (floorlog 2 (nat q))
     in if pow2 e \<le> x then e else e - 1)"

definition nearest_even :: "rat \<Rightarrow> int" where
  "nearest_even x = (let k = \<lfloor>x\<rfloor>; r = x - of_int k in
     if r < 1 / 2 then k else if 1 / 2 < r then k + 1 else if even k then k else k + 1)"

definition round64 :: "rat \<Rightarrow> rat" where
  "round64 x = (if x = 0 then 0
     else let u = pow2 (exponent64 \<bar>x\<bar> - 52) in of_int (nearest_even (x / u)) * u)"

text \<open>\<open>int(x)\<close> drops the fraction.\<close>

definition go_trunc :: "rat \<Rightarrow> int" where
  "go_trunc x = (if 0 \<le> x then \<lfloor>x\<rfloor> else \<lceil>x\<rceil>)"

lemma floor_numeral_div: "\<lfloor>(numeral a :: rat) / numeral b\<rfloor> = numeral a div numeral b"
  using floor_divide_of_int_eq [of "numeral a" "numeral b", where ?'a = rat] by simp

lemma pow2_pos [simp]: "0 < pow2 e"
  by (simp add: pow2_def)

lemma pow2_neq [simp]: "pow2 e \<noteq> 0" "0 \<le> pow2 e"
  using pow2_pos [of e] by (simp_all del: pow2_pos)

lemma pow2_powi: "pow2 e = 2 powi e"
  by (simp add: pow2_def power_int_def field_simps)

lemma pow2_add: "pow2 (a + b) = pow2 a * pow2 b"
  by (simp add: pow2_powi power_int_add)

lemma pow2_mono: "a \<le> b \<Longrightarrow> pow2 a \<le> pow2 b"
  by (simp add: pow2_powi power_int_increasing)

lemma pow2_nat: "pow2 (int n) = 2 ^ n"
  by (simp add: pow2_def)

lemma pow2_lit: "pow2 52 = 2 ^ 52" "pow2 53 = 2 ^ 53"
  using pow2_nat [of 52] pow2_nat [of 53] by simp_all

lemma floorlog2_bounds:
  assumes "0 < n"
  shows "2 ^ (floorlog 2 n - 1) \<le> n" "n < 2 ^ floorlog 2 n" "0 < floorlog 2 n"
  using floorlog_bounds [of n 2] assms by (cases "floorlog 2 n"; auto)+

lemma exponent64_bounds:
  assumes "0 < x"
  shows "pow2 (exponent64 x) \<le> x" and "x < pow2 (exponent64 x + 1)"
proof -
  obtain p q where pq: "quotient_of x = (p, q)" by (cases "quotient_of x")
  have q: "0 < q" using pq by (rule quotient_of_denom_pos)
  have x: "x = of_int p / of_int q" using pq by (rule quotient_of_div)
  have p: "0 < p" using assms x q by (simp add: zero_less_divide_iff)
  define a where "a = floorlog 2 (nat p)"
  define b where "b = floorlog 2 (nat q)"
  have lift: "(2::rat) ^ m \<le> of_int i" if "2 ^ m \<le> nat i" "0 < i" for m i
    using that by (metis (mono_tags) int_nat_eq less_le of_int_le_iff of_int_numeral of_int_power
        of_nat_le_iff of_nat_numeral of_nat_power)
  have lift': "of_int i < (2::rat) ^ m" if "nat i < 2 ^ m" "0 < i" for m i
    using that by (metis (mono_tags) int_nat_eq less_le of_int_less_iff of_int_numeral of_int_power
        of_nat_less_iff of_nat_numeral of_nat_power)
  have ap: "(2::rat) ^ (a - 1) \<le> of_int p" "of_int p < (2::rat) ^ a" "0 < a"
    using floorlog2_bounds [of "nat p"] p unfolding a_def by (auto intro: lift lift')
  have bq: "(2::rat) ^ (b - 1) \<le> of_int q" "of_int q < (2::rat) ^ b" "0 < b"
    using floorlog2_bounds [of "nat q"] q unfolding b_def by (auto intro: lift lift')
  have dbl: "(2::rat) ^ b = 2 * 2 ^ (b - 1)" "(2::rat) ^ a = 2 * 2 ^ (a - 1)"
    using ap(3) bq(3) by (simp_all add: power_eq_if)
  have up: "x < pow2 (int a - int b + 1)"
  proof -
    have "of_int p < (2::rat) ^ a * (of_int q / 2 ^ (b - 1))"
      using ap(2) bq(1) by (intro less_le_trans [OF ap(2)]) (simp add: field_simps)
    then have "x < 2 ^ a / 2 ^ (b - 1)" using q by (simp add: x field_simps)
    also have "\<dots> = pow2 (int a) * pow2 (- int (b - 1))"
      by (cases b) (simp_all add: pow2_def)
    also have "\<dots> = pow2 (int a - int b + 1)"
      using bq(3) by (simp add: pow2_add [symmetric] algebra_simps)
    finally show ?thesis .
  qed
  have lo: "pow2 (int a - int b - 1) \<le> x"
  proof -
    have "pow2 (int a - int b - 1) = pow2 (int (a - 1)) * pow2 (- int b)"
      using ap(3) by (simp add: pow2_add [symmetric] algebra_simps)
    also have "\<dots> = 2 ^ (a - 1) / 2 ^ b" by (simp add: pow2_def)
    also have "\<dots> \<le> of_int p / of_int q"
      using ap(1) bq(2) p q by (intro frac_le) auto
    finally show ?thesis by (simp add: x)
  qed
  have e: "exponent64 x = (if pow2 (int a - int b) \<le> x then int a - int b else int a - int b - 1)"
    by (simp add: exponent64_def pq a_def b_def Let_def)
  show "pow2 (exponent64 x) \<le> x" using lo by (simp add: e)
  show "x < pow2 (exponent64 x + 1)" using up by (simp add: e)
qed

lemma exponent64_unique: "pow2 e \<le> x \<Longrightarrow> x < pow2 (e + 1) \<Longrightarrow> exponent64 x = e"
proof -
  assume e: "pow2 e \<le> x" "x < pow2 (e + 1)"
  then have "0 < x" using pow2_pos less_le_trans by blast
  note b = exponent64_bounds [OF this]
  have "\<not> exponent64 x + 1 \<le> e" using pow2_mono [of "exponent64 x + 1" e] e b by linarith
  moreover have "\<not> e + 1 \<le> exponent64 x" using pow2_mono [of "e + 1" "exponent64 x"] e b by linarith
  ultimately show ?thesis by linarith
qed

lemma nearest_even_int [simp]: "nearest_even (of_int k) = k"
  by (simp add: nearest_even_def)

lemma nearest_even_err: "\<bar>of_int (nearest_even x) - x\<bar> \<le> 1 / 2"
proof -
  define k where "k = \<lfloor>x\<rfloor>"
  define r where "r = x - of_int k"
  have "0 \<le> r" "r < 1" unfolding r_def k_def by linarith+
  moreover have "x = of_int k + r" by (simp add: r_def)
  moreover have "nearest_even x = (if r < 1 / 2 then k else if 1 / 2 < r then k + 1 else if even k then k else k + 1)"
    by (simp add: nearest_even_def k_def r_def Let_def)
  ultimately show ?thesis by (simp add: abs_le_iff)
qed

lemma nearest_even_mono: "x \<le> y \<Longrightarrow> nearest_even x \<le> nearest_even y"
proof -
  assume xy: "x \<le> y"
  then have fl: "\<lfloor>x\<rfloor> \<le> \<lfloor>y\<rfloor>" by (rule floor_mono)
  have le: "nearest_even x \<le> \<lfloor>x\<rfloor> + 1" "\<lfloor>y\<rfloor> \<le> nearest_even y"
    by (auto simp: nearest_even_def Let_def)
  show ?thesis
  proof (cases "\<lfloor>x\<rfloor> = \<lfloor>y\<rfloor>")
    case True
    with xy show ?thesis by (auto simp: nearest_even_def Let_def)
  next
    case False
    with fl le show ?thesis by linarith
  qed
qed

lemma nearest_even_minus: "nearest_even (- x) = - nearest_even x"
proof (cases "x \<in> \<int>")
  case True
  then obtain k where "x = of_int k" by (auto elim: Ints_cases)
  then show ?thesis using nearest_even_int [of "- k"] by simp
next
  case False
  then have "\<lfloor>- x\<rfloor> = - \<lfloor>x\<rfloor> - 1"
    by (simp add: floor_minus ceiling_altdef) (metis Ints_of_int)
  then show ?thesis by (auto simp: nearest_even_def Let_def)
qed

lemma round64_minus: "round64 (- x) = - round64 x"
  by (simp add: round64_def Let_def nearest_even_minus)

text \<open>A positive number is rounded within its binade, hence rounding is monotone.\<close>

lemma round64_pos:
  "0 < x \<Longrightarrow> round64 x = of_int (nearest_even (x / pow2 (exponent64 x - 52))) * pow2 (exponent64 x - 52)"
  by (simp add: round64_def Let_def)

lemma round64_binade:
  assumes "0 < x"
  shows "pow2 (exponent64 x) \<le> round64 x" "round64 x \<le> pow2 (exponent64 x + 1)"
proof -
  let ?e = "exponent64 x" and ?u = "pow2 (exponent64 x - 52)"
  have sc: "pow2 ?e = of_int (2 ^ 52) * ?u" "pow2 (?e + 1) = of_int (2 ^ 53) * ?u"
    using pow2_add [of "?e - 52" 52] pow2_add [of "?e - 52" 53] by (simp_all add: pow2_lit algebra_simps)
  note b = exponent64_bounds [OF assms]
  have "of_int (2 ^ 52) \<le> x / ?u" "x / ?u \<le> of_int (2 ^ 53)"
    using b unfolding sc by (auto simp only: pos_le_divide_eq pos_divide_le_eq pow2_pos intro: less_imp_le)
  then have "2 ^ 52 \<le> nearest_even (x / ?u)" "nearest_even (x / ?u) \<le> 2 ^ 53"
    by (metis nearest_even_int nearest_even_mono)+
  then show "pow2 ?e \<le> round64 x" "round64 x \<le> pow2 (?e + 1)"
    unfolding sc round64_pos [OF assms] by (auto simp only: of_int_le_iff intro!: mult_right_mono pow2_neq(2))
qed

lemma round64_mono_pos:
  assumes "0 < x" "x \<le> y" shows "round64 x \<le> round64 y"
proof -
  let ?e = "exponent64 x" and ?f = "exponent64 y"
  have "0 < y" using assms by simp
  note bx = exponent64_bounds [OF assms(1)] and bf = exponent64_bounds [OF \<open>0 < y\<close>]
  have "\<not> ?f + 1 \<le> ?e" using pow2_mono [of "?f + 1" ?e] bx bf assms(2) by linarith
  then consider (same) "?f = ?e" | (next_binade) "?e + 1 \<le> ?f" by linarith
  then show ?thesis
  proof cases
    case same
    have "nearest_even (x / pow2 (?e - 52)) \<le> nearest_even (y / pow2 (?e - 52))"
      using assms(2) by (intro nearest_even_mono divide_right_mono) auto
    then show ?thesis unfolding round64_pos [OF assms(1)] round64_pos [OF \<open>0 < y\<close>] same
      by (auto intro!: mult_right_mono)
  next
    case next_binade
    show ?thesis
      using round64_binade [OF assms(1)] round64_binade [OF \<open>0 < y\<close>] pow2_mono [OF next_binade] by linarith
  qed
qed

lemma round64_zero [simp]: "round64 0 = 0"
  by (simp add: round64_def)

lemma round64_nonneg: "0 \<le> x \<Longrightarrow> 0 \<le> round64 x"
  using round64_binade(1) [of x] pow2_neq(2) [of "exponent64 x"] by (cases "x = 0") (simp, linarith)

lemma round64_mono: "x \<le> y \<Longrightarrow> round64 x \<le> round64 y"
proof -
  assume xy: "x \<le> y"
  consider "0 < x" | "x \<le> 0" "0 \<le> y" | "y < 0" by linarith
  then show ?thesis
  proof cases
    case 1
    then show ?thesis using xy by (rule round64_mono_pos)
  next
    case 2
    then have "0 \<le> round64 (- x)" "0 \<le> round64 y" by (auto intro: round64_nonneg)
    then show ?thesis by (simp add: round64_minus)
  next
    case 3
    then show ?thesis using round64_mono_pos [of "- y" "- x"] xy by (simp add: round64_minus)
  qed
qed

text \<open>The error of one operation, relative to its exact result.\<close>

definition unit64 :: rat where
  "unit64 = 1 / 2 ^ 53"

lemma round64_err_pos: "0 < x \<Longrightarrow> \<bar>round64 x - x\<bar> \<le> unit64 * x"
proof -
  assume x: "0 < x"
  let ?u = "pow2 (exponent64 x - 52)"
  have "\<bar>of_int (nearest_even (x / ?u)) - x / ?u\<bar> * ?u \<le> 1 / 2 * ?u"
    by (intro mult_right_mono nearest_even_err) simp
  moreover have "\<bar>of_int (nearest_even (x / ?u)) - x / ?u\<bar> * ?u = \<bar>round64 x - x\<bar>"
    using abs_mult [of "of_int (nearest_even (x / ?u)) - x / ?u" ?u]
    unfolding round64_pos [OF x] by (simp add: left_diff_distrib)
  moreover have "1 / 2 * ?u = unit64 * pow2 (exponent64 x)"
    using pow2_add [of "exponent64 x - 52" 52] by (simp add: unit64_def pow2_lit)
  moreover have "\<dots> \<le> unit64 * x" using exponent64_bounds(1) [OF x] by (simp add: unit64_def)
  ultimately show ?thesis by linarith
qed

lemma round64_err: "\<bar>round64 x - x\<bar> \<le> unit64 * \<bar>x\<bar>"
proof -
  consider "x = 0" | "0 < x" | "0 < - x" by linarith
  then show ?thesis
  proof cases
    case 3
    show ?thesis using round64_err_pos [OF 3] 3 by (simp add: round64_minus abs_minus_commute)
  qed (use round64_err_pos in auto)
qed

text \<open>Integers below \<open>2\<^sup>5\<^sup>3\<close> are doubles.\<close>

lemma round64_nat:
  assumes "n < 2 ^ 53" shows "round64 (of_nat n) = of_nat n"
proof (cases "n = 0")
  case False
  let ?x = "of_nat n :: rat"
  let ?e = "exponent64 ?x"
  have x: "0 < ?x" using False by simp
  have "?x < pow2 53" 
    unfolding pow2_lit using assms by (metis of_nat_less_iff of_nat_numeral of_nat_power)
  then have "\<not> 53 \<le> ?e" using exponent64_bounds(1) [OF x] pow2_mono [of 53 ?e] by linarith
  then obtain k where k: "52 - ?e = int k" 
    using nonneg_int_cases [of "52 - ?e"] by auto
  have "?x / pow2 (?e - 52) = ?x * pow2 (52 - ?e)"
    using pow2_add [of "?e - 52" "52 - ?e"] by (simp add: field_simps pow2_def [of 0])
  also have "\<dots> = of_int (int n * 2 ^ k)" by (simp add: k pow2_nat)
  finally have i: "?x / pow2 (?e - 52) = of_int (int n * 2 ^ k)" .
  have "round64 ?x = ?x / pow2 (?e - 52) * pow2 (?e - 52)"
    unfolding round64_pos [OF x] i nearest_even_int ..
  then show ?thesis by simp
qed simp

section \<open>The laws of rounding\<close>

locale rounding =
  fixes fl :: "rat \<Rightarrow> rat" and u :: rat
  assumes fl_mono: "x \<le> y \<Longrightarrow> fl x \<le> fl y"
    and fl_err: "\<bar>fl x - x\<bar> \<le> u * \<bar>x\<bar>"
    and fl_nat: "n < 2 ^ 53 \<Longrightarrow> fl (of_nat n) = of_nat n"
    and u_range: "0 \<le> u" "u \<le> 1"
begin

lemma fl_zero [simp]: "fl 0 = 0"
  using fl_nat [of 0] by simp

lemma fl_nonneg: "0 \<le> x \<Longrightarrow> 0 \<le> fl x"
  using fl_mono [of 0 x] by simp

lemma fl_le: "0 \<le> x \<Longrightarrow> fl x \<le> (1 + u) * x"
  using fl_err [of x] by (simp add: algebra_simps abs_le_iff)

lemma fl_ge: "0 \<le> x \<Longrightarrow> (1 - u) * x \<le> fl x"
  using fl_err [of x] by (simp add: algebra_simps abs_le_iff)

end

interpretation f64: rounding round64 unit64
  by (unfold_locales; (rule round64_mono round64_err round64_nat)?) (simp_all add: unit64_def)

end
