(* ===== verification/Yaver_Ratelimit.thy ===== *)
theory Yaver_Ratelimit
  imports Yaver_Domain Yaver_Float
begin

text \<open>
  The token-bucket rate limiter (\<open>platform/ratelimit\<close>): buckets per client key, the
  refill in \<open>float64\<close> arithmetic, the sweeper that forgets idle keys, and the key of a
  request. The middleware itself is with the other HTTP middleware.
\<close>

section \<open>The limiter\<close>

record bucket =
  bk_tokens :: rat
  bk_last :: time

record Limiter =
  lm_buckets :: "string \<rightharpoonup> bucket"
  lm_rate :: rat
  lm_burst :: rat

definition ratelimit_New :: "nat \<Rightarrow> nat \<Rightarrow> Limiter" where
  "ratelimit_New perMinute burst = \<lparr>lm_buckets = Map.empty,
     lm_rate = round64 (round64 (of_nat perMinute) / 60), lm_burst = round64 (of_nat burst)\<rparr>"

text \<open>
  \<open>now.Sub(last)\<close>, which saturates, and \<open>Duration.Seconds()\<close>: the whole seconds plus
  the remaining nanoseconds divided by \<open>1e9\<close>.
\<close>

definition go_Sub :: "time \<Rightarrow> time \<Rightarrow> int" where
  "go_Sub t u = max (- (2 ^ 63)) (min (2 ^ 63 - 1) (t - u))"

definition duration_Seconds :: "int \<Rightarrow> rat" where
  "duration_Seconds d = (let sec = sgn d * (\<bar>d\<bar> div second); nsec = sgn d * (\<bar>d\<bar> mod second) in
     round64 (round64 (of_int sec) + round64 (round64 (of_int nsec) / 1000000000)))"

definition refill :: "Limiter \<Rightarrow> time \<Rightarrow> bucket \<Rightarrow> bucket" where
  "refill l now b = (let t = round64 (bk_tokens b + round64 (duration_Seconds (go_Sub now (bk_last b)) * lm_rate l)) in
     \<lparr>bk_tokens = (if t > lm_burst l then lm_burst l else t), bk_last = now\<rparr>)"

definition limiter_allow :: "string \<Rightarrow> time \<Rightarrow> Limiter \<Rightarrow> bool \<times> Limiter" where
  "limiter_allow key now l = (let b = (case lm_buckets l key of
       None \<Rightarrow> \<lparr>bk_tokens = lm_burst l, bk_last = now\<rparr>
     | Some b \<Rightarrow> refill l now b) in
     if bk_tokens b < 1 then (False, l\<lparr>lm_buckets := (lm_buckets l)(key \<mapsto> b)\<rparr>)
     else (True, l\<lparr>lm_buckets := (lm_buckets l)(key \<mapsto> b\<lparr>bk_tokens := round64 (bk_tokens b - 1)\<rparr>)\<rparr>))"

text \<open>One round of the sweeper's endless loop.\<close>

definition limiter_sweep :: "time \<Rightarrow> Limiter \<Rightarrow> Limiter" where
  "limiter_sweep now l = (let cutoff = now - 600 * second in
     l\<lparr>lm_buckets := (\<lambda>k. case lm_buckets l k of None \<Rightarrow> None
        | Some b \<Rightarrow> if bk_last b < cutoff then None else Some b)\<rparr>)"

section \<open>The key of a request\<close>

text \<open>\<open>net.SplitHostPort\<close>: the host, or \<open>None\<close> where it returns an error.\<close>

definition index_of :: "char \<Rightarrow> string \<Rightarrow> nat option" where
  "index_of c s = (if c \<in> set s then Some (length (takeWhile (\<lambda>x. x \<noteq> c) s)) else None)"

definition last_index_of :: "char \<Rightarrow> string \<Rightarrow> nat option" where
  "last_index_of c s = (case index_of c (rev s) of None \<Rightarrow> None | Some i \<Rightarrow> Some (length s - 1 - i))"

definition SplitHost :: "string \<Rightarrow> string option" where
  "SplitHost hp = (case last_index_of (CHR '':'') hp of
       None \<Rightarrow> None
     | Some i \<Rightarrow>
         if hd hp = CHR ''['' then
           (case index_of (CHR '']'') hp of
              None \<Rightarrow> None
            | Some close \<Rightarrow>
                if close + 1 \<noteq> i then None
                else if CHR ''['' \<in> set (drop 1 hp) \<or> CHR '']'' \<in> set (drop (close + 1) hp) then None
                else Some (take (close - 1) (drop 1 hp)))
         else
           (let host = take i hp in
            if CHR '':'' \<in> set host then None
            else if CHR ''['' \<in> set hp \<or> CHR '']'' \<in> set hp then None
            else Some host))"

definition ClientIP :: "string \<Rightarrow> string \<Rightarrow> string" where
  "ClientIP xff remoteAddr = (if xff \<noteq> [] then trim_space (takeWhile (\<lambda>c. c \<noteq> CHR '','') xff)
     else (case SplitHost remoteAddr of Some host \<Rightarrow> host | None \<Rightarrow> remoteAddr))"

section \<open>How many requests a key gets through\<close>

text \<open>The use of a limiter over time: requests of keys and rounds of the sweeper.\<close>

datatype limiter_event = Allow string | Sweep

fun limiter_run :: "string \<Rightarrow> (time \<times> limiter_event) list \<Rightarrow> Limiter \<Rightarrow> nat \<times> Limiter" where
  "limiter_run k [] l = (0, l)"
| "limiter_run k ((t, Sweep) # evs) l = limiter_run k evs (limiter_sweep t l)"
| "limiter_run k ((t, Allow k') # evs) l = (case limiter_allow k' t l of (ok, l') \<Rightarrow>
     (case limiter_run k evs l' of (n, l'') \<Rightarrow> ((if ok \<and> k' = k then 1 else 0) + n, l'')))"

definition limiter_ok :: "Limiter \<Rightarrow> bool" where
  "limiter_ok l \<longleftrightarrow> 0 \<le> lm_rate l \<and> 0 \<le> lm_burst l \<and> round64 (lm_burst l) = lm_burst l
     \<and> (\<forall>k b. lm_buckets l k = Some b \<longrightarrow> 0 \<le> bk_tokens b \<and> bk_tokens b \<le> lm_burst l)"

lemma limiter_ok_New: "b < 2 ^ 53 \<Longrightarrow> limiter_ok (ratelimit_New p b)"
  by (simp add: limiter_ok_def ratelimit_New_def f64.fl_nonneg f64.fl_nat)

text \<open>The seconds between two readings of the clock, as computed and exactly.\<close>

abbreviation secs :: "int \<Rightarrow> rat" where
  "secs d \<equiv> of_int d / 1000000000"

lemma go_Sub_mono: "u \<le> t \<Longrightarrow> 0 \<le> go_Sub t u \<and> go_Sub t u \<le> t - u"
  by (simp add: go_Sub_def)

lemma Seconds_bounds:
  assumes "0 \<le> d"
  shows "0 \<le> duration_Seconds d" "duration_Seconds d \<le> (1 + unit64)\<^sup>2 * secs d"
proof -
  define s where "s = d div second"
  define n where "n = d mod second"
  have n: "0 \<le> n" "n < second" and s: "0 \<le> s" using assms by (simp_all add: n_def s_def pos_imp_zdiv_nonneg_iff)
  have "duration_Seconds d = round64 (round64 (of_int s) + round64 (round64 (of_int n) / 1000000000))"
  proof (cases "d = 0")
    case False
    then show ?thesis using assms by (simp add: duration_Seconds_def s_def n_def Let_def)
  qed (simp add: duration_Seconds_def s_def n_def)
  also have "round64 (of_int n) = of_int n" using f64.fl_nat [of "nat n"] n by simp
  finally have D: "duration_Seconds d = round64 (round64 (of_int s) + round64 (secs n))" .
  have nn: "0 \<le> round64 (of_int s)" "0 \<le> round64 (secs n)" using n s by (simp_all add: f64.fl_nonneg)
  then show "0 \<le> duration_Seconds d" unfolding D by (intro f64.fl_nonneg) simp
  have "of_int d = (of_int (s * second + n) :: rat)" by (simp add: s_def n_def)
  then have d: "secs d = of_int s + secs n" by (simp add: field_simps)
  have "round64 (of_int s) + round64 (secs n) \<le> (1 + unit64) * secs d"
    using f64.fl_le [of "of_int s"] f64.fl_le [of "secs n"] n s unfolding d by (simp add: distrib_left)
  then have "(1 + unit64) * (round64 (of_int s) + round64 (secs n)) \<le> (1 + unit64) * ((1 + unit64) * secs d)"
    by (intro mult_left_mono) (simp_all add: unit64_def)
  with f64.fl_le [of "round64 (of_int s) + round64 (secs n)"] nn
  show "duration_Seconds d \<le> (1 + unit64)\<^sup>2 * secs d" unfolding D power2_eq_square mult.assoc by linarith
qed

text \<open>A refill adds at most the rate times the elapsed time, up to rounding.\<close>

lemma refill_bounds:
  assumes ok: "0 \<le> lm_rate l" "0 \<le> lm_burst l" and b: "0 \<le> bk_tokens b" and time: "bk_last b \<le> now"
  shows "0 \<le> bk_tokens (refill l now b)" "bk_tokens (refill l now b) \<le> lm_burst l"
    and "bk_tokens (refill l now b) \<le> bk_tokens b + (1 + unit64) ^ 3 * lm_rate l * secs (now - bk_last b) + unit64 * lm_burst l"
proof -
  let ?d = "go_Sub now (bk_last b)"
  let ?inc = "round64 (duration_Seconds ?d * lm_rate l)"
  let ?s = "bk_tokens b + ?inc"
  have u: "0 \<le> unit64" by (simp add: unit64_def)
  have d: "0 \<le> ?d" "?d \<le> now - bk_last b" using go_Sub_mono [OF time] by auto
  note S = Seconds_bounds [OF d(1)]
  have inc0: "0 \<le> ?inc" using S(1) ok by (simp add: f64.fl_nonneg)
  have "?inc \<le> (1 + unit64) * (duration_Seconds ?d * lm_rate l)" using S(1) ok by (intro f64.fl_le) simp
  also have "\<dots> \<le> (1 + unit64) * (((1 + unit64)\<^sup>2 * secs ?d) * lm_rate l)"
    using S(2) ok u by (intro mult_left_mono mult_right_mono) auto
  also have "\<dots> = (1 + unit64) ^ 3 * lm_rate l * secs ?d" by (simp add: power2_eq_square power3_eq_cube)
  also have "\<dots> \<le> (1 + unit64) ^ 3 * lm_rate l * secs (now - bk_last b)"
    using d ok u by (intro mult_left_mono divide_right_mono) (auto simp: of_int_le_iff)
  finally have inc: "?inc \<le> (1 + unit64) ^ 3 * lm_rate l * secs (now - bk_last b)" .
  have t: "bk_tokens (refill l now b) = min (lm_burst l) (round64 ?s)"
    by (simp add: refill_def Let_def min_def)
  have s0: "0 \<le> round64 ?s" using b inc0 by (intro f64.fl_nonneg) simp
  with t ok(2) show "0 \<le> bk_tokens (refill l now b)" "bk_tokens (refill l now b) \<le> lm_burst l" by simp_all
  have "min (lm_burst l) (round64 ?s) \<le> ?s + unit64 * lm_burst l"
  proof (cases "?s \<le> lm_burst l")
    case True
    then have "unit64 * ?s \<le> unit64 * lm_burst l" using u by (rule mult_left_mono)
    with f64.fl_le [of ?s] b inc0 show ?thesis by (simp add: distrib_right)
  next
    case False
    with mult_nonneg_nonneg [OF u ok(2)] show ?thesis by linarith
  qed
  with t inc show "bk_tokens (refill l now b) \<le> bk_tokens b + (1 + unit64) ^ 3 * lm_rate l * secs (now - bk_last b) + unit64 * lm_burst l"
    by linarith
qed

text \<open>Taking a token.\<close>

lemma take_token:
  assumes "1 \<le> t" "t \<le> burst" "round64 burst = burst"
  shows "0 \<le> round64 (t - 1)" "round64 (t - 1) \<le> burst" "round64 (t - 1) \<le> t - 1 + unit64 * burst"
proof -
  show "0 \<le> round64 (t - 1)" using assms(1) by (intro f64.fl_nonneg) simp
  show "round64 (t - 1) \<le> burst" using f64.fl_mono [of "t - 1" burst] assms by simp
  have "unit64 * (t - 1) \<le> unit64 * burst" using assms by (intro mult_left_mono) (auto simp: unit64_def)
  with f64.fl_le [of "t - 1"] assms(1) show "round64 (t - 1) \<le> t - 1 + unit64 * burst"
    by (simp add: algebra_simps)
qed

subsection \<open>The potential argument\<close>

text \<open>
  \<open>metered l k t0 R n a now\<close>: with \<open>a\<close> requests of \<open>k\<close> admitted since \<open>t0\<close> in
  \<open>n\<close> attempts, the tokens left and the requests admitted are paid for by the burst, the
  refill up to the last request and the rounding of each attempt; for a key without a bucket
  they are paid for even if it starts again with a full one.
\<close>

definition metered :: "Limiter \<Rightarrow> string \<Rightarrow> time \<Rightarrow> rat \<Rightarrow> nat \<Rightarrow> nat \<Rightarrow> time \<Rightarrow> bool" where
  "metered l k t0 R n a now \<longleftrightarrow> (case lm_buckets l k of
     Some b \<Rightarrow> bk_last b \<le> now \<and> t0 \<le> bk_last b
       \<and> of_nat a + bk_tokens b \<le> lm_burst l + R * secs (bk_last b - t0) + 2 * unit64 * lm_burst l * of_nat n
   | None \<Rightarrow> of_nat a \<le> R * secs (now - t0) + 2 * unit64 * lm_burst l * of_nat n)"

lemma limiter_ok_allow:
  assumes ok: "limiter_ok l" and past: "\<And>b. lm_buckets l key = Some b \<Longrightarrow> bk_last b \<le> now"
  shows "limiter_ok (snd (limiter_allow key now l))"
proof -
  define b where "b = (case lm_buckets l key of None \<Rightarrow> \<lparr>bk_tokens = lm_burst l, bk_last = now\<rparr> | Some b \<Rightarrow> refill l now b)"
  have b: "0 \<le> bk_tokens b" "bk_tokens b \<le> lm_burst l"
    using ok past refill_bounds(1,2) [of l _ now] unfolding b_def limiter_ok_def by (auto split: option.splits)
  have "limiter_allow key now l = (if bk_tokens b < 1 then (False, l\<lparr>lm_buckets := (lm_buckets l)(key \<mapsto> b)\<rparr>)
     else (True, l\<lparr>lm_buckets := (lm_buckets l)(key \<mapsto> b\<lparr>bk_tokens := round64 (bk_tokens b - 1)\<rparr>)\<rparr>))"
    by (simp add: limiter_allow_def b_def Let_def)
  then show ?thesis
    using ok b take_token [of "bk_tokens b" "lm_burst l"] by (auto simp: limiter_ok_def)
qed

definition clocked :: "time \<Rightarrow> Limiter \<Rightarrow> bool" where
  "clocked now l \<longleftrightarrow> (\<forall>k b. lm_buckets l k = Some b \<longrightarrow> bk_last b \<le> now)"

lemma allow_frame [simp]:
  "lm_rate (snd (limiter_allow key t l)) = lm_rate l" "lm_burst (snd (limiter_allow key t l)) = lm_burst l"
  "k \<noteq> key \<Longrightarrow> lm_buckets (snd (limiter_allow key t l)) k = lm_buckets l k"
  by (simp_all add: limiter_allow_def Let_def)

lemma sweep_frame [simp]:
  "lm_rate (limiter_sweep t l) = lm_rate l" "lm_burst (limiter_sweep t l) = lm_burst l"
  by (simp_all add: limiter_sweep_def Let_def)

lemma clocked_allow: "clocked now l \<Longrightarrow> now \<le> t \<Longrightarrow> clocked t (snd (limiter_allow key t l))"
  by (fastforce simp: clocked_def limiter_allow_def refill_def Let_def split: option.splits if_splits)

lemma clocked_sweep: "clocked now l \<Longrightarrow> now \<le> t \<Longrightarrow> clocked t (limiter_sweep t l)"
  by (fastforce simp: clocked_def limiter_sweep_def Let_def split: option.splits if_splits)

lemma limiter_ok_sweep: "limiter_ok l \<Longrightarrow> limiter_ok (limiter_sweep t l)"
  by (auto simp: limiter_ok_def limiter_sweep_def Let_def split: option.splits if_splits)

lemma secs_mono: "0 \<le> R \<Longrightarrow> a \<le> b \<Longrightarrow> R * secs a \<le> R * secs b"
  by (intro mult_left_mono divide_right_mono) (simp_all add: of_int_le_iff)

lemma metered_allow:
  assumes ok: "limiter_ok l" and ch: "metered l k t0 R n a now" and t: "now \<le> t" "t0 \<le> t"
    and R: "(1 + unit64) ^ 3 * lm_rate l \<le> R" "0 \<le> R"
  shows "metered (snd (limiter_allow k t l)) k t0 R (n + 1) (a + (if fst (limiter_allow k t l) then 1 else 0)) t"
proof -
  let ?B = "lm_burst l"
  define b where "b = (case lm_buckets l k of None \<Rightarrow> \<lparr>bk_tokens = ?B, bk_last = t\<rparr> | Some b \<Rightarrow> refill l t b)"
  have al: "limiter_allow k t l = (if bk_tokens b < 1 then (False, l\<lparr>lm_buckets := (lm_buckets l)(k \<mapsto> b)\<rparr>)
     else (True, l\<lparr>lm_buckets := (lm_buckets l)(k \<mapsto> b\<lparr>bk_tokens := round64 (bk_tokens b - 1)\<rparr>)\<rparr>))"
    by (simp add: limiter_allow_def b_def Let_def)
  have last: "bk_last b = t" by (simp add: b_def refill_def Let_def split: option.splits)
  have B: "0 \<le> ?B" "0 \<le> lm_rate l" "round64 ?B = ?B" using ok by (simp_all add: limiter_ok_def)
  have uB: "0 \<le> unit64 * ?B" using B by (simp add: unit64_def)
  have main: "of_nat a + bk_tokens b \<le> ?B + R * secs (t - t0) + 2 * unit64 * ?B * of_nat n + unit64 * ?B
      \<and> bk_tokens b \<le> ?B"
  proof (cases "lm_buckets l k")
    case None
    with ch have "of_nat a \<le> R * secs (now - t0) + 2 * unit64 * ?B * of_nat n" by (simp add: metered_def)
    moreover have "R * secs (now - t0) \<le> R * secs (t - t0)" using R(2) t by (intro secs_mono) auto
    moreover have "bk_tokens b = ?B" by (simp add: b_def None)
    ultimately show ?thesis using uB by (intro conjI) linarith+
  next
    case (Some b0)
    have old: "bk_last b0 \<le> t" "of_nat a + bk_tokens b0 \<le> ?B + R * secs (bk_last b0 - t0) + 2 * unit64 * ?B * of_nat n"
      using ch t by (simp_all add: metered_def Some)
    have tok: "0 \<le> bk_tokens b0" using ok Some by (auto simp: limiter_ok_def)
    note r = refill_bounds [OF B(2) B(1) tok old(1)]
    have "(1 + unit64) ^ 3 * lm_rate l * secs (t - bk_last b0) \<le> R * secs (t - bk_last b0)"
      using R(1) old(1) by (intro mult_right_mono) auto
    moreover have "R * secs (bk_last b0 - t0) + R * secs (t - bk_last b0) = R * secs (t - t0)"
      by (simp add: algebra_simps add_divide_distrib [symmetric] diff_divide_distrib)
    moreover have "bk_tokens b = bk_tokens (refill l t b0)" by (simp add: b_def Some)
    ultimately show ?thesis using r(2,3) old(2) by (intro conjI) linarith+
  qed
  show ?thesis
  proof (cases "bk_tokens b < 1")
    case True
    with main t uB show ?thesis by (simp add: al metered_def last distrib_left)
  next
    case False
    then have "round64 (bk_tokens b - 1) \<le> bk_tokens b - 1 + unit64 * ?B"
      using main B by (intro take_token) auto
    with main t False show ?thesis by (simp add: al metered_def last distrib_left)
  qed
qed

lemma metered_sweep:
  assumes ok: "limiter_ok l" and ch: "metered l k t0 R n a now" and t: "now \<le> t" "t0 \<le> t"
    and R: "lm_burst l \<le> R * 600" "0 \<le> R"
  shows "metered (limiter_sweep t l) k t0 R n a t"
proof (cases "lm_buckets l k")
  case None
  with ch have "of_nat a \<le> R * secs (now - t0) + 2 * unit64 * lm_burst l * of_nat n" by (simp add: metered_def)
  moreover have "R * secs (now - t0) \<le> R * secs (t - t0)" using R(2) t by (intro secs_mono) auto
  moreover have "lm_buckets (limiter_sweep t l) k = None" by (simp add: limiter_sweep_def Let_def None)
  ultimately show ?thesis by (simp add: metered_def)
next
  case (Some b)
  have old: "bk_last b \<le> t" "t0 \<le> bk_last b"
      "of_nat a + bk_tokens b \<le> lm_burst l + R * secs (bk_last b - t0) + 2 * unit64 * lm_burst l * of_nat n"
    using ch t by (simp_all add: metered_def Some)
  have tok: "0 \<le> bk_tokens b" using ok Some by (auto simp: limiter_ok_def)
  show ?thesis
  proof (cases "bk_last b < t - 600 * second")
    case True
    then have "R * secs (bk_last b + 600 * second - t0) \<le> R * secs (t - t0)" using R(2) by (intro secs_mono) auto
    moreover have "R * secs (bk_last b + 600 * second - t0) = R * 600 + R * secs (bk_last b - t0)"
      by (simp add: algebra_simps add_divide_distrib diff_divide_distrib)
    moreover have "lm_buckets (limiter_sweep t l) k = None" using True by (simp add: limiter_sweep_def Let_def Some)
    ultimately show ?thesis using old(3) tok R(1) by (simp add: metered_def)
  next
    case False
    then have "lm_buckets (limiter_sweep t l) k = Some b" by (simp add: limiter_sweep_def Let_def Some)
    with old show ?thesis by (simp add: metered_def)
  qed
qed

lemma metered_time:
  assumes "metered l k t0 R n a now" "now \<le> t" "0 \<le> R" "lm_buckets l' k = lm_buckets l k" "lm_burst l' = lm_burst l"
  shows "metered l' k t0 R n a t"
  using assms secs_mono [OF assms(3), of "now - t0" "t - t0"] by (auto simp: metered_def split: option.splits)

fun attempts :: "string \<Rightarrow> (time \<times> limiter_event) list \<Rightarrow> nat" where
  "attempts k evs = length (filter (\<lambda>(t, e). e = Allow k) evs)"

lemma limiter_run_metered:
  assumes "limiter_ok l" "clocked now l" "metered l k t0 R n a now" "t0 \<le> now"
    and "sorted (now # map fst evs)"
    and R: "(1 + unit64) ^ 3 * lm_rate l \<le> R" "lm_burst l \<le> R * 600" "0 \<le> R"
  shows "\<exists>l'. metered l' k t0 R (n + attempts k evs) (a + fst (limiter_run k evs l)) (last (now # map fst evs))
    \<and> limiter_ok l' \<and> lm_burst l' = lm_burst l"
  using assms
proof (induction k evs l arbitrary: n a now rule: limiter_run.induct)
  case (1 k l)
  then show ?case by auto
next
  case (2 k t evs l)
  have t: "now \<le> t" using "2.prems"(5) by simp
  have "\<exists>l'. metered l' k t0 R (n + attempts k evs) (a + fst (limiter_run k evs (limiter_sweep t l))) (last (t # map fst evs))
    \<and> limiter_ok l' \<and> lm_burst l' = lm_burst (limiter_sweep t l)"
    using "2.prems" t by (intro "2.IH" limiter_ok_sweep clocked_sweep [of now] metered_sweep [of l k t0 R n a now]) auto
  then show ?case by simp
next
  case (3 k t k' evs l)
  have t: "now \<le> t" "t0 \<le> t" using "3.prems"(4,5) by auto
  obtain ok l1 where al: "limiter_allow k' t l = (ok, l1)" by (cases "limiter_allow k' t l")
  have "bk_last b \<le> t" if "lm_buckets l k' = Some b" for b
    using "3.prems"(2) that t(1) unfolding clocked_def by fastforce
  then have "limiter_ok l1" using limiter_ok_allow [of l k' t] "3.prems"(1) al by simp
  then have l1: "limiter_ok l1" "clocked t l1" "lm_rate l1 = lm_rate l" "lm_burst l1 = lm_burst l"
    using clocked_allow [of now l t k'] "3.prems"(2) t al allow_frame(1,2) [of k' t l] by auto
  let ?n = "if k' = k then n + 1 else n" and ?a = "a + (if ok \<and> k' = k then 1 else 0)"
  have "metered l1 k t0 R ?n ?a t"
  proof (cases "k' = k")
    case True
    with metered_allow [OF "3.prems"(1,3) t "3.prems"(6,8)] al show ?thesis by simp
  next
    case False
    with metered_time [OF "3.prems"(3) t(1) "3.prems"(8), of l1] allow_frame(3) [of k k' t l] al l1 show ?thesis by simp
  qed
  then have "\<exists>l'. metered l' k t0 R (?n + attempts k evs) (?a + fst (limiter_run k evs l1)) (last (t # map fst evs))
    \<and> limiter_ok l' \<and> lm_burst l' = lm_burst l1"
    using "3.prems" t l1 al by (intro "3.IH" [OF al [symmetric]]) auto
  then show ?case using l1(4) by (auto simp: al ac_simps split: prod.splits)
qed





text \<open>
  The key is what the client says it is: a request with an \<open>X-Forwarded-For\<close> header is
  keyed by its first entry, whatever address it came from.
\<close>

lemma ClientIP_forwarded:
  "x \<noteq> [] \<Longrightarrow> CHR '','' \<notin> set x \<Longrightarrow> ClientIP x addr = trim_space x"
  "x \<noteq> [] \<Longrightarrow> CHR '','' \<notin> set x \<Longrightarrow> ClientIP (x @ '','' @ rest) addr = trim_space x"
proof -
  assume x: "x \<noteq> []" "CHR '','' \<notin> set x"
  then have "takeWhile (\<lambda>c. c \<noteq> CHR '','') x = x" "takeWhile (\<lambda>c. c \<noteq> CHR '','') (x @ '','' @ rest) = x"
    by (auto intro!: takeWhile_eq_all_conv [THEN iffD2] simp: takeWhile_append)
  then show "ClientIP x addr = trim_space x" "ClientIP (x @ '','' @ rest) addr = trim_space x"
    using x by (simp_all only: ClientIP_def) simp_all
qed

end
