(* ===== verification/Yaver_Http.thy ===== *)
theory Yaver_Http
  imports Yaver_Auth Yaver_ApiKeys Yaver_Ingest Yaver_Ratelimit
begin

text \<open>
  Groundwork of the HTTP transport (\<open>transport/http\<close>): requests as \<open>net/http\<close> hands
  them over, responses, decoding of JSON bodies into Go structs, the middleware
  (\<open>requireAuth\<close>, \<open>requireAPIKey\<close>, \<open>cors\<close>, the rate limiter) and the auth handlers.
  A handler is an operation that returns a response; its only error is a panic, on which
  \<open>net/http\<close> drops the connection.
\<close>

section \<open>JSON bodies\<close>

text \<open>
  A parsed JSON value. A number keeps its literal; a member of an object keeps the raw text of
  its value, for \<open>json.RawMessage\<close>. Scanning bytes into values is the parser's work:
  \<open>hl_first\<close> reads the first value of a stream (\<open>Decoder.Decode\<close>), \<open>hl_whole\<close> the
  whole input (\<open>Unmarshal\<close>); \<open>None\<close> is a syntax error.
\<close>

datatype jval =
    JNull
  | JBool bool
  | JNum string
  | JStr string
  | JArr "jval list"
  | JObj "(string \<times> string \<times> jval) list"

type_synonym jmembers = "(string \<times> string \<times> jval) list"

record httplibs =
  hl_first :: "string \<Rightarrow> jval option"
  hl_whole :: "string \<Rightarrow> jval option"
  hl_rfc3339 :: "time \<Rightarrow> string"
  hl_parse_rfc3339 :: "string \<Rightarrow> time option"

text \<open>
  Keys match field names up to case folding, which also identifies the Kelvin sign with
  \<open>k\<close> and the long s with \<open>s\<close>.
\<close>

function fold_name :: "string \<Rightarrow> string" where
  "fold_name [] = []"
| "fold_name (c # s) =
     (if has_prefix (c # s) [CHR 0xE2, CHR 0x84, CHR 0xAA] then CHR ''k'' # fold_name (drop 2 s)
      else if has_prefix (c # s) [CHR 0xC5, CHR 0xBF] then CHR ''s'' # fold_name (drop 1 s)
      else lower_char c # fold_name s)"
  by pat_completeness auto

termination
  by (relation "measure length") auto

definition occurrences :: "string \<Rightarrow> jmembers \<Rightarrow> (string \<times> jval) list" where
  "occurrences name ms = map snd (filter (\<lambda>(k, _). fold_name k = name) ms)"

text \<open>
  Decoding a field visits the members in order, a later one overwriting an earlier one;
  \<open>null\<close> leaves the field alone, and a value of the wrong kind is remembered as an error
  while decoding goes on. The result is the error flag and the field.
\<close>

type_synonym 'a dec = "jmembers \<Rightarrow> bool \<times> 'a"

fun assign :: "('a \<Rightarrow> string \<times> jval \<Rightarrow> 'a option) \<Rightarrow> (string \<times> jval) list \<Rightarrow> bool \<times> 'a \<Rightarrow> bool \<times> 'a" where
  "assign f [] st = st"
| "assign f (v # vs) (err, x) = assign f vs (case f x v of None \<Rightarrow> (True, x) | Some y \<Rightarrow> (err, y))"

definition dec_string :: "string \<Rightarrow> string dec" where
  "dec_string name ms = assign (\<lambda>x (raw, v). case v of JStr s \<Rightarrow> Some s | JNull \<Rightarrow> Some x | _ \<Rightarrow> None)
     (occurrences name ms) (False, [])"

definition dec_bool :: "string \<Rightarrow> bool dec" where
  "dec_bool name ms = assign (\<lambda>x (raw, v). case v of JBool b \<Rightarrow> Some b | JNull \<Rightarrow> Some x | _ \<Rightarrow> None)
     (occurrences name ms) (False, False)"

text \<open>A number goes into an \<open>int\<close> when its literal is an integer of 64 bits.\<close>

definition digit_val :: "char \<Rightarrow> nat" where
  "digit_val c = of_char c - 48"

definition parse_int64 :: "string \<Rightarrow> int option" where
  "parse_int64 lit = (let neg = (lit \<noteq> [] \<and> hd lit = CHR ''-''); ds = (if neg then tl lit else lit);
       n = int (foldl (\<lambda>a c. 10 * a + digit_val c) 0 ds); v = (if neg then - n else n)
     in if ds = [] \<or> \<not> list_all is_digit ds then None
        else if v < - (2 ^ 63) \<or> 2 ^ 63 \<le> v then None else Some v)"

definition dec_int :: "string \<Rightarrow> int dec" where
  "dec_int name ms = assign (\<lambda>x (raw, v). case v of JNum lit \<Rightarrow> parse_int64 lit | JNull \<Rightarrow> Some x | _ \<Rightarrow> None)
     (occurrences name ms) (False, 0)"

text \<open>A \<open>[]string\<close>: \<open>None\<close> is the nil slice; a \<open>null\<close> element is the empty string.\<close>

definition dec_strings :: "string \<Rightarrow> string list option dec" where
  "dec_strings name ms = assign (\<lambda>x (raw, v). case v of
       JArr vs \<Rightarrow> if list_all (\<lambda>e. case e of JStr _ \<Rightarrow> True | JNull \<Rightarrow> True | _ \<Rightarrow> False) vs
         then Some (Some (map (\<lambda>e. case e of JStr s \<Rightarrow> s | _ \<Rightarrow> []) vs)) else None
     | JNull \<Rightarrow> Some None | _ \<Rightarrow> None)
     (occurrences name ms) (False, None)"

definition dec_raw :: "string \<Rightarrow> string dec" where
  "dec_raw name ms = assign (\<lambda>x (raw, v). Some raw) (occurrences name ms) (False, [])"

text \<open>A nested struct: the members of all the objects given for it.\<close>

definition dec_members :: "string \<Rightarrow> jmembers dec" where
  "dec_members name ms = assign (\<lambda>x (raw, v). case v of JObj ns \<Rightarrow> Some (x @ ns) | JNull \<Rightarrow> Some x | _ \<Rightarrow> None)
     (occurrences name ms) (False, [])"

definition dec_array :: "string \<Rightarrow> jval list dec" where
  "dec_array name ms = assign (\<lambda>x (raw, v). case v of JArr vs \<Rightarrow> Some vs | JNull \<Rightarrow> Some [] | _ \<Rightarrow> None)
     (occurrences name ms) (False, [])"

definition dec_both :: "'a dec \<Rightarrow> 'b dec \<Rightarrow> ('a \<times> 'b) dec" where
  "dec_both a b ms = (fst (a ms) \<or> fst (b ms), snd (a ms), snd (b ms))"

definition dec_nested :: "string \<Rightarrow> 'a dec \<Rightarrow> 'a dec" where
  "dec_nested name d ms = (case dec_members name ms of (err, ns) \<Rightarrow> (err \<or> fst (d ns), snd (d ns)))"

definition dec_value :: "'a dec \<Rightarrow> jval \<Rightarrow> bool \<times> 'a" where
  "dec_value d v = (case v of JObj ms \<Rightarrow> d ms | JNull \<Rightarrow> d [] | _ \<Rightarrow> (True, snd (d [])))"

definition dec_list :: "string \<Rightarrow> 'a dec \<Rightarrow> 'a list dec" where
  "dec_list name d ms = (case dec_array name ms of (err, vs) \<Rightarrow>
     (err \<or> list_ex (\<lambda>v. fst (dec_value d v)) vs, map (\<lambda>v. snd (dec_value d v)) vs))"

text \<open>\<open>err := json...(&body)\<close>: the error flag and what was decoded; a syntax error decodes nothing.\<close>

definition decode :: "jval option \<Rightarrow> 'a dec \<Rightarrow> bool \<times> 'a" where
  "decode v d = (case v of None \<Rightarrow> (True, snd (d [])) | Some j \<Rightarrow> dec_value d j)"

section \<open>Requests and responses\<close>

text \<open>
  A request as \<open>net/http\<close> parsed it: path segments, first values of query and header
  fields, cookies, the whole body, what \<open>ParseForm\<close> makes of it (\<open>None\<close> an error), and
  the path and context values later stages attach.
\<close>

record request =
  hr_Method :: string
  hr_Path :: "string list"
  hr_Query :: "string \<Rightarrow> string"
  hr_Header :: "string \<Rightarrow> string"
  hr_Cookies :: "(string \<times> string) list"
  hr_RemoteAddr :: string
  hr_Body :: string
  hr_PostForm :: "(string \<rightharpoonup> string) option"
  hr_FormValue :: "string \<Rightarrow> string"
  hr_PathValue :: "string \<Rightarrow> string"
  hr_user :: "SessionUser option"
  hr_org :: "OrgID option"
  hr_orgObj :: "Org option"

text \<open>
  JSON a handler writes; \<open>ORaw\<close> is stored JSON text copied into the answer, \<open>OSpec\<close> the
  literal of a built-in flow.
\<close>

datatype jout =
    OStr string
  | OInt int
  | OBool bool
  | ONull
  | OArr "jout list"
  | OObj "(string \<times> jout) list"
  | ORaw string
  | OSpec IVRSpec

datatype resp_body = NoBody | JsonBody jout | TextBody string

record Cookie =
  ck_Name :: string
  ck_Value :: string
  ck_Path :: string
  ck_HttpOnly :: bool
  ck_Secure :: bool
  ck_SameSiteLax :: bool
  ck_MaxAge :: int
  ck_Expires :: time

record response =
  rs_Status :: int
  rs_Header :: "(string \<times> string) list"
  rs_Cookies :: "Cookie list"
  rs_Body :: resp_body

type_synonym handler = "request \<Rightarrow> response wop"

definition writeJSON :: "int \<Rightarrow> jout \<Rightarrow> response" where
  "writeJSON code v = \<lparr>rs_Status = code, rs_Header = [(''Content-Type'', ''application/json'')], rs_Cookies = [],
     rs_Body = JsonBody v\<rparr>"

definition err_body :: "int \<Rightarrow> string \<Rightarrow> response" where
  "err_body code msg = writeJSON code (OObj [(''error'', OStr msg)])"

definition status_only :: "int \<Rightarrow> response" where
  "status_only code = \<lparr>rs_Status = code, rs_Header = [], rs_Cookies = [], rs_Body = NoBody\<rparr>"

text \<open>\<open>http.Redirect\<close> to an absolute URL; the short note in the body of a GET's answer is left out.\<close>

definition http_Redirect :: "string \<Rightarrow> int \<Rightarrow> response" where
  "http_Redirect url code = \<lparr>rs_Status = code, rs_Header = [(''Location'', url)], rs_Cookies = [], rs_Body = NoBody\<rparr>"

definition SetCookie :: "Cookie \<Rightarrow> response \<Rightarrow> response" where
  "SetCookie c resp = resp\<lparr>rs_Cookies := c # rs_Cookies resp\<rparr>"

definition orgFromCtx :: "request \<Rightarrow> OrgID" where
  "orgFromCtx r = (case hr_org r of None \<Rightarrow> [] | Some org \<Rightarrow> org)"

text \<open>\<open>x, err := svc(...)\<close> in a handler: it goes on with the error or the value, but not after a panic.\<close>

definition svc :: "'a wop \<Rightarrow> (go_error + 'a \<Rightarrow> response wop) \<Rightarrow> response wop" where
  "svc m k = attempt m (\<lambda>q. if q = Inl PanicNilDeref then fail PanicNilDeref else k q)"

definition respond :: "int \<Rightarrow> jout \<Rightarrow> response wop" where
  "respond code v = ret (writeJSON code v)"

definition respond_err :: "int \<Rightarrow> string \<Rightarrow> response wop" where
  "respond_err code msg = ret (err_body code msg)"

abbreviation internal :: "response wop" where
  "internal \<equiv> respond_err 500 ''internal''"

abbreviation ostrs :: "(string \<times> string) list \<Rightarrow> jout" where
  "ostrs fs \<equiv> OObj (map (\<lambda>(k, v). (k, OStr v)) fs)"

section \<open>Auth handlers and session middleware (auth.go)\<close>

definition cookieName :: string where
  "cookieName = ''yaver_session''"

record authHandler =
  ah_svc :: AuthService
  ah_orgs :: OrgStore
  ah_secure :: bool
  ah_lib :: httplibs

definition auth_requestOTP :: "authHandler \<Rightarrow> handler" where
  "auth_requestOTP h r =
     (case decode (hl_first (ah_lib h) (hr_Body r)) (dec_string ''phone'') of (err, phone) \<Rightarrow>
      if err then respond_err 400 ''invalid body''
      else (case NormalizeBD phone of
          None \<Rightarrow> respond_err 400 ''invalid phone''
        | Some e164 \<Rightarrow> svc (auth_RequestOTP (ah_svc h) e164) (\<lambda>q. case q of
            Inl _ \<Rightarrow> internal
          | Inr devCode \<Rightarrow> respond 200 (ostrs ((''status'', ''sent'') #
              (if devCode \<noteq> [] then [(''dev_code'', devCode)] else []))))))"

definition setSessionCookie :: "authHandler \<Rightarrow> string \<Rightarrow> time \<Rightarrow> response \<Rightarrow> response" where
  "setSessionCookie h token expires = SetCookie \<lparr>ck_Name = cookieName, ck_Value = token, ck_Path = ''/'', ck_HttpOnly = True,
     ck_Secure = ah_secure h, ck_SameSiteLax = True, ck_MaxAge = 0, ck_Expires = expires\<rparr>"

definition auth_verifyOTP :: "authHandler \<Rightarrow> handler" where
  "auth_verifyOTP h r =
     (case decode (hl_first (ah_lib h) (hr_Body r)) (dec_both (dec_string ''phone'') (dec_string ''code'')) of (err, phone, code) \<Rightarrow>
      if err then respond_err 400 ''invalid body''
      else (case NormalizeBD phone of
          None \<Rightarrow> respond_err 400 ''invalid phone''
        | Some e164 \<Rightarrow> svc (auth_VerifyOTP (ah_svc h) e164 code) (\<lambda>q. case q of
            Inl e \<Rightarrow> if e = ErrInvalidOTP then respond_err 401 ''invalid or expired code'' else internal
          | Inr (token, su) \<Rightarrow> ret (setSessionCookie h token (su_ExpiresAt su)
              (writeJSON 200 (ostrs [(''user_id'', su_UserID su), (''phone'', su_Phone su)]))))))"

definition dec_creds :: "(string \<times> string \<times> string) dec" where
  "dec_creds = dec_both (dec_string ''email'') (dec_both (dec_string ''password'') (dec_string ''name''))"

definition auth_register :: "authHandler \<Rightarrow> handler" where
  "auth_register h r =
     (case decode (hl_first (ah_lib h) (hr_Body r)) dec_creds of (err, email, password, name) \<Rightarrow>
      if err then respond_err 400 ''invalid body''
      else svc (auth_Register (ah_svc h) email password name) (\<lambda>q. case q of
          Inl e \<Rightarrow> if e = ErrEmailTaken then respond_err 409 ''email already registered''
            else if e = ErrInvalidCredentials then respond_err 400 ''email and an 8+ character password are required''
            else internal
        | Inr (token, su) \<Rightarrow> ret (setSessionCookie h token (su_ExpiresAt su)
            (writeJSON 200 (ostrs [(''user_id'', su_UserID su), (''email'', su_Email su)])))))"

definition auth_login :: "authHandler \<Rightarrow> handler" where
  "auth_login h r =
     (case decode (hl_first (ah_lib h) (hr_Body r)) dec_creds of (err, email, password, name) \<Rightarrow>
      if err then respond_err 400 ''invalid body''
      else svc (auth_Login (ah_svc h) email password) (\<lambda>q. case q of
          Inl e \<Rightarrow> if e = ErrInvalidCredentials then respond_err 401 ''invalid email or password'' else internal
        | Inr (token, su) \<Rightarrow> ret (setSessionCookie h token (su_ExpiresAt su)
            (writeJSON 200 (ostrs [(''user_id'', su_UserID su), (''email'', su_Email su)])))))"

definition auth_logout :: "authHandler \<Rightarrow> handler" where
  "auth_logout h r =
     bnd (case map_of (hr_Cookies r) cookieName of None \<Rightarrow> ret () | Some v \<Rightarrow> ignore (auth_Logout (ah_svc h) v)) (\<lambda>_.
     ret (SetCookie \<lparr>ck_Name = cookieName, ck_Value = [], ck_Path = ''/'', ck_HttpOnly = False, ck_Secure = False,
       ck_SameSiteLax = False, ck_MaxAge = - 1, ck_Expires = 0\<rparr> (writeJSON 200 (ostrs [(''status'', ''logged out'')]))))"

definition zero_SessionUser :: SessionUser where
  "zero_SessionUser = \<lparr>su_UserID = [], su_Phone = [], su_Email = [], su_Name = [], su_ExpiresAt = zero_time\<rparr>"

definition zero_Org :: Org where
  "zero_Org = \<lparr>og_ID = [], og_Name = []\<rparr>"

definition auth_me :: "handler" where
  "auth_me r = (let su = (case hr_user r of None \<Rightarrow> zero_SessionUser | Some u \<Rightarrow> u);
       org = (case hr_orgObj r of None \<Rightarrow> zero_Org | Some org \<Rightarrow> org)
     in respond 200 (OObj [(''user_id'', OStr (su_UserID su)), (''phone'', OStr (su_Phone su)), (''email'', OStr (su_Email su)),
          (''name'', OStr (su_Name su)), (''org'', ostrs [(''id'', og_ID org), (''name'', og_Name org)])]))"

definition auth_renameOrg :: "authHandler \<Rightarrow> handler" where
  "auth_renameOrg h r =
     (case decode (hl_first (ah_lib h) (hr_Body r)) (dec_string ''name'') of (err, name) \<Rightarrow>
      if err \<or> name = [] then respond_err 400 ''name required''
      else svc (ors_Rename (ah_orgs h) (orgFromCtx r) name) (\<lambda>q. case q of
          Inl _ \<Rightarrow> internal | Inr _ \<Rightarrow> respond 200 (ostrs [(''name'', name)])))"

definition requireAuth :: "authHandler \<Rightarrow> handler \<Rightarrow> handler" where
  "requireAuth h nxt r = (case map_of (hr_Cookies r) cookieName of
       None \<Rightarrow> respond_err 401 ''unauthorized''
     | Some v \<Rightarrow> svc (auth_Resolve (ah_svc h) v) (\<lambda>q. case q of
         Inl _ \<Rightarrow> internal
       | Inr None \<Rightarrow> respond_err 401 ''unauthorized''
       | Inr (Some su) \<Rightarrow> svc (ors_EnsureForUser (ah_orgs h) (su_UserID su) ''My Store'') (\<lambda>q'. case q' of
           Inl _ \<Rightarrow> internal
         | Inr org \<Rightarrow> nxt (r\<lparr>hr_user := Some su, hr_org := Some (og_ID org), hr_orgObj := Some org\<rparr>))))"

section \<open>Keys, cross-origin requests, throttling (ingest.go, public.go, ratelimit.go)\<close>

record keyHandler =
  kh_libs :: libs
  kh_repo :: APIKeyRepo

definition requireAPIKey :: "keyHandler \<Rightarrow> handler \<Rightarrow> handler" where
  "requireAPIKey h nxt r = svc (apikeys_Authenticate (kh_libs h) (kh_repo h) (hr_Header r ''X-API-Key'')) (\<lambda>q. case q of
       Inl _ \<Rightarrow> internal
     | Inr None \<Rightarrow> respond_err 401 ''invalid api key''
     | Inr (Some (org, k)) \<Rightarrow> if k \<noteq> ''secret'' then respond_err 401 ''invalid api key''
         else nxt (r\<lparr>hr_org := Some org\<rparr>))"

definition cors_headers :: "(string \<times> string) list" where
  "cors_headers = [(''Access-Control-Allow-Origin'', ''*''), (''Access-Control-Allow-Methods'', ''POST, GET, OPTIONS''),
     (''Access-Control-Allow-Headers'', ''Content-Type, X-Yaver-Key''), (''Access-Control-Max-Age'', ''86400'')]"

definition cors :: "handler \<Rightarrow> handler" where
  "cors nxt r = (if hr_Method r = ''OPTIONS'' then ret (status_only 204\<lparr>rs_Header := cors_headers\<rparr>)
     else bnd (nxt r) (\<lambda>resp. ret (resp\<lparr>rs_Header := cors_headers @ rs_Header resp\<rparr>)))"

definition too_many :: response where
  "too_many = \<lparr>rs_Status = 429, rs_Header = [(''Retry-After'', ''60'')], rs_Cookies = [],
     rs_Body = TextBody (''{'' @ [CHR 0x22] @ ''error'' @ [CHR 0x22] @ '':'' @ [CHR 0x22] @ ''rate limited'' @ [CHR 0x22] @ ''}'')\<rparr>"

text \<open>The middleware of a limiter, which is state of the process beside the world.\<close>

definition Middleware :: "handler \<Rightarrow> request \<Rightarrow> Limiter \<Rightarrow> world \<Rightarrow> ((go_error + response) \<times> world) \<times> Limiter" where
  "Middleware nxt r l w =
     (case limiter_allow (ClientIP (hr_Header r ''X-Forwarded-For'') (hr_RemoteAddr r)) (w_now w) l of (ok, l') \<Rightarrow>
      if \<not> ok then ((Inr too_many, w), l') else (nxt r w, l'))"

end
