(* ===== verification/Yaver_Analytics.thy ===== *)
theory Yaver_Analytics
  imports Yaver_Chat Yaver_Float
begin

text \<open>
  The dashboard's numbers and what is said about them: the aggregate queries
  (\<open>gen/analytics.sql.go\<close>), their repository, the overview of \<open>service/analytics\<close>,
  the reports service with its keyword-routed reporter (\<open>reporter/builtin\<close>), the setup
  assistant (\<open>service/onboarding\<close>) and the transcription of recordings
  (\<open>service/transcription\<close>). The web server a recording is fetched from is a parameter.
\<close>

section \<open>Queries (gen/analytics.sql.go) and their repository\<close>

text \<open>\<open>LEFT JOIN conversation_insights i ON i.conversation_id = c.id\<close>\<close>

definition join_insights :: "InsightRow list \<Rightarrow> ConversationRow \<Rightarrow> (ConversationRow \<times> InsightRow option) list" where
  "join_insights ins c = (case filter (\<lambda>i. in_conversation_id i = cr_id c) ins of
     [] \<Rightarrow> [(c, None)] | i # rest \<Rightarrow> map (\<lambda>i. (c, Some i)) (i # rest))"

definition gen_ConversationStats :: "string \<Rightarrow> ConversationStats wop" where
  "gen_ConversationStats org = db_read (\<lambda>t d.
     let rows = concat (map (join_insights (conversation_insights d))
           (filter (\<lambda>c. cr_org_id c = org) (conversations d)));
         count = (\<lambda>P. int (length (filter P rows)));
         outcome = (\<lambda>o'. count (\<lambda>(c, i). map_option in_outcome i = Some o'))
     in Inr \<lparr>cn_Total = count (\<lambda>_. True),
          cn_Today = count (\<lambda>(c, i). cr_created_at c \<ge> t - 86400 * second),
          cn_Resolved = outcome ''resolved'', cn_Pending = outcome ''pending'',
          cn_Sale = outcome ''sale'', cn_NeedsHuman = outcome ''needs_human''\<rparr>)"

definition gen_CreditSpend :: "string \<Rightarrow> (int \<times> int) wop" where
  "gen_CreditSpend org = db_read (\<lambda>t d.
     let rows = filter (\<lambda>r. lg_org_id r = org) (credit_ledger d);
         spent = (\<lambda>days. - sum_list (map lg_delta
           (filter (\<lambda>r. lg_delta r < 0 \<and> lg_created_at r \<ge> t - days * 86400 * second) rows)))
     in Inr (spent 1, spent 30))"

record AnalyticsRepo =
  anr_ConversationStats :: "OrgID \<Rightarrow> ConversationStats wop"
  anr_CreditSpend :: "OrgID \<Rightarrow> (int \<times> int) wop"

definition pg_ConversationStats :: "OrgID \<Rightarrow> ConversationStats wop" where
  "pg_ConversationStats org = bnd (gen_ConversationStats org) (\<lambda>row.
     ret \<lparr>cn_Total = cn_Total row, cn_Today = cn_Today row, cn_Resolved = cn_Resolved row,
       cn_Pending = cn_Pending row, cn_Sale = cn_Sale row, cn_NeedsHuman = cn_NeedsHuman row\<rparr>)"

definition pg_CreditSpend :: "OrgID \<Rightarrow> (int \<times> int) wop" where
  "pg_CreditSpend org = bnd (gen_CreditSpend org) (\<lambda>(today, last30d). ret (today, last30d))"

definition pg_analytics :: AnalyticsRepo where
  "pg_analytics = \<lparr>anr_ConversationStats = pg_ConversationStats, anr_CreditSpend = pg_CreditSpend\<rparr>"

section \<open>The overview (service/analytics) and reports (service/reports)\<close>

record AnalyticsService =
  ay_calls :: CallRepo
  ay_credits :: CreditRepo
  ay_repo :: AnalyticsRepo

definition analytics_Overview :: "AnalyticsService \<Rightarrow> OrgID \<Rightarrow> AnalyticsOverview wop" where
  "analytics_Overview s org =
     bnd (clr_Summary (ay_calls s) org) (\<lambda>callSum.
     bnd (anr_ConversationStats (ay_repo s) org) (\<lambda>convStats.
     bnd (cr_Balance (ay_credits s) org) (\<lambda>bal.
     bnd (anr_CreditSpend (ay_repo s) org) (\<lambda>(spentToday, spent30d).
     ret \<lparr>ao_Calls = callSum, ao_Conversations = convStats,
       ao_Credits = \<lparr>cy_Balance = bal, cy_SpentToday = spentToday, cy_Spent30d = spent30d\<rparr>\<rparr>))))"

record Reporter =
  rpt_Answer :: "string \<Rightarrow> AnalyticsOverview \<Rightarrow> string wop"

record ReportsService =
  rs_analytics :: AnalyticsService
  rs_reporter :: Reporter

definition reports_Ask :: "ReportsService \<Rightarrow> OrgID \<Rightarrow> string \<Rightarrow> (string \<times> AnalyticsOverview) wop" where
  "reports_Ask s org question =
     bnd (analytics_Overview (rs_analytics s) org) (\<lambda>data.
     bnd (rpt_Answer (rs_reporter s) question data) (\<lambda>answer.
     ret (answer, data)))"

section \<open>The built-in reporter (reporter/builtin)\<close>

datatype topic = topicOverview | topicCalls | topicChat | topicSales | topicSpend

definition classify :: "string \<Rightarrow> topic" where
  "classify q =
     (if containsAny q [''sale'', ''sold'', ''upsell'', ''purchase'', ''revenue''] then topicSales
      else if containsAny q [''spend'', ''spent'', ''cost'', ''credit'', ''balance'', ''budget'', ''money''] then topicSpend
      else if containsAny q [''call'', ''confirm'', ''recover'', ''cancel'', ''ivr'', ''voice''] then topicCalls
      else if containsAny q [''chat'', ''conversation'', ''message'', ''resolve'', ''resolved'', ''customer'', ''whatsapp'', ''messenger''] then topicChat
      else topicOverview)"

text \<open>\<open>int(float64(part) / float64(total) * 100)\<close>, printed.\<close>

definition pct_int :: "int \<Rightarrow> int \<Rightarrow> int" where
  "pct_int part tot = (if tot \<le> 0 then 0 else
     go_trunc (round64 (round64 (round64 (of_int part) / round64 (of_int tot)) * 100)))"

definition pct :: "int \<Rightarrow> int \<Rightarrow> string" where
  "pct part tot = (if tot \<le> 0 then ''0'' else go_itoa (pct_int part tot))"

abbreviation em_dash :: string where
  "em_dash \<equiv> [CHR 0xE2, CHR 0x80, CHR 0x94]"

definition callsAnswer :: "AnalyticsOverview \<Rightarrow> string" where
  "callsAnswer d = (let c = ao_Calls d in
     go_itoa (cs_Total c) @ '' calls placed ('' @ go_itoa (cs_Today c) @ '' today), '' @ go_itoa (cs_Confirmed c) @
     '' confirmed and '' @ go_itoa (cs_Cancelled c) @ '' cancelled '' @ em_dash @ '' a '' @ pct (cs_Confirmed c) (cs_Total c) @
     ''% confirmation rate.'')"

definition needsHumanTail :: "AnalyticsOverview \<Rightarrow> string" where
  "needsHumanTail d = (if cn_NeedsHuman (ao_Conversations d) > 0
     then go_itoa (cn_NeedsHuman (ao_Conversations d)) @ '' conversation(s) are waiting on a team member.'' else [])"

definition focusTail :: string where
  "focusTail = '' Follow up with the high-intent ones first.''"

definition chatAnswer :: "AnalyticsOverview \<Rightarrow> string" where
  "chatAnswer d = (let c = ao_Conversations d in
     go_itoa (cn_Total c) @ '' conversations ('' @ go_itoa (cn_Today c) @ '' today): '' @ go_itoa (cn_Resolved c) @
     '' resolved, '' @ go_itoa (cn_Pending c) @ '' pending, '' @ go_itoa (cn_NeedsHuman c) @
     '' need a human '' @ em_dash @ '' a '' @ pct (cn_Resolved c) (cn_Total c) @ ''% resolution rate. '' @ needsHumanTail d)"

definition overviewAnswer :: "AnalyticsOverview \<Rightarrow> string" where
  "overviewAnswer d = callsAnswer d @ '' '' @ chatAnswer d @ '' Credit balance: '' @ go_itoa (cy_Balance (ao_Credits d)) @ ''.''"

definition builtin_Answer :: "(string \<Rightarrow> string) \<Rightarrow> string \<Rightarrow> AnalyticsOverview \<Rightarrow> string wop" where
  "builtin_Answer lower question d = (let q = lower (trim_space question) in
     case classify q of
       topicCalls \<Rightarrow> ret (callsAnswer d)
     | topicChat \<Rightarrow> ret (chatAnswer d)
     | topicSales \<Rightarrow> ret (''AI chat flagged '' @ go_itoa (cn_Sale (ao_Conversations d)) @ '' conversations with buying intent'' @
         '' out of '' @ go_itoa (cn_Total (ao_Conversations d)) @ '' total. '' @ needsHumanTail d @ focusTail)
     | topicSpend \<Rightarrow> ret (''Your credit balance is '' @ go_itoa (cy_Balance (ao_Credits d)) @ ''. You'' @ [CHR 0x27] @ ''ve spent '' @
         go_itoa (cy_SpentToday (ao_Credits d)) @ '' credits today and '' @ go_itoa (cy_Spent30d (ao_Credits d)) @
         '' in the last 30 days.'')
     | topicOverview \<Rightarrow> ret (overviewAnswer d))"

definition builtin_Reporter :: "(string \<Rightarrow> string) \<Rightarrow> Reporter" where
  "builtin_Reporter lower = \<lparr>rpt_Answer = builtin_Answer lower\<rparr>"

section \<open>The setup assistant (service/onboarding)\<close>

abbreviation eol :: string where "eol \<equiv> [CHR 0x0A]"

definition onboarding_systemPrompt :: string where
  "onboarding_systemPrompt =
     ''You are Yaver'' @ [CHR 0x27] @ ''s setup assistant. Yaver is a multi-channel customer-engagement platform for e-commerce '' @ em_dash @
     '' voice IVR, an embeddable AI chat widget, and WhatsApp/Messenger '' @ em_dash @
     '' that turns store events into confirmed orders, recovered carts, and answered questions.'' @ eol @ eol @
     ''Help the merchant finish setup. The core steps are:'' @ eol @
     ''1. Name your store (Settings).'' @ eol @
     ''2. Send a test call from the Dashboard.'' @ eol @
     ''3. Create a secret API key and POST store events to /v1/events.'' @ eol @
     ''4. Connect a webhook to receive outcomes.'' @ eol @
     ''Then: embed the chat widget with a publishable key, or connect WhatsApp/Messenger.'' @ eol @ eol @
     ''Be concise, friendly, and concrete. Prefer a next action over a long explanation. If asked something unrelated to using Yaver, gently steer back.''"

record Progress =
  pg_StoreNamed :: bool
  pg_HasAPIKey :: bool
  pg_WebhookSet :: bool
  pg_HasFlow :: bool

definition statusLines :: "Progress \<Rightarrow> string" where
  "statusLines p = (let mark = (\<lambda>b. if b then ''done'' else ''not done'') in
     ''- Store named: '' @ mark (pg_StoreNamed p) @ eol @
     ''- API key created: '' @ mark (pg_HasAPIKey p) @ eol @
     ''- Webhook connected: '' @ mark (pg_WebhookSet p) @ eol @
     ''- Has a flow: '' @ mark (pg_HasFlow p))"

definition onboarding_Ask :: "ChatModel \<Rightarrow> Progress \<Rightarrow> string \<Rightarrow> string wop" where
  "onboarding_Ask model p question =
     (let system = onboarding_systemPrompt @ eol @ eol @ ''Current setup status:'' @ eol @ statusLines p in
      cml_Reply model system [\<lparr>ms_Role = ''user'', ms_Content = question, ms_CreatedAt = zero_time\<rparr>])"

section \<open>Transcription (service/transcription, stt/noop)\<close>

text \<open>
  \<open>http.Client.Do\<close> of a GET request: an error, or the status and the body, which may in
  turn fail to be read.
\<close>

type_synonym http_get = "string \<Rightarrow> (int \<times> (go_error + string)) wop"

record STT =
  stt_Transcribe :: "string \<Rightarrow> string \<Rightarrow> string wop"

definition noop_STT :: STT where
  "noop_STT = \<lparr>stt_Transcribe = (\<lambda>audio locale. ret [])\<rparr>"

record TranscriptionService =
  ts_stt :: STT
  ts_calls :: CallRepo
  ts_http :: http_get

definition transcription_download :: "TranscriptionService \<Rightarrow> string \<Rightarrow> string wop" where
  "transcription_download s url = bnd (ts_http s url) (\<lambda>(status, body).
     if status \<ge> 300 then fail (ErrOther (''fetch recording: '' @ go_itoa status))
     else (case body of Inl e \<Rightarrow> fail e | Inr b \<Rightarrow> ret b))"

definition transcription_Transcribe :: "TranscriptionService \<Rightarrow> CallID \<Rightarrow> string \<Rightarrow> string \<Rightarrow> unit wop" where
  "transcription_Transcribe s callID recordingURL locale =
     bnd (transcription_download s recordingURL) (\<lambda>audio.
     bnd (stt_Transcribe (ts_stt s) audio locale) (\<lambda>transcript.
     clr_AttachMedia (ts_calls s) callID recordingURL transcript))"

section \<open>Percentages\<close>

text \<open>How far the computed percentage is from the exact one.\<close>

lemma pct_error:
  assumes "0 \<le> part" "part \<le> tot" "0 < tot" "tot < 2 ^ 44"
  defines "x \<equiv> 100 * of_int part / of_int tot :: rat"
    and "y \<equiv> round64 (round64 (round64 (of_int part) / round64 (of_int tot)) * 100)"
  shows "\<bar>y - x\<bar> < 1 / of_int tot" and "0 \<le> y"
proof -
  let ?q = "of_int part / of_int tot :: rat"
  have "round64 (of_int i) = of_int i" if "0 \<le> i" "i < 2 ^ 44" for i
    using f64.fl_nat [of "nat i"] that by simp
  then have y: "y = round64 (round64 ?q * 100)" using assms(1-4) by (simp add: y_def)
  have q: "0 \<le> ?q" "?q \<le> 1" using assms(1-3) by (auto simp: divide_le_eq)
  have q1: "0 \<le> round64 ?q" using q(1) by (rule f64.fl_nonneg)
  have u: "0 \<le> unit64" "unit64 \<le> 1 / 10 ^ 15" by (simp_all add: unit64_def)
  have e1: "\<bar>round64 ?q - ?q\<bar> \<le> unit64"
    using f64.fl_err [of ?q] mult_left_mono [OF q(2) u(1)] unfolding abs_of_nonneg [OF q(1)] by linarith
  have e2: "\<bar>y - round64 ?q * 100\<bar> \<le> unit64 * 200"
  proof -
    have "\<bar>round64 ?q * 100\<bar> \<le> 200" using e1 u q q1 by (simp add: abs_le_iff)
    then have "unit64 * \<bar>round64 ?q * 100\<bar> \<le> unit64 * 200" using u(1) by (rule mult_left_mono)
    with f64.fl_err [of "round64 ?q * 100"] y show ?thesis by simp
  qed
  have "\<bar>y - x\<bar> \<le> 300 * unit64" using e1 e2 unfolding x_def by (simp add: abs_le_iff)
  also have "\<dots> < 1 / 2 ^ 44" by (simp add: unit64_def)
  also have "\<dots> \<le> 1 / of_int tot"
    using assms(3,4) of_int_le_iff [of tot "2 ^ 44", where ?'a = rat] by (intro divide_left_mono) auto
  finally show "\<bar>y - x\<bar> < 1 / of_int tot" .
  show "0 \<le> y" unfolding y using q1 by (intro f64.fl_nonneg) simp
qed

text \<open>
  Property C31: \<open>pct\<close> of the reports never exceeds the exact percentage and is
  its whole part, except when the exact percentage is a whole number: then the
  floating-point result may fall just below it and the truncation prints one less. In
  particular a rate is always between 0 and 100.
\<close>
theorem pct_accurate:
  assumes "0 \<le> part" "part \<le> tot" "0 < tot" "tot < 2 ^ 44"
  shows "pct part tot = go_itoa (100 * part div tot)
    \<or> tot dvd 100 * part \<and> 0 < part \<and> pct part tot = go_itoa (100 * part div tot - 1)"
proof -
  let ?x = "100 * of_int part / of_int tot :: rat"
  let ?y = "round64 (round64 (round64 (of_int part) / round64 (of_int tot)) * 100)"
  define k where "k = 100 * part div tot"
  define m where "m = 100 * part mod tot"
  note e = pct_error [OF assms]
  have m: "0 \<le> m" "m < tot" using assms(3) by (simp_all add: m_def)
  have "of_int (100 * part) = (of_int (k * tot + m) :: rat)" by (simp add: k_def m_def)
  then have x: "?x = of_int k + of_int m / of_int tot" using assms(3) by (simp add: field_simps)
  have val: "pct part tot = go_itoa \<lfloor>?y\<rfloor>"
    using assms(3) e(2) by (simp add: pct_def pct_int_def go_trunc_def)
  show ?thesis
  proof (cases "m = 0")
    case True
    have "1 / of_int tot \<le> (1::rat)" using assms(3) by simp
    with e(1) x True have "of_int (k - 1) < ?y" "?y < of_int (k + 1)" by (simp_all add: abs_less_iff)
    then have "\<lfloor>?y\<rfloor> = k \<or> \<lfloor>?y\<rfloor> = k - 1" by linarith
    moreover have "part \<noteq> 0 \<or> \<lfloor>?y\<rfloor> = k" by (cases "part = 0") (simp_all add: k_def)
    moreover have "tot dvd 100 * part" using True by (simp add: m_def dvd_eq_mod_eq_0)
    ultimately consider "pct part tot = go_itoa k" | "0 < part" "tot dvd 100 * part" "pct part tot = go_itoa (k - 1)"
      using val assms(1) by fastforce
    then show ?thesis unfolding k_def by cases blast+
  next
    case False
    with m have "1 / of_int tot \<le> of_int m / (of_int tot :: rat)" "of_int m / of_int tot \<le> 1 - 1 / (of_int tot :: rat)"
      using assms(3) by (simp_all add: field_simps)
    with e(1) x have "of_int k \<le> ?y" "?y < of_int (k + 1)" by (simp_all add: abs_less_iff)
    then have "\<lfloor>?y\<rfloor> = k" by linarith
    with val show ?thesis by (simp add: k_def)
  qed
qed

theorem pct_accurate_witness:
  "pct 5 8 = go_itoa (100 * 5 div 8) \<or> (8::int) dvd 100 * 5 \<and> (0::int) < 5 \<and> pct 5 8 = go_itoa (100 * 5 div 8 - 1)"
  using pct_accurate [of 5 8] by simp

text \<open>The exceptional case occurs: 29 confirmed calls of 100 are reported as 28 percent.\<close>

lemma pct_29_of_100: "pct 29 100 = ''28''"
proof -
  have r: "round64 29 = 29" "round64 100 = 100" using f64.fl_nat [of 29] f64.fl_nat [of 100] by simp_all
  have "exponent64 (29 / 100) = - 2" by (rule exponent64_unique) (simp_all add: pow2_def)
  then have a: "round64 (29 / 100) = 5224175567749775 / 18014398509481984"
    by (simp add: round64_pos nearest_even_def pow2_def Let_def floor_numeral_div)
  have "exponent64 (round64 (29 / 100) * 100) = 4"
    unfolding a by (rule exponent64_unique) (simp_all add: pow2_def)
  then have b: "round64 (round64 (29 / 100) * 100) = 8162774324609023 / 281474976710656"
    unfolding a by (simp add: round64_pos nearest_even_def pow2_def Let_def floor_numeral_div)
  have "pct_int 29 100 = 28" by (simp only: pct_int_def r of_int_numeral b) (simp add: go_trunc_def floor_numeral_div)
  moreover have "char_of (50::nat) = CHR ''2''" "char_of (56::nat) = CHR ''8''" by code_simp+
  ultimately show ?thesis by (simp add: pct_def go_itoa_def digits_of.simps)
qed

section \<open>The overview\<close>

definition analytics_service :: AnalyticsService where
  "analytics_service = \<lparr>ay_calls = pg_calls, ay_credits = pg_credits, ay_repo = pg_analytics\<rparr>"

text \<open>Counts over disjoint conditions add up to at most the whole; a wider window holds more.\<close>

lemma two_outcomes:
  assumes "a \<noteq> b"
  shows "length (filter (\<lambda>x. f x = Some a) xs) + length (filter (\<lambda>x. f x = Some b) xs) \<le> length xs"
  using assms by (induction xs) auto

lemma four_outcomes:
  assumes "distinct [a, b, c, e]"
  shows "length (filter (\<lambda>x. f x = Some a) xs) + length (filter (\<lambda>x. f x = Some b) xs)
    + length (filter (\<lambda>x. f x = Some c) xs) + length (filter (\<lambda>x. f x = Some e) xs) \<le> length xs"
  using assms by (induction xs) auto

lemma spent_mono:
  fixes rows :: "LedgerRow list"
  assumes "0 \<le> a" "a \<le> b"
  shows "0 \<le> - sum_list (map lg_delta (filter (\<lambda>r. lg_delta r < 0 \<and> lg_created_at r \<ge> t - a * 86400 * second) rows))"
    and "- sum_list (map lg_delta (filter (\<lambda>r. lg_delta r < 0 \<and> lg_created_at r \<ge> t - a * 86400 * second) rows))
      \<le> - sum_list (map lg_delta (filter (\<lambda>r. lg_delta r < 0 \<and> lg_created_at r \<ge> t - b * 86400 * second) rows))"
  using assms by (induction rows) auto

text \<open>A query followed by the mapping of its rows.\<close>

lemma wp_bnd_read:
  assumes "\<And>v. w_db v = w_db w \<Longrightarrow> env_frame w v \<Longrightarrow> Q (Inl ErrConn) v"
    and "\<And>e v. q (w_now v) (w_db w) = Inl e \<Longrightarrow> w_db v = w_db w \<Longrightarrow> env_frame w v \<Longrightarrow> Q (Inl e) v"
    and "\<And>x v. q (w_now v) (w_db w) = Inr x \<Longrightarrow> w_db v = w_db w \<Longrightarrow> env_frame w v \<Longrightarrow> wp (k x) Q v"
  shows "wp (bnd (db_read q) k) Q w"
proof (rule wp_bnd)
  show "wp (db_read q) (\<lambda>r v. case r of Inl e \<Rightarrow> Q (Inl e) v | Inr x \<Rightarrow> wp (k x) Q v) w"
    by (rule wp_db_read) (use assms in auto)
qed auto

lemma wp_summary:
  "wp (pg_call_Summary org) (\<lambda>r v. w_db v = w_db w \<and> env_frame w v \<and> (\<forall>c. r = Inr c \<longrightarrow>
     cs_Total c = int (length (filter (\<lambda>r. cw_org_id r = org) (calls (w_db w))))
     \<and> 0 \<le> cs_Confirmed c \<and> 0 \<le> cs_Cancelled c \<and> cs_Confirmed c + cs_Cancelled c \<le> cs_Total c
     \<and> 0 \<le> cs_Today c \<and> cs_Today c \<le> cs_Total c)) w"
  unfolding pg_call_Summary_def gen_CallSummary_def
proof (rule wp_bnd_read, goal_cases)
  case (3 x v)
  let ?rows = "filter (\<lambda>r. cw_org_id r = org) (calls (w_db w))"
  have "length (filter (\<lambda>r. cw_result r = Some ''confirmed'') ?rows)
      + length (filter (\<lambda>r. cw_result r = Some ''cancelled'') ?rows) \<le> length ?rows"
    by (rule two_outcomes) simp
  then show ?case
    using 3 length_filter_le [of "\<lambda>r. cw_created_at r \<ge> w_now v - 86400 * second" ?rows]
    by (auto simp: Let_def simp del: length_filter_le filter_filter)
qed auto

lemma length_concat_singletons: "(\<And>x. length (f x) = 1) \<Longrightarrow> length (concat (map f xs)) = length xs"
  by (induction xs) auto

lemma one_insight:
  "distinct (map in_conversation_id ins) \<Longrightarrow> length (filter (\<lambda>i. in_conversation_id i = cid) ins) \<le> 1"
  by (induction ins) (auto simp: filter_empty_conv image_iff)

lemma wp_stats:
  "wp (pg_ConversationStats org) (\<lambda>r v. w_db v = w_db w \<and> env_frame w v \<and> (\<forall>c. r = Inr c \<longrightarrow>
     0 \<le> cn_Today c \<and> cn_Today c \<le> cn_Total c \<and> 0 \<le> cn_Resolved c \<and> 0 \<le> cn_Pending c \<and> 0 \<le> cn_Sale c
     \<and> 0 \<le> cn_NeedsHuman c \<and> cn_Resolved c + cn_Pending c + cn_Sale c + cn_NeedsHuman c \<le> cn_Total c
     \<and> (distinct (map in_conversation_id (conversation_insights (w_db w))) \<longrightarrow>
          cn_Total c = int (length (filter (\<lambda>c. cr_org_id c = org) (conversations (w_db w))))))) w"
  unfolding pg_ConversationStats_def gen_ConversationStats_def
proof (rule wp_bnd_read, goal_cases)
  case (3 x v)
  let ?convs = "filter (\<lambda>c. cr_org_id c = org) (conversations (w_db w))"
  define rows where "rows = concat (map (join_insights (conversation_insights (w_db w))) ?convs)"
  have four: "length (filter (\<lambda>(c, i). map_option in_outcome i = Some ''resolved'') rows)
      + length (filter (\<lambda>(c, i). map_option in_outcome i = Some ''pending'') rows)
      + length (filter (\<lambda>(c, i). map_option in_outcome i = Some ''sale'') rows)
      + length (filter (\<lambda>(c, i). map_option in_outcome i = Some ''needs_human'') rows) \<le> length rows"
    using four_outcomes [of "''resolved''" "''pending''" "''sale''" "''needs_human''" "\<lambda>(c, i). map_option in_outcome i" rows]
    by (simp add: case_prod_beta')
  have one: "length (join_insights ins c) = 1" if "distinct (map in_conversation_id ins)" for ins c
    using that one_insight [of ins "cr_id c"] by (auto simp: join_insights_def split: list.splits)
  have all: "length rows = length ?convs" if "distinct (map in_conversation_id (conversation_insights (w_db w)))"
    unfolding rows_def by (rule length_concat_singletons) (rule one [OF that])
  from 3(1) show ?case
    unfolding rows_def [symmetric] Let_def
    using 3(2,3) four all length_filter_le [of "\<lambda>(c, i). cr_created_at c \<ge> w_now v - 86400 * second" rows]
    by (auto simp del: length_filter_le map_option_eq_Some)
qed auto

lemma wp_balance: "wp (pg_Balance org) (\<lambda>r v. w_db v = w_db w \<and> env_frame w v) w"
  unfolding pg_Balance_def gen_GetBalance_def
  by (rule wp_attempt, rule wp_db_read [where Q = "\<lambda>r v. w_db v = w_db w \<and> env_frame w v"])
     (auto simp: wp_case_simps split: sum.splits)

lemma wp_spend:
  "wp (pg_CreditSpend org) (\<lambda>r v. w_db v = w_db w \<and> env_frame w v
     \<and> (\<forall>a b. r = Inr (a, b) \<longrightarrow> 0 \<le> a \<and> a \<le> b)) w"
  unfolding pg_CreditSpend_def gen_CreditSpend_def
proof (rule wp_bnd_read, goal_cases)
  case (3 x v)
  with spent_mono [of 1 30 "w_now v" "filter (\<lambda>r. lg_org_id r = org) (credit_ledger (w_db w))"]
  show ?case by (auto simp: Let_def simp del: filter_filter)
qed auto

lemma analytics_simps [simp]:
  "clr_Summary (ay_calls analytics_service) = pg_call_Summary" "cr_Balance (ay_credits analytics_service) = pg_Balance"
  "anr_ConversationStats (ay_repo analytics_service) = pg_ConversationStats"
  "anr_CreditSpend (ay_repo analytics_service) = pg_CreditSpend"
  by (simp_all add: analytics_service_def pg_calls_def pg_credits_def pg_analytics_def)

text \<open>What an overview promises of its numbers, at tables \<open>d\<close>.\<close>

definition overview_ok :: "OrgID \<Rightarrow> database \<Rightarrow> AnalyticsOverview \<Rightarrow> bool" where
  "overview_ok org d a \<longleftrightarrow> (let c = ao_Calls a; n = ao_Conversations a; k = ao_Credits a in
     cs_Total c = int (length (filter (\<lambda>r. cw_org_id r = org) (calls d)))
     \<and> 0 \<le> cs_Confirmed c \<and> 0 \<le> cs_Cancelled c \<and> cs_Confirmed c + cs_Cancelled c \<le> cs_Total c
     \<and> 0 \<le> cs_Today c \<and> cs_Today c \<le> cs_Total c
     \<and> 0 \<le> cn_Today n \<and> cn_Today n \<le> cn_Total n \<and> 0 \<le> cn_Resolved n \<and> 0 \<le> cn_Pending n \<and> 0 \<le> cn_Sale n
     \<and> 0 \<le> cn_NeedsHuman n \<and> cn_Resolved n + cn_Pending n + cn_Sale n + cn_NeedsHuman n \<le> cn_Total n
     \<and> (distinct (map in_conversation_id (conversation_insights d)) \<longrightarrow>
          cn_Total n = int (length (filter (\<lambda>c. cr_org_id c = org) (conversations d))))
     \<and> 0 \<le> cy_SpentToday k \<and> cy_SpentToday k \<le> cy_Spent30d k)"

text \<open>
  \<open>Overview\<close> reads only, and the numbers it returns fit together, whatever
  the tables hold and however the four queries are delayed: the totals count the organisation's
  own calls and conversations, confirmed and cancelled calls and the four conversation
  outcomes never add up to more than their total, and what was spent today is part of what
  was spent in thirty days.
\<close>
theorem Overview_consistent:
  "wp (analytics_Overview analytics_service org)
     (\<lambda>r v. w_db v = w_db w \<and> env_frame w v \<and> (\<forall>a. r = Inr a \<longrightarrow> overview_ok org (w_db w) a)) w"
  unfolding analytics_Overview_def analytics_simps
proof (rule wp_bnd [OF wp_summary], goal_cases)
  case (2 c v1)
  note f1 = this
  show ?case
  proof (rule wp_bnd [OF wp_stats], goal_cases)
    case (2 n v2)
    note f2 = this
    show ?case
    proof (rule wp_bnd [OF wp_balance], goal_cases)
      case (2 b v3)
      note f3 = this
      show ?case
      proof (rule wp_bnd [OF wp_spend], goal_cases)
        case (2 ab v4)
        then show ?case using f1 f2 f3
          by (cases ab) (auto simp: overview_ok_def Let_def intro: env_frame_trans)
      qed (use f1 f2 f3 in \<open>auto intro: env_frame_trans\<close>)
    qed (use f1 f2 in \<open>auto intro: env_frame_trans\<close>)
  qed (use f1 in \<open>auto intro: env_frame_trans\<close>)
qed auto

end
