(* ===== verification/Yaver_Bus.thy ===== *)
theory Yaver_Bus
  imports Yaver_Domain "HOL-Library.Sublist"
begin

text \<open>
  The in-process activity bus (\<open>platform/bus\<close>): buffered channels per subscriber, a
  non-blocking fan-out under a read lock, and unsubscribing, which removes the subscriber
  under the write lock and closes its channel after releasing it. The three functions are
  given as they run when nothing interferes; the step relation lets publishers, subscribers,
  receivers and cancellations interleave at every lock and channel operation.
\<close>

section \<open>Channels and the bus\<close>

text \<open>A Go channel of capacity 16. Sending on a closed channel and closing it again panic.\<close>

record chan =
  ch_buf :: "ActivityEvent list"
  ch_closed :: bool

abbreviation chan_cap :: nat where "chan_cap \<equiv> 16"

definition new_chan :: chan where
  "new_chan = \<lparr>ch_buf = [], ch_closed = False\<rparr>"

text \<open>\<open>select { case s.ch <- e: default: }\<close>; \<open>None\<close> is the panic.\<close>

definition try_send :: "ActivityEvent \<Rightarrow> chan \<Rightarrow> chan option" where
  "try_send e c = (if ch_closed c then None
     else if length (ch_buf c) < chan_cap then Some (c\<lparr>ch_buf := ch_buf c @ [e]\<rparr>) else Some c)"

definition close_chan :: "chan \<Rightarrow> chan option" where
  "close_chan c = (if ch_closed c then None else Some (c\<lparr>ch_closed := True\<rparr>))"

text \<open>
  \<open>e, ok := <-ch\<close>: the oldest event; the zero value and \<open>ok = false\<close> once the channel
  is closed and drained; otherwise the receiver waits (\<open>None\<close>).
\<close>

definition recv :: "chan \<Rightarrow> (ActivityEvent option \<times> chan) option" where
  "recv c = (case ch_buf c of e # rest \<Rightarrow> Some (Some e, c\<lparr>ch_buf := rest\<rparr>)
     | [] \<Rightarrow> if ch_closed c then Some (None, c) else None)"

text \<open>
  The heap of subscribers is indexed by natural numbers, \<open>bus_next\<close> being the next free
  address; \<open>bus_once\<close> lists those whose \<open>sync.Once\<close> has fired.
\<close>

record Bus =
  bus_subs :: "OrgID \<rightharpoonup> nat list"
  bus_chan :: "nat \<Rightarrow> chan"
  bus_next :: nat
  bus_once :: "nat list"

definition bus_New :: Bus where
  "bus_New = \<lparr>bus_subs = Map.empty, bus_chan = (\<lambda>_. new_chan), bus_next = 0, bus_once = []\<rparr>"

definition subscribers :: "Bus \<Rightarrow> OrgID \<Rightarrow> nat list" where
  "subscribers b org = (case bus_subs b org of None \<Rightarrow> [] | Some m \<Rightarrow> m)"

definition send_to :: "ActivityEvent \<Rightarrow> nat \<Rightarrow> Bus \<Rightarrow> Bus option" where
  "send_to e s b = (case try_send e (bus_chan b s) of None \<Rightarrow> None
     | Some c \<Rightarrow> Some (b\<lparr>bus_chan := (bus_chan b)(s := c)\<rparr>))"

fun send_all :: "ActivityEvent \<Rightarrow> nat list \<Rightarrow> Bus \<Rightarrow> Bus option" where
  "send_all e [] b = Some b"
| "send_all e (s # ss) b = (case send_to e s b of None \<Rightarrow> None | Some b' \<Rightarrow> send_all e ss b')"

definition PublishActivity :: "ActivityEvent \<Rightarrow> Bus \<Rightarrow> Bus option" where
  "PublishActivity e b = send_all e (subscribers b (av_OrgID e)) b"

definition SubscribeActivity :: "OrgID \<Rightarrow> Bus \<Rightarrow> nat \<times> Bus" where
  "SubscribeActivity org b = (let s = bus_next b in
     (s, b\<lparr>bus_subs := (bus_subs b)(org \<mapsto> subscribers b org @ [s]),
           bus_chan := (bus_chan b)(s := new_chan), bus_next := s + 1\<rparr>))"

text \<open>The body of \<open>once.Do\<close> up to \<open>Unlock\<close>, and the close that follows it.\<close>

definition unsubscribe :: "OrgID \<Rightarrow> nat \<Rightarrow> Bus \<Rightarrow> Bus" where
  "unsubscribe org s b = (case bus_subs b org of None \<Rightarrow> b
     | Some m \<Rightarrow> let m' = removeAll s m in
         if m' = [] then b\<lparr>bus_subs := (bus_subs b)(org := None)\<rparr>
         else b\<lparr>bus_subs := (bus_subs b)(org \<mapsto> m')\<rparr>)"

definition close_sub :: "nat \<Rightarrow> Bus \<Rightarrow> Bus option" where
  "close_sub s b = (case close_chan (bus_chan b s) of None \<Rightarrow> None
     | Some c \<Rightarrow> Some (b\<lparr>bus_chan := (bus_chan b)(s := c)\<rparr>))"

definition bus_cancel :: "OrgID \<Rightarrow> nat \<Rightarrow> Bus \<Rightarrow> Bus option" where
  "bus_cancel org s b = (if s \<in> set (bus_once b) then Some b
     else close_sub s (unsubscribe org s (b\<lparr>bus_once := s # bus_once b\<rparr>)))"

section \<open>Interleaved execution\<close>

text \<open>
  A configuration: the bus, the publishers inside their read-locked loop (the event and
  the subscribers still to be visited), the cancellations between \<open>Unlock\<close> and
  \<open>close\<close>, the organisation each subscriber asked for, and, as history, what was
  offered to each subscriber and what it received. \<open>bc_panic\<close> records a panic.
\<close>

record busconf =
  bc_bus :: Bus
  bc_pubs :: "(ActivityEvent \<times> nat list) list"
  bc_closing :: "nat list"
  bc_org :: "nat \<Rightarrow> OrgID"
  bc_offered :: "nat \<Rightarrow> ActivityEvent list"
  bc_got :: "nat \<Rightarrow> ActivityEvent list"
  bc_panic :: bool

definition bus_start :: busconf where
  "bus_start = \<lparr>bc_bus = bus_New, bc_pubs = [], bc_closing = [], bc_org = (\<lambda>_. []),
     bc_offered = (\<lambda>_. []), bc_got = (\<lambda>_. []), bc_panic = False\<rparr>"

inductive bus_step :: "busconf \<Rightarrow> busconf \<Rightarrow> bool" where
  rlock: "bus_step c (c\<lparr>bc_pubs := (e, subscribers (bc_bus c) (av_OrgID e)) # bc_pubs c\<rparr>)"
    \<comment> \<open>\<open>PublishActivity\<close> takes the read lock and starts ranging over the map\<close>
| visit: "bc_pubs c = ps @ (e, xs @ s # ys) # qs \<Longrightarrow> send_to e s (bc_bus c) = Some b \<Longrightarrow>
    bus_step c (c\<lparr>bc_bus := b, bc_pubs := ps @ (e, xs @ ys) # qs,
      bc_offered := (bc_offered c)(s := bc_offered c s @ [e])\<rparr>)"
    \<comment> \<open>map iteration visits the remaining subscribers in any order\<close>
| visit_panic: "bc_pubs c = ps @ (e, xs @ s # ys) # qs \<Longrightarrow> send_to e s (bc_bus c) = None \<Longrightarrow>
    bus_step c (c\<lparr>bc_panic := True\<rparr>)"
| runlock: "bc_pubs c = ps @ (e, []) # qs \<Longrightarrow> bus_step c (c\<lparr>bc_pubs := ps @ qs\<rparr>)"
| subscribe: "bc_pubs c = [] \<Longrightarrow> SubscribeActivity org (bc_bus c) = (s, b) \<Longrightarrow>
    bus_step c (c\<lparr>bc_bus := b, bc_org := (bc_org c)(s := org)\<rparr>)"
    \<comment> \<open>the write lock waits for every reader to leave\<close>
| cancel_lock: "bc_pubs c = [] \<Longrightarrow> s < bus_next (bc_bus c) \<Longrightarrow> s \<notin> set (bus_once (bc_bus c)) \<Longrightarrow>
    bus_step c (c\<lparr>bc_bus := unsubscribe (bc_org c s) s ((bc_bus c)\<lparr>bus_once := s # bus_once (bc_bus c)\<rparr>),
      bc_closing := s # bc_closing c\<rparr>)"
| cancel_close: "bc_closing c = xs @ s # ys \<Longrightarrow> close_sub s (bc_bus c) = Some b \<Longrightarrow>
    bus_step c (c\<lparr>bc_bus := b, bc_closing := xs @ ys\<rparr>)"
| cancel_panic: "bc_closing c = xs @ s # ys \<Longrightarrow> close_sub s (bc_bus c) = None \<Longrightarrow>
    bus_step c (c\<lparr>bc_panic := True\<rparr>)"
| receive: "recv (bus_chan (bc_bus c) s) = Some (Some e, ch) \<Longrightarrow>
    bus_step c (c\<lparr>bc_bus := (bc_bus c)\<lparr>bus_chan := (bus_chan (bc_bus c))(s := ch)\<rparr>,
      bc_got := (bc_got c)(s := bc_got c s @ [e])\<rparr>)"

inductive bus_reach :: "busconf \<Rightarrow> bool" where
  start: "bus_reach bus_start"
| more_steps: "bus_reach c \<Longrightarrow> bus_step c c' \<Longrightarrow> bus_reach c'"

text \<open>
  The invariant: registered subscribers are allocated, belong to the organisation they are
  registered under and have not been cancelled; a channel is open until its
  subscriber is cancelled; what a publisher still visits is registered;
  a cancelled subscriber still to be closed is open and unregistered; every channel holds at
  most 16 events, and what was received, followed by what is buffered, is a subsequence of
  what was offered, all of it the subscriber's own organisation's events.
\<close>

definition bus_ctl :: "busconf \<Rightarrow> bool" where
  "bus_ctl c \<longleftrightarrow> (let b = bc_bus c in
     \<not> bc_panic c
     \<and> (\<forall>org s. s \<in> set (subscribers b org) \<longrightarrow>
          s < bus_next b \<and> bc_org c s = org \<and> s \<notin> set (bus_once b))
     \<and> (\<forall>s. s \<notin> set (bus_once b) \<longrightarrow> \<not> ch_closed (bus_chan b s))
     \<and> (\<forall>e ss. (e, ss) \<in> set (bc_pubs c) \<longrightarrow> set ss \<subseteq> set (subscribers b (av_OrgID e)))
     \<and> set (bus_once b) \<subseteq> {..<bus_next b}
     \<and> distinct (bc_closing c)
     \<and> (\<forall>s \<in> set (bc_closing c). s \<in> set (bus_once b) \<and> \<not> ch_closed (bus_chan b s)))"

definition sub_ok :: "busconf \<Rightarrow> nat \<Rightarrow> bool" where
  "sub_ok c s \<longleftrightarrow> length (ch_buf (bus_chan (bc_bus c) s)) \<le> chan_cap
     \<and> subseq (bc_got c s @ ch_buf (bus_chan (bc_bus c) s)) (bc_offered c s)
     \<and> (\<forall>e \<in> set (bc_offered c s). av_OrgID e = bc_org c s)
     \<and> (bus_next (bc_bus c) \<le> s \<longrightarrow> bc_offered c s = [])"

definition bus_inv :: "busconf \<Rightarrow> bool" where
  "bus_inv c \<longleftrightarrow> bus_ctl c \<and> (\<forall>s. sub_ok c s)"

subsection \<open>Every step keeps the invariant\<close>

lemma try_send_SomeD:
  assumes "try_send e c = Some c'"
  shows "ch_closed c' = ch_closed c" "length (ch_buf c) \<le> chan_cap \<Longrightarrow> length (ch_buf c') \<le> chan_cap"
    "subseq (got @ ch_buf c) xs \<Longrightarrow> subseq (got @ ch_buf c') (xs @ [e])"
proof -
  show "ch_closed c' = ch_closed c" "length (ch_buf c) \<le> chan_cap \<Longrightarrow> length (ch_buf c') \<le> chan_cap"
    using assms by (auto simp: try_send_def split: if_splits)
  assume sub: "subseq (got @ ch_buf c) xs"
  consider "ch_buf c' = ch_buf c @ [e]" | "ch_buf c' = ch_buf c"
    using assms by (auto simp: try_send_def split: if_splits)
  then show "subseq (got @ ch_buf c') (xs @ [e])"
  proof cases
    case 1
    with list_emb_append_mono [OF sub, of "[e]" "[e]"] show ?thesis by simp
  next
    case 2
    with sub show ?thesis using prefix_imp_subseq [of xs "xs @ [e]"] subseq_order.trans by fastforce
  qed
qed

lemma send_to_SomeD:
  assumes "send_to e s b = Some b'"
  obtains c where "try_send e (bus_chan b s) = Some c" "b' = b\<lparr>bus_chan := (bus_chan b)(s := c)\<rparr>"
  using assms by (auto simp: send_to_def split: option.splits)

lemma send_to_NoneD: "send_to e s b = None \<Longrightarrow> ch_closed (bus_chan b s)"
  by (auto simp: send_to_def try_send_def split: option.splits if_splits)

lemma close_sub_SomeD:
  assumes "close_sub s b = Some b'"
  shows "b' = b\<lparr>bus_chan := (bus_chan b)(s := (bus_chan b s)\<lparr>ch_closed := True\<rparr>)\<rparr>"
  using assms by (auto simp: close_sub_def close_chan_def split: option.splits if_splits)

lemma close_sub_NoneD: "close_sub s b = None \<Longrightarrow> ch_closed (bus_chan b s)"
  by (auto simp: close_sub_def close_chan_def split: option.splits if_splits)

lemma subscribers_simps [simp]:
  "subscribers (b\<lparr>bus_chan := f\<rparr>) org = subscribers b org"
  "subscribers (b\<lparr>bus_once := xs\<rparr>) org = subscribers b org"
  by (simp_all add: subscribers_def)

lemma subscribers_unsubscribe:
  "subscribers (unsubscribe org s b) org' = (if org' = org then removeAll s (subscribers b org) else subscribers b org')"
  by (auto simp: unsubscribe_def subscribers_def Let_def split: option.splits)

lemma unsubscribe_frame [simp]:
  "bus_chan (unsubscribe org s b) = bus_chan b" "bus_next (unsubscribe org s b) = bus_next b"
  "bus_once (unsubscribe org s b) = bus_once b"
  by (auto simp: unsubscribe_def Let_def split: option.splits)

lemma bus_inv_start: "bus_inv bus_start"
  by (simp add: bus_inv_def bus_ctl_def sub_ok_def bus_start_def bus_New_def subscribers_def new_chan_def)

lemma bus_ctlD:
  assumes "bus_ctl c"
  shows "\<not> bc_panic c"
    and "s \<in> set (subscribers (bc_bus c) org) \<Longrightarrow> s < bus_next (bc_bus c) \<and> bc_org c s = org \<and> s \<notin> set (bus_once (bc_bus c))"
    and "s \<notin> set (bus_once (bc_bus c)) \<Longrightarrow> \<not> ch_closed (bus_chan (bc_bus c) s)"
    and "(e, ss) \<in> set (bc_pubs c) \<Longrightarrow> set ss \<subseteq> set (subscribers (bc_bus c) (av_OrgID e))"
    and "s \<in> set (bc_closing c) \<Longrightarrow> \<not> ch_closed (bus_chan (bc_bus c) s)"
  using assms unfolding bus_ctl_def Let_def by blast+

text \<open>A publisher never meets a closed channel, a cancellation never closes twice.\<close>

lemma visited_is_open:
  assumes "bus_ctl c" "bc_pubs c = ps @ (e, xs @ s # ys) # qs"
  shows "s \<in> set (subscribers (bc_bus c) (av_OrgID e))" "\<not> ch_closed (bus_chan (bc_bus c) s)"
proof -
  have "set (xs @ s # ys) \<subseteq> set (subscribers (bc_bus c) (av_OrgID e))"
    by (rule bus_ctlD(4) [OF assms(1)]) (simp add: assms(2))
  then show mem: "s \<in> set (subscribers (bc_bus c) (av_OrgID e))" by simp
  show "\<not> ch_closed (bus_chan (bc_bus c) s)"
    using bus_ctlD(2) [OF assms(1) mem] bus_ctlD(3) [OF assms(1)] by blast
qed

lemma bus_inv_visit:
  assumes inv: "bus_inv c" and pubs: "bc_pubs c = ps @ (e, xs @ s # ys) # qs" and send: "send_to e s (bc_bus c) = Some b"
  shows "bus_inv (c\<lparr>bc_bus := b, bc_pubs := ps @ (e, xs @ ys) # qs,
      bc_offered := (bc_offered c)(s := bc_offered c s @ [e])\<rparr>)" (is "bus_inv ?c")
proof -
  let ?b = "bc_bus c"
  have ctl: "bus_ctl c" and data: "\<And>t. sub_ok c t" using inv by (simp_all add: bus_inv_def)
  obtain ch where t: "try_send e (bus_chan ?b s) = Some ch" and b: "b = ?b\<lparr>bus_chan := (bus_chan ?b)(s := ch)\<rparr>"
    using send by (rule send_to_SomeD)
  note own = bus_ctlD(2) [OF ctl visited_is_open(1) [OF ctl pubs]]
  have "set ss \<subseteq> set (subscribers ?b (av_OrgID e'))"
    if "(e', ss) \<in> set (ps @ (e, xs @ ys) # qs)" for e' ss
    using that bus_ctlD(4) [OF ctl, of e' ss] bus_ctlD(4) [OF ctl, of e "xs @ s # ys"] by (auto simp: pubs)
  then have "bus_ctl ?c"
    using ctl try_send_SomeD(1) [OF t] unfolding bus_ctl_def Let_def b by simp
  moreover have "sub_ok ?c r" for r
    using data [of r] try_send_SomeD [OF t] own by (cases "r = s") (auto simp: sub_ok_def b)
  ultimately show ?thesis by (simp add: bus_inv_def)
qed

lemma bus_inv_cancel_lock:
  assumes inv: "bus_inv c" and "bc_pubs c = []" "s < bus_next (bc_bus c)" "s \<notin> set (bus_once (bc_bus c))"
  shows "bus_inv (c\<lparr>bc_bus := unsubscribe (bc_org c s) s ((bc_bus c)\<lparr>bus_once := s # bus_once (bc_bus c)\<rparr>),
      bc_closing := s # bc_closing c\<rparr>)" (is "bus_inv ?c")
proof -
  have ctl: "bus_ctl c" and data: "\<And>t. sub_ok c t" using inv by (simp_all add: bus_inv_def)
  have "bus_ctl ?c"
    using assms(2-4) ctl unfolding bus_ctl_def Let_def
    by (auto simp: subscribers_unsubscribe split: if_splits)
  moreover have "sub_ok ?c r" for r using data [of r] by (simp add: sub_ok_def)
  ultimately show ?thesis by (simp add: bus_inv_def)
qed

lemma bus_inv_subscribe:
  assumes inv: "bus_inv c" and "bc_pubs c = []" "SubscribeActivity org (bc_bus c) = (s, b)"
  shows "bus_inv (c\<lparr>bc_bus := b, bc_org := (bc_org c)(s := org)\<rparr>)" (is "bus_inv ?c")
proof -
  have ctl: "bus_ctl c" and data: "\<And>t. sub_ok c t" using inv by (simp_all add: bus_inv_def)
  have s: "s = bus_next (bc_bus c)" and b: "b = (bc_bus c)\<lparr>bus_subs := (bus_subs (bc_bus c))(org \<mapsto> subscribers (bc_bus c) org @ [s]),
           bus_chan := (bus_chan (bc_bus c))(s := new_chan), bus_next := s + 1\<rparr>"
    using assms(3) by (auto simp: SubscribeActivity_def Let_def)
  have subs: "subscribers b org' = (if org' = org then subscribers (bc_bus c) org @ [s] else subscribers (bc_bus c) org')" for org'
    by (simp add: b subscribers_def)
  have fr: "bus_chan b = (bus_chan (bc_bus c))(s := new_chan)" "bus_next b = Suc s" "bus_once b = bus_once (bc_bus c)"
    by (simp_all add: b)
  have fresh: "s \<notin> set (bus_once (bc_bus c))" "s \<notin> set (bc_closing c)" "\<And>o'. s \<notin> set (subscribers (bc_bus c) o')"
    using ctl unfolding bus_ctl_def Let_def s by auto
  have lt: "r < Suc (bus_next (bc_bus c))" if "r \<in> set (bus_once (bc_bus c))" for r
    using ctl that unfolding bus_ctl_def Let_def by (auto simp: less_Suc_eq)
  have "bus_ctl ?c"
    unfolding bus_ctl_def Let_def using bus_ctlD [OF ctl] assms(2) fresh lt ctl
    by (auto simp: subs fr s bus_ctl_def Let_def less_SucI new_chan_def split: if_splits)
  moreover have "sub_ok ?c r" for r
  proof (cases "r = s")
    case True
    have "subseq (bc_got c s @ ch_buf (bus_chan (bc_bus c) s)) []" "bc_offered c s = []"
      using data [of s] by (metis order_refl s sub_ok_def)+
    with True show ?thesis using list_emb_Nil2 by (fastforce simp: sub_ok_def fr new_chan_def)
  next
    case False
    with data [of r] show ?thesis by (simp add: sub_ok_def fr s)
  qed
  ultimately show ?thesis by (simp add: bus_inv_def)
qed

lemma bus_inv_close:
  assumes inv: "bus_inv c" and "bc_closing c = xs @ s # ys" "close_sub s (bc_bus c) = Some b"
  shows "bus_inv (c\<lparr>bc_bus := b, bc_closing := xs @ ys\<rparr>)" (is "bus_inv ?c")
proof -
  have ctl: "bus_ctl c" and data: "\<And>t. sub_ok c t" using inv by (simp_all add: bus_inv_def)
  have "bus_ctl ?c"
    using ctl assms(2) unfolding close_sub_SomeD [OF assms(3)] bus_ctl_def Let_def by auto
  moreover have "sub_ok ?c r" for r
    using data [of r] unfolding close_sub_SomeD [OF assms(3)] by (cases "r = s") (simp_all add: sub_ok_def)
  ultimately show ?thesis by (simp add: bus_inv_def)
qed

lemma bus_inv_receive:
  assumes inv: "bus_inv c" and "recv (bus_chan (bc_bus c) s) = Some (Some e, ch)"
  shows "bus_inv (c\<lparr>bc_bus := (bc_bus c)\<lparr>bus_chan := (bus_chan (bc_bus c))(s := ch)\<rparr>,
      bc_got := (bc_got c)(s := bc_got c s @ [e])\<rparr>)" (is "bus_inv ?c")
proof -
  have ctl: "bus_ctl c" and data: "\<And>t. sub_ok c t" using inv by (simp_all add: bus_inv_def)
  have ch: "ch_buf (bus_chan (bc_bus c) s) = e # ch_buf ch" "ch_closed ch = ch_closed (bus_chan (bc_bus c) s)"
    using assms(2) by (auto simp: recv_def split: list.splits if_splits)
  have "bus_ctl ?c" using ctl unfolding bus_ctl_def Let_def by (simp add: ch)
  moreover have "sub_ok ?c r" for r using data [of r] ch(1) by (auto simp: sub_ok_def)
  ultimately show ?thesis by (simp add: bus_inv_def)
qed

lemma bus_inv_step: "bus_step c c' \<Longrightarrow> bus_inv c \<Longrightarrow> bus_inv c'"
proof (induction rule: bus_step.induct)
  case (visit_panic c ps e xs s ys qs)
  then show ?case using send_to_NoneD visited_is_open(2) unfolding bus_inv_def by blast
next
  case (cancel_panic c xs s ys)
  then show ?case using close_sub_NoneD bus_ctlD(5) [of c s] unfolding bus_inv_def by fastforce
next
  case (rlock c e)
  then show ?case by (auto simp: bus_inv_def bus_ctl_def sub_ok_def Let_def)
next
  case (runlock c ps e qs)
  then show ?case by (auto simp: bus_inv_def bus_ctl_def sub_ok_def Let_def)
qed (auto intro: bus_inv_visit bus_inv_subscribe bus_inv_cancel_lock bus_inv_close bus_inv_receive)

lemma bus_reach_inv: "bus_reach c \<Longrightarrow> bus_inv c"
  by (induction rule: bus_reach.induct) (auto intro: bus_inv_start bus_inv_step)

section \<open>What the bus guarantees\<close>

text \<open>
  Property C28: however publishers, subscribers, receivers and cancellations interleave,
  the bus never panics (no send on a closed channel, no second close) and no subscriber's
  buffer exceeds 16 events; what a subscriber received and still has buffered is, in order, a
  part of what was offered to it, and every event of it belongs to the organisation it
  subscribed to; and a publisher never waits: its next send always goes through at once.
\<close>
theorem bus_safe:
  assumes "bus_reach c"
  shows "\<not> bc_panic c
    \<and> (\<forall>s. length (ch_buf (bus_chan (bc_bus c) s)) \<le> chan_cap
         \<and> subseq (bc_got c s @ ch_buf (bus_chan (bc_bus c) s)) (bc_offered c s)
         \<and> (\<forall>e \<in> set (bc_got c s @ ch_buf (bus_chan (bc_bus c) s)). av_OrgID e = bc_org c s))
    \<and> (\<forall>e ss s. (e, ss) \<in> set (bc_pubs c) \<longrightarrow> s \<in> set ss \<longrightarrow> (\<exists>b. send_to e s (bc_bus c) = Some b))"
proof -
  have ctl: "bus_ctl c" and data: "\<And>s. sub_ok c s" using bus_reach_inv [OF assms] by (simp_all add: bus_inv_def)
  have own: "av_OrgID e = bc_org c s" if "e \<in> set (bc_got c s @ ch_buf (bus_chan (bc_bus c) s))" for e s
  proof -
    have "subseq (bc_got c s @ ch_buf (bus_chan (bc_bus c) s)) (bc_offered c s)" using data by (simp add: sub_ok_def)
    with that have "e \<in> set (bc_offered c s)" by (auto elim!: list_emb_set)
    with data show ?thesis by (simp add: sub_ok_def)
  qed
  have goes: "\<exists>b. send_to e s (bc_bus c) = Some b" if p: "(e, ss) \<in> set (bc_pubs c)" and s: "s \<in> set ss" for e ss s
  proof -
    obtain ps qs where ps: "bc_pubs c = ps @ (e, ss) # qs" using p by (auto dest: split_list)
    obtain xs ys where "ss = xs @ s # ys" using s by (auto dest: split_list)
    with visited_is_open(2) [OF ctl] ps send_to_NoneD show ?thesis by blast
  qed
  from data have "length (ch_buf (bus_chan (bc_bus c) s)) \<le> chan_cap"
    "subseq (bc_got c s @ ch_buf (bus_chan (bc_bus c) s)) (bc_offered c s)" for s by (simp_all add: sub_ok_def)
  with bus_ctlD(1) [OF ctl] own goes show ?thesis by blast
qed

theorem bus_safe_witness:
  "\<exists>c. bus_reach c \<and> bc_pubs c \<noteq> [] \<and> \<not> bc_panic c"
proof -
  let ?e = "\<lparr>av_Type = ''call.completed'', av_OrgID = ''org_1'', av_Title = [], av_Detail = [], av_At = 0\<rparr>"
  let ?c1 = "bus_start\<lparr>bc_bus := snd (SubscribeActivity ''org_1'' bus_New), bc_org := (bc_org bus_start)(0 := ''org_1'')\<rparr>"
  have "bus_step bus_start ?c1"
    by (rule bus_step.subscribe) (simp_all add: bus_start_def SubscribeActivity_def bus_New_def)
  then have r: "bus_reach ?c1" by (rule bus_reach.more_steps [OF bus_reach.start])
  obtain c2 where "bus_step ?c1 c2" and c2: "c2 = ?c1\<lparr>bc_pubs := (?e, subscribers (bc_bus ?c1) (av_OrgID ?e)) # bc_pubs ?c1\<rparr>"
    using bus_step.rlock by blast
  with r have "bus_reach c2" by (blast intro: bus_reach.more_steps)
  with bus_safe [of c2] c2 show ?thesis by (intro exI [of _ c2]) simp
qed

definition grown :: "ActivityEvent \<Rightarrow> chan \<Rightarrow> chan" where
  "grown e c = (if length (ch_buf c) < chan_cap then c\<lparr>ch_buf := ch_buf c @ [e]\<rparr> else c)"

lemma send_all_open:
  "distinct ss \<Longrightarrow> \<forall>s \<in> set ss. \<not> ch_closed (bus_chan b s) \<Longrightarrow>
     send_all e ss b = Some (b\<lparr>bus_chan := (\<lambda>s. if s \<in> set ss then grown e (bus_chan b s) else bus_chan b s)\<rparr>)"
proof (induction ss arbitrary: b)
  case (Cons s ss)
  let ?b = "b\<lparr>bus_chan := (bus_chan b)(s := grown e (bus_chan b s))\<rparr>"
  have "send_to e s b = Some ?b"
    using Cons.prems(2) by (simp add: send_to_def try_send_def grown_def)
  moreover have "(\<lambda>r. if r \<in> set ss then grown e (bus_chan ?b r) else bus_chan ?b r)
      = (\<lambda>r. if r \<in> set (s # ss) then grown e (bus_chan b r) else bus_chan b r)"
    using Cons.prems(1) by auto
  moreover have "\<forall>r \<in> set ss. \<not> ch_closed (bus_chan ?b r)" using Cons.prems by auto
  ultimately show ?case using Cons.IH [of ?b] Cons.prems(1) by simp
qed simp

text \<open>
  Publishing without interference reaches every open subscriber of the
  event's organisation that has room in its buffer, at the end of the buffer, and leaves every
  other channel, full ones and those of other organisations included, as it was.
\<close>
theorem Publish_delivers:
  assumes "distinct (subscribers b (av_OrgID e))" "\<forall>s \<in> set (subscribers b (av_OrgID e)). \<not> ch_closed (bus_chan b s)"
  shows "PublishActivity e b = Some (b\<lparr>bus_chan := (\<lambda>s.
      if s \<in> set (subscribers b (av_OrgID e)) \<and> length (ch_buf (bus_chan b s)) < chan_cap
      then (bus_chan b s)\<lparr>ch_buf := ch_buf (bus_chan b s) @ [e]\<rparr> else bus_chan b s)\<rparr>)"
proof -
  have "(\<lambda>s. if s \<in> set (subscribers b (av_OrgID e)) then grown e (bus_chan b s) else bus_chan b s)
    = (\<lambda>s. if s \<in> set (subscribers b (av_OrgID e)) \<and> length (ch_buf (bus_chan b s)) < chan_cap
      then (bus_chan b s)\<lparr>ch_buf := ch_buf (bus_chan b s) @ [e]\<rparr> else bus_chan b s)"
    by (rule ext) (simp add: grown_def)
  with send_all_open [OF assms] show ?thesis by (simp add: PublishActivity_def)
qed

theorem Publish_delivers_witness:
  "PublishActivity \<lparr>av_Type = ''call.completed'', av_OrgID = ''org_1'', av_Title = [], av_Detail = [], av_At = 0\<rparr>
     (snd (SubscribeActivity ''org_1'' bus_New)) \<noteq> None"
  using Publish_delivers [of "snd (SubscribeActivity ''org_1'' bus_New)"
      "\<lparr>av_Type = ''call.completed'', av_OrgID = ''org_1'', av_Title = [], av_Detail = [], av_At = 0\<rparr>"]
  by (simp add: SubscribeActivity_def bus_New_def subscribers_def new_chan_def)

end
