(* ===== verification/Yaver_Handlers.thy ===== *)
theory Yaver_Handlers
  imports Yaver_Http Yaver_Calls Yaver_Campaigns Yaver_Billing Yaver_Messaging Yaver_Webhooks Yaver_Analytics Yaver_Bus
begin

text \<open>
  The handlers of \<open>transport/http\<close>, one definition per method, in the order of the files:
  calls and call policy, flows, campaigns, customers, billing, webhook settings, analytics,
  reports, the setup assistant, chat, the public widget, channels with the Meta webhook, event
  ingestion and API keys, and the activity stream. Logging is left out.
\<close>

section \<open>Calls (server.go, callpolicy.go)\<close>

record callsHandler =
  clh_svc :: CallsService
  clh_orch :: Orchestrator
  clh_transcribe :: TranscriptionService
  clh_libs :: libs
  clh_lib :: httplibs

definition calls_testCall :: "callsHandler \<Rightarrow> handler" where
  "calls_testCall h r =
     (case decode (hl_first (clh_lib h) (hr_Body r)) (dec_both (dec_string ''phone'') (dec_string ''digit'')) of (err, phone, dig) \<Rightarrow>
      if err then respond_err 400 ''invalid body''
      else (case NormalizeBD phone of
          None \<Rightarrow> respond_err 400 ''invalid phone''
        | Some e164 \<Rightarrow>
            let digit = (if dig = [] then ''1'' else dig) in
            svc (calls_RunTestCall (clh_svc h) (orgFromCtx r) e164 digit ''order_confirm'') (\<lambda>q. case q of
                Inl e \<Rightarrow> if e = ErrNotFound then respond_err 404 ''no active order_confirm flow''
                  else if e = ErrInsufficientCredits then respond_err 402 (''out of credits '' @ em_dash @ '' top up to place calls'')
                  else internal
              | Inr (out, call) \<Rightarrow> respond 200 (ostrs [(''call_id'', ca_ID call), (''status'', ou_Status out), (''result'', ou_Result out)]))))"

definition call_dto :: "httplibs \<Rightarrow> Call \<Rightarrow> jout" where
  "call_dto H c = ostrs [(''id'', ca_ID c), (''direction'', ca_Direction c), (''status'', ca_Status c), (''result'', ca_Result c),
     (''created_at'', hl_rfc3339 H (ca_CreatedAt c))]"

definition calls_listCalls :: "callsHandler \<Rightarrow> handler" where
  "calls_listCalls h r = svc (calls_List (clh_svc h) (orgFromCtx r) 50) (\<lambda>q. case q of
       Inl _ \<Rightarrow> internal
     | Inr cs \<Rightarrow> respond 200 (OObj [(''calls'', OArr (map (call_dto (clh_lib h)) cs))]))"

text \<open>\<open>omitempty\<close>\<close>

definition omit_empty :: "string \<Rightarrow> string \<Rightarrow> (string \<times> jout) list" where
  "omit_empty k v = (if v = [] then [] else [(k, OStr v)])"

definition call_detail_dto :: "httplibs \<Rightarrow> Call \<Rightarrow> jout" where
  "call_detail_dto H c = OObj ([(''id'', OStr (ca_ID c)), (''direction'', OStr (ca_Direction c)), (''status'', OStr (ca_Status c)),
     (''result'', OStr (ca_Result c)), (''flow_id'', OStr (ca_FlowID c)), (''provider_call_id'', OStr (ca_ProviderCallID c))] @
     omit_empty ''recording_url'' (ca_RecordingURL c) @ omit_empty ''transcript'' (ca_Transcript c) @
     [(''created_at'', OStr (hl_rfc3339 H (ca_CreatedAt c)))])"

definition calls_getCall :: "callsHandler \<Rightarrow> handler" where
  "calls_getCall h r = svc (calls_Get (clh_svc h) (orgFromCtx r) (hr_PathValue r ''id'')) (\<lambda>q. case q of
       Inl e \<Rightarrow> if e = ErrNotFound then respond_err 404 ''not found'' else internal
     | Inr c \<Rightarrow> respond 200 (call_detail_dto (clh_lib h) c))"

definition calls_transcribeCall :: "callsHandler \<Rightarrow> handler" where
  "calls_transcribeCall h r = (let cid = hr_PathValue r ''id'' in
     svc (calls_Get (clh_svc h) (orgFromCtx r) cid) (\<lambda>q. case q of
       Inl _ \<Rightarrow> respond_err 404 ''not found''
     | Inr _ \<Rightarrow>
         (case decode (hl_first (clh_lib h) (hr_Body r)) (dec_both (dec_string ''recording_url'') (dec_string ''locale'')) of (err, url, locale) \<Rightarrow>
          if err \<or> url = [] then respond_err 400 ''recording_url required''
          else svc (transcription_Transcribe (clh_transcribe h) cid url locale) (\<lambda>q'. case q' of
              Inl _ \<Rightarrow> respond_err 502 ''transcription failed''
            | Inr _ \<Rightarrow> respond 200 (ostrs [(''status'', ''ok'')])))))"

definition calls_summary :: "callsHandler \<Rightarrow> handler" where
  "calls_summary h r = svc (calls_Summary (clh_svc h) (orgFromCtx r)) (\<lambda>q. case q of
       Inl _ \<Rightarrow> internal
     | Inr s \<Rightarrow> respond 200 (OObj [(''total'', OInt (cs_Total s)), (''confirmed'', OInt (cs_Confirmed s)),
         (''cancelled'', OInt (cs_Cancelled s)), (''today'', OInt (cs_Today s)),
         (''confirmation_rate'', OInt (pct_int (cs_Confirmed s) (cs_Total s)))]))"

definition calls_placeCall :: "callsHandler \<Rightarrow> handler" where
  "calls_placeCall h r =
     (case decode (hl_first (clh_lib h) (hr_Body r)) (dec_string ''phone'') of (err, phone) \<Rightarrow>
      if err then respond_err 400 ''invalid body''
      else (case NormalizeBD phone of
          None \<Rightarrow> respond_err 400 ''invalid phone''
        | Some e164 \<Rightarrow> svc (orc_EnqueuePlaceCall (clh_orch h) \<lparr>pc_OrgID = orgFromCtx r, pc_ToPhone = e164, pc_FlowID = []\<rparr>) (\<lambda>q. case q of
            Inl _ \<Rightarrow> internal | Inr _ \<Rightarrow> respond 202 (ostrs [(''status'', ''queued'')]))))"

definition calls_getPolicy :: "callsHandler \<Rightarrow> handler" where
  "calls_getPolicy h r = svc (calls_Policy (clh_svc h) (orgFromCtx r)) (\<lambda>q. case q of
       Inl _ \<Rightarrow> internal
     | Inr p \<Rightarrow> respond 200 (OObj [(''window_start'', OInt (cl_WindowStart p)), (''window_end'', OInt (cl_WindowEnd p)),
         (''timezone'', OStr (cl_Timezone p)), (''max_retries'', OInt (cl_MaxRetries p))]))"

definition calls_savePolicy :: "callsHandler \<Rightarrow> handler" where
  "calls_savePolicy h r =
     (case decode (hl_first (clh_lib h) (hr_Body r)) (dec_both (dec_int ''window_start'') (dec_both (dec_int ''window_end'')
        (dec_both (dec_string ''timezone'') (dec_int ''max_retries'')))) of (err, ws, we, tz, mr) \<Rightarrow>
      if err then respond_err 400 ''invalid body''
      else svc (calls_SavePolicy (clh_libs h) (clh_svc h) (orgFromCtx r)
             \<lparr>cl_WindowStart = ws, cl_WindowEnd = we, cl_Timezone = tz, cl_MaxRetries = mr\<rparr>) (\<lambda>q. case q of
          Inl e \<Rightarrow> if e = ErrInvalidCallPolicy
            then respond_err 400 ''invalid policy: window must be start<end within 0-24, valid IANA timezone, retries 0-10''
            else internal
        | Inr _ \<Rightarrow> respond 200 (ostrs [(''status'', ''saved'')])))"

section \<open>Flows (flows.go)\<close>

record flowsHandler =
  flh_repo :: FlowRepo
  flh_libs :: libs
  flh_lib :: httplibs

text \<open>
  \<open>io.ReadAll(io.LimitReader(r.Body, n))\<close>; and all a \<open>Decoder\<close> sees of a body behind
  \<open>MaxBytesReader\<close>, as an object that is not complete within the limit is an error either way.
\<close>

definition read_limited :: "nat \<Rightarrow> request \<Rightarrow> string" where
  "read_limited n r = take n (hr_Body r)"

definition flow_summary_dto :: "FlowSummary \<Rightarrow> jout" where
  "flow_summary_dto f = OObj [(''id'', OStr (fy_ID f)), (''name'', OStr (fy_Name f)), (''version'', OInt (fy_Version f)),
     (''channel'', OStr (fy_Channel f)), (''type'', OStr (fy_Type f)), (''active'', OBool (fy_Active f))]"

definition flows_list_h :: "flowsHandler \<Rightarrow> handler" where
  "flows_list_h h r = svc (flows_List (flh_repo h) (orgFromCtx r)) (\<lambda>q. case q of
       Inl _ \<Rightarrow> internal | Inr fs \<Rightarrow> respond 200 (OObj [(''flows'', OArr (map flow_summary_dto fs))]))"

definition flows_create_h :: "flowsHandler \<Rightarrow> handler" where
  "flows_create_h h r =
     (case decode (hl_whole (flh_lib h) (read_limited (2 ^ 20) r)) (dec_both (dec_string ''name'') (dec_both (dec_string ''channel'')
        (dec_both (dec_string ''type'') (dec_both (dec_string ''locale'') (dec_raw ''spec''))))) of (err, name, channel, typ, locale, spec) \<Rightarrow>
      if err \<or> name = [] then respond_err 400 ''name required''
      else svc (flows_Create (flh_libs h) (flh_repo h) (orgFromCtx r)
             \<lparr>nf_Name = name, nf_Channel = channel, nf_Type = typ, nf_Locale = locale, nf_Spec = spec\<rparr>) (\<lambda>q. case q of
          Inl e \<Rightarrow> if e = ErrConflict then respond_err 409 ''a flow with that name already exists''
            else if e = ErrFlowInvalid then respond_err 400 ''invalid flow (name, type, or spec)''
            else internal
        | Inr fid \<Rightarrow> respond 201 (ostrs [(''id'', fid)])))"

definition flows_get_h :: "flowsHandler \<Rightarrow> handler" where
  "flows_get_h h r = svc (flows_Get (flh_repo h) (orgFromCtx r) (hr_PathValue r ''id'')) (\<lambda>q. case q of
       Inl e \<Rightarrow> if e = ErrNotFound then respond_err 404 ''not found'' else internal
     | Inr fd \<Rightarrow> respond 200 (OObj [(''id'', OStr (fd_ID fd)), (''name'', OStr (fd_Name fd)), (''version'', OInt (fd_Version fd)),
         (''channel'', OStr (fd_Channel fd)), (''type'', OStr (fd_Type fd)), (''locale'', OStr (fd_Locale fd)), (''spec'', ORaw (fd_Spec fd))]))"

definition template_dto :: "Template \<Rightarrow> jout" where
  "template_dto t = OObj [(''name'', OStr (tm_Name t)), (''title'', OStr (tm_Title t)), (''description'', OStr (tm_Description t)),
     (''channel'', OStr (tm_Channel t)), (''type'', OStr (tm_Type t)), (''locale'', OStr (tm_Locale t)), (''spec'', OSpec (tm_Spec t))]"

definition flows_templates_h :: handler where
  "flows_templates_h r = respond 200 (OObj [(''templates'', OArr (map template_dto Templates))])"

definition prompt_dto :: "Prompt \<Rightarrow> jout" where
  "prompt_dto p = OObj (omit_empty ''audio'' (pr_Audio p) @ omit_empty ''tts'' (pr_TTS p))"

definition sim_step_dto :: "SimStep \<Rightarrow> jout" where
  "sim_step_dto st = OObj ([(''node'', OStr (ss_Node st)), (''kind'', OStr (ss_Kind st)), (''awaits_input'', OBool (ss_Awaits st))] @
     (case ss_Say st of None \<Rightarrow> [] | Some p \<Rightarrow> [(''say'', prompt_dto p)]))"

definition flows_simulate_h :: "flowsHandler \<Rightarrow> handler" where
  "flows_simulate_h h r =
     (case decode (hl_whole (flh_lib h) (read_limited (2 ^ 20) r)) (dec_both (dec_raw ''spec'') (dec_strings ''inputs'')) of (err, spec, inputs) \<Rightarrow>
      if err \<or> spec = [] then respond_err 400 ''spec required''
      else (case flows_Simulate (flh_libs h) spec (case inputs of None \<Rightarrow> [] | Some xs \<Rightarrow> xs) of
          Inl e \<Rightarrow> if e = ErrFlowInvalid then respond_err 400 ''invalid flow spec'' else internal
        | Inr sim \<Rightarrow> respond 200 (OObj [(''steps'', OArr (map sim_step_dto (sm_Steps sim))), (''ended'', OBool (sm_Ended sim)),
            (''result'', OStr (sm_Result sim)), (''status'', OStr (sm_Status sim))])))"

definition flows_update_h :: "flowsHandler \<Rightarrow> handler" where
  "flows_update_h h r =
     (case decode (hl_whole (flh_lib h) (read_limited (2 ^ 20) r)) (dec_raw ''spec'') of (err, spec) \<Rightarrow>
      if err \<or> spec = [] then respond_err 400 ''spec required''
      else svc (flows_UpdateSpec (flh_libs h) (flh_repo h) (orgFromCtx r) (hr_PathValue r ''id'') spec) (\<lambda>q. case q of
          Inl e \<Rightarrow> if e = ErrNotFound then respond_err 404 ''not found''
            else if e = ErrFlowInvalid then respond_err 400 ''invalid flow spec'' else internal
        | Inr _ \<Rightarrow> respond 200 (ostrs [(''status'', ''saved'')])))"

section \<open>Campaigns (campaigns.go)\<close>

record campaignsHandler =
  cmh_svc :: CampaignsService
  cmh_lib :: httplibs

definition rfc3339Ptr :: "httplibs \<Rightarrow> time option \<Rightarrow> jout" where
  "rfc3339Ptr H t = (case t of None \<Rightarrow> ONull | Some x \<Rightarrow> OStr (hl_rfc3339 H x))"

definition toCampaignDTO :: "httplibs \<Rightarrow> Campaign \<Rightarrow> jout" where
  "toCampaignDTO H c = OObj [(''id'', OStr (cg_ID c)), (''name'', OStr (cg_Name c)), (''status'', OStr (cg_Status c)),
     (''target_count'', OInt (cg_TargetCount c)), (''created_at'', OStr (hl_rfc3339 H (cg_CreatedAt c))),
     (''started_at'', rfc3339Ptr H (cg_StartedAt c)), (''scheduled_at'', rfc3339Ptr H (cg_ScheduledAt c))]"

definition campaigns_create_h :: "campaignsHandler \<Rightarrow> handler" where
  "campaigns_create_h h r =
     (case decode (hl_first (cmh_lib h) (hr_Body r)) (dec_string ''name'') of (err, name) \<Rightarrow>
      if err \<or> name = [] then respond_err 400 ''name required''
      else svc (campaigns_Create (cmh_svc h) (orgFromCtx r) name) (\<lambda>q. case q of
          Inl _ \<Rightarrow> internal | Inr cid \<Rightarrow> respond 201 (ostrs [(''id'', cid)])))"

definition campaigns_list_h :: "campaignsHandler \<Rightarrow> handler" where
  "campaigns_list_h h r = svc (campaigns_List (cmh_svc h) (orgFromCtx r)) (\<lambda>q. case q of
       Inl _ \<Rightarrow> internal | Inr cs \<Rightarrow> respond 200 (OObj [(''campaigns'', OArr (map (toCampaignDTO (cmh_lib h)) cs))]))"

definition campaigns_importRecipients_h :: "campaignsHandler \<Rightarrow> handler" where
  "campaigns_importRecipients_h h r =
     svc (campaigns_ImportRecipients (cmh_svc h) (orgFromCtx r) (hr_PathValue r ''id'') (read_limited (5 * 2 ^ 20) r)) (\<lambda>q. case q of
       Inl e \<Rightarrow> if e = ErrNotFound then respond_err 404 ''not found''
         else if e = ErrFlowInvalid then respond_err 400 ''malformed CSV'' else internal
     | Inr added \<Rightarrow> respond 200 (OObj [(''added'', OInt added)]))"

definition campaigns_schedule_h :: "campaignsHandler \<Rightarrow> handler" where
  "campaigns_schedule_h h r =
     (case decode (hl_first (cmh_lib h) (hr_Body r)) (dec_string ''at'') of (err, at_text) \<Rightarrow>
      if err then respond_err 400 ''invalid body''
      else (case hl_parse_rfc3339 (cmh_lib h) at_text of
          None \<Rightarrow> respond_err 400 ''at must be RFC3339''
        | Some t \<Rightarrow> svc (campaigns_Schedule (cmh_svc h) (orgFromCtx r) (hr_PathValue r ''id'') t) (\<lambda>q. case q of
            Inl e \<Rightarrow> if e = ErrNotFound then respond_err 404 ''not found''
              else if e = ErrFlowInvalid then respond_err 400 ''schedule time must be in the future'' else internal
          | Inr _ \<Rightarrow> respond 200 (ostrs [(''status'', ''scheduled''), (''at'', hl_rfc3339 (cmh_lib h) t)]))))"

definition campaigns_start_h :: "campaignsHandler \<Rightarrow> handler" where
  "campaigns_start_h h r = svc (campaigns_Start (cmh_svc h) (orgFromCtx r) (hr_PathValue r ''id'')) (\<lambda>q. case q of
       Inl e \<Rightarrow> if e = ErrNotFound then respond_err 404 ''not found'' else internal
     | Inr queued \<Rightarrow> respond 200 (OObj [(''queued'', OInt queued)]))"

section \<open>Customers (customers.go)\<close>

definition customer_dto :: "httplibs \<Rightarrow> Customer \<Rightarrow> jout" where
  "customer_dto H c = OObj [(''id'', OStr (cu_ID c)), (''phone'', OStr (cu_Phone c)), (''name'', OStr (cu_Name c)),
     (''dnd'', OBool (cu_DND c)), (''created_at'', OStr (hl_rfc3339 H (cu_CreatedAt c)))]"

definition customers_list_h :: "CustomerRepo \<Rightarrow> httplibs \<Rightarrow> handler" where
  "customers_list_h repo H r = svc (customers_List repo (orgFromCtx r) 100) (\<lambda>q. case q of
       Inl _ \<Rightarrow> internal | Inr cs \<Rightarrow> respond 200 (OObj [(''customers'', OArr (map (customer_dto H) cs))]))"

definition customers_setDND_h :: "CustomerRepo \<Rightarrow> bool \<Rightarrow> handler" where
  "customers_setDND_h repo dnd r = svc (customers_SetDND repo (orgFromCtx r) (hr_PathValue r ''id'') dnd) (\<lambda>q. case q of
       Inl _ \<Rightarrow> internal | Inr _ \<Rightarrow> respond 200 (OObj [(''dnd'', OBool dnd)]))"

section \<open>Billing (billing.go)\<close>

record billingHandler =
  bh_svc :: BillingService
  bh_dev :: bool
  bh_webURL :: string
  bh_lib :: httplibs

definition ledger_dto :: "httplibs \<Rightarrow> CreditEntry \<Rightarrow> jout" where
  "ledger_dto H e = OObj [(''delta'', OInt (ce_Delta e)), (''reason'', OStr (ce_Reason e)), (''created_at'', OStr (hl_rfc3339 H (ce_CreatedAt e)))]"

definition billing_get_h :: "billingHandler \<Rightarrow> handler" where
  "billing_get_h h r = (let org = orgFromCtx r in
     svc (billing_Balance (bh_svc h) org) (\<lambda>q. case q of
       Inl _ \<Rightarrow> internal
     | Inr bal \<Rightarrow> svc (billing_Ledger (bh_svc h) org 20) (\<lambda>q'. case q' of
         Inl _ \<Rightarrow> internal
       | Inr entries \<Rightarrow> respond 200 (OObj [(''balance'', OInt bal), (''ledger'', OArr (map (ledger_dto (bh_lib h)) entries))]))))"

definition billing_topUp_h :: "billingHandler \<Rightarrow> handler" where
  "billing_topUp_h h r = (if \<not> bh_dev h then respond_err 403 ''use /v1/billing/checkout to pay''
     else (let amount0 = snd (decode (hl_first (bh_lib h) (hr_Body r)) (dec_int ''amount''));
               amount = (if amount0 \<le> 0 then 100 else amount0)
           in svc (billing_TopUp (bh_svc h) (orgFromCtx r) amount) (\<lambda>q. case q of
                Inl _ \<Rightarrow> internal | Inr bal \<Rightarrow> respond 200 (OObj [(''balance'', OInt bal)]))))"

definition billing_checkout_h :: "billingHandler \<Rightarrow> handler" where
  "billing_checkout_h h r = svc (billing_Checkout (bh_svc h) (orgFromCtx r)
       (snd (decode (hl_first (bh_lib h) (hr_Body r)) (dec_int ''credits'')))) (\<lambda>q. case q of
     Inl _ \<Rightarrow> respond_err 502 ''could not start payment'' | Inr url \<Rightarrow> respond 200 (ostrs [(''redirect_url'', url)]))"

definition billing_ipn_h :: "billingHandler \<Rightarrow> handler" where
  "billing_ipn_h h r = (case hr_PostForm r of
       None \<Rightarrow> respond 200 (ostrs [(''status'', ''ignored'')])
     | Some form \<Rightarrow> svc (billing_SettlePayment (bh_svc h) form) (\<lambda>_. respond 200 (ostrs [(''status'', ''ok'')])))"

definition billing_devPay_h :: "billingHandler \<Rightarrow> handler" where
  "billing_devPay_h h r = (if \<not> bh_dev h then respond_err 403 ''dev only''
     else let ref = hr_Query r ''ref'' in
       if ref = [] then respond_err 400 ''missing ref''
       else svc (billing_SettlePayment (bh_svc h) [''tran_id'' \<mapsto> ref, ''status'' \<mapsto> ''paid'']) (\<lambda>q. case q of
           Inl _ \<Rightarrow> internal | Inr _ \<Rightarrow> ret (http_Redirect (bh_webURL h @ ''/settings?payment=paid'') 303)))"

definition billing_paymentReturn_h :: "billingHandler \<Rightarrow> handler" where
  "billing_paymentReturn_h h r =
     (let status = (if hr_FormValue r ''status'' \<in> {''VALID'', ''VALIDATED'', ''paid'', []} then ''paid'' else ''failed'')
      in ret (http_Redirect (bh_webURL h @ ''/settings?payment='' @ status) 303))"

section \<open>Webhook settings (webhooks.go)\<close>

definition webhooks_getEndpoint_h :: "WebhooksService \<Rightarrow> handler" where
  "webhooks_getEndpoint_h s r = svc (webhooks_Get s (orgFromCtx r)) (\<lambda>q. case q of
       Inl _ \<Rightarrow> internal
     | Inr None \<Rightarrow> respond 200 (OObj [(''configured'', OBool False), (''events'', OArr [])])
     | Inr (Some (url, evs)) \<Rightarrow> respond 200 (OObj [(''configured'', OBool True), (''url'', OStr url), (''events'', OArr (map OStr evs))]))"

definition webhooks_setEndpoint_h :: "WebhooksService \<Rightarrow> httplibs \<Rightarrow> handler" where
  "webhooks_setEndpoint_h s H r =
     (case decode (hl_first H (hr_Body r)) (dec_both (dec_string ''url'') (dec_strings ''events'')) of (err, url, evs) \<Rightarrow>
      if err \<or> url = [] then respond_err 400 ''url required''
      else svc (webhooks_SetEndpoint s (orgFromCtx r) url evs) (\<lambda>q. case q of
          Inl _ \<Rightarrow> internal | Inr secret \<Rightarrow> respond 200 (ostrs [(''secret'', secret)])))"

section \<open>Analytics, reports, the setup assistant (analytics.go, reports.go, onboarding.go)\<close>

definition overviewDTO :: "AnalyticsOverview \<Rightarrow> jout" where
  "overviewDTO a = (let c = ao_Calls a; n = ao_Conversations a; k = ao_Credits a in
     OObj [(''calls'', OObj [(''total'', OInt (cs_Total c)), (''confirmed'', OInt (cs_Confirmed c)), (''cancelled'', OInt (cs_Cancelled c)),
         (''today'', OInt (cs_Today c)), (''confirmation_rate'', OInt (pct_int (cs_Confirmed c) (cs_Total c)))]),
       (''conversations'', OObj [(''total'', OInt (cn_Total n)), (''today'', OInt (cn_Today n)), (''resolved'', OInt (cn_Resolved n)),
         (''pending'', OInt (cn_Pending n)), (''sale'', OInt (cn_Sale n)), (''needs_human'', OInt (cn_NeedsHuman n)),
         (''resolution_rate'', OInt (pct_int (cn_Resolved n) (cn_Total n)))]),
       (''credits'', OObj [(''balance'', OInt (cy_Balance k)), (''spent_today'', OInt (cy_SpentToday k)), (''spent_30d'', OInt (cy_Spent30d k))])])"

definition analytics_overview_h :: "AnalyticsService \<Rightarrow> handler" where
  "analytics_overview_h s r = svc (analytics_Overview s (orgFromCtx r)) (\<lambda>q. case q of
       Inl _ \<Rightarrow> internal | Inr a \<Rightarrow> respond 200 (overviewDTO a))"

definition reports_ask_h :: "ReportsService \<Rightarrow> httplibs \<Rightarrow> handler" where
  "reports_ask_h s H r =
     (case decode (hl_first H (hr_Body r)) (dec_string ''question'') of (err, question) \<Rightarrow>
      if err \<or> trim_space question = [] then respond_err 400 ''question required''
      else svc (reports_Ask s (orgFromCtx r) question) (\<lambda>q. case q of
          Inl _ \<Rightarrow> internal
        | Inr (answer, data) \<Rightarrow> respond 200 (OObj [(''answer'', OStr answer), (''data'', overviewDTO data)])))"

definition onboarding_ask_h :: "ChatModel \<Rightarrow> httplibs \<Rightarrow> handler" where
  "onboarding_ask_h model H r =
     (case decode (hl_first H (read_limited (2 ^ 16) r)) (dec_both (dec_string ''question'') (dec_nested ''progress''
        (dec_both (dec_bool ''store_named'') (dec_both (dec_bool ''has_api_key'') (dec_both (dec_bool ''webhook_set'') (dec_bool ''has_flow''))))))
      of (err, question, sn, ak, ws, hf) \<Rightarrow>
      if err \<or> question = [] then respond_err 400 ''question required''
      else svc (onboarding_Ask model \<lparr>pg_StoreNamed = sn, pg_HasAPIKey = ak, pg_WebhookSet = ws, pg_HasFlow = hf\<rparr> question) (\<lambda>q. case q of
          Inl _ \<Rightarrow> respond_err 502 ''assistant unavailable'' | Inr answer \<Rightarrow> respond 200 (ostrs [(''answer'', answer)])))"

section \<open>Chat (chat.go)\<close>

record chatHandler =
  cth_svc :: ChatService
  cth_msg :: MessagingService
  cth_lib :: httplibs

definition insightToDTO :: "httplibs \<Rightarrow> ConversationInsight \<Rightarrow> jout" where
  "insightToDTO H i = ostrs [(''summary'', ci_Summary i), (''outcome'', ci_Outcome i), (''sentiment'', ci_Sentiment i),
     (''next_action'', ci_NextAction i), (''created_at'', hl_rfc3339 H (ci_CreatedAt i))]"

definition chat_send_h :: "chatHandler \<Rightarrow> handler" where
  "chat_send_h h r =
     (case decode (hl_first (cth_lib h) (hr_Body r)) (dec_both (dec_string ''conversation_id'') (dec_string ''text'')) of (err, cid, msg) \<Rightarrow>
      if err \<or> msg = [] then respond_err 400 ''text required''
      else svc (chat_Send (cth_svc h) (orgFromCtx r) cid msg) (\<lambda>q. case q of
          Inl e \<Rightarrow> if e = ErrNotFound then respond_err 404 ''not found'' else internal
        | Inr (convID, reply) \<Rightarrow> respond 200 (ostrs [(''conversation_id'', convID), (''reply'', reply)])))"

definition conversation_dto :: "httplibs \<Rightarrow> Conversation \<Rightarrow> jout" where
  "conversation_dto H c = OObj [(''id'', OStr (cv_ID c)), (''channel'', OStr (cv_Channel c)),
     (''customer'', OStr (if cv_ExternalUser c = [] then ''Website visitor'' else cv_ExternalUser c)), (''status'', OStr (cv_Status c)),
     (''last_message'', OStr (cv_LastMessage c)), (''message_count'', OInt (cv_MessageCount c)), (''updated_at'', OStr (hl_rfc3339 H (cv_UpdatedAt c)))]"

definition chat_list_h :: "chatHandler \<Rightarrow> handler" where
  "chat_list_h h r = svc (chat_List (cth_svc h) (orgFromCtx r)) (\<lambda>q. case q of
       Inl _ \<Rightarrow> internal | Inr cs \<Rightarrow> respond 200 (OObj [(''conversations'', OArr (map (conversation_dto (cth_lib h)) cs))]))"

definition chat_getSettings_h :: "chatHandler \<Rightarrow> handler" where
  "chat_getSettings_h h r = svc (chat_Settings (cth_svc h) (orgFromCtx r)) (\<lambda>q. case q of
       Inl _ \<Rightarrow> internal
     | Inr cs \<Rightarrow> respond 200 (ostrs [(''instructions'', ch_Instructions cs), (''widget_title'', ch_WidgetTitle cs), (''welcome'', ch_Welcome cs),
         (''accent'', ch_Accent cs)]))"

definition or_default :: "string \<Rightarrow> string \<Rightarrow> string" where
  "or_default v d = (if v = [] then d else v)"

definition chat_saveSettings_h :: "chatHandler \<Rightarrow> handler" where
  "chat_saveSettings_h h r =
     (case decode (hl_first (cth_lib h) (hr_Body r)) (dec_both (dec_string ''instructions'') (dec_both (dec_string ''widget_title'')
        (dec_both (dec_string ''welcome'') (dec_string ''accent'')))) of (err, instructions, title, welcome, accent) \<Rightarrow>
      if err then respond_err 400 ''invalid body''
      else svc (chat_SaveSettings (cth_svc h) (orgFromCtx r) \<lparr>ch_Instructions = instructions,
             ch_WidgetTitle = or_default title (ch_WidgetTitle DefaultChatSettings), ch_Welcome = or_default welcome (ch_Welcome DefaultChatSettings),
             ch_Accent = or_default accent (ch_Accent DefaultChatSettings)\<rparr>) (\<lambda>q. case q of
          Inl _ \<Rightarrow> internal | Inr _ \<Rightarrow> respond 200 (ostrs [(''status'', ''saved'')])))"

definition message_dto :: "httplibs \<Rightarrow> Message \<Rightarrow> jout" where
  "message_dto H m = ostrs [(''role'', ms_Role m), (''content'', ms_Content m), (''created_at'', hl_rfc3339 H (ms_CreatedAt m))]"

definition chat_messages_h :: "chatHandler \<Rightarrow> handler" where
  "chat_messages_h h r = svc (chat_Messages (cth_svc h) (orgFromCtx r) (hr_PathValue r ''id'')) (\<lambda>q. case q of
       Inl e \<Rightarrow> if e = ErrNotFound then respond_err 404 ''not found'' else internal
     | Inr msgs \<Rightarrow>
         svc (chat_Insight (cth_svc h) (orgFromCtx r) (hr_PathValue r ''id'')) (\<lambda>q'.
           respond 200 (OObj ((''messages'', OArr (map (message_dto (cth_lib h)) msgs)) #
             (case q' of Inr (Some i) \<Rightarrow> [(''insight'', insightToDTO (cth_lib h) i)] | _ \<Rightarrow> [])))))"

definition chat_setStatus_h :: "chatHandler \<Rightarrow> handler" where
  "chat_setStatus_h h r =
     (case decode (hl_first (cth_lib h) (hr_Body r)) (dec_string ''status'') of (err, status) \<Rightarrow>
      if err then respond_err 400 ''invalid body''
      else svc (chat_SetStatus (cth_svc h) (orgFromCtx r) (hr_PathValue r ''id'') status) (\<lambda>q. case q of
          Inl e \<Rightarrow> if e = ErrNotFound then respond_err 404 ''not found''
            else if e = ErrFlowInvalid then respond_err 400 ''status must be open, handling, or closed'' else internal
        | Inr _ \<Rightarrow> respond 200 (ostrs [(''status'', status)])))"

definition chat_agentReply_h :: "chatHandler \<Rightarrow> handler" where
  "chat_agentReply_h h r =
     (case decode (hl_first (cth_lib h) (hr_Body r)) (dec_string ''text'') of (err, msg) \<Rightarrow>
      if err \<or> msg = [] then respond_err 400 ''text required''
      else svc (chat_AgentReply (cth_svc h) (orgFromCtx r) (hr_PathValue r ''id'') msg) (\<lambda>q. case q of
          Inl e \<Rightarrow> if e = ErrNotFound then respond_err 404 ''not found'' else internal
        | Inr (channel, externalUser) \<Rightarrow>
            let sent = respond 200 (OObj [(''status'', OStr ''sent''), (''delivered'', OBool True)]) in
            if channel = ''whatsapp'' \<or> channel = ''messenger''
            then svc (messaging_SendOutbound (cth_msg h) (orgFromCtx r) channel externalUser msg) (\<lambda>q'. case q' of
                Inl _ \<Rightarrow> respond 200 (OObj [(''status'', OStr ''stored''), (''delivered'', OBool False)]) | Inr _ \<Rightarrow> sent)
            else sent))"

definition chat_summarize_h :: "chatHandler \<Rightarrow> handler" where
  "chat_summarize_h h r = svc (chat_Summarize (cth_svc h) (orgFromCtx r) (hr_PathValue r ''id'')) (\<lambda>q. case q of
       Inl e \<Rightarrow> if e = ErrNotFound then respond_err 404 ''not found'' else internal
     | Inr i \<Rightarrow> respond 200 (insightToDTO (cth_lib h) i))"

section \<open>The public widget (public.go)\<close>

record publicHandler =
  puh_keys :: keyHandler
  puh_chat :: ChatService
  puh_lib :: httplibs
  puh_widget :: string

definition public_auth :: "publicHandler \<Rightarrow> request \<Rightarrow> (OrgID \<Rightarrow> response wop) \<Rightarrow> response wop" where
  "public_auth h r k = svc (apikeys_Authenticate (kh_libs (puh_keys h)) (kh_repo (puh_keys h)) (hr_Header r ''X-Yaver-Key'')) (\<lambda>q. case q of
       Inl _ \<Rightarrow> internal
     | Inr None \<Rightarrow> respond_err 401 ''invalid publishable key''
     | Inr (Some (org, kd)) \<Rightarrow> if kd \<noteq> ''publishable'' then respond_err 401 ''invalid publishable key'' else k org)"

definition public_chatSend :: "publicHandler \<Rightarrow> handler" where
  "public_chatSend h r = public_auth h r (\<lambda>org.
     case decode (hl_first (puh_lib h) (read_limited (2 ^ 16) r)) (dec_both (dec_string ''conversation_id'') (dec_string ''text'')) of (err, cid, msg) \<Rightarrow>
     if err \<or> msg = [] then respond_err 400 ''text required''
     else let ok = (\<lambda>convID reply. respond 200 (ostrs [(''conversation_id'', convID), (''reply'', reply)])) in
       svc (chat_Send (puh_chat h) org cid msg) (\<lambda>q. case q of
         Inr (convID, reply) \<Rightarrow> ok convID reply
       | Inl _ \<Rightarrow> svc (chat_Send (puh_chat h) org [] msg) (\<lambda>q'. case q' of
           Inl _ \<Rightarrow> internal | Inr (convID, reply) \<Rightarrow> ok convID reply)))"

definition public_chatConfig :: "publicHandler \<Rightarrow> handler" where
  "public_chatConfig h r = public_auth h r (\<lambda>org. svc (chat_Settings (puh_chat h) org) (\<lambda>q. case q of
       Inl _ \<Rightarrow> internal
     | Inr cs \<Rightarrow> respond 200 (ostrs [(''title'', ch_WidgetTitle cs), (''welcome'', ch_Welcome cs), (''accent'', ch_Accent cs)])))"

text \<open>The script itself is data: \<open>puh_widget\<close>.\<close>

definition public_widget :: "publicHandler \<Rightarrow> handler" where
  "public_widget h r = ret \<lparr>rs_Status = 200, rs_Header = [(''Content-Type'', ''application/javascript; charset=utf-8''),
     (''Cache-Control'', ''public, max-age=300'')], rs_Cookies = [], rs_Body = TextBody (puh_widget h)\<rparr>"

section \<open>Channels and the Meta webhook (channels.go)\<close>

record channelsHandler =
  cnh_svc :: MessagingService
  cnh_lib :: httplibs

definition channel_dto :: "httplibs \<Rightarrow> ChannelConnection \<Rightarrow> jout" where
  "channel_dto H c = ostrs [(''type'', cc_Type c), (''external_id'', cc_ExternalID c), (''created_at'', hl_rfc3339 H (cc_CreatedAt c))]"

definition channels_list_h :: "channelsHandler \<Rightarrow> handler" where
  "channels_list_h h r = svc (messaging_List (cnh_svc h) (orgFromCtx r)) (\<lambda>q. case q of
       Inl _ \<Rightarrow> internal | Inr cs \<Rightarrow> respond 200 (OObj [(''channels'', OArr (map (channel_dto (cnh_lib h)) cs))]))"

definition channels_connect_h :: "channelsHandler \<Rightarrow> handler" where
  "channels_connect_h h r =
     (case decode (hl_first (cnh_lib h) (hr_Body r)) (dec_both (dec_string ''type'') (dec_both (dec_string ''external_id'')
        (dec_both (dec_string ''access_token'') (dec_string ''verify_token'')))) of (err, typ, ext, token, verify) \<Rightarrow>
      if err \<or> typ \<noteq> ''whatsapp'' \<and> typ \<noteq> ''messenger'' \<or> ext = [] \<or> token = [] \<or> verify = []
      then respond_err 400 ''type, external_id, access_token, verify_token required''
      else svc (messaging_Connect (cnh_svc h) (orgFromCtx r) typ ext token verify) (\<lambda>q. case q of
          Inl _ \<Rightarrow> internal | Inr _ \<Rightarrow> respond 200 (ostrs [(''status'', ''connected'')])))"

definition channels_disconnect_h :: "channelsHandler \<Rightarrow> handler" where
  "channels_disconnect_h h r = svc (messaging_Disconnect (cnh_svc h) (orgFromCtx r) (hr_PathValue r ''type'')) (\<lambda>q. case q of
       Inl _ \<Rightarrow> internal | Inr _ \<Rightarrow> respond 200 (ostrs [(''status'', ''disconnected'')]))"

definition meta_verify :: "channelsHandler \<Rightarrow> handler" where
  "meta_verify h r = (if hr_Query r ''hub.mode'' \<noteq> ''subscribe'' then ret (status_only 403)
     else bnd (messaging_VerifyChallenge (cnh_svc h) (hr_Query r ''hub.verify_token'')) (\<lambda>ok.
       ret (if ok then \<lparr>rs_Status = 200, rs_Header = [(''Content-Type'', ''text/plain'')], rs_Cookies = [],
              rs_Body = TextBody (hr_Query r ''hub.challenge'')\<rparr>
            else status_only 403)))"

text \<open>The payload: per entry its id, the WhatsApp changes (number, messages) and the Messenger messages.\<close>

definition dec_wa_message :: "(string \<times> string) dec" where
  "dec_wa_message = dec_both (dec_string ''from'') (dec_nested ''text'' (dec_string ''body''))"

definition dec_change :: "(string \<times> (string \<times> string) list) dec" where
  "dec_change = dec_nested ''value'' (dec_both (dec_nested ''metadata'' (dec_string ''phone_number_id'')) (dec_list ''messages'' dec_wa_message))"

definition dec_page_message :: "(string \<times> string) dec" where
  "dec_page_message = dec_both (dec_nested ''sender'' (dec_string ''id'')) (dec_nested ''message'' (dec_string ''text''))"

definition metaPayload :: "(string \<times> (string \<times> (string \<times> string) list) list \<times> (string \<times> string) list) list dec" where
  "metaPayload = dec_list ''entry'' (dec_both (dec_string ''id'') (dec_both (dec_list ''changes'' dec_change) (dec_list ''messaging'' dec_page_message)))"

definition meta_route :: "channelsHandler \<Rightarrow> string \<Rightarrow> string \<Rightarrow> string \<Rightarrow> unit wop" where
  "meta_route h to sender msg = attempt (messaging_HandleInbound (cnh_svc h) to sender msg) (\<lambda>q.
     if q = Inl PanicNilDeref then fail PanicNilDeref else ret ())"

definition meta_receive :: "channelsHandler \<Rightarrow> handler" where
  "meta_receive h r =
     (case decode (hl_whole (cnh_lib h) (read_limited (2 ^ 20) r)) metaPayload of (err, entries) \<Rightarrow>
      if err then ret (status_only 200)
      else bnd (each (\<lambda>(eid, changes, msgs).
             bnd (each (\<lambda>(to, ms). each (\<lambda>(sender, msg). if msg \<noteq> [] then meta_route h to sender msg else ret ()) ms) changes) (\<lambda>_.
             each (\<lambda>(sender, msg). if msg \<noteq> [] then meta_route h eid sender msg else ret ()) msgs)) entries) (\<lambda>_.
           ret (status_only 200)))"

section \<open>Event ingestion and API keys (ingest.go)\<close>

record ingestHandler =
  ih_keys :: keyHandler
  ih_ingest :: IngestService
  ih_lib :: httplibs

definition eventBody :: "(string \<times> string \<times> string \<times> string \<times> string) dec" where
  "eventBody = dec_both (dec_string ''event_type'') (dec_both (dec_string ''event_id'') (dec_nested ''customer''
     (dec_both (dec_string ''phone'') (dec_both (dec_string ''name'') (dec_string ''external_id'')))))"

definition ingest_postEvent :: "ingestHandler \<Rightarrow> handler" where
  "ingest_postEvent h r = (let org = orgFromCtx r; raw = read_limited (2 ^ 20) r in
     case decode (hl_whole (ih_lib h) raw) eventBody of (err, typ, eid, phone, name, ext) \<Rightarrow>
     if err then respond_err 400 ''invalid body''
     else if typ = [] \<or> eid = [] then respond_err 400 ''event_type and event_id are required''
     else svc (ingest_Accept (ih_ingest h) org \<lparr>et_Type = typ, et_ExternalID = eid, et_Phone = phone, et_CustomerName = name,
            et_CustomerRef = ext, et_Payload = raw\<rparr>) (\<lambda>q. case q of
         Inl e \<Rightarrow> if e = ErrInvalidPhone then respond_err 400 ''invalid phone'' else internal
       | Inr (eventID, dup) \<Rightarrow> if dup then respond 200 (ostrs [(''status'', ''duplicate'')])
           else respond 202 (ostrs [(''status'', ''accepted''), (''event_id'', eventID)])))"

definition api_key_dto :: "httplibs \<Rightarrow> APIKeyInfo \<Rightarrow> jout" where
  "api_key_dto H k = OObj [(''prefix'', OStr (ki_Prefix k)), (''name'', OStr (ki_Name k)), (''kind'', OStr (ki_Kind k)),
     (''created_at'', OStr (hl_rfc3339 H (ki_CreatedAt k))), (''last_used_at'', rfc3339Ptr H (ki_LastUsedAt k))]"

definition keys_list_h :: "ingestHandler \<Rightarrow> handler" where
  "keys_list_h h r = svc (apikeys_List (kh_repo (ih_keys h)) (orgFromCtx r)) (\<lambda>q. case q of
       Inl _ \<Rightarrow> internal | Inr ks \<Rightarrow> respond 200 (OObj [(''keys'', OArr (map (api_key_dto (ih_lib h)) ks))]))"

definition keys_mint_h :: "ingestHandler \<Rightarrow> handler" where
  "keys_mint_h h r = svc (apikeys_Mint (kh_libs (ih_keys h)) (kh_repo (ih_keys h)) (orgFromCtx r) ''dashboard'') (\<lambda>q. case q of
       Inl _ \<Rightarrow> internal | Inr full \<Rightarrow> respond 200 (ostrs [(''api_key'', full)]))"

definition keys_mintPublishable_h :: "ingestHandler \<Rightarrow> handler" where
  "keys_mintPublishable_h h r = svc (apikeys_MintPublishable (kh_libs (ih_keys h)) (kh_repo (ih_keys h)) (orgFromCtx r) ''widget'') (\<lambda>q. case q of
       Inl _ \<Rightarrow> internal | Inr full \<Rightarrow> respond 200 (ostrs [(''api_key'', full)]))"

section \<open>The activity stream (activity.go)\<close>

text \<open>
  One answer per organisation stays open: the handler subscribes, writes an opening comment
  and then one frame per event, a ping every 25 seconds, until the client is gone, its channel is
  closed or a write fails. What its \<open>select\<close> wakes up for is a list; a failed write is
  the last thing it does.
\<close>

datatype wakeup = ClientGone | Tick bool | Received ActivityEvent bool | ChannelClosed
  \<comment> \<open>the flag of a write: did it succeed\<close>

definition sse_frame :: "string \<Rightarrow> string" where
  "sse_frame payload = ''data: '' @ payload @ eol @ eol"

text \<open>\<open>json.Marshal\<close> of an event: the organisation is not part of it, an empty detail is left out.\<close>

definition activity_json :: "(time \<Rightarrow> string) \<Rightarrow> ActivityEvent \<Rightarrow> string" where
  "activity_json marshal_time e = ''{'' @ json_fields ([(''type'', av_Type e), (''title'', av_Title e)] @
     (if av_Detail e = [] then [] else [(''detail'', av_Detail e)]) @ [(''at'', marshal_time (av_At e))]) @ ''}''"

fun activity_stream :: "(time \<Rightarrow> string) \<Rightarrow> wakeup list \<Rightarrow> string list" where
  "activity_stream mt [] = []"
| "activity_stream mt (ClientGone # ws) = []"
| "activity_stream mt (ChannelClosed # ws) = []"
| "activity_stream mt (Tick ok # ws) = (if ok then ('': ping'' @ eol @ eol) # activity_stream mt ws else [])"
| "activity_stream mt (Received e ok # ws) = (if ok then sse_frame (activity_json mt e) # activity_stream mt ws else [])"

definition stream_opening :: response where
  "stream_opening = \<lparr>rs_Status = 200, rs_Header = [(''Content-Type'', ''text/event-stream''), (''Cache-Control'', ''no-cache''),
     (''Connection'', ''keep-alive''), (''X-Accel-Buffering'', ''no'')], rs_Cookies = [], rs_Body = TextBody ('': connected'' @ eol @ eol)\<rparr>"

definition activity_stream_h :: handler where
  "activity_stream_h r = ret stream_opening"

end
