(* ===== verification/Yaver_Server.thy ===== *)
theory Yaver_Server
  imports Yaver_Handlers
begin

text \<open>
  The router (\<open>New\<close> of \<open>transport/http/server.go\<close>): the handlers built from the
  services, the table of routes with the middleware in front of each, the choice of a route
  as \<open>http.ServeMux\<close> makes it, and the service of one request. The two limiters are state
  of the server beside the world. Paths are those \<open>net/http\<close> has cleaned.
\<close>

section \<open>Dependencies and handlers\<close>

record deps =
  sd_env :: string
  sd_libs :: libs
  sd_http :: httplibs
  sd_auth :: AuthService
  sd_orgs :: OrgStore
  sd_calls :: CallsService
  sd_flows :: FlowRepo
  sd_customers :: CustomerRepo
  sd_campaigns :: CampaignsService
  sd_chat :: ChatService
  sd_msg :: MessagingService
  sd_billing :: BillingService
  sd_analytics :: AnalyticsService
  sd_reports :: ReportsService
  sd_keys :: APIKeyRepo
  sd_ingest :: IngestService
  sd_webhooks :: WebhooksService
  sd_orch :: Orchestrator
  sd_onboarding :: ChatModel
  sd_transcribe :: TranscriptionService
  sd_webURL :: string
  sd_openapi :: string
  sd_widget :: string

definition dev :: "deps \<Rightarrow> bool" where
  "dev d \<longleftrightarrow> sd_env d = ''dev''"

definition the_ah :: "deps \<Rightarrow> authHandler" where
  "the_ah d = \<lparr>ah_svc = sd_auth d, ah_orgs = sd_orgs d, ah_secure = (\<not> dev d), ah_lib = sd_http d\<rparr>"

definition the_ch :: "deps \<Rightarrow> callsHandler" where
  "the_ch d = \<lparr>clh_svc = sd_calls d, clh_orch = sd_orch d, clh_transcribe = sd_transcribe d, clh_libs = sd_libs d, clh_lib = sd_http d\<rparr>"

definition the_fh :: "deps \<Rightarrow> flowsHandler" where
  "the_fh d = \<lparr>flh_repo = sd_flows d, flh_libs = sd_libs d, flh_lib = sd_http d\<rparr>"

definition the_cah :: "deps \<Rightarrow> campaignsHandler" where
  "the_cah d = \<lparr>cmh_svc = sd_campaigns d, cmh_lib = sd_http d\<rparr>"

definition the_chh :: "deps \<Rightarrow> chatHandler" where
  "the_chh d = \<lparr>cth_svc = sd_chat d, cth_msg = sd_msg d, cth_lib = sd_http d\<rparr>"

definition the_kh :: "deps \<Rightarrow> keyHandler" where
  "the_kh d = \<lparr>kh_libs = sd_libs d, kh_repo = sd_keys d\<rparr>"

definition the_ph :: "deps \<Rightarrow> publicHandler" where
  "the_ph d = \<lparr>puh_keys = the_kh d, puh_chat = sd_chat d, puh_lib = sd_http d, puh_widget = sd_widget d\<rparr>"

definition the_cnh :: "deps \<Rightarrow> channelsHandler" where
  "the_cnh d = \<lparr>cnh_svc = sd_msg d, cnh_lib = sd_http d\<rparr>"

definition the_bh :: "deps \<Rightarrow> billingHandler" where
  "the_bh d = \<lparr>bh_svc = sd_billing d, bh_dev = dev d, bh_webURL = sd_webURL d, bh_lib = sd_http d\<rparr>"

definition the_ih :: "deps \<Rightarrow> ingestHandler" where
  "the_ih d = \<lparr>ih_keys = the_kh d, ih_ingest = sd_ingest d, ih_lib = sd_http d\<rparr>"

definition health_h :: handler where
  "health_h r = respond 200 (ostrs [(''status'', ''ok'')])"

definition openapi_h :: "deps \<Rightarrow> handler" where
  "openapi_h d r = ret \<lparr>rs_Status = 200, rs_Header = [(''Content-Type'', ''application/yaml'')], rs_Cookies = [],
     rs_Body = TextBody (sd_openapi d)\<rparr>"

section \<open>The table of routes\<close>

text \<open>A segment of a pattern is a literal or a wildcard that matches one non-empty segment.\<close>

datatype seg = Lit string | Wild string

datatype limit = AuthLimit | PublicLimit

text \<open>The middleware right around the handler: none, the session, the secret key, cross-origin.\<close>

datatype guard = GOpen | GSession | GKey | GCors

record route =
  rt_Method :: "string option"
  rt_Pattern :: "seg list"
  rt_Limit :: "limit option"
  rt_Guard :: guard
  rt_Handler :: handler

definition route :: "string option \<Rightarrow> seg list \<Rightarrow> limit option \<Rightarrow> guard \<Rightarrow> handler \<Rightarrow> route" where
  "route m p l g h = \<lparr>rt_Method = m, rt_Pattern = p, rt_Limit = l, rt_Guard = g, rt_Handler = h\<rparr>"

definition server_routes :: "deps \<Rightarrow> route list" where
  "server_routes d = [
     route (Some ''GET'') [Lit ''healthz''] None GOpen (health_h),
     route (Some ''GET'') [Lit ''openapi.yaml''] None GOpen (openapi_h d),
     route (Some ''POST'') [Lit ''v1'', Lit ''auth'', Lit ''otp'', Lit ''request''] (Some AuthLimit) GOpen (auth_requestOTP (the_ah d)),
     route (Some ''POST'') [Lit ''v1'', Lit ''auth'', Lit ''otp'', Lit ''verify''] (Some AuthLimit) GOpen (auth_verifyOTP (the_ah d)),
     route (Some ''POST'') [Lit ''v1'', Lit ''auth'', Lit ''register''] (Some AuthLimit) GOpen (auth_register (the_ah d)),
     route (Some ''POST'') [Lit ''v1'', Lit ''auth'', Lit ''login''] (Some AuthLimit) GOpen (auth_login (the_ah d)),
     route (Some ''POST'') [Lit ''v1'', Lit ''auth'', Lit ''logout''] None GOpen (auth_logout (the_ah d)),
     route (Some ''GET'') [Lit ''v1'', Lit ''me''] None GSession (auth_me),
     route (Some ''GET'') [Lit ''v1'', Lit ''calls''] None GSession (calls_listCalls (the_ch d)),
     route (Some ''GET'') [Lit ''v1'', Lit ''calls'', Wild ''id''] None GSession (calls_getCall (the_ch d)),
     route (Some ''POST'') [Lit ''v1'', Lit ''calls'', Wild ''id'', Lit ''transcribe''] None GSession (calls_transcribeCall (the_ch d)),
     route (Some ''GET'') [Lit ''v1'', Lit ''settings'', Lit ''call-policy''] None GSession (calls_getPolicy (the_ch d)),
     route (Some ''PUT'') [Lit ''v1'', Lit ''settings'', Lit ''call-policy''] None GSession (calls_savePolicy (the_ch d)),
     route (Some ''GET'') [Lit ''v1'', Lit ''analytics'', Lit ''summary''] None GSession (calls_summary (the_ch d)),
     route (Some ''GET'') [Lit ''v1'', Lit ''analytics'', Lit ''overview''] None GSession (analytics_overview_h (sd_analytics d)),
     route (Some ''GET'') [Lit ''v1'', Lit ''activity'', Lit ''stream''] None GSession (activity_stream_h),
     route (Some ''POST'') [Lit ''v1'', Lit ''reports'', Lit ''ask''] None GSession (reports_ask_h (sd_reports d) (sd_http d)),
     route (Some ''POST'') [Lit ''v1'', Lit ''onboarding'', Lit ''ask''] None GSession (onboarding_ask_h (sd_onboarding d) (sd_http d)),
     route (Some ''GET'') [Lit ''v1'', Lit ''billing''] None GSession (billing_get_h (the_bh d)),
     route (Some ''POST'') [Lit ''v1'', Lit ''billing'', Lit ''topup''] None GSession (billing_topUp_h (the_bh d)),
     route (Some ''POST'') [Lit ''v1'', Lit ''billing'', Lit ''checkout''] None GSession (billing_checkout_h (the_bh d)),
     route (Some ''GET'') [Lit ''v1'', Lit ''dev'', Lit ''pay''] None GSession (billing_devPay_h (the_bh d)),
     route (Some ''POST'') [Lit ''webhooks'', Lit ''payment''] None GOpen (billing_ipn_h (the_bh d)),
     route (Some ''GET'') [Lit ''billing'', Lit ''return''] None GOpen (billing_paymentReturn_h (the_bh d)),
     route (Some ''POST'') [Lit ''billing'', Lit ''return''] None GOpen (billing_paymentReturn_h (the_bh d)),
     route (Some ''GET'') [Lit ''v1'', Lit ''customers''] None GSession (customers_list_h (sd_customers d) (sd_http d)),
     route (Some ''POST'') [Lit ''v1'', Lit ''customers'', Wild ''id'', Lit ''dnd''] None GSession (customers_setDND_h (sd_customers d) True),
     route (Some ''DELETE'') [Lit ''v1'', Lit ''customers'', Wild ''id'', Lit ''dnd''] None GSession (customers_setDND_h (sd_customers d) False),
     route (Some ''POST'') [Lit ''v1'', Lit ''chat'', Lit ''messages''] None GSession (chat_send_h (the_chh d)),
     route (Some ''GET'') [Lit ''v1'', Lit ''chat'', Lit ''conversations''] None GSession (chat_list_h (the_chh d)),
     route (Some ''GET'') [Lit ''v1'', Lit ''chat'', Lit ''conversations'', Wild ''id''] None GSession (chat_messages_h (the_chh d)),
     route (Some ''POST'') [Lit ''v1'', Lit ''chat'', Lit ''conversations'', Wild ''id'', Lit ''summarize''] None GSession (chat_summarize_h (the_chh d)),
     route (Some ''PUT'') [Lit ''v1'', Lit ''chat'', Lit ''conversations'', Wild ''id'', Lit ''status''] None GSession (chat_setStatus_h (the_chh d)),
     route (Some ''POST'') [Lit ''v1'', Lit ''chat'', Lit ''conversations'', Wild ''id'', Lit ''reply''] None GSession (chat_agentReply_h (the_chh d)),
     route (Some ''GET'') [Lit ''v1'', Lit ''chat'', Lit ''settings''] None GSession (chat_getSettings_h (the_chh d)),
     route (Some ''PUT'') [Lit ''v1'', Lit ''chat'', Lit ''settings''] None GSession (chat_saveSettings_h (the_chh d)),
     route (Some ''GET'') [Lit ''v1'', Lit ''campaigns''] None GSession (campaigns_list_h (the_cah d)),
     route (Some ''POST'') [Lit ''v1'', Lit ''campaigns''] None GSession (campaigns_create_h (the_cah d)),
     route (Some ''POST'') [Lit ''v1'', Lit ''campaigns'', Wild ''id'', Lit ''recipients''] None GSession (campaigns_importRecipients_h (the_cah d)),
     route (Some ''POST'') [Lit ''v1'', Lit ''campaigns'', Wild ''id'', Lit ''schedule''] None GSession (campaigns_schedule_h (the_cah d)),
     route (Some ''POST'') [Lit ''v1'', Lit ''campaigns'', Wild ''id'', Lit ''start''] None GSession (campaigns_start_h (the_cah d)),
     route (Some ''GET'') [Lit ''v1'', Lit ''flows''] None GSession (flows_list_h (the_fh d)),
     route (Some ''POST'') [Lit ''v1'', Lit ''flows''] None GSession (flows_create_h (the_fh d)),
     route (Some ''GET'') [Lit ''v1'', Lit ''flows'', Lit ''templates''] None GSession (flows_templates_h),
     route (Some ''POST'') [Lit ''v1'', Lit ''flows'', Lit ''simulate''] None GSession (flows_simulate_h (the_fh d)),
     route (Some ''GET'') [Lit ''v1'', Lit ''flows'', Wild ''id''] None GSession (flows_get_h (the_fh d)),
     route (Some ''PUT'') [Lit ''v1'', Lit ''flows'', Wild ''id''] None GSession (flows_update_h (the_fh d)),
     route (Some ''POST'') [Lit ''v1'', Lit ''events''] (Some PublicLimit) GKey (ingest_postEvent (the_ih d)),
     route (Some ''PUT'') [Lit ''v1'', Lit ''settings'', Lit ''org''] None GSession (auth_renameOrg (the_ah d)),
     route (Some ''GET'') [Lit ''v1'', Lit ''settings'', Lit ''api-keys''] None GSession (keys_list_h (the_ih d)),
     route (Some ''POST'') [Lit ''v1'', Lit ''settings'', Lit ''api-keys''] None GSession (keys_mint_h (the_ih d)),
     route (Some ''POST'') [Lit ''v1'', Lit ''settings'', Lit ''publishable-key''] None GSession (keys_mintPublishable_h (the_ih d)),
     route (Some ''GET'') [Lit ''v1'', Lit ''channels''] None GSession (channels_list_h (the_cnh d)),
     route (Some ''POST'') [Lit ''v1'', Lit ''channels''] None GSession (channels_connect_h (the_cnh d)),
     route (Some ''DELETE'') [Lit ''v1'', Lit ''channels'', Wild ''type''] None GSession (channels_disconnect_h (the_cnh d)),
     route (Some ''GET'') [Lit ''webhooks'', Lit ''meta''] None GOpen (meta_verify (the_cnh d)),
     route (Some ''POST'') [Lit ''webhooks'', Lit ''meta''] None GOpen (meta_receive (the_cnh d)),
     route (None) [Lit ''public'', Lit ''chat'', Lit ''messages''] (Some PublicLimit) GCors (public_chatSend (the_ph d)),
     route (None) [Lit ''public'', Lit ''chat'', Lit ''config''] None GCors (public_chatConfig (the_ph d)),
     route (Some ''GET'') [Lit ''widget.js''] None GCors (public_widget (the_ph d)),
     route (Some ''GET'') [Lit ''v1'', Lit ''settings'', Lit ''webhook''] None GSession (webhooks_getEndpoint_h (sd_webhooks d)),
     route (Some ''POST'') [Lit ''v1'', Lit ''settings'', Lit ''webhook''] None GSession (webhooks_setEndpoint_h (sd_webhooks d) (sd_http d)),
     route (Some ''POST'') [Lit ''v1'', Lit ''dev'', Lit ''test-call''] None GSession (calls_testCall (the_ch d)),
     route (Some ''POST'') [Lit ''v1'', Lit ''dev'', Lit ''place-call''] None GSession (calls_placeCall (the_ch d))]"

section \<open>Choosing a route\<close>

fun match_path :: "seg list \<Rightarrow> string list \<Rightarrow> (string \<times> string) list option" where
  "match_path [] [] = Some []"
| "match_path (Lit l # ps) (s # ss) = (if l = s then match_path ps ss else None)"
| "match_path (Wild x # ps) (s # ss) = (if s = [] then None else map_option (\<lambda>b. (x, s) # b) (match_path ps ss))"
| "match_path _ _ = None"

text \<open>A GET pattern serves HEAD requests too.\<close>

definition match_method :: "string option \<Rightarrow> string \<Rightarrow> bool" where
  "match_method pm m = (case pm of None \<Rightarrow> True | Some x \<Rightarrow> x = m \<or> x = ''GET'' \<and> m = ''HEAD'')"

definition matches :: "request \<Rightarrow> route \<Rightarrow> bool" where
  "matches r rt \<longleftrightarrow> match_method (rt_Method rt) (hr_Method r) \<and> match_path (rt_Pattern rt) (hr_Path r) \<noteq> None"

fun wildcards :: "seg list \<Rightarrow> nat" where
  "wildcards [] = 0"
| "wildcards (Lit _ # ps) = wildcards ps"
| "wildcards (Wild _ # ps) = Suc (wildcards ps)"

text \<open>The most specific match: the one with the fewest wildcards.\<close>

fun most_specific :: "route list \<Rightarrow> route option" where
  "most_specific [] = None"
| "most_specific (rt # rts) = (case most_specific rts of
     None \<Rightarrow> Some rt
   | Some x \<Rightarrow> Some (if wildcards (rt_Pattern rt) \<le> wildcards (rt_Pattern x) then rt else x))"

definition find_route :: "deps \<Rightarrow> request \<Rightarrow> route option" where
  "find_route d r = most_specific (filter (matches r) (server_routes d))"

definition not_found :: response where
  "not_found = \<lparr>rs_Status = 404, rs_Header = [(''Content-Type'', ''text/plain; charset=utf-8'')], rs_Cookies = [],
     rs_Body = TextBody (''404 page not found'' @ eol)\<rparr>"

definition method_not_allowed :: response where
  "method_not_allowed = \<lparr>rs_Status = 405, rs_Header = [(''Content-Type'', ''text/plain; charset=utf-8'')], rs_Cookies = [],
     rs_Body = TextBody (''Method Not Allowed'' @ eol)\<rparr>"

section \<open>Serving a request\<close>

record server =
  sv_world :: world
  sv_authLimit :: Limiter
  sv_publicLimit :: Limiter

definition server_New :: "world \<Rightarrow> server" where
  "server_New w = \<lparr>sv_world = w, sv_authLimit = ratelimit_New 10 5, sv_publicLimit = ratelimit_New 120 40\<rparr>"

definition guarded :: "deps \<Rightarrow> guard \<Rightarrow> handler \<Rightarrow> handler" where
  "guarded d g h = (case g of GOpen \<Rightarrow> h | GSession \<Rightarrow> requireAuth (the_ah d) h | GKey \<Rightarrow> requireAPIKey (the_kh d) h | GCors \<Rightarrow> cors h)"

definition with_world :: "server \<Rightarrow> ((go_error + response) \<times> world) \<Rightarrow> (go_error + response) \<times> server" where
  "with_world s q = (fst q, s\<lparr>sv_world := snd q\<rparr>)"

definition run_route :: "deps \<Rightarrow> route \<Rightarrow> request \<Rightarrow> server \<Rightarrow> (go_error + response) \<times> server" where
  "run_route d rt r s = (let h = guarded d (rt_Guard rt) (rt_Handler rt) in
     case rt_Limit rt of
       None \<Rightarrow> with_world s (h r (sv_world s))
     | Some AuthLimit \<Rightarrow> (case Middleware h r (sv_authLimit s) (sv_world s) of (q, l) \<Rightarrow> with_world (s\<lparr>sv_authLimit := l\<rparr>) q)
     | Some PublicLimit \<Rightarrow> (case Middleware h r (sv_publicLimit s) (sv_world s) of (q, l) \<Rightarrow> with_world (s\<lparr>sv_publicLimit := l\<rparr>) q))"

definition path_values :: "(string \<times> string) list \<Rightarrow> string \<Rightarrow> string" where
  "path_values b x = (case map_of b x of None \<Rightarrow> [] | Some v \<Rightarrow> v)"

definition serve :: "deps \<Rightarrow> request \<Rightarrow> server \<Rightarrow> (go_error + response) \<times> server" where
  "serve d r s = (case find_route d r of
       Some rt \<Rightarrow> run_route d rt (r\<lparr>hr_PathValue := path_values (the (match_path (rt_Pattern rt) (hr_Path r))),
           hr_user := None, hr_org := None, hr_orgObj := None\<rparr>) s
     | None \<Rightarrow> (Inr (if list_ex (\<lambda>rt. match_path (rt_Pattern rt) (hr_Path r) \<noteq> None) (server_routes d)
           then method_not_allowed else not_found), s))"

end
