(* ===== verification/Yaver_Remote.thy ===== *)
theory Yaver_Remote
  imports Yaver_Http Yaver_Billing Yaver_Analytics
begin

text \<open>
  The clients of remote services that have no other theory: SMS over Twilio
  (\<open>adapter/sms/twilio\<close>), e-mail over Resend (\<open>adapter/email/resend\<close>), speech to text
  over a Whisper-compatible API (\<open>adapter/stt/whisper\<close>), replies of a Claude model
  (\<open>adapter/chat/anthropic\<close>), jobs over Hatchet (\<open>adapter/orchestrator/hatchet\<close>), and the
  in-memory call repository. The exchange itself is a parameter: an HTTP client, the
  vendor's SDK.
\<close>

section \<open>HTTP exchanges\<close>

text \<open>
  A request and what \<open>Client.Do\<close> makes of it: an error, which also stands for a URL
  \<open>NewRequest\<close> refuses, or the status and the body that could be read.
\<close>

record http_req =
  hq_URL :: string
  hq_Header :: "(string \<times> string) list"
  hq_Body :: string

type_synonym http_do = "http_req \<Rightarrow> (int \<times> string) wop"

text \<open>\<open>url.Values.Encode\<close>: the fields in key order.\<close>

fun form_encode :: "(string \<times> string) list \<Rightarrow> string" where
  "form_encode [] = []"
| "form_encode [(k, v)] = query_escape k @ ''='' @ query_escape v"
| "form_encode ((k, v) # fs) = query_escape k @ ''='' @ query_escape v @ ''&'' @ form_encode fs"

section \<open>Twilio (adapter/sms/twilio)\<close>

record TwilioSender =
  tw_base :: string
  tw_sid :: string
  tw_token :: string
  tw_from :: string

definition twilio_New :: "string \<Rightarrow> string \<Rightarrow> string \<Rightarrow> TwilioSender" where
  "twilio_New sid token from_nr = \<lparr>tw_base = ''https://api.twilio.com'', tw_sid = sid, tw_token = token, tw_from = from_nr\<rparr>"

text \<open>\<open>basic\<close> is the value \<open>SetBasicAuth\<close> gives the header.\<close>

definition twilio_request :: "(string \<Rightarrow> string \<Rightarrow> string) \<Rightarrow> TwilioSender \<Rightarrow> string \<Rightarrow> string \<Rightarrow> http_req" where
  "twilio_request basic s to txt = \<lparr>hq_URL = tw_base s @ ''/2010-04-01/Accounts/'' @ tw_sid s @ ''/Messages.json'',
     hq_Header = [(''Content-Type'', ''application/x-www-form-urlencoded''), (''Authorization'', basic (tw_sid s) (tw_token s))],
     hq_Body = form_encode [(''Body'', txt), (''From'', tw_from s), (''To'', to)]\<rparr>"

definition twilio_Send :: "http_do \<Rightarrow> (string \<Rightarrow> string \<Rightarrow> string) \<Rightarrow> TwilioSender \<Rightarrow> string \<Rightarrow> string \<Rightarrow> unit wop" where
  "twilio_Send http basic s to txt = bnd (http (twilio_request basic s to txt)) (\<lambda>(status, answer).
     if status \<ge> 300 then fail (ErrOther (''twilio '' @ go_itoa status @ '': '' @ take 512 answer)) else ret ())"

definition twilio_sender :: "http_do \<Rightarrow> (string \<Rightarrow> string \<Rightarrow> string) \<Rightarrow> TwilioSender \<Rightarrow> SMSSender" where
  "twilio_sender http basic s = \<lparr>sms_Send = twilio_Send http basic s\<rparr>"

section \<open>Resend (adapter/email/resend)\<close>

record ResendSender =
  rd_apiKey :: string
  rd_from :: string

definition resend_body :: "ResendSender \<Rightarrow> string \<Rightarrow> string \<Rightarrow> string \<Rightarrow> string" where
  "resend_body s to subject body = ''{'' @ json_fields [(''from'', rd_from s), (''subject'', subject), (''text'', body)] @ '','' @
     json_string ''to'' @ '':['' @ json_string to @ '']}''"

definition resend_Send :: "http_do \<Rightarrow> ResendSender \<Rightarrow> string \<Rightarrow> string \<Rightarrow> string \<Rightarrow> unit wop" where
  "resend_Send http s to subject body =
     bnd (http \<lparr>hq_URL = ''https://api.resend.com/emails'',
            hq_Header = [(''Authorization'', ''Bearer '' @ rd_apiKey s), (''Content-Type'', ''application/json'')],
            hq_Body = resend_body s to subject body\<rparr>) (\<lambda>(status, answer).
     if status \<ge> 300 then fail (ErrOther (''resend: status '' @ go_itoa status @ '': '' @ trim_space (take 2048 answer))) else ret ())"

definition resend_sender :: "http_do \<Rightarrow> ResendSender \<Rightarrow> EmailSender" where
  "resend_sender http s = \<lparr>eml_Send = resend_Send http s\<rparr>"

section \<open>Whisper (adapter/stt/whisper)\<close>

record WhisperSTT =
  wi_url :: string
  wi_key :: string
  wi_model :: string

definition whisper_New :: "string \<Rightarrow> string \<Rightarrow> string \<Rightarrow> WhisperSTT" where
  "whisper_New baseURL apiKey model = \<lparr>wi_url = baseURL, wi_key = apiKey,
     wi_model = (if model = [] then ''whisper-1'' else model)\<rparr>"

definition crlf :: string where "crlf = [CHR 0x0D, CHR 0x0A]"

text \<open>A part of a \<open>mime/multipart\<close> body; the first one has no line break before it.\<close>

definition form_part :: "string \<Rightarrow> string \<Rightarrow> string \<Rightarrow> string" where
  "form_part boundary head content = ''--'' @ boundary @ crlf @ head @ crlf @ crlf @ content"

definition field_head :: "string \<Rightarrow> string" where
  "field_head name = ''Content-Disposition: form-data; name='' @ [CHR 0x22] @ name @ [CHR 0x22]"

definition whisper_body :: "WhisperSTT \<Rightarrow> string \<Rightarrow> string \<Rightarrow> string \<Rightarrow> string" where
  "whisper_body s boundary audio locale =
     form_part boundary (field_head ''file'' @ ''; filename='' @ [CHR 0x22] @ ''call.wav'' @ [CHR 0x22] @ crlf @
       ''Content-Type: application/octet-stream'') audio @
     crlf @ form_part boundary (field_head ''model'') (wi_model s) @
     (if locale = [] then [] else crlf @ form_part boundary (field_head ''language'') locale) @
     crlf @ ''--'' @ boundary @ ''--'' @ crlf"

definition whisper_Transcribe :: "http_do \<Rightarrow> (string \<Rightarrow> jval option) \<Rightarrow> WhisperSTT \<Rightarrow> string \<Rightarrow> string \<Rightarrow> string wop" where
  "whisper_Transcribe http json s audio locale =
     bnd (draw (rand_bytes 30)) (\<lambda>b. let boundary = hex_encode b in
     bnd (http \<lparr>hq_URL = wi_url s @ ''/audio/transcriptions'',
            hq_Header = (''Content-Type'', ''multipart/form-data; boundary='' @ boundary) #
              (if wi_key s \<noteq> [] then [(''Authorization'', ''Bearer '' @ wi_key s)] else []),
            hq_Body = whisper_body s boundary audio locale\<rparr>) (\<lambda>(status, answer).
     if status \<ge> 300 then fail (ErrOther (''whisper '' @ go_itoa status @ '': '' @ take 512 answer))
     else (case decode (json answer) (dec_string ''text'') of (err, txt) \<Rightarrow>
       if err then fail (ErrOther ''json: cannot unmarshal'') else ret txt)))"

definition whisper_STT :: "http_do \<Rightarrow> (string \<Rightarrow> jval option) \<Rightarrow> WhisperSTT \<Rightarrow> STT" where
  "whisper_STT http json s = \<lparr>stt_Transcribe = whisper_Transcribe http json s\<rparr>"

section \<open>Anthropic (adapter/chat/anthropic)\<close>

text \<open>
  \<open>Messages.New\<close> of the SDK: an error, or the blocks of the answer, the text of a text
  block or nothing for any other kind. A turn of the transcript is the user's or the assistant's.
\<close>

datatype turn = UserTurn string | AssistantTurn string

record claude_req =
  cq_Model :: string
  cq_MaxTokens :: int
  cq_System :: string
  cq_Messages :: "turn list"

type_synonym claude = "claude_req \<Rightarrow> string option list wop"

record AnthropicModel =
  an_key :: string
  an_model :: string

definition anthropic_New :: "string \<Rightarrow> string \<Rightarrow> AnthropicModel" where
  "anthropic_New apiKey model = \<lparr>an_key = apiKey, an_model = (if model = [] then ''claude-opus-4-8'' else model)\<rparr>"

definition maxReplyTokens :: int where "maxReplyTokens = 1024"

text \<open>The loop over the history, which splits it into the system prompt and the turns.\<close>

fun claude_turns :: "string \<Rightarrow> Message list \<Rightarrow> string \<times> turn list" where
  "claude_turns system [] = (system, [])"
| "claude_turns system (h # hs) =
     (if ms_Role h = ''assistant'' then (case claude_turns system hs of (sys, ts) \<Rightarrow> (sys, AssistantTurn (ms_Content h) # ts))
      else if ms_Role h = ''system'' then claude_turns (trim_space (system @ eol @ ms_Content h)) hs
      else (case claude_turns system hs of (sys, ts) \<Rightarrow> (sys, UserTurn (ms_Content h) # ts)))"

definition anthropic_Reply :: "(string \<Rightarrow> claude) \<Rightarrow> AnthropicModel \<Rightarrow> string \<Rightarrow> Message list \<Rightarrow> string wop" where
  "anthropic_Reply sdk m system history = (case claude_turns system history of (sys, msgs) \<Rightarrow>
     bnd (sdk (an_key m) \<lparr>cq_Model = an_model m, cq_MaxTokens = maxReplyTokens, cq_System = sys, cq_Messages = msgs\<rparr>) (\<lambda>blocks.
     ret (trim_space (concat (map (\<lambda>b. case b of None \<Rightarrow> [] | Some t \<Rightarrow> t) blocks)))))"

definition anthropic_model :: "(string \<Rightarrow> claude) \<Rightarrow> AnthropicModel \<Rightarrow> ChatModel" where
  "anthropic_model sdk m = \<lparr>cml_Reply = anthropic_Reply sdk m\<rparr>"

text \<open>
  Every turn that is neither the assistant's nor a system turn is the user's, what a human
  agent of the shop wrote included.
\<close>

lemma agent_turns_are_user_turns:
  "ms_Role h = ''agent'' \<Longrightarrow> snd (claude_turns system (h # hs)) = UserTurn (ms_Content h) # snd (claude_turns system hs)"
  by (simp split: prod.splits)

section \<open>Hatchet (adapter/orchestrator/hatchet)\<close>

text \<open>\<open>run\<close> is \<open>RunNoWait\<close> of the task; the task runs the handler and reports its success.\<close>

definition hatchet_EnqueuePlaceCall :: "(PlaceCallInput \<Rightarrow> unit wop) \<Rightarrow> PlaceCallInput \<Rightarrow> unit wop" where
  "hatchet_EnqueuePlaceCall run inp = run \<lparr>pc_OrgID = pc_OrgID inp, pc_ToPhone = pc_ToPhone inp, pc_FlowID = pc_FlowID inp\<rparr>"

definition hatchet_orchestrator :: "(PlaceCallInput \<Rightarrow> unit wop) \<Rightarrow> Orchestrator" where
  "hatchet_orchestrator run = \<lparr>orc_EnqueuePlaceCall = hatchet_EnqueuePlaceCall run\<rparr>"

section \<open>The in-memory call repository (adapter/memory)\<close>

definition mem_New :: "CallID \<rightharpoonup> Call" where
  "mem_New = Map.empty"

definition mem_Create :: "Call \<Rightarrow> (CallID \<rightharpoonup> Call) \<Rightarrow> (CallID \<rightharpoonup> Call)" where
  "mem_Create c m = m(ca_ID c \<mapsto> c)"

definition mem_Get :: "CallID \<Rightarrow> (CallID \<rightharpoonup> Call) \<Rightarrow> go_error + Call" where
  "mem_Get cid m = (case m cid of None \<Rightarrow> Inl ErrNotFound | Some c \<Rightarrow> Inr c)"

section \<open>What the other side reads\<close>

text \<open>
  Reading a URL-encoded form back: fields end at an ampersand, a name at the first equals
  sign, \<open>+\<close> is a space and \<open>%xy\<close> a byte.
\<close>

definition hex_value :: "char \<Rightarrow> nat" where
  "hex_value c = (let n = of_char c in if n < 58 then n - 48 else n - 55)"

fun unescape :: "string \<Rightarrow> string" where
  "unescape [] = []"
| "unescape (c # s) =
     (if c = CHR ''+'' then CHR '' '' # unescape s
      else if c = CHR ''%'' then (case s of a # b # s' \<Rightarrow> char_of (16 * hex_value a + hex_value b) # unescape s' | _ \<Rightarrow> [])
      else c # unescape s)"

fun split_at :: "char \<Rightarrow> string \<Rightarrow> string list" where
  "split_at x [] = [[]]"
| "split_at x (c # s) = (if c = x then [] # split_at x s
     else (case split_at x s of [] \<Rightarrow> [[c]] | f # fs \<Rightarrow> (c # f) # fs))"

definition form_decode :: "string \<Rightarrow> (string \<times> string) list" where
  "form_decode s = map (\<lambda>f. (unescape (takeWhile (\<lambda>c. c \<noteq> CHR ''='') f), unescape (tl (dropWhile (\<lambda>c. c \<noteq> CHR ''='') f))))
     (split_at (CHR ''&'') s)"

lemma hex_value_upper: "n < 16 \<Longrightarrow> hex_value (hex_upper n) = n"
  by (simp add: hex_value_def hex_upper_def Let_def)

lemma unreserved_hex: "n < 16 \<Longrightarrow> unreserved (hex_upper n)"
  by (simp add: unreserved_def hex_upper_def Let_def)

lemma nibbles: "(of_char c :: nat) div 16 < 16" "(of_char c :: nat) mod 16 < 16"
  by (simp_all add: less_mult_imp_div_less)

lemma unreserved_plain: "unreserved c \<Longrightarrow> c \<noteq> CHR ''+'' \<and> c \<noteq> CHR ''%'' \<and> c \<noteq> CHR ''&'' \<and> c \<noteq> CHR ''=''"
  by (auto simp: unreserved_def Let_def)

lemma unescape_escape: "unescape (query_escape s @ r) = s @ unescape r"
proof (induction s)
  case (Cons c s)
  have "char_of (16 * (of_char c div 16) + of_char c mod 16 :: nat) = c" by simp
  then have "unescape ([CHR ''%'', hex_upper (of_char c div 16), hex_upper (of_char c mod 16)] @ t) = c # unescape t" for t
    by (simp add: hex_value_upper nibbles)
  with Cons show ?case by (auto simp: query_escape_def Let_def dest: unreserved_plain)
qed (simp add: query_escape_def)

lemma query_escape_chars:
  assumes "c \<in> set (query_escape s)"
  shows "c \<noteq> CHR ''&'' \<and> c \<noteq> CHR ''=''"
  using assms unreserved_plain [OF unreserved_hex [OF nibbles(1)]] unreserved_plain [OF unreserved_hex [OF nibbles(2)]]
  by (auto simp: query_escape_def Let_def dest: unreserved_plain split: if_splits)

lemma split_at_field: "x \<notin> set f \<Longrightarrow> split_at x f = [f]"
  "x \<notin> set f \<Longrightarrow> split_at x (f @ x # s) = f # split_at x s"
  by (induction f) auto

definition form_field :: "string \<times> string \<Rightarrow> string" where
  "form_field = (\<lambda>(k, v). query_escape k @ ''='' @ query_escape v)"

lemma form_field_decode:
  "CHR ''&'' \<notin> set (form_field f)"
  "(unescape (takeWhile (\<lambda>c. c \<noteq> CHR ''='') (form_field f)), unescape (tl (dropWhile (\<lambda>c. c \<noteq> CHR ''='') (form_field f)))) = f"
proof -
  have *: "takeWhile (\<lambda>c. c \<noteq> CHR ''='') (query_escape k @ CHR ''='' # r) = query_escape k"
    "dropWhile (\<lambda>c. c \<noteq> CHR ''='') (query_escape k @ CHR ''='' # r) = CHR ''='' # r" for k r
    using query_escape_chars by (auto simp: takeWhile_append2 dropWhile_append2)
  show "CHR ''&'' \<notin> set (form_field f)" using query_escape_chars by (fastforce simp: form_field_def split: prod.splits)
  show "(unescape (takeWhile (\<lambda>c. c \<noteq> CHR ''='') (form_field f)), unescape (tl (dropWhile (\<lambda>c. c \<noteq> CHR ''='') (form_field f)))) = f"
    using unescape_escape [of _ "[]"] by (simp add: form_field_def * split: prod.splits)
qed

lemma form_encode_fields:
  "form_encode [f] = form_field f"
  "form_encode (f # g # fs) = form_field f @ CHR ''&'' # form_encode (g # fs)"
  by (cases f, simp add: form_field_def) (cases f, cases g, simp add: form_field_def)

lemma form_decode_encode: "fs \<noteq> [] \<Longrightarrow> form_decode (form_encode fs) = fs"
proof (induction fs rule: induct_list012)
  case (2 f)
  show ?case by (simp only: form_decode_def form_encode_fields split_at_field(1) [OF form_field_decode(1)] list.map form_field_decode(2))
next
  case (3 f g fs)
  then show ?case
    by (simp only: form_decode_def form_encode_fields split_at_field(2) [OF form_field_decode(1)] list.map form_field_decode(2)) simp
qed simp


end
