(* ===== verification/Yaver_Main.thy ===== *)
theory Yaver_Main
  imports Yaver_Server Yaver_Remote
begin

text \<open>
  Start-up: the configuration read from the environment (\<open>platform/config\<close>), the choice of
  adapters and the wiring of the services (\<open>cmd/yaver/main.go\<close>), and the two timers the
  process runs beside the server. Telemetry and the pool of database connections are calls
  into third-party packages.
\<close>

section \<open>Configuration (platform/config)\<close>

record Config =
  cf_Env :: string
  cf_Port :: string
  cf_DatabaseURL :: string
  cf_AuthSecret :: string
  cf_Orchestrator :: string
  cf_EncryptionKey :: string
  cf_VoiceProvider :: string
  cf_LiveKitURL :: string
  cf_LiveKitKey :: string
  cf_LiveKitSecret :: string
  cf_LiveKitTrunkID :: string
  cf_STTProvider :: string
  cf_WhisperURL :: string
  cf_WhisperKey :: string
  cf_WhisperModel :: string
  cf_CallRetentionDays :: int
  cf_ChatProvider :: string
  cf_AnthropicKey :: string
  cf_AnthropicModel :: string
  cf_SMSSender :: string
  cf_TwilioSID :: string
  cf_TwilioToken :: string
  cf_TwilioFrom :: string
  cf_MsgSender :: string
  cf_EmailSender :: string
  cf_EmailFrom :: string
  cf_ResendAPIKey :: string
  cf_PaymentGateway :: string
  cf_AppURL :: string
  cf_WebURL :: string
  cf_SSLCzStoreID :: string
  cf_SSLCzStorePass :: string
  cf_SSLCzSandbox :: bool

text \<open>\<open>strconv.Atoi\<close>: an optional sign and digits, of 64 bits.\<close>

definition go_Atoi :: "string \<Rightarrow> int option" where
  "go_Atoi s = (if s \<noteq> [] \<and> hd s = CHR ''+'' \<and> (tl s = [] \<or> hd (tl s) \<noteq> CHR ''-'') then parse_int64 (tl s) else parse_int64 s)"

definition config_atoi :: "string \<Rightarrow> int" where
  "config_atoi s = (case go_Atoi s of None \<Rightarrow> 0 | Some n \<Rightarrow> if n < 0 then 0 else n)"

text \<open>The variables \<open>req\<close> asks for, in the order of the struct literal.\<close>

definition required_vars :: "string list" where
  "required_vars = [''YAVER_ENV'', ''YAVER_PORT'', ''YAVER_DATABASE_URL'', ''YAVER_AUTH_SECRET'', ''YAVER_ORCHESTRATOR'',
     ''YAVER_ENCRYPTION_KEY'', ''YAVER_VOICE_PROVIDER'', ''YAVER_SMS_SENDER'', ''YAVER_STT_PROVIDER'', ''YAVER_CHAT_PROVIDER'',
     ''YAVER_MSG_SENDER'', ''YAVER_EMAIL_SENDER'', ''YAVER_EMAIL_FROM'', ''YAVER_PAYMENT_GATEWAY'', ''YAVER_APP_URL'', ''YAVER_WEB_URL'']"

definition config_of :: "(string \<Rightarrow> string) \<Rightarrow> Config" where
  "config_of env = \<lparr>cf_Env = env ''YAVER_ENV'', cf_Port = env ''YAVER_PORT'', cf_DatabaseURL = env ''YAVER_DATABASE_URL'',
     cf_AuthSecret = env ''YAVER_AUTH_SECRET'', cf_Orchestrator = env ''YAVER_ORCHESTRATOR'',
     cf_EncryptionKey = env ''YAVER_ENCRYPTION_KEY'', cf_VoiceProvider = env ''YAVER_VOICE_PROVIDER'',
     cf_LiveKitURL = env ''YAVER_LIVEKIT_URL'', cf_LiveKitKey = env ''YAVER_LIVEKIT_API_KEY'',
     cf_LiveKitSecret = env ''YAVER_LIVEKIT_API_SECRET'', cf_LiveKitTrunkID = env ''YAVER_LIVEKIT_SIP_TRUNK_ID'',
     cf_STTProvider = env ''YAVER_STT_PROVIDER'', cf_WhisperURL = env ''YAVER_WHISPER_URL'', cf_WhisperKey = env ''YAVER_WHISPER_API_KEY'',
     cf_WhisperModel = env ''YAVER_WHISPER_MODEL'', cf_CallRetentionDays = config_atoi (env ''YAVER_CALL_RETENTION_DAYS''),
     cf_ChatProvider = env ''YAVER_CHAT_PROVIDER'', cf_AnthropicKey = env ''YAVER_ANTHROPIC_API_KEY'',
     cf_AnthropicModel = env ''YAVER_ANTHROPIC_MODEL'', cf_SMSSender = env ''YAVER_SMS_SENDER'',
     cf_TwilioSID = env ''YAVER_TWILIO_ACCOUNT_SID'', cf_TwilioToken = env ''YAVER_TWILIO_AUTH_TOKEN'',
     cf_TwilioFrom = env ''YAVER_TWILIO_FROM'', cf_MsgSender = env ''YAVER_MSG_SENDER'', cf_EmailSender = env ''YAVER_EMAIL_SENDER'',
     cf_EmailFrom = env ''YAVER_EMAIL_FROM'', cf_ResendAPIKey = env ''YAVER_RESEND_API_KEY'',
     cf_PaymentGateway = env ''YAVER_PAYMENT_GATEWAY'', cf_AppURL = env ''YAVER_APP_URL'', cf_WebURL = env ''YAVER_WEB_URL'',
     cf_SSLCzStoreID = env ''YAVER_SSLCOMMERZ_STORE_ID'', cf_SSLCzStorePass = env ''YAVER_SSLCOMMERZ_STORE_PASSWD'',
     cf_SSLCzSandbox = (env ''YAVER_SSLCOMMERZ_SANDBOX'' = ''true'')\<rparr>"

text \<open>An error of start-up is what the process logs before it exits with status 1.\<close>

datatype boot_error =
    MissingVars "string list"
  | RequiredWhen string
  | BadDatabaseURL
  | BadEncryptionKey
  | Unsupported string string
  | HatchetClient

definition config_Load :: "(string \<Rightarrow> string) \<Rightarrow> boot_error + Config" where
  "config_Load env = (let missing = filter (\<lambda>k. env k = []) required_vars; c = config_of env in
     if missing \<noteq> [] then Inl (MissingVars missing)
     else if cf_EmailSender c = ''resend'' \<and> cf_ResendAPIKey c = [] then Inl (RequiredWhen ''YAVER_EMAIL_SENDER=resend'')
     else if cf_ChatProvider c = ''anthropic'' \<and> cf_AnthropicKey c = [] then Inl (RequiredWhen ''YAVER_CHAT_PROVIDER=anthropic'')
     else if cf_SMSSender c = ''twilio'' \<and> (cf_TwilioSID c = [] \<or> cf_TwilioToken c = [] \<or> cf_TwilioFrom c = [])
       then Inl (RequiredWhen ''YAVER_SMS_SENDER=twilio'')
     else if cf_STTProvider c = ''whisper'' \<and> cf_WhisperURL c = [] then Inl (RequiredWhen ''YAVER_STT_PROVIDER=whisper'')
     else if cf_VoiceProvider c = ''livekit'' \<and> (cf_LiveKitURL c = [] \<or> cf_LiveKitKey c = [] \<or> cf_LiveKitSecret c = [] \<or> cf_LiveKitTrunkID c = [])
       then Inl (RequiredWhen ''YAVER_VOICE_PROVIDER=livekit'')
     else if cf_PaymentGateway c = ''sslcommerz'' \<and> (cf_SSLCzStoreID c = [] \<or> cf_SSLCzStorePass c = [])
       then Inl (RequiredWhen ''YAVER_PAYMENT_GATEWAY=sslcommerz'')
     else Inr c)"

section \<open>Adapters\<close>

text \<open>
  What is outside the program: library functions, among them AES-GCM under a key, the vendors' SDKs and
  HTTP. \<open>rm_hatchet\<close> is the client of Hatchet, when it can be built.
\<close>

record remote =
  rm_libs :: "string \<Rightarrow> libs"
  rm_http :: httplibs
  rm_lower :: "string \<Rightarrow> string"
  rm_sql_lower :: "string \<Rightarrow> string"
  rm_base64 :: "string \<Rightarrow> string option"
  rm_db_url :: "string \<Rightarrow> bool"
  rm_do :: http_do
  rm_get :: http_get
  rm_basic :: "string \<Rightarrow> string \<Rightarrow> string"
  rm_sip :: "string \<Rightarrow> string \<Rightarrow> string \<Rightarrow> string \<Rightarrow> string \<Rightarrow> string \<Rightarrow> (string \<times> string) wop"
  rm_ssl :: SslApi
  rm_hatchet :: "(PlaceCallInput \<Rightarrow> unit wop) option"
  rm_claude :: "string \<Rightarrow> claude"
  rm_graph :: "string \<Rightarrow> string \<Rightarrow> (int \<times> string \<times> string) wop"
  rm_merchant :: "effect \<Rightarrow> world \<Rightarrow> string + int"
  rm_url_ok :: "string \<Rightarrow> bool"
  rm_openapi :: string
  rm_widget :: string

text \<open>\<open>crypto.New\<close>: a 32-byte key always makes an AES-GCM cipher.\<close>

definition crypto_New :: "remote \<Rightarrow> string \<Rightarrow> boot_error + libs" where
  "crypto_New A key64 = (case rm_base64 A key64 of
       None \<Rightarrow> Inl BadEncryptionKey
     | Some key \<Rightarrow> if length key \<noteq> 32 then Inl BadEncryptionKey else Inr (rm_libs A key))"

record ports =
  po_sms :: SMSSender
  po_email :: EmailSender
  po_voice :: VoiceProvider
  po_stt :: STT
  po_gateway :: PaymentGateway
  po_orch :: Orchestrator
  po_chat :: ChatModel
  po_msg :: MessagingSender

definition choose_sms :: "remote \<Rightarrow> Config \<Rightarrow> boot_error + SMSSender" where
  "choose_sms A c = (if cf_SMSSender c = ''log'' then Inr sms_logsender
     else if cf_SMSSender c = ''twilio''
     then Inr (twilio_sender (rm_do A) (rm_basic A) (twilio_New (cf_TwilioSID c) (cf_TwilioToken c) (cf_TwilioFrom c)))
     else Inl (Unsupported ''YAVER_SMS_SENDER'' (cf_SMSSender c)))"

definition choose_email :: "remote \<Rightarrow> Config \<Rightarrow> boot_error + EmailSender" where
  "choose_email A c = (if cf_EmailSender c = ''log'' then Inr email_logsender
     else if cf_EmailSender c = ''resend'' then Inr (resend_sender (rm_do A) \<lparr>rd_apiKey = cf_ResendAPIKey c, rd_from = cf_EmailFrom c\<rparr>)
     else Inl (Unsupported ''YAVER_EMAIL_SENDER'' (cf_EmailSender c)))"

definition choose_voice :: "remote \<Rightarrow> Config \<Rightarrow> boot_error + VoiceProvider" where
  "choose_voice A c = (if cf_VoiceProvider c = ''mock'' then Inr mock_provider
     else if cf_VoiceProvider c = ''livekit''
     then Inr \<lparr>vp_PlaceCall = livekit_PlaceCall (rm_sip A (cf_LiveKitURL c) (cf_LiveKitKey c) (cf_LiveKitSecret c)) (cf_LiveKitTrunkID c)\<rparr>
     else Inl (Unsupported ''YAVER_VOICE_PROVIDER'' (cf_VoiceProvider c)))"

definition choose_stt :: "remote \<Rightarrow> Config \<Rightarrow> boot_error + STT" where
  "choose_stt A c = (if cf_STTProvider c = ''noop'' then Inr noop_STT
     else if cf_STTProvider c = ''whisper''
     then Inr (whisper_STT (rm_do A) (hl_first (rm_http A)) (whisper_New (cf_WhisperURL c) (cf_WhisperKey c) (cf_WhisperModel c)))
     else Inl (Unsupported ''YAVER_STT_PROVIDER'' (cf_STTProvider c)))"

definition choose_gateway :: "remote \<Rightarrow> Config \<Rightarrow> boot_error + PaymentGateway" where
  "choose_gateway A c = (if cf_PaymentGateway c = ''mock'' then Inr (mock_gateway (cf_AppURL c))
     else if cf_PaymentGateway c = ''sslcommerz''
     then Inr (ssl_gateway (ssl_New (rm_ssl A) (cf_SSLCzStoreID c) (cf_SSLCzStorePass c) (cf_AppURL c) (cf_SSLCzSandbox c)))
     else Inl (Unsupported ''YAVER_PAYMENT_GATEWAY'' (cf_PaymentGateway c)))"

text \<open>Any value but \<open>hatchet\<close> selects the in-process dispatcher.\<close>

definition choose_orch :: "remote \<Rightarrow> Config \<Rightarrow> boot_error + Orchestrator" where
  "choose_orch A c = (if cf_Orchestrator c = ''hatchet''
     then (case rm_hatchet A of None \<Rightarrow> Inl HatchetClient | Some run \<Rightarrow> Inr (hatchet_orchestrator run))
     else Inr local_orchestrator)"

definition choose_chat :: "remote \<Rightarrow> Config \<Rightarrow> boot_error + ChatModel" where
  "choose_chat A c = (if cf_ChatProvider c = ''builtin'' then Inr (builtin_model (rm_lower A))
     else if cf_ChatProvider c = ''anthropic'' then Inr (anthropic_model (rm_claude A) (anthropic_New (cf_AnthropicKey c) (cf_AnthropicModel c)))
     else Inl (Unsupported ''YAVER_CHAT_PROVIDER'' (cf_ChatProvider c)))"

definition choose_msg :: "remote \<Rightarrow> Config \<Rightarrow> boot_error + MessagingSender" where
  "choose_msg A c = (if cf_MsgSender c = ''log'' then Inr messaging_logsender
     else if cf_MsgSender c = ''meta'' then Inr \<lparr>msd_Send = meta_Send (rm_graph A)\<rparr>
     else Inl (Unsupported ''YAVER_MSG_SENDER'' (cf_MsgSender c)))"

section \<open>Wiring (cmd/yaver/main.go)\<close>

abbreviation or_exit :: "'e + 'a \<Rightarrow> ('a \<Rightarrow> 'e + 'b) \<Rightarrow> 'e + 'b" where
  "or_exit x k \<equiv> (case x of Inl e \<Rightarrow> Inl e | Inr v \<Rightarrow> k v)"

definition choose_ports :: "remote \<Rightarrow> Config \<Rightarrow> boot_error + ports" where
  "choose_ports A c =
     or_exit (choose_sms A c) (\<lambda>sms. or_exit (choose_email A c) (\<lambda>email. or_exit (choose_voice A c) (\<lambda>voice.
     or_exit (choose_stt A c) (\<lambda>stt. or_exit (choose_gateway A c) (\<lambda>gw. or_exit (choose_orch A c) (\<lambda>orch.
     or_exit (choose_chat A c) (\<lambda>chat. or_exit (choose_msg A c) (\<lambda>msg.
     Inr \<lparr>po_sms = sms, po_email = email, po_voice = voice, po_stt = stt, po_gateway = gw, po_orch = orch, po_chat = chat, po_msg = msg\<rparr>))))))))"

definition main_chat :: "remote \<Rightarrow> ports \<Rightarrow> ChatService" where
  "main_chat A p = chat_service (po_chat p) (builtin_summarizer (rm_lower A)) (Some feed_publisher)"

definition main_calls :: "libs \<Rightarrow> ports \<Rightarrow> CallsService" where
  "main_calls L p = calls_service L (po_voice p) (notify_service (po_email p) (pg_orgs L)) (Some feed_publisher)"

definition main_deps :: "remote \<Rightarrow> Config \<Rightarrow> libs \<Rightarrow> ports \<Rightarrow> deps" where
  "main_deps A c L p = \<lparr>sd_env = cf_Env c, sd_libs = L, sd_http = rm_http A,
     sd_auth = auth_service L (rm_sql_lower A) (rm_lower A) (cf_AuthSecret c) (cf_Env c) (po_sms p), sd_orgs = pg_orgs L,
     sd_calls = main_calls L p, sd_flows = pg_flows L, sd_customers = pg_customers,
     sd_campaigns = campaigns_service L (po_orch p), sd_chat = main_chat A p,
     sd_msg = messaging_service L (main_chat A p) (po_msg p), sd_billing = billing_service (po_gateway p),
     sd_analytics = analytics_service,
     sd_reports = \<lparr>rs_analytics = analytics_service, rs_reporter = builtin_Reporter (rm_lower A)\<rparr>,
     sd_keys = pg_apikeys, sd_ingest = ingest_service L (po_orch p),
     sd_webhooks = webhooks_service L (rm_merchant A) (rm_url_ok A), sd_orch = po_orch p, sd_onboarding = po_chat p,
     sd_transcribe = \<lparr>ts_stt = po_stt p, ts_calls = pg_calls, ts_http = rm_get A\<rparr>,
     sd_webURL = cf_WebURL c, sd_openapi = rm_openapi A, sd_widget = rm_widget A\<rparr>"

definition main_boot :: "(string \<Rightarrow> string) \<Rightarrow> remote \<Rightarrow> boot_error + Config \<times> deps" where
  "main_boot env A =
     or_exit (config_Load env) (\<lambda>c.
     if \<not> rm_db_url A (cf_DatabaseURL c) then Inl BadDatabaseURL
     else or_exit (crypto_New A (cf_EncryptionKey c)) (\<lambda>L. or_exit (choose_ports A c) (\<lambda>p. Inr (c, main_deps A c L p))))"

text \<open>The timers: pruning old calls, when a window is configured, and starting due campaigns. Days are those of UTC.\<close>

definition retention_tick :: "Config \<Rightarrow> unit wop" where
  "retention_tick c = (if cf_CallRetentionDays c > 0
     then bnd (gets w_now) (\<lambda>now. ignore (pg_call_DeleteBefore (now - cf_CallRetentionDays c * 86400 * second)))
     else ret ())"

definition scheduler_tick :: "deps \<Rightarrow> unit wop" where
  "scheduler_tick d = ignore (campaigns_RunDue (sd_campaigns d))"

end
