(* ===== verification/Yaver_Tenancy.thy ===== *)
theory Yaver_Tenancy
  imports Yaver_Main
begin

text \<open>
  What a signed-in request may do to the database, for the whole dashboard API at once. The
  locale \<open>session_frame\<close> takes a relation on databases that the writes of the repositories
  satisfy for one organisation and shows that every handler behind the session middleware
  satisfies it, in any deployment that is not a development one. It is interpreted with two
  relations: the rows of the other organisations stay (\<open>Yaver_Isolation\<close>), and no credits appear (\<open>Yaver_Books\<close>).
\<close>

section \<open>Adapters that keep to themselves\<close>

text \<open>The remote services answer over the network; none of them reaches the database.\<close>

abbreviation no_db :: "'a wop \<Rightarrow> bool" where
  "no_db m \<equiv> mrel (dbrel (\<lambda>d d'. d' = d)) m"

locale detached_ports =
  fixes A :: remote and p :: ports
  assumes voice_db: "no_db (vp_PlaceCall (po_voice p) req)"
    and chat_db: "no_db (cml_Reply (po_chat p) prompt history)"
    and gateway_db: "no_db (gw_Checkout (po_gateway p) preq)"
    and verify_db: "no_db (gw_VerifyIPN (po_gateway p) form)"
    and orch_db: "no_db (orc_EnqueuePlaceCall (po_orch p) inp)"
    and sender_db: "no_db (msd_Send (po_msg p) om)"
    and stt_db: "no_db (stt_Transcribe (po_stt p) audio locale)"
    and email_db: "no_db (eml_Send (po_email p) to subject body)"
    and sms_db: "no_db (sms_Send (po_sms p) to body)"
    and get_db: "no_db (rm_get A url)"

sublocale detached_ports \<subseteq> asst: assistant "po_chat p" "builtin_summarizer (rm_lower A)" "Some feed_publisher"
  by unfold_locales
     (auto simp: chat_db builtin_summarizer_def chat_publish_def chat_service_def feed_publisher_def intro!: mrel_intros)

text \<open>The remote parties of a deployment, one by one.\<close>

definition remote_detached :: "remote \<Rightarrow> bool" where
  "remote_detached A \<longleftrightarrow> (\<forall>q. no_db (rm_do A q)) \<and> (\<forall>u. no_db (rm_get A u)) \<and>
     (\<forall>u k s t n r. no_db (rm_sip A u k s t n r)) \<and> (\<forall>u f. no_db (sl_Session (rm_ssl A) u f)) \<and>
     (\<forall>u f. no_db (sl_Validate (rm_ssl A) u f)) \<and> (\<forall>run i. rm_hatchet A = Some run \<longrightarrow> no_db (run i)) \<and>
     (\<forall>k q. no_db (rm_claude A k q)) \<and> (\<forall>u b. no_db (rm_graph A u b))"

lemma no_db_rand [mrel_intros]: "no_db (draw (rand_bytes n))"
  by (rule mrel_draw) (simp add: dbrel_def rand_bytes_def)

lemmas pick_defs = choose_sms_def choose_email_def choose_voice_def choose_stt_def choose_gateway_def choose_orch_def choose_chat_def choose_msg_def

lemma chosen_detached:
  assumes "remote_detached A"
  shows "choose_voice A c = Inr v \<Longrightarrow> no_db (vp_PlaceCall v req)"
    and "choose_chat A c = Inr m \<Longrightarrow> no_db (cml_Reply m s h)"
    and "choose_gateway A c = Inr g \<Longrightarrow> no_db (gw_Checkout g preq)"
    and "choose_gateway A c = Inr g \<Longrightarrow> no_db (gw_VerifyIPN g form)"
    and "choose_orch A c = Inr o' \<Longrightarrow> no_db (orc_EnqueuePlaceCall o' inp)"
    and "choose_msg A c = Inr x \<Longrightarrow> no_db (msd_Send x om)"
    and "choose_stt A c = Inr y \<Longrightarrow> no_db (stt_Transcribe y audio locale)"
    and "choose_email A c = Inr z \<Longrightarrow> no_db (eml_Send z to subject body)"
    and "choose_sms A c = Inr u \<Longrightarrow> no_db (sms_Send u to body)"
  using assms unfolding remote_detached_def pick_defs
  by (auto simp: mock_provider_def mock_PlaceCall_def livekit_PlaceCall_def builtin_model_def anthropic_model_def anthropic_Reply_def
    mock_gateway_def mock_Checkout_def ssl_gateway_def ssl_Checkout_def ssl_New_def mock_VerifyIPN_def ssl_VerifyIPN_def
    hatchet_orchestrator_def hatchet_EnqueuePlaceCall_def local_orchestrator_def local_EnqueuePlaceCall_def
    messaging_logsender_def meta_Send_def noop_STT_def whisper_STT_def whisper_Transcribe_def email_logsender_def resend_sender_def
    resend_Send_def sms_logsender_def twilio_sender_def twilio_Send_def dbrel_def Let_def split: if_splits option.splits prod.splits intro!: mrel_intros mrel_perform)

lemma chosen_ports_detached:
  assumes "choose_ports A c = Inr p" and "remote_detached A"
  shows "detached_ports A p"
proof -
  note no = chosen_detached [OF assms(2), of c]
  from assms(1) have "choose_sms A c = Inr (po_sms p)" "choose_email A c = Inr (po_email p)" "choose_voice A c = Inr (po_voice p)"
    "choose_stt A c = Inr (po_stt p)" "choose_gateway A c = Inr (po_gateway p)"
    "choose_orch A c = Inr (po_orch p)" "choose_chat A c = Inr (po_chat p)" "choose_msg A c = Inr (po_msg p)"
    by (auto simp: choose_ports_def split: sum.splits)
  with no assms(2) show ?thesis by unfold_locales (simp_all add: remote_detached_def)
qed

section \<open>Chat over the tables\<close>

text \<open>A relation every write to the chat tables satisfies holds of every chat operation.\<close>

locale chat_writes = detached_ports +
  fixes R :: "database \<Rightarrow> database \<Rightarrow> bool"
  assumes preorder [simp, intro]: "preorder_rel R"
    and conv_new [mrel_intros]: "mrel (dbrel R) (new_conversation cid org channel user)"
    and conv_status [mrel_intros]: "mrel (dbrel R) (gen_SetConversationStatus cid status)"
    and conv_touch [mrel_intros]: "mrel (dbrel R) (gen_TouchConversation cid)"
    and message_new [mrel_intros]: "mrel (dbrel R) (gen_InsertMessage mid cid role content)"
    and insight_upsert [mrel_intros]: "mrel (dbrel R) (gen_UpsertInsight cid org b1 b2 b3 b4)"
    and settings_upsert [mrel_intros]: "mrel (dbrel R) (gen_UpsertChatSettings org b1 b2 b3 b4)"
begin

lemma R_refl [simp, intro]: "R d d"
  using preorder by (rule preorder_rel_refl)

lemma free_of_db: "no_db n \<Longrightarrow> mrel (dbrel R) n"
  by (erule mrel_mono) (simp add: dbrel_def)

lemma publish_R: "mrel (dbrel R) (perform (chat_publish (main_chat A p) e))"
  by (rule mrel_perform) (simp add: dbrel_def main_chat_def asst.feed_db)

lemmas chat_defs = main_chat_def asst.svc_simps asst.repo_defs pg_CreateConversation_def gen_CreateConversation_def
  pg_FindOrCreate_def gen_FindOpenChannelConversation_def gen_CreateChannelConversation_def pg_settings_Upsert_def
  pg_ListConversations_def gen_ListConversationsByOrg_def chat_owns_def Let_def

lemma reply_R [mrel_intros]: "mrel (dbrel R) (chat_reply (main_chat A p) org cid txt)"
  unfolding chat_reply_def chat_defs
  by (intro mrel_intros publish_R [unfolded main_chat_def] free_of_db [OF chat_db]) auto

lemma chat_ops_R:
  "mrel (dbrel R) (chat_Send (main_chat A p) org cid msg)"
  "mrel (dbrel R) (chat_SendChannel (main_chat A p) org channel user msg)"
  "mrel (dbrel R) (chat_SetStatus (main_chat A p) org cid status)"
  "mrel (dbrel R) (chat_AgentReply (main_chat A p) org cid msg)"
  "mrel (dbrel R) (chat_Summarize (main_chat A p) org cid)"
  "mrel (dbrel R) (chat_SaveSettings (main_chat A p) org cs)"
proof -
  note reply = reply_R [unfolded main_chat_def]
  show "mrel (dbrel R) (chat_Send (main_chat A p) org cid msg)"
    unfolding chat_Send_def chat_defs by (intro mrel_intros reply) auto
  show "mrel (dbrel R) (chat_SendChannel (main_chat A p) org channel user msg)"
    unfolding chat_SendChannel_def chat_defs by (intro mrel_intros reply) auto
  show "mrel (dbrel R) (chat_SetStatus (main_chat A p) org cid status)"
    unfolding chat_SetStatus_def chat_defs by (intro mrel_intros) auto
  show "mrel (dbrel R) (chat_AgentReply (main_chat A p) org cid msg)"
    unfolding chat_AgentReply_def chat_defs by (intro mrel_intros) auto
  show "mrel (dbrel R) (chat_Summarize (main_chat A p) org cid)"
    unfolding chat_Summarize_def chat_defs by (intro mrel_intros free_of_db [OF asst.summary_db]) auto
  show "mrel (dbrel R) (chat_SaveSettings (main_chat A p) org cs)"
    unfolding chat_SaveSettings_def chat_defs by (intro mrel_intros)
qed

end

section \<open>The dashboard over the repositories\<close>

lemma mrel_svc [mrel_intros]:
  "preorder_rel R \<Longrightarrow> mrel R m \<Longrightarrow> (\<And>q. mrel R (k q)) \<Longrightarrow> mrel R (svc m k)"
  unfolding svc_def by (intro mrel_intros) auto

lemma mrel_respond [mrel_intros]:
  "preorder_rel R \<Longrightarrow> mrel R (respond code v)" "preorder_rel R \<Longrightarrow> mrel R (respond_err code msg)"
  by (simp_all add: respond_def respond_err_def mrel_ret)

text \<open>The handlers of the wired program.\<close>

lemma main_handlers [simp]:
  "clh_svc (the_ch (main_deps A c L p)) = main_calls L p" "clh_orch (the_ch (main_deps A c L p)) = po_orch p"
  "clh_transcribe (the_ch (main_deps A c L p)) = \<lparr>ts_stt = po_stt p, ts_calls = pg_calls, ts_http = rm_get A\<rparr>"
  "clh_libs (the_ch (main_deps A c L p)) = L"
  "flh_repo (the_fh (main_deps A c L p)) = pg_flows L" "flh_libs (the_fh (main_deps A c L p)) = L"
  "cmh_svc (the_cah (main_deps A c L p)) = campaigns_service L (po_orch p)"
  "cth_svc (the_chh (main_deps A c L p)) = main_chat A p"
  "cth_msg (the_chh (main_deps A c L p)) = messaging_service L (main_chat A p) (po_msg p)"
  "cnh_svc (the_cnh (main_deps A c L p)) = messaging_service L (main_chat A p) (po_msg p)"
  "bh_svc (the_bh (main_deps A c L p)) = billing_service (po_gateway p)" "bh_dev (the_bh (main_deps A c L p)) = (cf_Env c = ''dev'')"
  "ah_orgs (the_ah (main_deps A c L p)) = pg_orgs L"
  "ah_svc (the_ah (main_deps A c L p)) = auth_service L (rm_sql_lower A) (rm_lower A) (cf_AuthSecret c) (cf_Env c) (po_sms p)"
  "kh_repo (ih_keys (the_ih (main_deps A c L p))) = pg_apikeys" "kh_libs (ih_keys (the_ih (main_deps A c L p))) = L"
  "ih_ingest (the_ih (main_deps A c L p)) = ingest_service L (po_orch p)"
  "kh_repo (the_kh (main_deps A c L p)) = pg_apikeys" "kh_libs (the_kh (main_deps A c L p)) = L"
  "puh_keys (the_ph (main_deps A c L p)) = the_kh (main_deps A c L p)" "puh_chat (the_ph (main_deps A c L p)) = main_chat A p"
  "sd_customers (main_deps A c L p) = pg_customers" "sd_analytics (main_deps A c L p) = analytics_service"
  "sd_reports (main_deps A c L p) = \<lparr>rs_analytics = analytics_service, rs_reporter = builtin_Reporter (rm_lower A)\<rparr>"
  "sd_onboarding (main_deps A c L p) = po_chat p" "sd_webhooks (main_deps A c L p) = webhooks_service L (rm_merchant A) (rm_url_ok A)"
  by (simp_all add: the_ch_def the_fh_def the_cah_def the_chh_def the_cnh_def the_bh_def the_ah_def the_ih_def the_kh_def the_ph_def
    main_deps_def dev_def)

lemma orgFromCtx_eq [simp]: "hr_org r = Some org \<Longrightarrow> orgFromCtx r = org"
  by (simp add: orgFromCtx_def)

lemma messaging_more_simps [simp]:
  "chr_List (me_conns (messaging_service L ch sd)) = pg_chan_List L" "chr_Delete (me_conns (messaging_service L ch sd)) = pg_chan_Delete"
  by (simp_all add: messaging_service_def pg_channels_def)

lemma repo_more_simps [simp]:
  "clr_ListByOrg pg_calls = pg_call_ListByOrg" "clr_Summary pg_calls = pg_call_Summary" "clr_AttachMedia pg_calls = pg_call_AttachMedia"
  "cr_Balance pg_credits = pg_Balance" "cr_Ledger pg_credits = pg_Ledger" "ors_Rename (pg_orgs L) = pg_Rename L"
  "ors_EnsureForUser (pg_orgs L) = pg_EnsureForUser L"
  by (simp_all add: pg_calls_def pg_credits_def pg_orgs_def)

text \<open>
  What the repositories do on behalf of the organisation \<open>org\<close>, and what the operations do that
  find a row by its own key and check its owner first.
\<close>

locale session_frame = detached_ports +
  fixes R :: "database \<Rightarrow> database \<Rightarrow> bool" and org :: OrgID and c :: Config and L :: libs
  assumes preorder [simp, intro]: "preorder_rel R"
    and flow_create: "mrel (dbrel R) (pg_flow_Create L org nf)"
    and flow_update: "mrel (dbrel R) (pg_flow_UpdateSpec L fid org spec)"
    and customer_upsert: "mrel (dbrel R) (pg_cust_Upsert org s1 s2 s3)"
    and customer_dnd: "mrel (dbrel R) (pg_cust_SetDND org cid b)"
    and campaign_create: "mrel (dbrel R) (pg_camp_Create org cid s1)"
    and campaign_mark: "mrel (dbrel R) (pg_camp_MarkStarted org cid n)"
    and campaign_recipient: "mrel (dbrel R) (pg_camp_AddRecipient org cid rc)"
    and campaign_schedule: "mrel (dbrel R) (pg_camp_Schedule org cid t)"
    and org_rename: "mrel (dbrel R) (pg_Rename L org s1)"
    and key_create: "mrel (dbrel R) (pg_key_Create kid org s1 s2 s3 s4)"
    and channel_upsert: "mrel (dbrel R) (pg_chan_Upsert org s1 s2 s3 s4)"
    and channel_delete: "mrel (dbrel R) (pg_chan_Delete org s1)"
    and endpoint_upsert: "mrel (dbrel R) (pg_UpsertEndpoint eid org s1 s2 ss)"
    and policy_upsert: "mrel (dbrel R) (pg_policy_Upsert org pol)"
    and payment_create: "py_OrgID pay = org \<Longrightarrow> 0 < py_Credits pay \<Longrightarrow> py_Credits pay \<le> 100000 \<Longrightarrow> mrel (dbrel R) (pg_pay_Create pay)"
    and charge: "mrel (dbrel R) (pg_TryDeduct org creditsPerCall why)"
    and outcome: "ca_OrgID call = org \<Longrightarrow> mrel (dbrel R) (pg_RecordCallOutcome L call ob)"
    and chat_send: "mrel (dbrel R) (chat_Send (main_chat A p) org cid msg)"
    and chat_status: "mrel (dbrel R) (chat_SetStatus (main_chat A p) org cid status)"
    and chat_agent: "mrel (dbrel R) (chat_AgentReply (main_chat A p) org cid msg)"
    and chat_summarize: "mrel (dbrel R) (chat_Summarize (main_chat A p) org cid)"
    and chat_settings: "mrel (dbrel R) (chat_SaveSettings (main_chat A p) org cs)"
    and media: "hr_org r = Some org \<Longrightarrow> mrel (dbrel R) (calls_transcribeCall (the_ch (main_deps A c L p)) r)"
begin

lemma R_refl [simp, intro]: "R d d"
  using preorder by (rule preorder_rel_refl)

lemma free_of_db: "no_db n \<Longrightarrow> mrel (dbrel R) n"
  by (erule mrel_mono) (simp add: dbrel_def)

lemmas writes [mrel_intros] = flow_create flow_update customer_upsert customer_dnd campaign_create campaign_mark campaign_recipient
  campaign_schedule org_rename key_create channel_upsert channel_delete endpoint_upsert policy_upsert charge chat_send chat_status
  chat_agent chat_summarize chat_settings free_of_db [OF voice_db] free_of_db [OF chat_db] free_of_db [OF gateway_db]
  free_of_db [OF orch_db] free_of_db [OF sender_db] free_of_db [OF stt_db] free_of_db [OF get_db]

lemma rand_R [mrel_intros]: "mrel (dbrel R) (draw (rand_bytes n) :: nat list wop)"
  by (rule free_of_db [OF no_db_rand])

lemma import_R [mrel_intros]: "mrel (dbrel R) (import_rows (campaigns_service L orch) org cid rows had n)"
proof (induction rows arbitrary: had n)
  case (Cons x rows)
  show ?case
  proof (cases x)
    case (CsvRow row)
    show ?thesis unfolding CsvRow import_rows.simps campaigns_service_simps
      by (cases row) (simp_all add: Cons.IH, intro mrel_intros Cons.IH, auto)
  qed (auto intro!: mrel_intros)
qed (auto intro!: mrel_intros)

lemma targets_R [mrel_intros]: "mrel (dbrel R) (recipient_targets (campaigns_service L orch) org rs)"
  by (induction rs) (auto simp: pg_customers_def intro!: mrel_intros)

lemma enqueue_R [mrel_intros]: "mrel (dbrel R) (enqueue_targets (campaigns_service L (po_orch p)) org fid ts n)"
  by (induction ts arbitrary: n) (auto intro!: mrel_intros)

lemmas repo_reads = pg_GetActiveFlow_def gen_GetActiveFlowByName_def pg_flow_ListByOrg_def gen_ListFlowsByOrg_def
  pg_flow_GetByID_def gen_GetFlowByID_def pg_cust_ListByOrg_def gen_ListCustomersByOrg_def pg_camp_ListByOrg_def
  gen_ListCampaignsByOrg_def pg_camp_Get_def gen_GetCampaign_def pg_camp_Recipients_def gen_ListRecipients_def
  pg_key_ListByOrg_def gen_ListAPIKeysByOrg_def pg_chan_List_def gen_ListChannelsByOrg_def pg_chan_ByOrgAndType_def
  gen_GetChannelByOrgAndType_def pg_GetEndpoint_def gen_GetWebhookEndpoint_def pg_policy_Get_def gen_GetCallPolicy_def
  pg_Balance_def gen_GetBalance_def pg_Ledger_def gen_ListLedger_def pg_call_Get_def gen_GetCall_def pg_call_ListByOrg_def
  gen_ListCallsByOrg_def pg_call_Summary_def gen_CallSummary_def pg_ConversationStats_def gen_ConversationStats_def
  pg_CreditSpend_def gen_CreditSpend_def asst.repo_defs pg_ListConversations_def gen_ListConversationsByOrg_def

lemmas repo_records = calls_service_simps campaigns_service_simps pg_flows_simps billing_service_simps pg_apikeys_simps
  webhooks_service_simps messaging_simps messaging_more_simps asst.svc_simps ingest_service_simps analytics_simps repo_more_simps main_handlers

lemma reads_R [mrel_intros]:
  "mrel (dbrel R) (pg_GetActiveFlow L o' s1)" "mrel (dbrel R) (pg_flow_ListByOrg L o')" "mrel (dbrel R) (pg_flow_GetByID fid)"
  "mrel (dbrel R) (pg_cust_ListByOrg o' n)" "mrel (dbrel R) (pg_camp_ListByOrg o')" "mrel (dbrel R) (pg_camp_Get cid)"
  "mrel (dbrel R) (pg_camp_Recipients L cid)" "mrel (dbrel R) (pg_key_ListByOrg o')" "mrel (dbrel R) (pg_chan_List L o')"
  "mrel (dbrel R) (pg_chan_ByOrgAndType o' s1)" "mrel (dbrel R) (pg_GetEndpoint o')" "mrel (dbrel R) (pg_policy_Get o')"
  "mrel (dbrel R) (pg_Balance o')" "mrel (dbrel R) (pg_Ledger o' n)" "mrel (dbrel R) (pg_call_Get cid)"
  "mrel (dbrel R) (pg_call_ListByOrg o' n)" "mrel (dbrel R) (pg_call_Summary o')" "mrel (dbrel R) (pg_ConversationStats o')"
  "mrel (dbrel R) (pg_CreditSpend o')" "mrel (dbrel R) (pg_GetConversation cid)" "mrel (dbrel R) (pg_Messages cid)"
  "mrel (dbrel R) (pg_settings_Get o')" "mrel (dbrel R) (pg_insight_Get cid)" "mrel (dbrel R) (pg_ListConversations o' n)"
  unfolding repo_reads Let_def by (intro mrel_intros; auto)+

lemma outcome_R [mrel_intros]: "mrel (dbrel R) (pg_RecordCallOutcome L (call\<lparr>ca_OrgID := org\<rparr>) ob)"
  by (rule outcome) simp

lemma calls_h:
  assumes "hr_org r = Some org"
  shows "mrel (dbrel R) (calls_testCall (the_ch (main_deps A c L p)) r)"
    and "mrel (dbrel R) (calls_listCalls (the_ch (main_deps A c L p)) r)"
    and "mrel (dbrel R) (calls_getCall (the_ch (main_deps A c L p)) r)"
    and "mrel (dbrel R) (calls_summary (the_ch (main_deps A c L p)) r)"
    and "mrel (dbrel R) (calls_placeCall (the_ch (main_deps A c L p)) r)"
    and "mrel (dbrel R) (calls_getPolicy (the_ch (main_deps A c L p)) r)"
    and "mrel (dbrel R) (calls_savePolicy (the_ch (main_deps A c L p)) r)"
proof -
  have feed: "mrel (dbrel R) (perform (calls_publish (main_calls L p) e))" for e
    by (rule mrel_perform) (simp add: dbrel_def main_calls_def calls_publish_def feed_publisher_def)
  have run: "mrel (dbrel R) (calls_RunTestCall (main_calls L p) org ph dg fn)" for ph dg fn
    unfolding calls_RunTestCall_def main_calls_def repo_records Let_def
    by (intro mrel_intros outcome feed [unfolded main_calls_def]) auto
  note O = orgFromCtx_eq [OF assms]
  show "mrel (dbrel R) (calls_testCall (the_ch (main_deps A c L p)) r)"
    unfolding calls_testCall_def repo_records O Let_def by (intro mrel_intros run) auto
  show "mrel (dbrel R) (calls_listCalls (the_ch (main_deps A c L p)) r)"
    unfolding calls_listCalls_def calls_List_def main_calls_def repo_records O by (intro mrel_intros) auto
  show "mrel (dbrel R) (calls_getCall (the_ch (main_deps A c L p)) r)"
    unfolding calls_getCall_def calls_Get_def main_calls_def repo_records O by (intro mrel_intros) auto
  show "mrel (dbrel R) (calls_summary (the_ch (main_deps A c L p)) r)"
    unfolding calls_summary_def calls_Summary_def main_calls_def repo_records O by (intro mrel_intros) auto
  show "mrel (dbrel R) (calls_placeCall (the_ch (main_deps A c L p)) r)"
    unfolding calls_placeCall_def repo_records O by (intro mrel_intros) auto
  show "mrel (dbrel R) (calls_getPolicy (the_ch (main_deps A c L p)) r)"
    unfolding calls_getPolicy_def calls_Policy_def main_calls_def repo_records O by (intro mrel_intros) auto
  show "mrel (dbrel R) (calls_savePolicy (the_ch (main_deps A c L p)) r)"
    unfolding calls_savePolicy_def calls_SavePolicy_def main_calls_def repo_records O by (intro mrel_intros) auto
qed

lemma flows_h:
  assumes "hr_org r = Some org"
  shows "mrel (dbrel R) (flows_list_h (the_fh (main_deps A c L p)) r)"
    and "mrel (dbrel R) (flows_create_h (the_fh (main_deps A c L p)) r)"
    and "mrel (dbrel R) (flows_get_h (the_fh (main_deps A c L p)) r)"
    and "mrel (dbrel R) (flows_templates_h r)"
    and "mrel (dbrel R) (flows_simulate_h (the_fh (main_deps A c L p)) r)"
    and "mrel (dbrel R) (flows_update_h (the_fh (main_deps A c L p)) r)"
  unfolding flows_list_h_def flows_create_h_def flows_get_h_def flows_templates_h_def flows_simulate_h_def flows_update_h_def
    flows_List_def flows_Create_def flows_Get_def flows_UpdateSpec_def repo_records orgFromCtx_eq [OF assms] Let_def
  by (intro mrel_intros; auto)+

lemma campaigns_h:
  assumes "hr_org r = Some org"
  shows "mrel (dbrel R) (campaigns_create_h (the_cah (main_deps A c L p)) r)"
    and "mrel (dbrel R) (campaigns_list_h (the_cah (main_deps A c L p)) r)"
    and "mrel (dbrel R) (campaigns_importRecipients_h (the_cah (main_deps A c L p)) r)"
    and "mrel (dbrel R) (campaigns_schedule_h (the_cah (main_deps A c L p)) r)"
    and "mrel (dbrel R) (campaigns_start_h (the_cah (main_deps A c L p)) r)"
  unfolding campaigns_create_h_def campaigns_list_h_def campaigns_importRecipients_h_def campaigns_schedule_h_def campaigns_start_h_def
    campaigns_Create_def campaigns_List_def campaigns_ImportRecipients_def campaigns_Schedule_def campaigns_Start_def
    campaigns_dispatch_def campaigns_Get_def repo_records orgFromCtx_eq [OF assms] Let_def
  by (intro mrel_intros; auto)+

lemma settings_h:
  assumes "hr_org r = Some org"
  shows "mrel (dbrel R) (customers_list_h (sd_customers (main_deps A c L p)) H r)"
    and "mrel (dbrel R) (customers_setDND_h (sd_customers (main_deps A c L p)) b r)"
    and "mrel (dbrel R) (webhooks_getEndpoint_h (sd_webhooks (main_deps A c L p)) r)"
    and "mrel (dbrel R) (webhooks_setEndpoint_h (sd_webhooks (main_deps A c L p)) H r)"
    and "mrel (dbrel R) (channels_list_h (the_cnh (main_deps A c L p)) r)"
    and "mrel (dbrel R) (channels_connect_h (the_cnh (main_deps A c L p)) r)"
    and "mrel (dbrel R) (channels_disconnect_h (the_cnh (main_deps A c L p)) r)"
    and "mrel (dbrel R) (keys_list_h (the_ih (main_deps A c L p)) r)"
    and "mrel (dbrel R) (keys_mint_h (the_ih (main_deps A c L p)) r)"
    and "mrel (dbrel R) (keys_mintPublishable_h (the_ih (main_deps A c L p)) r)"
    and "mrel (dbrel R) (auth_renameOrg (the_ah (main_deps A c L p)) r)"
    and "mrel (dbrel R) (auth_me r)"
proof -
  have tok: "mrel (dbrel R) (draw (randToken L) :: string wop)"
    by (rule mrel_draw) (simp add: dbrel_def randToken_def rand_bytes_def split: prod.splits)
  show "mrel (dbrel R) (customers_list_h (sd_customers (main_deps A c L p)) H r)"
    "mrel (dbrel R) (customers_setDND_h (sd_customers (main_deps A c L p)) b r)"
    "mrel (dbrel R) (webhooks_getEndpoint_h (sd_webhooks (main_deps A c L p)) r)"
    "mrel (dbrel R) (webhooks_setEndpoint_h (sd_webhooks (main_deps A c L p)) H r)"
    "mrel (dbrel R) (channels_list_h (the_cnh (main_deps A c L p)) r)"
    "mrel (dbrel R) (channels_connect_h (the_cnh (main_deps A c L p)) r)"
    "mrel (dbrel R) (channels_disconnect_h (the_cnh (main_deps A c L p)) r)"
    "mrel (dbrel R) (keys_list_h (the_ih (main_deps A c L p)) r)"
    "mrel (dbrel R) (keys_mint_h (the_ih (main_deps A c L p)) r)"
    "mrel (dbrel R) (keys_mintPublishable_h (the_ih (main_deps A c L p)) r)"
    "mrel (dbrel R) (auth_renameOrg (the_ah (main_deps A c L p)) r)"
    "mrel (dbrel R) (auth_me r)"
    unfolding customers_list_h_def customers_List_def customers_setDND_h_def customers_SetDND_def webhooks_getEndpoint_h_def webhooks_Get_def
      webhooks_setEndpoint_h_def webhooks_SetEndpoint_def cipher_Encrypt_def channels_list_h_def messaging_List_def channels_connect_h_def
      messaging_Connect_def channels_disconnect_h_def messaging_Disconnect_def keys_list_h_def apikeys_List_def keys_mint_h_def
      apikeys_Mint_def apikey_Generate_def apikey_gen_def keys_mintPublishable_h_def apikeys_MintPublishable_def apikey_GeneratePublishable_def
      auth_renameOrg_def auth_me_def repo_records orgFromCtx_eq [OF assms] Let_def
    by (intro mrel_intros tok; auto)+
qed

lemma insight_h:
  assumes "hr_org r = Some org"
  shows "mrel (dbrel R) (analytics_overview_h (sd_analytics (main_deps A c L p)) r)"
    and "mrel (dbrel R) (reports_ask_h (sd_reports (main_deps A c L p)) H r)"
    and "mrel (dbrel R) (onboarding_ask_h (sd_onboarding (main_deps A c L p)) H r)"
    and "mrel (dbrel R) (activity_stream_h r)"
  unfolding analytics_overview_h_def reports_ask_h_def reports_Ask_def onboarding_ask_h_def onboarding_Ask_def activity_stream_h_def
    analytics_Overview_def builtin_Reporter_def builtin_Answer_def repo_records orgFromCtx_eq [OF assms] Let_def ReportsService.simps Reporter.simps
  by (intro mrel_intros; auto intro!: mrel_intros split: topic.splits)+

lemma chat_h:
  assumes "hr_org r = Some org"
  shows "mrel (dbrel R) (chat_send_h (the_chh (main_deps A c L p)) r)"
    and "mrel (dbrel R) (chat_list_h (the_chh (main_deps A c L p)) r)"
    and "mrel (dbrel R) (chat_getSettings_h (the_chh (main_deps A c L p)) r)"
    and "mrel (dbrel R) (chat_saveSettings_h (the_chh (main_deps A c L p)) r)"
    and "mrel (dbrel R) (chat_messages_h (the_chh (main_deps A c L p)) r)"
    and "mrel (dbrel R) (chat_setStatus_h (the_chh (main_deps A c L p)) r)"
    and "mrel (dbrel R) (chat_agentReply_h (the_chh (main_deps A c L p)) r)"
    and "mrel (dbrel R) (chat_summarize_h (the_chh (main_deps A c L p)) r)"
  unfolding chat_send_h_def chat_list_h_def chat_getSettings_h_def chat_saveSettings_h_def chat_messages_h_def chat_setStatus_h_def
    chat_agentReply_h_def chat_summarize_h_def main_handlers orgFromCtx_eq [OF assms] Let_def
    chat_List_def chat_Settings_def chat_Messages_def chat_Insight_def chat_owns_def messaging_SendOutbound_def
  by (intro mrel_intros; auto simp: main_chat_def intro!: mrel_intros)+

lemma billing_h:
  assumes "hr_org r = Some org" and "cf_Env c \<noteq> ''dev''"
  shows "mrel (dbrel R) (billing_get_h (the_bh (main_deps A c L p)) r)"
    and "mrel (dbrel R) (billing_topUp_h (the_bh (main_deps A c L p)) r)"
    and "mrel (dbrel R) (billing_checkout_h (the_bh (main_deps A c L p)) r)"
    and "mrel (dbrel R) (billing_devPay_h (the_bh (main_deps A c L p)) r)"
  unfolding billing_get_h_def billing_Balance_def billing_Ledger_def billing_topUp_h_def billing_checkout_h_def billing_Checkout_def
    billing_devPay_h_def repo_records orgFromCtx_eq [OF assms(1)] Let_def
  by (intro mrel_intros payment_create; (auto simp: assms(2) clamp_credits_def))+

text \<open>All of them, as the router knows them.\<close>

lemma session_routes:
  assumes "hr_org r = Some org" and "cf_Env c \<noteq> ''dev''"
    and "rt \<in> set (server_routes (main_deps A c L p))" and "rt_Guard rt = GSession"
  shows "mrel (dbrel R) (rt_Handler rt r)"
proof -
  note h = calls_h [OF assms(1)] flows_h [OF assms(1)] campaigns_h [OF assms(1)] settings_h [OF assms(1)] insight_h [OF assms(1)]
    chat_h [OF assms(1)] billing_h [OF assms(1,2)] media [OF assms(1)]
  have "\<forall>rt \<in> set (server_routes (main_deps A c L p)). rt_Guard rt = GSession \<longrightarrow> mrel (dbrel R) (rt_Handler rt r)"
    unfolding server_routes_def route_def by (simp add: h del: main_handlers)
  with assms(3,4) show ?thesis by blast
qed

end

end
