(* ===== verification/Yaver_Isolation.thy ===== *)
theory Yaver_Isolation
  imports Yaver_Tenancy
begin

text \<open>
  The isolation of tenants: what a request of one organisation leaves of the tables of the others. The
  relation \<open>isolated\<close> interprets \<open>session_frame\<close> of \<open>Yaver_Tenancy\<close>, and the session middleware is shown to
  hand every request the organisation of its user.
\<close>

section \<open>What belongs to the other organisations\<close>

text \<open>The database without the rows of one organisation. Users, their codes and sessions belong to none.\<close>

definition foreign :: "OrgID \<Rightarrow> database \<Rightarrow> database" where
  "foreign org d = d\<lparr>
     api_keys := filter (\<lambda>r. ak_org_id r \<noteq> org) (api_keys d),
     calls := filter (\<lambda>r. cw_org_id r \<noteq> org) (calls d),
     campaigns := filter (\<lambda>r. cp_org_id r \<noteq> org) (campaigns d),
     campaign_recipients := filter (\<lambda>r. rp_org_id r \<noteq> org) (campaign_recipients d),
     channel_connections := filter (\<lambda>r. cx_org_id r \<noteq> org) (channel_connections d),
     chat_settings := filter (\<lambda>r. ct_org_id r \<noteq> org) (chat_settings d),
     conversations := filter (\<lambda>r. cr_org_id r \<noteq> org) (conversations d),
     conversation_insights := filter (\<lambda>i. in_conversation_id i \<in> other_convs org d) (conversation_insights d),
     credit_ledger := filter (\<lambda>r. lg_org_id r \<noteq> org) (credit_ledger d),
     customers := filter (\<lambda>r. cm_org_id r \<noteq> org) (customers d),
     events := filter (\<lambda>r. ev_org_id r \<noteq> org) (events d),
     flows := filter (\<lambda>r. fw_org_id r \<noteq> org) (flows d),
     messages := filter (\<lambda>m. mg_conversation_id m \<in> other_convs org d) (messages d),
     orgs := filter (\<lambda>r. or_id r \<noteq> org) (orgs d),
     org_call_policy := filter (\<lambda>r. pl_org_id r \<noteq> org) (org_call_policy d),
     org_credits := filter (\<lambda>r. oc_org_id r \<noteq> org) (org_credits d),
     payments := filter (\<lambda>r. pm_org_id r \<noteq> org) (payments d),
     webhook_deliveries := filter (\<lambda>r. dl_org_id r \<noteq> org) (webhook_deliveries d),
     webhook_endpoints := filter (\<lambda>r. ep_org_id r \<noteq> org) (webhook_endpoints d),
     webhook_outbox := filter (\<lambda>r. ox_org_id r \<noteq> org) (webhook_outbox d)\<rparr>"

definition calls_ok :: "database \<Rightarrow> bool" where
  "calls_ok d \<longleftrightarrow> distinct (map cw_id (calls d))"

definition isolated :: "OrgID \<Rightarrow> database \<Rightarrow> database \<Rightarrow> bool" where
  "isolated org d d' \<longleftrightarrow> (chats_ok d \<and> calls_ok d \<longrightarrow> chats_ok d' \<and> calls_ok d' \<and> foreign org d' = foreign org d)"

lemma preorder_isolated [simp, intro]: "preorder_rel (isolated org)"
  by (rule preorder_relI) (auto simp: isolated_def)

lemma isolated_refl [simp, intro]: "isolated org d d"
  by (simp add: isolated_def)

lemma other_convs_frame:
  "conversations d' = conversations d \<Longrightarrow> other_convs org d' = other_convs org d"
  by (simp add: other_convs_def)

text \<open>An update of own rows is not seen from outside.\<close>

lemma filter_upd_own:
  assumes "\<And>r. key (f r) = key r"
  shows "filter (\<lambda>r. key r \<noteq> org) (upd_where (\<lambda>r. key r = org) f rows) = filter (\<lambda>r. key r \<noteq> org) rows"
    and "filter (\<lambda>r. key r \<noteq> org) (upd_where (\<lambda>r. key r = org \<and> P r) f rows) = filter (\<lambda>r. key r \<noteq> org) rows"
    and "filter (\<lambda>r. key r \<noteq> org) (upd_where (\<lambda>r. P r \<and> key r = org) f rows) = filter (\<lambda>r. key r \<noteq> org) rows"
    and "filter (\<lambda>r. key r \<noteq> org) (upd_where (\<lambda>r. P r \<and> key r = org \<and> Q r) f rows) = filter (\<lambda>r. key r \<noteq> org) rows"
  using assms by (auto intro!: filter_upd_where_other)

lemma cust_key_fun: "cust_key org phone = (\<lambda>r. cm_org_id r = org \<and> cm_phone r = phone)"
  by (simp add: fun_eq_iff cust_key_def)

lemmas isolated_simps = isolated_def foreign_def chats_ok_def calls_ok_def other_convs_def filter_upd_own filter_upd_where_other

lemma isolated_writes:
  "mrel (dbrel (isolated org)) (pg_flow_Create L org nf)"
  "mrel (dbrel (isolated org)) (pg_flow_UpdateSpec L fid org spec)"
  "mrel (dbrel (isolated org)) (pg_cust_Upsert org s1 s2 s3)"
  "mrel (dbrel (isolated org)) (pg_cust_SetDND org cid b)"
  "mrel (dbrel (isolated org)) (pg_camp_Create org cid s1)"
  "mrel (dbrel (isolated org)) (pg_camp_MarkStarted org cid n)"
  "mrel (dbrel (isolated org)) (pg_camp_AddRecipient org cid rc)"
  "mrel (dbrel (isolated org)) (pg_camp_Schedule org cid t)"
  "mrel (dbrel (isolated org)) (pg_key_Create kid org s1 s2 s3 s4)"
  "mrel (dbrel (isolated org)) (pg_chan_Upsert org s1 s2 s3 s4)"
  "mrel (dbrel (isolated org)) (pg_UpsertEndpoint eid org s1 s2 ss)"
  "mrel (dbrel (isolated org)) (pg_policy_Upsert org pol)"
  unfolding pg_flow_Create_def gen_CreateFlow_def pg_flow_UpdateSpec_def gen_UpdateFlowSpec_def pg_cust_Upsert_def gen_UpsertCustomer_def
    pg_cust_SetDND_def gen_SetCustomerDND_def pg_camp_Create_def gen_CreateCampaign_def pg_camp_MarkStarted_def gen_StartCampaign_def
    pg_camp_AddRecipient_def gen_AddRecipient_def pg_camp_Schedule_def gen_ScheduleCampaign_def pg_key_Create_def gen_CreateAPIKey_def
    pg_chan_Upsert_def gen_UpsertChannel_def pg_UpsertEndpoint_def gen_UpsertWebhookEndpoint_def
    pg_policy_Upsert_def gen_UpsertCallPolicy_def
  by (intro mrel_intros mrel_db_exec; (auto simp: isolated_simps cust_key_fun split: option.splits if_splits; fail)?)+

lemma isolated_delete: "mrel (dbrel (isolated org)) (pg_chan_Delete org s1)"
proof -
  have *: "filter (\<lambda>r. cx_org_id r \<noteq> org) (filter (\<lambda>r. \<not> (cx_org_id r = org \<and> cx_type r = s1)) xs) = filter (\<lambda>r. cx_org_id r \<noteq> org) xs" for xs
    by (induction xs) auto
  show ?thesis unfolding pg_chan_Delete_def gen_DeleteChannel_def
    by (rule mrel_db_exec) (auto simp: isolated_simps * simp del: filter_filter de_Morgan_conj)
qed

lemma isolated_rename: "lib_uuid L org = Some org \<Longrightarrow> mrel (dbrel (isolated org)) (pg_Rename L org s1)"
  unfolding pg_Rename_def uuid_Parse_def gen_RenameOrg_def by (simp, rule mrel_db_exec) (auto simp: isolated_simps)

lemma isolated_payment: "py_OrgID pay = org \<Longrightarrow> mrel (dbrel (isolated org)) (pg_pay_Create pay)"
  unfolding pg_pay_Create_def by (rule mrel_db_exec) (auto simp: isolated_simps split: if_splits)

lemma isolated_charge: "mrel (dbrel (isolated org)) (pg_TryDeduct org n why)"
  unfolding pg_TryDeduct_def gen_TryDeductBalance_def gen_AddLedger_def
  by (intro mrel_with_tx mrel_intros mrel_db_exec; (auto simp: isolated_simps split: option.splits if_splits; fail)?)

lemma isolated_call: "cw_org_id row = org \<Longrightarrow> mrel (dbrel (isolated org)) (gen_CreateCall row)"
  unfolding gen_CreateCall_def
  by (rule mrel_db_exec) (auto simp: isolated_simps find_None_iff split: if_splits, blast)

lemma isolated_outbox: "mrel (dbrel (isolated org)) (gen_InsertOutbox L org ev payload)"
  unfolding gen_InsertOutbox_def by (rule mrel_db_exec) (auto simp: isolated_simps split: option.splits)

lemma isolated_outcome: "ca_OrgID call = org \<Longrightarrow> mrel (dbrel (isolated org)) (pg_RecordCallOutcome L call ob)"
  unfolding pg_RecordCallOutcome_def
  by (intro mrel_with_tx mrel_intros isolated_call; simp add: call_row_def isolated_outbox)

text \<open>Chat writes only the chat tables, where the service has shown the same.\<close>

definition chat_only :: "database \<Rightarrow> database \<Rightarrow> bool" where
  "chat_only d d' \<longleftrightarrow> d' = d\<lparr>conversations := conversations d', messages := messages d',
     conversation_insights := conversation_insights d', chat_settings := chat_settings d'\<rparr>"

lemma chat_only_upd [simp, intro]:
  "chat_only d d" "chat_only d (d\<lparr>conversations := xs\<rparr>)" "chat_only d (d\<lparr>messages := ys\<rparr>)"
  "chat_only d (d\<lparr>conversation_insights := zs\<rparr>)" "chat_only d (d\<lparr>chat_settings := us\<rparr>)"
  by (simp_all add: chat_only_def)

lemma preorder_chat_only [simp, intro]: "preorder_rel chat_only"
proof (rule preorder_relI)
  fix a b c :: database
  assume ab: "chat_only a b" and bc: "chat_only b c"
  from bc have "c = b\<lparr>conversations := conversations c, messages := messages c,
      conversation_insights := conversation_insights c, chat_settings := chat_settings c\<rparr>" by (simp add: chat_only_def)
  also have "\<dots> = (a\<lparr>conversations := conversations b, messages := messages b, conversation_insights := conversation_insights b,
      chat_settings := chat_settings b\<rparr>)\<lparr>conversations := conversations c, messages := messages c,
      conversation_insights := conversation_insights c, chat_settings := chat_settings c\<rparr>"
    using ab unfolding chat_only_def by simp
  finally show "chat_only a c" by (simp add: chat_only_def)
qed simp

lemma chat_only_writes:
  "mrel (dbrel chat_only) (new_conversation cid org channel user)"
  "mrel (dbrel chat_only) (gen_SetConversationStatus cid status)"
  "mrel (dbrel chat_only) (gen_TouchConversation cid)"
  "mrel (dbrel chat_only) (gen_InsertMessage mid cid role content)"
  "mrel (dbrel chat_only) (gen_UpsertInsight cid org b1 b2 b3 b4)"
  "mrel (dbrel chat_only) (gen_UpsertChatSettings org b1 b2 b3 b4)"
  unfolding new_conversation_def gen_SetConversationStatus_def gen_TouchConversation_def gen_InsertMessage_def gen_UpsertInsight_def
    gen_UpsertChatSettings_def Let_def
  by (rule mrel_db_exec; auto split: if_splits)+

sublocale detached_ports \<subseteq> only: chat_writes A p chat_only
  by unfold_locales (simp_all add: chat_only_writes)

lemma isolated_chat:
  assumes "chat_only d d'" and "chats_ok d \<longrightarrow> chats_ok d' \<and> others org d' = others org d"
  shows "isolated org d d'"
proof -
  have "foreign org d' = foreign org d" if "others org d' = others org d"
  proof -
    have "foreign org d' = (foreign org d)\<lparr>conversations := fst (others org d'), messages := fst (snd (others org d')),
        conversation_insights := fst (snd (snd (others org d'))), chat_settings := snd (snd (snd (others org d')))\<rparr>"
      using arg_cong [OF assms(1) [unfolded chat_only_def], of "foreign org"] by (simp add: foreign_def others_def other_convs_def)
    with that show ?thesis by (simp add: foreign_def others_def)
  qed
  moreover have "calls d' = calls d" using arg_cong [OF assms(1) [unfolded chat_only_def], of calls] by simp
  ultimately show ?thesis using assms(2) by (auto simp: isolated_def calls_ok_def)
qed

text \<open>A recording is attached to a call that was looked up for the organisation before.\<close>

definition own_call :: "OrgID \<Rightarrow> string \<Rightarrow> database \<Rightarrow> bool" where
  "own_call org cid d \<longleftrightarrow> (\<forall>r \<in> set (calls d). cw_id r = cid \<longrightarrow> cw_org_id r = org)"

lemma isolated_attach:
  "mrel (dbrel (\<lambda>d d'. own_call org cid d \<longrightarrow> own_call org cid d' \<and> isolated org d d')) (pg_call_AttachMedia cid url txt)"
proof -
  have map: "map cw_id (upd_where (\<lambda>r. cw_id r = cid) (\<lambda>r. r\<lparr>cw_recording_url := u, cw_transcript := v\<rparr>) rows) = map cw_id rows"
    for u v and rows :: "CallRow list" by (induction rows) (auto simp: upd_where_def)
  have flt: "filter (\<lambda>r. cw_org_id r \<noteq> org) (upd_where (\<lambda>r. cw_id r = cid) (\<lambda>r. r\<lparr>cw_recording_url := u, cw_transcript := v\<rparr>) rows)
      = filter (\<lambda>r. cw_org_id r \<noteq> org) rows" if "\<forall>r \<in> set rows. cw_id r = cid \<longrightarrow> cw_org_id r = org"
    for u v and rows :: "CallRow list" using that by (induction rows) (auto simp: upd_where_def)
  have own: "\<exists>r0 \<in> set rows. cw_id r = cw_id r0 \<and> cw_org_id r = cw_org_id r0"
    if "r \<in> set (upd_where (\<lambda>r. cw_id r = cid) (\<lambda>r. r\<lparr>cw_recording_url := u, cw_transcript := v\<rparr>) rows)"
    for u v r and rows :: "CallRow list" using that by (auto simp: upd_where_def split: if_splits)
  let ?upd = "\<lambda>d. d\<lparr>calls := upd_where (\<lambda>r. cw_id r = cid) (\<lambda>r. r\<lparr>cw_recording_url := strPtr url, cw_transcript := strPtr txt\<rparr>) (calls d)\<rparr>"
  have "own_call org cid d \<longrightarrow> own_call org cid (?upd d) \<and> isolated org d (?upd d)" for d
  proof (intro impI conjI)
    assume o: "own_call org cid d"
    show "own_call org cid (?upd d)" unfolding own_call_def
    proof (intro ballI impI)
      fix r assume r: "r \<in> set (calls (?upd d))" and id: "cw_id r = cid"
      from own [OF r [simplified]] obtain r0 where "r0 \<in> set (calls d)" "cw_id r = cw_id r0" "cw_org_id r = cw_org_id r0" by blast
      with o id show "cw_org_id r = org" by (simp add: own_call_def)
    qed
    show "isolated org d (?upd d)"
      by (simp add: isolated_def calls_ok_def chats_ok_def foreign_def other_convs_def map flt [OF o [unfolded own_call_def]])
  qed
  then show ?thesis unfolding pg_call_AttachMedia_def gen_AttachCallMedia_def
    by (intro mrel_db_exec) (auto simp del: database.update_convs)
qed

lemma wp_call_Get:
  "wp (pg_call_Get cid) (\<lambda>r w'. w_db w' = w_db w \<and> (\<forall>c. r = Inr c \<longrightarrow>
     (\<exists>row. List.find (\<lambda>r. cw_id r = cid) (calls (w_db w)) = Some row \<and> ca_OrgID c = cw_org_id row))) w"
  unfolding pg_call_Get_def gen_GetCall_def
  by (rule wp_attempt [where P = "\<lambda>r w'. w_db w' = w_db w \<and> (\<forall>row. r = Inr row \<longrightarrow>
        List.find (\<lambda>r. cw_id r = cid) (calls (w_db w)) = Some row)"], rule wp_db_read) (auto split: option.splits sum.splits)

context detached_ports
begin

lemma isolated_chat_ops:
  "mrel (dbrel (isolated org)) (chat_Send (main_chat A p) org cid msg)"
  "mrel (dbrel (isolated org)) (chat_SetStatus (main_chat A p) org cid status)"
  "mrel (dbrel (isolated org)) (chat_AgentReply (main_chat A p) org cid msg)"
  "mrel (dbrel (isolated org)) (chat_Summarize (main_chat A p) org cid)"
  "mrel (dbrel (isolated org)) (chat_SaveSettings (main_chat A p) org cs)"
proof -
  have step: "mrel (dbrel (isolated org)) m"
    if "mrel (dbrel chat_only) m" "\<And>w. run_chat_op (main_chat A p) org x w = snd (m w)" for m :: "'c wop" and x
  proof (rule mrelI)
    fix w r w' assume run: "m w = (r, w')"
    then have "w' = run_chat_op (main_chat A p) org x w" by (simp add: that(2))
    then have "chats_ok (w_db w) \<longrightarrow> chats_ok (w_db w') \<and> others org (w_db w') = others org (w_db w)"
      using asst.op_within [of w org x] by (auto simp: main_chat_def)
    with mrelD [OF that(1) run] show "dbrel (isolated org) w w'" by (auto simp: dbrel_def intro: isolated_chat)
  qed
  show "mrel (dbrel (isolated org)) (chat_Send (main_chat A p) org cid msg)"
    by (rule step [OF only.chat_ops_R(1), of "SendMsg cid msg"]) simp
  show "mrel (dbrel (isolated org)) (chat_SetStatus (main_chat A p) org cid status)"
    by (rule step [OF only.chat_ops_R(3), of "MoveTo cid status"]) simp
  show "mrel (dbrel (isolated org)) (chat_AgentReply (main_chat A p) org cid msg)"
    by (rule step [OF only.chat_ops_R(4), of "AgentSays cid msg"]) simp
  show "mrel (dbrel (isolated org)) (chat_Summarize (main_chat A p) org cid)"
    by (rule step [OF only.chat_ops_R(5), of "SummarizeConv cid"]) simp
  show "mrel (dbrel (isolated org)) (chat_SaveSettings (main_chat A p) org cs)"
    by (rule step [OF only.chat_ops_R(6), of "SaveCfg cs"]) simp
qed

lemma isolated_media:
  assumes "hr_org r = Some org"
  shows "mrel (dbrel (isolated org)) (calls_transcribeCall (the_ch (main_deps A c L p)) r)"
proof (rule mrel_wp)
  fix w
  let ?cid = "hr_PathValue r ''id''" and ?s = "\<lparr>ts_stt = po_stt p, ts_calls = pg_calls, ts_http = rm_get A\<rparr>"
  define R where "R d d' \<longleftrightarrow> (own_call org ?cid d \<longrightarrow> own_call org ?cid d' \<and> isolated org d d')" for d d'
  have R: "preorder_rel R" "\<And>d. R d d"
    by (auto simp: R_def intro!: preorder_relI intro: preorder_rel_trans [OF preorder_isolated])
  have calm: "mrel (dbrel R) n" if "no_db n" for n :: "'c wop"
    using that by (rule mrel_mono) (simp add: dbrel_def R(2))
  have tr: "mrel (dbrel R) (transcription_Transcribe ?s ?cid url loc)" for url loc
    unfolding transcription_Transcribe_def transcription_download_def TranscriptionService.simps repo_more_simps
    by (intro mrel_intros calm [OF get_db] calm [OF stt_db] isolated_attach [of org ?cid, folded R_def]) (auto simp: R)
  have rest: "mrel (dbrel R) (case decode (hl_first (clh_lib (the_ch (main_deps A c L p))) (hr_Body r))
        (dec_both (dec_string ''recording_url'') (dec_string ''locale'')) of (err, url, locale) \<Rightarrow>
      if err \<or> url = [] then respond_err 400 ''recording_url required''
      else svc (transcription_Transcribe ?s ?cid url locale) (\<lambda>q'. case q' of
          Inl _ \<Rightarrow> respond_err 502 ''transcription failed'' | Inr _ \<Rightarrow> respond 200 (ostrs [(''status'', ''ok'')])))"
    by (intro mrel_intros tr) (auto simp: R)
  have get: "wp (calls_Get (main_calls L p) org ?cid) (\<lambda>q w'. w_db w' = w_db w \<and>
      (\<forall>cl. q = Inr cl \<longrightarrow> calls_ok (w_db w) \<longrightarrow> own_call org ?cid (w_db w))) w"
    unfolding calls_Get_def main_calls_def calls_service_simps
    by (rule wp_bnd [OF wp_call_Get])
       (auto simp: own_call_def calls_ok_def distinct_map dest!: find_SomeD, metis inj_onD)
  show "wp (calls_transcribeCall (the_ch (main_deps A c L p)) r) (\<lambda>q w'. dbrel (isolated org) w w') w"
    unfolding calls_transcribeCall_def Let_def main_handlers orgFromCtx_eq [OF assms] svc_def [of "calls_Get _ _ _"]
  proof (rule wp_attempt [OF get], goal_cases)
    case (1 q w1)
    then show ?case
      using wp_mono [OF wp_mrel [OF rest], where Q = "\<lambda>q w'. dbrel (isolated org) w w'" and w = w1]
      by (cases q) (auto simp: respond_err_def dbrel_def R_def isolated_def)
  qed
qed

end

text \<open>One tenant of the wired program. Organisation ids are UUIDs in their canonical form.\<close>

locale tenant = detached_ports +
  fixes org :: OrgID and c :: Config and L :: libs
  assumes canonical: "lib_uuid L org = Some org"

sublocale tenant \<subseteq> iso: session_frame A p "isolated org" org c L
  by unfold_locales
     (simp_all add: isolated_writes isolated_delete isolated_rename canonical isolated_payment isolated_charge isolated_outcome
       isolated_chat_ops isolated_media)

section \<open>The session middleware\<close>

text \<open>What is assumed of the tables: ids are unique, and organisation ids are canonical UUIDs.\<close>

definition tables_ok :: "libs \<Rightarrow> database \<Rightarrow> bool" where
  "tables_ok L d \<longleftrightarrow> chats_ok d \<and> calls_ok d \<and> distinct (map or_id (orgs d)) \<and> list_all (\<lambda>r. lib_uuid L (or_id r) = Some (or_id r)) (orgs d)"

text \<open>Does an organisation, when it exists, belong to the user?\<close>

definition owned :: "libs \<Rightarrow> string \<Rightarrow> OrgID \<Rightarrow> database \<Rightarrow> bool" where
  "owned L userID org d \<longleftrightarrow> list_all (\<lambda>r. or_id r = org \<longrightarrow> lib_uuid L userID = Some (or_owner_user_id r)) (orgs d)"

lemma isolated_seed: "mrel (dbrel (isolated org)) (seed_org L org)"
  unfolding seed_org_def gen_CreateFlow_def gen_EnsureCreditAccount_def gen_AdjustBalance_def gen_AddLedger_def
  by (intro mrel_intros mrel_db_exec; (auto simp: isolated_simps split: option.splits if_splits; fail)?)

lemma seed_orgs: "mrel (dbrel (\<lambda>d d'. orgs d' = orgs d)) (seed_org L org)"
  unfolding seed_org_def gen_CreateFlow_def gen_EnsureCreditAccount_def gen_AdjustBalance_def gen_AddLedger_def
  by (intro mrel_intros mrel_db_exec; (auto split: option.splits if_splits; fail)?)

lemma isolated_create:
  "mrel (dbrel (isolated oid)) (gen_CreateOrg oid name uid)"
  unfolding gen_CreateOrg_def by (rule mrel_db_exec) (auto simp: isolated_simps split: if_splits)

definition fresh_org :: "OrgID \<Rightarrow> database \<Rightarrow> bool" where
  "fresh_org org d \<longleftrightarrow> org \<notin> or_id ` set (orgs d)"

lemma fresh_org_ex: "\<exists>org. fresh_org org d"
  using ex_new_if_finite [of "or_id ` set (orgs d)"] by (auto simp: fresh_org_def infinite_UNIV_listI)

lemma fresh_owned: "fresh_org org d \<Longrightarrow> owned L userID org d"
  by (auto simp: fresh_org_def owned_def list_all_iff)

text \<open>
  What finding or making the user's organisation does: at most it makes a new one, the one it returns.
\<close>

definition ensured :: "libs \<Rightarrow> string \<Rightarrow> world \<Rightarrow> go_error + Org \<Rightarrow> world \<Rightarrow> bool" where
  "ensured L userID w r w' \<longleftrightarrow> (\<exists>org. chats_ok (w_db w') \<and> calls_ok (w_db w') \<and> foreign org (w_db w') = foreign org (w_db w) \<and>
     owned L userID org (w_db w) \<and> (w_db w' = w_db w \<or> fresh_org org (w_db w)) \<and>
     (\<forall>o'. r = Inr o' \<longrightarrow> og_ID o' = org \<and> lib_uuid L org = Some org))"

lemma ensured_same:
  assumes "tables_ok L (w_db w)" and "w_db w' = w_db w"
  shows "ensured L userID w (Inl e) w'"
proof -
  obtain org where "fresh_org org (w_db w)" using fresh_org_ex by blast
  with assms fresh_owned [OF this] show ?thesis by (auto simp: ensured_def tables_ok_def)
qed

lemma wp_CreateOrg_isolated:
  assumes "List.find (\<lambda>r. or_owner_user_id r = uid) (orgs (w_db w)) = None"
  shows "wp (gen_CreateOrg oid name uid) (\<lambda>r w'. case r of
      Inl e \<Rightarrow> w_db w' = w_db w
    | Inr _ \<Rightarrow> fresh_org oid (w_db w) \<and> isolated oid (w_db w) (w_db w') \<and>
        List.find (\<lambda>r. or_owner_user_id r = uid) (orgs (w_db w')) = Some (last (orgs (w_db w'))) \<and> or_id (last (orgs (w_db w'))) = oid) w"
proof -
  have append: "List.find P (xs @ [y]) = Some y" if "List.find P xs = None" "P y" for P y and xs :: "OrgRow list"
    using that by (induction xs) (auto split: if_splits)
  show ?thesis unfolding gen_CreateOrg_def
    by (rule wp_db_exec) (use assms in \<open>auto simp: fresh_org_def find_None_iff append isolated_simps split: if_splits\<close>)
qed

lemma wp_EnsureForUser_isolated:
  assumes ok: "tables_ok L (w_db w)" and "uuid_lib L"
  shows "wp (pg_EnsureForUser L userID name) (ensured L userID w) w"
  unfolding pg_EnsureForUser_def
proof (rule wp_bnd [OF wp_uuid_Parse], goal_cases)
  case (1 e w0)
  with ok show ?case by (simp add: ensured_same)
next
  case (2 uid w0)
  then have uid: "lib_uuid L userID = Some uid" and w0: "w0 = w" by auto
  show ?case unfolding w0
  proof (rule wp_attempt [OF wp_GetOrgByOwner], goal_cases)
    case (1 q v)
    show ?case
    proof (cases q)
      case (Inr x)
      obtain oid nm where x: "x = (oid, nm)" by (cases x)
      with 1 Inr obtain row where "List.find (\<lambda>r. or_owner_user_id r = uid) (orgs (w_db w)) = Some row" "oid = or_id row" by auto
      with ok uid have "owned L userID oid (w_db w)" "lib_uuid L oid = Some oid"
        by (auto simp: owned_def tables_ok_def list_all_iff distinct_map dest!: find_SomeD dest: inj_onD)
      with 1 Inr x ok show ?thesis by (auto simp: ensured_def tables_ok_def)
    next
      case (Inl e)
      show ?thesis
      proof (cases "e = ErrNoRows")
        case True
        let ?oid = "fst (new_uuid v)" and ?v = "snd (new_uuid v)"
        have none: "List.find (\<lambda>r. or_owner_user_id r = uid) (orgs (w_db ?v)) = None" and db: "w_db ?v = w_db w"
          using 1 Inl True by auto
        have can: "lib_uuid L ?oid = Some ?oid" using assms(2) by (rule new_uuid_parses)
        have done': "ensured L userID w r w'"
          if "fresh_org ?oid (w_db w)" "isolated ?oid (w_db w) (w_db w')" "\<forall>o'. r = Inr o' \<longrightarrow> og_ID o' = ?oid" for r w'
          using that ok can fresh_owned [OF that(1)] by (auto simp: ensured_def tables_ok_def isolated_def)
        have rest: "wp (bnd (gen_GetOrgByOwner uid) (\<lambda>(rid, rname). bnd (if rid = ?oid then seed_org L ?oid else ret ()) (\<lambda>_.
            ret \<lparr>og_ID = rid, og_Name = rname\<rparr>))) (ensured L userID w) v2"
          if "fresh_org ?oid (w_db w)" "isolated ?oid (w_db w) (w_db v2)"
            "List.find (\<lambda>r. or_owner_user_id r = uid) (orgs (w_db v2)) = Some row" "or_id row = ?oid" for v2 row
        proof (rule wp_bnd [OF wp_GetOrgByOwner], goal_cases)
          case (1 e v3)
          with that show ?case by (auto intro!: done')
        next
          case (2 x v3)
          with that obtain nm where x: "x = (?oid, nm)" by (cases x) auto
          show ?case unfolding x prod.case if_P [OF refl]
            by (rule wp_bnd [OF wp_mrel [OF isolated_seed]])
               (use 2 that in \<open>auto intro!: done' simp: dbrel_def dest: preorder_rel_trans [OF preorder_isolated]\<close>)
        qed
        show ?thesis unfolding Inl sum.case using True
        proof (simp, intro wp_bnd [OF wp_CreateOrg_isolated [OF none]], goal_cases)
          case (1 e' v2)
          with db ok show ?case by (simp add: ensured_same)
        next
          case (2 u v2)
          with db show ?case by (intro rest) auto
        qed
      qed (use 1 Inl ok in \<open>simp add: ensured_same\<close>)
    qed
  qed
qed

end
