(* ===== verification/Yaver_Offline.thy ===== *)
theory Yaver_Offline
  imports Yaver_Isolation
begin

text \<open>
  A deployment without remote services, with the adapters of the repository that need none of them: the logging
  senders, the mock voice provider and gateway, the in-process dispatcher and the built-in assistant. The
  contracts of the adapters are interpreted on it, and concrete runs use it.
\<close>

section \<open>The deployment\<close>

definition offline :: remote where
  "offline = \<lparr>rm_libs = (\<lambda>key. demo_libs),
     rm_http = \<lparr>hl_first = (\<lambda>s. None), hl_whole = (\<lambda>s. None), hl_rfc3339 = (\<lambda>t. []), hl_parse_rfc3339 = (\<lambda>s. None)\<rparr>,
     rm_lower = id, rm_sql_lower = id, rm_base64 = Some, rm_db_url = (\<lambda>u. True), rm_do = (\<lambda>q. fail ErrConn), rm_get = (\<lambda>u. fail ErrConn),
     rm_basic = (\<lambda>u p. u @ p), rm_sip = (\<lambda>u k s t n r. fail ErrConn),
     rm_ssl = \<lparr>sl_Session = (\<lambda>u f. fail ErrConn), sl_Validate = (\<lambda>u f. fail ErrConn)\<rparr>, rm_hatchet = None,
     rm_claude = (\<lambda>k q. fail ErrConn), rm_graph = (\<lambda>u b. fail ErrConn), rm_merchant = (\<lambda>e w. Inl ''down''), rm_url_ok = (\<lambda>u. True),
     rm_openapi = [], rm_widget = []\<rparr>"

definition offline_vars :: "(string \<times> string) list" where
  "offline_vars = [(''YAVER_ENV'', ''prod''), (''YAVER_PORT'', ''8080''), (''YAVER_DATABASE_URL'', ''db''), (''YAVER_AUTH_SECRET'', ''s''),
     (''YAVER_ORCHESTRATOR'', ''local''), (''YAVER_ENCRYPTION_KEY'', replicate 32 (CHR ''k'')), (''YAVER_VOICE_PROVIDER'', ''mock''),
     (''YAVER_SMS_SENDER'', ''log''), (''YAVER_STT_PROVIDER'', ''noop''), (''YAVER_CHAT_PROVIDER'', ''builtin''), (''YAVER_MSG_SENDER'', ''log''),
     (''YAVER_EMAIL_SENDER'', ''log''), (''YAVER_EMAIL_FROM'', ''a@b''), (''YAVER_PAYMENT_GATEWAY'', ''mock''), (''YAVER_APP_URL'', ''http://a''),
     (''YAVER_WEB_URL'', ''http://w'')]"

definition offline_env :: "string \<Rightarrow> string" where
  "offline_env k = (case map_of offline_vars k of None \<Rightarrow> [] | Some v \<Rightarrow> v)"

definition offline_config :: Config where
  "offline_config = config_of offline_env"

definition offline_ports :: ports where
  "offline_ports = \<lparr>po_sms = sms_logsender, po_email = email_logsender, po_voice = mock_provider, po_stt = noop_STT,
     po_gateway = mock_gateway ''http://a'', po_orch = local_orchestrator, po_chat = builtin_model id, po_msg = messaging_logsender\<rparr>"

abbreviation offline_deps :: deps where
  "offline_deps \<equiv> main_deps offline offline_config demo_libs offline_ports"

lemma offline_env_simps:
  "offline_env ''YAVER_ENV'' = ''prod''" "offline_env ''YAVER_PORT'' = ''8080''" "offline_env ''YAVER_DATABASE_URL'' = ''db''"
  "offline_env ''YAVER_AUTH_SECRET'' = ''s''" "offline_env ''YAVER_ORCHESTRATOR'' = ''local''"
  "offline_env ''YAVER_ENCRYPTION_KEY'' = replicate 32 (CHR ''k'')" "offline_env ''YAVER_VOICE_PROVIDER'' = ''mock''"
  "offline_env ''YAVER_SMS_SENDER'' = ''log''" "offline_env ''YAVER_STT_PROVIDER'' = ''noop''" "offline_env ''YAVER_CHAT_PROVIDER'' = ''builtin''"
  "offline_env ''YAVER_MSG_SENDER'' = ''log''" "offline_env ''YAVER_EMAIL_SENDER'' = ''log''" "offline_env ''YAVER_EMAIL_FROM'' = ''a@b''"
  "offline_env ''YAVER_PAYMENT_GATEWAY'' = ''mock''" "offline_env ''YAVER_APP_URL'' = ''http://a''" "offline_env ''YAVER_WEB_URL'' = ''http://w''"
  by (simp_all add: offline_env_def offline_vars_def)

lemma offline_chosen: "choose_ports offline offline_config = Inr offline_ports"
  by (simp add: choose_ports_def pick_defs offline_config_def config_of_def offline_env_simps offline_ports_def) (simp add: offline_def)

lemma offline_boot: "main_boot offline_env offline = Inr (offline_config, offline_deps)"
proof -
  have load: "config_Load offline_env = Inr offline_config"
    by (simp add: config_Load_def required_vars_def offline_config_def config_of_def offline_env_simps)
  have key: "crypto_New offline (cf_EncryptionKey offline_config) = Inr demo_libs"
    by (simp add: crypto_New_def offline_def offline_config_def config_of_def offline_env_simps)
  show ?thesis by (simp add: main_boot_def load key offline_chosen) (simp add: offline_def)
qed

lemma offline_detached: "remote_detached offline"
  by (auto simp: remote_detached_def offline_def intro!: mrel_intros)

lemma offline_live: "cf_Env offline_config = ''prod''"
  by (simp add: offline_config_def config_of_def offline_env_simps)

lemma offline_libs [simp]: "sd_libs offline_deps = demo_libs" "uuid_lib demo_libs"
  by (simp_all add: main_deps_def uuid_lib_def demo_libs_def)

section \<open>The contracts, met\<close>

interpretation off: detached_ports offline offline_ports
  by (rule chosen_ports_detached [OF offline_chosen offline_detached])

interpretation shop: tenant offline offline_ports "''o''" offline_config demo_libs
  by unfold_locales (simp add: demo_libs_def)

section \<open>A state and requests\<close>

text \<open>Two shops and a signed-in owner of the first.\<close>

definition two_shops :: database where
  "two_shops = empty_db\<lparr>
     users := [\<lparr>ur_id = ''u'', ur_phone = Some ''+8801700000000'', ur_email = None, ur_name = None, ur_created_at = 0, ur_password_hash = None\<rparr>],
     sessions := [\<lparr>se_id = ''s'', se_token_hash = hashToken demo_libs ''tok'', se_user_id = ''u'', se_expires_at = 100, se_created_at = 0\<rparr>],
     orgs := [\<lparr>or_id = ''o'', or_name = ''Shop'', or_owner_user_id = ''u'', or_credits_balance_paisa = 0, or_created_at = 0\<rparr>,
       \<lparr>or_id = ''x'', or_name = ''Other'', or_owner_user_id = ''v'', or_credits_balance_paisa = 0, or_created_at = 0\<rparr>],
     org_credits := [\<lparr>oc_org_id = ''o'', oc_balance = 500\<rparr>]\<rparr>"

definition two_shops_server :: server where
  "two_shops_server = server_New (init_world\<lparr>w_db := two_shops\<rparr>)"

definition dnd_request :: "(string \<times> string) list \<Rightarrow> request" where
  "dnd_request cookies = \<lparr>hr_Method = ''POST'', hr_Path = [''v1'', ''customers'', ''c'', ''dnd''], hr_Query = (\<lambda>k. []), hr_Header = (\<lambda>k. []),
     hr_Cookies = cookies, hr_RemoteAddr = ''1.2.3.4:5'', hr_Body = [], hr_PostForm = None, hr_FormValue = (\<lambda>k. []),
     hr_PathValue = (\<lambda>k. []), hr_user = None, hr_org = None, hr_orgObj = None\<rparr>"

lemma two_shops_ok: "tables_ok demo_libs (w_db (sv_world two_shops_server))"
  by (simp add: tables_ok_def two_shops_server_def server_New_def two_shops_def chats_ok_def calls_ok_def demo_libs_def)

lemma dnd_route: "\<exists>rt. find_route offline_deps (dnd_request cookies) = Some rt \<and> rt_Guard rt = GSession"
  by (simp add: find_route_def matches_def match_method_def server_routes_def route_def dnd_request_def)

end
