(* ===== verification/Yaver_Access.thy ===== *)
theory Yaver_Access
  imports Yaver_Offline
begin

text \<open>
  Who may do what over HTTP, for the program as \<open>main.go\<close> wires it: the choice of a route, the
  rule of the session middleware, requests without a live session and signed-in requests.
\<close>

section \<open>Routing\<close>

lemma most_specific_mem: "most_specific rts = Some rt \<Longrightarrow> rt \<in> set rts"
  by (induction rts arbitrary: rt) (auto split: option.splits if_splits)

lemma find_route_mem: "find_route d r = Some rt \<Longrightarrow> rt \<in> set (server_routes d) \<and> matches r rt"
  unfolding find_route_def by (drule most_specific_mem) simp

text \<open>The paths of the dashboard: all under \<open>/v1\<close> but signing in and event ingestion.\<close>

fun dashboard_path :: "string list \<Rightarrow> bool" where
  "dashboard_path (a # b # ps) \<longleftrightarrow> a = ''v1'' \<and> b \<noteq> ''auth'' \<and> b \<noteq> ''events''"
| "dashboard_path ps \<longleftrightarrow> False"

lemma dashboard_routes:
  assumes "rt \<in> set (server_routes d)" and "match_path (rt_Pattern rt) path \<noteq> None" and "dashboard_path path"
  shows "rt_Guard rt = GSession"
proof -
  from assms(3) obtain b ps where path: "path = ''v1'' # b # ps" "b \<noteq> ''auth''" "b \<noteq> ''events''"
    by (cases path rule: dashboard_path.cases) auto
  have "\<forall>rt \<in> set (server_routes d). match_path (rt_Pattern rt) (''v1'' # b # ps) \<noteq> None \<longrightarrow> rt_Guard rt = GSession"
    unfolding server_routes_def route_def using path(2,3) by simp
  with assms path show ?thesis by blast
qed

lemma session_unlimited:
  assumes "rt \<in> set (server_routes d)" and "rt_Guard rt = GSession"
  shows "rt_Limit rt = None"
proof -
  have "\<forall>rt \<in> set (server_routes d). rt_Guard rt = GSession \<longrightarrow> rt_Limit rt = None"
    unfolding server_routes_def route_def by simp
  with assms show ?thesis by blast
qed

text \<open>A request as its handler gets it.\<close>

definition routed :: "route \<Rightarrow> request \<Rightarrow> request" where
  "routed rt r = r\<lparr>hr_PathValue := path_values (the (match_path (rt_Pattern rt) (hr_Path r))), hr_user := None, hr_org := None, hr_orgObj := None\<rparr>"

lemma routed_simps [simp]: "hr_Cookies (routed rt r) = hr_Cookies r" "hr_Header (routed rt r) = hr_Header r" "hr_Body (routed rt r) = hr_Body r"
  by (simp_all add: routed_def)

lemma serve_session:
  assumes "find_route d r = Some rt" and "rt_Guard rt = GSession"
  shows "serve d r s = with_world s (requireAuth (the_ah d) (rt_Handler rt) (routed rt r) (sv_world s))"
  using assms session_unlimited [OF conjunct1 [OF find_route_mem [OF assms(1)]] assms(2)]
  by (simp add: serve_def run_route_def guarded_def routed_def)

section \<open>Sessions\<close>

lemma preorder_env_frame [simp, intro]: "preorder_rel env_frame"
  by (rule preorder_relI) (auto intro: env_frame_trans)

lemma env_frame_db_read [mrel_intros]: "mrel env_frame (db_read q)"
  by (rule mrel_wp) (rule wp_db_read, simp_all)

lemma wp_Resolve:
  "wp (auth_Resolve (auth_service L low lower secret env sms) v) (\<lambda>q w'. w_db w' = w_db w \<and> env_frame w w' \<and>
     (q = Inl ErrConn \<or> q = Inr None \<or> v \<noteq> [] \<and> q = Inr (resolved (w_db w) (hashToken L v) (w_now w')))) w"
proof (cases "v = []")
  case False
  have "mrel env_frame (pg_SessionUser h)" for h unfolding pg_SessionUser_def by (intro mrel_intros) auto
  from wp_conj [OF wp_SessionUser wp_mrel [OF this]] show ?thesis
    unfolding auth_Resolve_def if_not_P [OF False] auth_service_simps by (rule wp_mono) (use False in auto)
qed (simp add: auth_Resolve_def)

text \<open>The rule of the session middleware.\<close>

definition with_org :: "libs \<Rightarrow> handler \<Rightarrow> request \<Rightarrow> SessionUser \<Rightarrow> response wop" where
  "with_org L nxt r su = svc (pg_EnsureForUser L (su_UserID su) ''My Store'') (\<lambda>q'. case q' of
     Inl _ \<Rightarrow> internal | Inr org \<Rightarrow> nxt (r\<lparr>hr_user := Some su, hr_org := Some (og_ID org), hr_orgObj := Some org\<rparr>))"

lemma wp_requireAuth:
  assumes refused: "\<And>resp w'. w_db w' = w_db w \<Longrightarrow> env_frame w w' \<Longrightarrow>
      resp \<in> {err_body 401 ''unauthorized'', err_body 500 ''internal''} \<Longrightarrow> Q (Inr resp) w'"
    and user: "\<And>v su w1. map_of (hr_Cookies r) cookieName = Some v \<Longrightarrow> v \<noteq> [] \<Longrightarrow> env_frame w w1 \<Longrightarrow>
      resolved (w_db w) (hashToken L v) (w_now w1) = Some su \<Longrightarrow> w_db w1 = w_db w \<Longrightarrow> wp (with_org L nxt r su) Q w1"
  shows "wp (requireAuth (the_ah (main_deps A c L p)) nxt r) Q w"
proof (cases "map_of (hr_Cookies r) cookieName")
  case None
  then show ?thesis by (simp add: requireAuth_def respond_err_def refused)
next
  case (Some v)
  show ?thesis unfolding requireAuth_def Some option.case svc_def [of "auth_Resolve _ _"] main_handlers repo_more_simps
  proof (rule wp_attempt [OF wp_Resolve], goal_cases)
    case (1 q w1)
    have user': "wp (with_org L nxt r su) Q w1" if "q = Inr (Some su)" for su
      using 1 that Some by (intro user [of v w1 su]) auto
    show ?case
    proof (cases q)
      case (Inl e)
      with 1 show ?thesis by (simp add: respond_err_def refused)
    next
      case (Inr x)
      show ?thesis
      proof (cases x)
        case (Some su)
        with user' [of su] Inr show ?thesis by (simp add: with_org_def)
      qed (use 1 Inr in \<open>simp add: respond_err_def refused\<close>)
    qed
  qed
qed

text \<open>A session cookie that opens nothing: missing, empty, unknown or expired.\<close>

definition dead_cookie :: "libs \<Rightarrow> request \<Rightarrow> world \<Rightarrow> bool" where
  "dead_cookie L r w = (case map_of (hr_Cookies r) cookieName of
       None \<Rightarrow> True
     | Some v \<Rightarrow> v = [] \<or> list_all (\<lambda>s. se_token_hash s = hashToken L v \<longrightarrow> se_expires_at s \<le> w_now w) (sessions (w_db w)))"

lemma dead_cookie_unresolved:
  assumes "dead_cookie L r w" and "map_of (hr_Cookies r) cookieName = Some v" and "v \<noteq> []" and "w_now w \<le> t"
  shows "resolved (w_db w) (hashToken L v) t = None"
  using assms by (fastforce simp: dead_cookie_def resolved_def list_all_iff split: option.splits dest: find_SomeD)

lemma boot_deps:
  assumes "main_boot env A = Inr (c, d)"
  obtains p where "d = main_deps A c (sd_libs d) p" "choose_ports A c = Inr p"
  using assms by (auto simp: main_boot_def main_deps_def split: sum.splits if_splits)

context tenant
begin

lemma session_isolated:
  "hr_org r = Some org \<Longrightarrow> cf_Env c \<noteq> ''dev'' \<Longrightarrow> rt \<in> set (server_routes (main_deps A c L p)) \<Longrightarrow> rt_Guard rt = GSession \<Longrightarrow>
     mrel (dbrel (isolated org)) (rt_Handler rt r)"
  by (rule iso.session_routes)

end

section \<open>Properties\<close>

text \<open>
  Property C4: the dashboard is closed without a live session. A request to any dashboard path, with
  whatever method, body and headers, whose session cookie is missing, empty, unknown or expired gets one of
  four fixed answers (401, 404, 405, or 500 when the database is lost), changes no table and no limiter,
  and nothing leaves the process.
\<close>

theorem no_session_no_access:
  assumes "main_boot env A = Inr (c, d)" and "dashboard_path (hr_Path r)" and "dead_cookie (sd_libs d) r (sv_world s)"
    and "serve d r s = (q, s')"
  shows "q \<in> Inr ` {err_body 401 ''unauthorized'', err_body 500 ''internal'', not_found, method_not_allowed} \<and>
    w_db (sv_world s') = w_db (sv_world s) \<and> quiet (sv_world s) (sv_world s') \<and>
    sv_authLimit s' = sv_authLimit s \<and> sv_publicLimit s' = sv_publicLimit s"
proof (cases "find_route d r")
  case None
  with assms(4) show ?thesis by (auto simp: serve_def quiet_def split: if_splits)
next
  case (Some rt)
  from find_route_mem [OF Some] assms(2) have guard: "rt_Guard rt = GSession"
    by (intro dashboard_routes [of rt d "hr_Path r"]) (auto simp: matches_def)
  from assms(1) obtain p where d: "d = main_deps A c (sd_libs d) p" by (rule boot_deps)
  let ?w = "sv_world s"
  have "wp (requireAuth (the_ah (main_deps A c (sd_libs d) p)) (rt_Handler rt) (routed rt r)) (\<lambda>q w'.
      q \<in> Inr ` {err_body 401 ''unauthorized'', err_body 500 ''internal''} \<and> w_db w' = w_db ?w \<and> quiet ?w w') ?w"
    by (rule wp_requireAuth)
       (use dead_cookie_unresolved [OF assms(3)] in \<open>auto simp: quiet_def env_frame_def\<close>)
  from wpD [OF this [folded d] surjective_pairing] assms(4) show ?thesis
    unfolding serve_session [OF Some guard] with_world_def by auto
qed

theorem no_session_no_access_witness:
  "w_db (sv_world (snd (serve offline_deps (dnd_request [(cookieName, ''stale'')]) two_shops_server))) = two_shops"
proof -
  have path: "dashboard_path (hr_Path (dnd_request [(cookieName, ''stale'')]))" by (simp add: dnd_request_def)
  have "dead_cookie (sd_libs offline_deps) (dnd_request [(cookieName, ''stale'')]) (sv_world two_shops_server)"
    unfolding offline_libs
    by (simp add: dead_cookie_def dnd_request_def two_shops_server_def server_New_def two_shops_def hashToken_def demo_libs_def)
  from no_session_no_access [OF offline_boot path this surjective_pairing] show ?thesis
    by (simp add: two_shops_server_def server_New_def)
qed

text \<open>
  Property C3: tenants are isolated. Outside a development deployment, whatever a signed-in request asks of
  the dashboard, in whatever way it fails, there is one organisation such that no row of any
  other organisation and no user, code or session changes; and unless that organisation is new, it is
  the one the session's user owns.
\<close>

theorem tenants_isolated:
  assumes "main_boot env A = Inr (c, d)" and "cf_Env c \<noteq> ''dev''" and "remote_detached A" and "uuid_lib (sd_libs d)"
    and "tables_ok (sd_libs d) (w_db (sv_world s))"
    and "find_route d r = Some rt" and "rt_Guard rt = GSession" and "serve d r s = (q, s')"
  shows "\<exists>org. foreign org (w_db (sv_world s')) = foreign org (w_db (sv_world s)) \<and>
    (w_db (sv_world s') = w_db (sv_world s) \<or> fresh_org org (w_db (sv_world s)) \<or>
      (\<exists>v t su. map_of (hr_Cookies r) cookieName = Some v \<and> resolved (w_db (sv_world s)) (hashToken (sd_libs d) v) t = Some su \<and>
        owned (sd_libs d) (su_UserID su) org (w_db (sv_world s))))"
    (is "?iso (w_db (sv_world s'))")
proof -
  let ?w = "sv_world s" and ?L = "sd_libs d"
  from assms(1) obtain p where d: "d = main_deps A c ?L p" and "choose_ports A c = Inr p" by (rule boot_deps)
  then have ports: "detached_ports A p" using assms(3) chosen_ports_detached by blast
  have "wp (requireAuth (the_ah (main_deps A c ?L p)) (rt_Handler rt) (routed rt r)) (\<lambda>q w'. ?iso (w_db w')) ?w"
  proof (rule wp_requireAuth, goal_cases)
    case (2 v su w1)
    have ok1: "tables_ok ?L (w_db w1)" using assms(5) 2(5) by simp
    show ?case unfolding with_org_def svc_def [of "pg_EnsureForUser _ _ _"]
    proof (rule wp_attempt [OF wp_EnsureForUser_isolated [OF ok1 assms(4)]], goal_cases)
      case (1 r1 w2)
      then obtain org where org: "chats_ok (w_db w2)" "calls_ok (w_db w2)" "foreign org (w_db w2) = foreign org (w_db ?w)"
        "owned ?L (su_UserID su) org (w_db ?w)" "w_db w2 = w_db ?w \<or> fresh_org org (w_db ?w)"
        "\<forall>o'. r1 = Inr o' \<longrightarrow> og_ID o' = org \<and> lib_uuid ?L org = Some org"
        using 2(5) by (auto simp: ensured_def)
      have own: "?iso x" if "foreign org x = foreign org (w_db ?w)" for x
        using that 2(1,4) org(4) by auto
      show ?case
      proof (cases r1)
        case (Inl e)
        with own [OF org(3)] show ?thesis by (simp add: respond_err_def)
      next
        case (Inr o')
        with org(6) have o': "og_ID o' = org" "lib_uuid ?L org = Some org" by auto
        have "tenant A p org ?L" using ports o'(2) by (simp add: tenant_def tenant_axioms_def)
        from tenant.session_isolated [OF this, of _ c rt] find_route_mem [OF assms(6)] assms(2,7) o'(1) d
        have "mrel (dbrel (isolated org)) (rt_Handler rt ((routed rt r)\<lparr>hr_user := Some su, hr_org := Some (og_ID o'), hr_orgObj := Some o'\<rparr>))"
          by auto
        from wp_mono [OF wp_mrel [OF this, of w2]] own org(1-3) show ?thesis
          unfolding Inr by (auto simp: dbrel_def isolated_def)
      qed
    qed
  qed (use fresh_org_ex in auto)
  from wpD [OF this [folded d] surjective_pairing] assms(8) show ?thesis
    unfolding serve_session [OF assms(6,7)] with_world_def by auto
qed

theorem tenants_isolated_witness:
  "\<exists>org. foreign org (w_db (sv_world (snd (serve offline_deps (dnd_request [(cookieName, ''tok'')]) two_shops_server)))) = foreign org two_shops"
proof -
  obtain rt where rt: "find_route offline_deps (dnd_request [(cookieName, ''tok'')]) = Some rt" "rt_Guard rt = GSession"
    using dnd_route by blast
  have "cf_Env offline_config \<noteq> ''dev''" "uuid_lib (sd_libs offline_deps)" "tables_ok (sd_libs offline_deps) (w_db (sv_world two_shops_server))"
    using two_shops_ok by (simp_all add: offline_live)
  from tenants_isolated [OF offline_boot this(1) offline_detached this(2,3) rt surjective_pairing] show ?thesis
    by (auto simp: two_shops_server_def server_New_def)
qed

end
