(* ===== verification/Yaver_Keys.thy ===== *)
theory Yaver_Keys
  imports Yaver_Access
begin

text \<open>
  Requests that carry an API key: event ingestion from a store's server with a secret key, and the chat
  widget in a customer's browser with a publishable one.
\<close>

section \<open>What a key opens\<close>

definition opens :: "libs \<Rightarrow> string \<Rightarrow> OrgID \<Rightarrow> string \<Rightarrow> database \<Rightarrow> bool" where
  "opens L presented org kd d \<longleftrightarrow> list_ex (\<lambda>row. apikey_Prefix presented = Some (ak_prefix row) \<and>
     ak_secret_hash row = lib_sha256 L presented \<and> ak_org_id row = org \<and> ak_kind row = kd) (api_keys d)"

definition key_ids_unique :: "database \<Rightarrow> bool" where
  "key_ids_unique d \<longleftrightarrow> distinct (map ak_id (api_keys d))"

text \<open>Recognising a key changes nothing but the time of its last use.\<close>

definition touched :: "OrgID \<Rightarrow> database \<Rightarrow> database \<Rightarrow> bool" where
  "touched org d d' \<longleftrightarrow> isolated org d d' \<and> d'\<lparr>api_keys := api_keys d\<rparr> = d"

lemma touch_isolated:
  assumes "key_ids_unique (w_db w)" and "row \<in> set (api_keys (w_db w))"
  shows "wp (ignore (pg_key_Touch (ak_id row))) (\<lambda>r w'. r = Inr () \<and> touched (ak_org_id row) (w_db w) (w_db w')) w"
proof -
  have own: "filter (\<lambda>r. ak_org_id r \<noteq> ak_org_id row) (upd_where (\<lambda>r. ak_id r = ak_id row) (\<lambda>r. r\<lparr>ak_last_used_at := t\<rparr>) rows) =
      filter (\<lambda>r. ak_org_id r \<noteq> ak_org_id row) rows" if "distinct (map ak_id rows)" "row \<in> set rows" for t rows
  proof -
    have eq: "upd_where (\<lambda>r. ak_id r = ak_id row) (\<lambda>r. r\<lparr>ak_last_used_at := t\<rparr>) rows =
        upd_where (\<lambda>r. ak_org_id r = ak_org_id row \<and> ak_id r = ak_id row) (\<lambda>r. r\<lparr>ak_last_used_at := t\<rparr>) rows"
      using that unfolding upd_where_def by (auto simp: distinct_map inj_on_def)
    show ?thesis unfolding eq by (rule filter_upd_own(2)) simp
  qed
  have "wp (pg_key_Touch (ak_id row)) (\<lambda>r w'. touched (ak_org_id row) (w_db w) (w_db w')) w"
    unfolding pg_key_Touch_def gen_TouchAPIKey_def
    by (rule wp_db_exec) (use assms in \<open>auto simp: key_ids_unique_def isolated_simps touched_def own\<close>)
  then show ?thesis by (rule wp_ignore) simp
qed

lemma wp_Authenticate_touch:
  assumes "key_ids_unique (w_db w)"
  shows "wp (apikeys_Authenticate L pg_apikeys presented) (\<lambda>r w'. case r of
      Inr (Some (org, k)) \<Rightarrow> opens L presented org k (w_db w) \<and> touched org (w_db w) (w_db w')
    | _ \<Rightarrow> w_db w' = w_db w) w"
proof (cases "apikey_Prefix presented")
  case None
  then show ?thesis by (simp add: apikeys_Authenticate_def)
next
  case (Some pfx)
  show ?thesis unfolding apikeys_Authenticate_def Some option.case pg_apikeys_simps
  proof (rule wp_bnd [OF wp_ByPrefix], goal_cases)
    case (2 found w1)
    show ?case
    proof (cases found)
      case (Some x)
      obtain kid org k h where x: "x = (kid, org, k, h)" by (cases x)
      from 2 Some x obtain row where row: "List.find (\<lambda>r. ak_prefix r = pfx) (api_keys (w_db w)) = Some row"
        "kid = ak_id row" "org = ak_org_id row" "k = ak_kind row" "h = ak_secret_hash row" and w1: "w_db w1 = w_db w" by auto
      note fr = find_SomeD [OF row(1)]
      have touch: "wp (ignore (pg_key_Touch (ak_id row))) (\<lambda>r w'. r = Inr () \<and> touched (ak_org_id row) (w_db w1) (w_db w')) w1"
        using touch_isolated [of w1 row] assms w1 fr by simp
      show ?thesis
      proof (cases "apikey_Verify L presented h")
        case True
        then have "opens L presented org k (w_db w)"
          using fr row \<open>apikey_Prefix presented = Some pfx\<close> by (auto simp: opens_def list_ex_iff apikey_Verify_def)
        then have "wp (bnd (ignore (pg_key_Touch kid)) (\<lambda>_. ret (Some (org, k)))) (\<lambda>r w'. case r of
            Inr (Some (org, k)) \<Rightarrow> opens L presented org k (w_db w) \<and> touched org (w_db w) (w_db w') | _ \<Rightarrow> w_db w' = w_db w) w1"
          unfolding row(2) by (intro wp_bnd [OF touch]) (use row w1 in auto)
        with True show ?thesis unfolding Some x by simp
      qed (use w1 in \<open>simp add: Some x\<close>)
    qed (use 2 in simp)
  qed simp
qed

section \<open>Requests with a key\<close>

lemma isolated_event: "ie_OrgID ev = org \<Longrightarrow> mrel (dbrel (isolated org)) (pg_event_Insert L ev)"
proof -
  assume "ie_OrgID ev = org"
  then have "mrel (dbrel (isolated org)) (gen_InsertEvent L ev)"
    unfolding gen_InsertEvent_def by (intro mrel_db_exec) (auto simp: isolated_simps split: option.splits if_splits)
  then show ?thesis unfolding pg_event_Insert_def by (intro mrel_intros) auto
qed

lemma isolated_no_db: "no_db m \<Longrightarrow> mrel (dbrel (isolated org)) m"
  by (erule mrel_mono) (simp add: dbrel_def)

context detached_ports
begin

lemma accept_isolated: "mrel (dbrel (isolated org)) (ingest_Accept (ingest_service L (po_orch p)) org ev)"
proof -
  have active: "mrel (dbrel (isolated org)) (pg_GetActiveFlow L org n)" for n
    unfolding pg_GetActiveFlow_def gen_GetActiveFlowByName_def Let_def by (intro mrel_intros) auto
  show ?thesis unfolding ingest_Accept_def ingest_route_def ingest_service_simps pg_flows_simps
    by (intro mrel_intros active isolated_event isolated_writes(3) isolated_no_db [OF orch_db]) auto
qed

lemma event_isolated: "mrel (dbrel (isolated org)) (ingest_postEvent (the_ih (main_deps A c L p)) (r\<lparr>hr_org := Some org\<rparr>))"
  unfolding ingest_postEvent_def main_handlers Let_def orgFromCtx_def
  by (intro mrel_intros) (auto intro!: mrel_intros accept_isolated)

lemma widget_isolated:
  "mrel (dbrel (isolated org)) (chat_Send (main_chat A p) org cid msg)"
  "mrel (dbrel (isolated org)) (chat_Settings (main_chat A p) org)"
  by (rule isolated_chat_ops)
     (simp add: chat_Settings_def main_chat_def asst.svc_simps asst.repo_defs, intro mrel_intros, auto)

end

text \<open>
  The outcome of a request under a key: nothing changed, or one organisation the key opens; and of that
  nothing but the key's own row if the key is of the wrong kind.
\<close>

definition keyed :: "libs \<Rightarrow> string \<Rightarrow> string \<Rightarrow> database \<Rightarrow> database \<Rightarrow> bool" where
  "keyed L presented kd d d' \<longleftrightarrow> d' = d \<or> (\<exists>org k. opens L presented org k d \<and> foreign org d' = foreign org d \<and>
     (k = kd \<or> d'\<lparr>api_keys := api_keys d\<rparr> = d))"

lemma keyed_refl [simp, intro]: "keyed L presented kd d d"
  by (simp add: keyed_def)

lemma wp_keyed:
  assumes "key_ids_unique (w_db w)" and ok: "chats_ok (w_db w)" "calls_ok (w_db w)"
    and step: "\<And>org. mrel (dbrel (isolated org)) (k org)"
  shows "wp (svc (apikeys_Authenticate L pg_apikeys presented) (\<lambda>q. case q of
       Inl _ \<Rightarrow> internal
     | Inr None \<Rightarrow> respond_err 401 msg
     | Inr (Some (org, kd')) \<Rightarrow> if kd' \<noteq> kd then respond_err 401 msg else k org)) (\<lambda>r w'. keyed L presented kd (w_db w) (w_db w')) w"
  unfolding svc_def
proof (rule wp_attempt [OF wp_Authenticate_touch [OF assms(1)]], goal_cases)
  case (1 q w1)
  show ?case
  proof (cases "\<exists>org kd'. q = Inr (Some (org, kd'))")
    case True
    then obtain org kd' where q: "q = Inr (Some (org, kd'))" by blast
    with 1 have o: "opens L presented org kd' (w_db w)" "touched org (w_db w) (w_db w1)" by auto
    show ?thesis
    proof (cases "kd' = kd")
      case True
      have "wp (k org) (\<lambda>r w'. keyed L presented kd (w_db w) (w_db w')) w1"
        by (rule wp_mono [OF wp_mrel [OF step]])
           (use o ok True in \<open>auto simp: keyed_def touched_def dbrel_def isolated_def\<close>)
      with q True show ?thesis by simp
    qed (use o ok q in \<open>auto simp: respond_err_def keyed_def touched_def isolated_def\<close>)
  qed (use 1 in \<open>auto simp: respond_err_def split: sum.splits option.splits\<close>)
qed

lemma key_routes:
  assumes "rt \<in> set (server_routes d)"
  shows "rt_Guard rt = GKey \<Longrightarrow> rt_Handler rt = ingest_postEvent (the_ih d)"
    and "rt_Guard rt = GCors \<Longrightarrow> rt_Handler rt \<in> {public_chatSend (the_ph d), public_chatConfig (the_ph d), public_widget (the_ph d)}"
proof -
  have "\<forall>rt \<in> set (server_routes d). (rt_Guard rt = GKey \<longrightarrow> rt_Handler rt = ingest_postEvent (the_ih d)) \<and>
      (rt_Guard rt = GCors \<longrightarrow> rt_Handler rt \<in> {public_chatSend (the_ph d), public_chatConfig (the_ph d), public_widget (the_ph d)})"
    unfolding server_routes_def route_def by simp
  with assms show "rt_Guard rt = GKey \<Longrightarrow> rt_Handler rt = ingest_postEvent (the_ih d)"
    "rt_Guard rt = GCors \<Longrightarrow> rt_Handler rt \<in> {public_chatSend (the_ph d), public_chatConfig (the_ph d), public_widget (the_ph d)}"
    by blast+
qed

lemma serve_guarded:
  assumes "find_route d r = Some rt" and "serve d r s = (q, s')"
  shows "w_db (sv_world s') = w_db (sv_world s) \<or>
    w_db (sv_world s') = w_db (snd (guarded d (rt_Guard rt) (rt_Handler rt) (routed rt r) (sv_world s)))"
  using assms
  by (auto simp: serve_def routed_def run_route_def with_world_def Middleware_def Let_def split: option.splits limit.splits prod.splits if_splits)

context detached_ports
begin

lemma secret_keyed:
  assumes "key_ids_unique (w_db w)" and "chats_ok (w_db w)" and "calls_ok (w_db w)"
  shows "wp (requireAPIKey (the_kh (main_deps A c L p)) (ingest_postEvent (the_ih (main_deps A c L p))) r)
    (\<lambda>q w'. keyed L (hr_Header r ''X-API-Key'') ''secret'' (w_db w) (w_db w')) w"
  unfolding requireAPIKey_def main_handlers by (rule wp_keyed [OF assms event_isolated])

lemma publishable_keyed:
  assumes "key_ids_unique (w_db w)" and "chats_ok (w_db w)" and "calls_ok (w_db w)"
    and "h \<in> {public_chatSend (the_ph (main_deps A c L p)), public_chatConfig (the_ph (main_deps A c L p)), public_widget (the_ph (main_deps A c L p))}"
  shows "wp (cors h r) (\<lambda>q w'. keyed L (hr_Header r ''X-Yaver-Key'') ''publishable'' (w_db w) (w_db w')) w"
proof -
  let ?Q = "\<lambda>q w'. keyed L (hr_Header r ''X-Yaver-Key'') ''publishable'' (w_db w) (w_db w')"
  have auth: "wp (public_auth (the_ph (main_deps A c L p)) r k) ?Q w" if "\<And>org. mrel (dbrel (isolated org)) (k org)" for k
    unfolding public_auth_def main_handlers by (rule wp_keyed [OF assms(1-3) that])
  have "wp (h r) ?Q w"
  proof -
    from assms(4) consider "h = public_chatSend (the_ph (main_deps A c L p))" | "h = public_chatConfig (the_ph (main_deps A c L p))"
      | "h = public_widget (the_ph (main_deps A c L p))" by blast
    then show ?thesis
    proof cases
      case 1
      show ?thesis unfolding 1 public_chatSend_def main_handlers Let_def
        by (rule auth) (intro mrel_intros widget_isolated, auto)
    next
      case 2
      show ?thesis unfolding 2 public_chatConfig_def main_handlers by (rule auth) (intro mrel_intros widget_isolated, auto)
    qed (simp add: public_widget_def)
  qed
  then show ?thesis unfolding cors_def by (auto intro!: wp_bnd)
qed

end

section \<open>Properties\<close>


text \<open>A shop with a secret key, and an event sent under it.\<close>

definition shop_key :: string where
  "shop_key = ''yvr_sk_0123456789abcdef0123456789abcdef''"

definition keyed_server :: server where
  "keyed_server = server_New (init_world\<lparr>w_db := two_shops\<lparr>api_keys := [\<lparr>ak_id = ''k'', ak_org_id = ''o'', ak_prefix = take prefixLen shop_key,
     ak_secret_hash = lib_sha256 demo_libs shop_key, ak_name = None, ak_created_at = 0, ak_last_used_at = None, ak_kind = ''secret''\<rparr>]\<rparr>\<rparr>)"

definition event_request :: request where
  "event_request = (dnd_request [])\<lparr>hr_Path := [''v1'', ''events''], hr_Header := (\<lambda>k. if k = ''X-API-Key'' then shop_key else [])\<rparr>"


end
