(* ===== verification/Yaver_Books.thy ===== *)
theory Yaver_Books
  imports Yaver_Access
begin

text \<open>
  The books (balances, ledger, payments, and which organisations there are) under the requests of the
  dashboard. The locale \<open>books_frame\<close> takes a relation between databases that only looks at the
  books, and that opening a payment and charging for a call satisfy, and shows it of every signed-in request.
\<close>

section \<open>Who leaves the books alone\<close>

definition same_books :: "database \<Rightarrow> database \<Rightarrow> bool" where
  "same_books d d' \<longleftrightarrow> org_credits d' = org_credits d \<and> credit_ledger d' = credit_ledger d \<and> payments d' = payments d \<and>
     map or_id (orgs d') = map or_id (orgs d)"

lemma preorder_same_books [simp, intro]: "preorder_rel same_books"
  by (rule preorder_relI) (auto simp: same_books_def)

lemma same_books_refl [simp, intro]: "same_books d d"
  by (simp add: same_books_def)

named_theorems books_intros

lemma books_dashboard [books_intros]:
  "mrel (dbrel same_books) (pg_flow_Create L org nf)"
  "mrel (dbrel same_books) (pg_flow_UpdateSpec L fid org spec)"
  "mrel (dbrel same_books) (pg_cust_Upsert org s1 s2 s3)"
  "mrel (dbrel same_books) (pg_cust_SetDND org cid b)"
  "mrel (dbrel same_books) (pg_camp_Create org cid s1)"
  "mrel (dbrel same_books) (pg_camp_MarkStarted org cid n)"
  "mrel (dbrel same_books) (pg_camp_AddRecipient org cid rc)"
  "mrel (dbrel same_books) (pg_camp_Schedule org cid t)"
  "mrel (dbrel same_books) (pg_Rename L org s1)"
  "mrel (dbrel same_books) (pg_key_Create kid org s1 s2 s3 s4)"
  "mrel (dbrel same_books) (pg_chan_Upsert org s1 s2 s3 s4)"
  "mrel (dbrel same_books) (pg_chan_Delete org s1)"
  "mrel (dbrel same_books) (pg_UpsertEndpoint eid org s1 s2 ss)"
  "mrel (dbrel same_books) (pg_policy_Upsert org pol)"
  unfolding pg_flow_Create_def gen_CreateFlow_def pg_flow_UpdateSpec_def gen_UpdateFlowSpec_def pg_cust_Upsert_def gen_UpsertCustomer_def
    pg_cust_SetDND_def gen_SetCustomerDND_def pg_camp_Create_def gen_CreateCampaign_def pg_camp_MarkStarted_def gen_StartCampaign_def
    pg_camp_AddRecipient_def gen_AddRecipient_def pg_camp_Schedule_def gen_ScheduleCampaign_def pg_key_Create_def gen_CreateAPIKey_def
    pg_Rename_def uuid_Parse_def gen_RenameOrg_def pg_chan_Upsert_def gen_UpsertChannel_def pg_chan_Delete_def gen_DeleteChannel_def
    pg_UpsertEndpoint_def gen_UpsertWebhookEndpoint_def pg_policy_Upsert_def gen_UpsertCallPolicy_def
  by (intro mrel_intros mrel_db_exec; (auto simp: same_books_def map_key_upd_where split: option.splits if_splits; fail)?)+

lemma books_calls [books_intros]:
  "mrel (dbrel same_books) (pg_RecordCallOutcome L call ob)"
  "mrel (dbrel same_books) (pg_call_AttachMedia cid url txt)"
  "mrel (dbrel same_books) (pg_call_DeleteBefore t)"
  unfolding pg_RecordCallOutcome_def gen_CreateCall_def gen_InsertOutbox_def pg_call_AttachMedia_def gen_AttachCallMedia_def
    pg_call_DeleteBefore_def gen_DeleteCallsBefore_def
  by (intro mrel_with_tx mrel_intros mrel_db_exec; (auto simp: same_books_def split: option.splits if_splits; fail)?)+

lemma chat_only_books:
  assumes "chat_only d d'"
  shows "same_books d d'"
  unfolding same_books_def using arg_cong [OF assms [unfolded chat_only_def], of org_credits]
    arg_cong [OF assms [unfolded chat_only_def], of credit_ledger] arg_cong [OF assms [unfolded chat_only_def], of payments]
    arg_cong [OF assms [unfolded chat_only_def], of orgs] by simp

section \<open>The books under the dashboard\<close>

locale books_frame = detached_ports +
  fixes R :: "database \<Rightarrow> database \<Rightarrow> bool"
  assumes preorder [simp, intro]: "preorder_rel R"
    and only_books: "same_books d d' \<Longrightarrow> R d d'"
    and pay_opened: "0 < py_Credits pay \<Longrightarrow> py_Credits pay \<le> 100000 \<Longrightarrow> mrel (dbrel R) (pg_pay_Create pay)"
    and charged_one: "mrel (dbrel R) (pg_TryDeduct org creditsPerCall why)"
begin

lemma books_mrel: "mrel (dbrel same_books) m \<Longrightarrow> mrel (dbrel R) m"
  by (erule mrel_mono) (simp add: dbrel_def only_books)

lemma no_db_books: "no_db m \<Longrightarrow> mrel (dbrel R) m"
  by (erule mrel_mono) (simp add: dbrel_def only_books)

lemma chat_books: "mrel (dbrel chat_only) m \<Longrightarrow> mrel (dbrel R) m"
  by (erule mrel_mono) (auto simp: dbrel_def intro: only_books chat_only_books)

lemma R_refl [simp, intro]: "R d d"
  by (simp add: only_books)

lemma media_books: "mrel (dbrel R) (calls_transcribeCall (the_ch (main_deps A c L p)) r)"
  unfolding calls_transcribeCall_def transcription_Transcribe_def transcription_download_def calls_Get_def main_calls_def Let_def
    main_handlers calls_service_simps repo_more_simps TranscriptionService.simps pg_call_Get_def gen_GetCall_def
  by (intro mrel_intros no_db_books [OF get_db] no_db_books [OF stt_db] books_mrel [OF books_calls(2)]; auto)

end

sublocale books_frame \<subseteq> dash: session_frame A p R org c L for org c L
  by unfold_locales
     (simp_all add: books_mrel books_dashboard books_calls pay_opened charged_one chat_books only.chat_ops_R media_books)

section \<open>No credits from nowhere\<close>

text \<open>What an organisation has been given, and which of its payments are decided.\<close>

definition income :: "OrgID \<Rightarrow> database \<Rightarrow> LedgerRow list" where
  "income org d = filter (\<lambda>l. lg_org_id l = org \<and> 0 < lg_delta l) (credit_ledger d)"

definition decided :: "OrgID \<Rightarrow> database \<Rightarrow> PaymentRow list" where
  "decided org d = filter (\<lambda>r. pm_org_id r = org \<and> pm_status r \<noteq> PaymentPending) (payments d)"

definition unfunded :: "database \<Rightarrow> database \<Rightarrow> bool" where
  "unfunded d d' \<longleftrightarrow> (\<forall>org. income org d' = income org d \<and> decided org d' = decided org d \<and> balance_of d' org \<le> balance_of d org)"

lemma preorder_unfunded [simp, intro]: "preorder_rel unfunded"
  by (rule preorder_relI) (auto simp: unfunded_def intro: order_trans)

lemma go_int32_one: "go_int32 1 = 1" "go_int32 (- 1) = - 1"
  by (simp_all add: go_int32_id in_int32_def)

lemma unfunded_deduct: "mrel (dbrel unfunded) (gen_TryDeductBalance org 1)"
proof -
  have find: "List.find (\<lambda>r. oc_org_id r = o') (upd_where (\<lambda>r. oc_org_id r = org \<and> 1 \<le> oc_balance r) (\<lambda>r. r\<lparr>oc_balance := oc_balance r - 1\<rparr>) rows)
      = map_option (\<lambda>r. if oc_org_id r = org \<and> 1 \<le> oc_balance r then r\<lparr>oc_balance := oc_balance r - 1\<rparr> else r)
          (List.find (\<lambda>r. oc_org_id r = o') rows)" for o' rows
    by (rule find_upd_where) simp
  show ?thesis unfolding gen_TryDeductBalance_def
    by (rule mrel_db_exec)
       (auto simp: unfunded_def income_def decided_def balance_of_def find split: option.splits if_splits)
qed

lemma unfunded_charge: "mrel (dbrel unfunded) (pg_TryDeduct org creditsPerCall why)"
proof -
  have "mrel (dbrel unfunded) (gen_AddLedger lid org (- 1) why)" for lid
    unfolding gen_AddLedger_def
    by (rule mrel_db_exec) (auto simp: unfunded_def income_def decided_def balance_of_def split: option.splits)
  then show ?thesis unfolding pg_TryDeduct_def go_int32_one
    by (intro mrel_with_tx mrel_intros unfunded_deduct) (auto simp: unfunded_def)
qed

lemma unfunded_pay: "mrel (dbrel unfunded) (pg_pay_Create pay)"
  unfolding pg_pay_Create_def
  by (rule mrel_db_exec) (auto simp: unfunded_def income_def decided_def balance_of_def split: if_splits)

lemma same_books_unfunded: "same_books d d' \<Longrightarrow> unfunded d d'"
  by (simp add: unfunded_def same_books_def income_def decided_def balance_of_def)

sublocale detached_ports \<subseteq> unf: books_frame A p unfunded
  by unfold_locales (simp_all add: same_books_unfunded unfunded_pay unfunded_charge)

text \<open>Of the other organisations, the books can be read in \<open>foreign\<close>.\<close>

lemma foreign_books:
  assumes "foreign org d' = foreign org d" and "o' \<noteq> org"
  shows "income o' d' = income o' d" "decided o' d' = decided o' d" "balance_of d' o' = balance_of d o'"
proof -
  have f: "income o' x = filter (\<lambda>l. lg_org_id l = o' \<and> 0 < lg_delta l) (credit_ledger (foreign org x))"
    "decided o' x = filter (\<lambda>r. pm_org_id r = o' \<and> pm_status r \<noteq> PaymentPending) (payments (foreign org x))" for x
    using assms(2) by (auto simp: income_def decided_def foreign_def intro!: filter_cong)
  have find: "List.find (\<lambda>r. oc_org_id r = o') (filter (\<lambda>r. oc_org_id r \<noteq> org) rows) = List.find (\<lambda>r. oc_org_id r = o') rows" for rows
    using assms(2) by (induction rows) auto
  have "balance_of x o' = balance_of (foreign org x) o'" for x
    by (simp add: balance_of_def foreign_def find)
  then show "balance_of d' o' = balance_of d o'" using assms(1) by metis
  show "income o' d' = income o' d" "decided o' d' = decided o' d" using f assms(1) by simp_all
qed

context detached_ports
begin

lemma session_unfunded:
  "hr_org r = Some org \<Longrightarrow> cf_Env c \<noteq> ''dev'' \<Longrightarrow> rt \<in> set (server_routes (main_deps A c L p)) \<Longrightarrow> rt_Guard rt = GSession \<Longrightarrow>
     mrel (dbrel unfunded) (rt_Handler rt r)"
  by (rule unf.dash.session_routes)

end

text \<open>
  Signing in buys nothing. Outside a development deployment no signed-in request, whatever it
  asks for, books a credit to an organisation that existed before, settles one of its payments or
  raises its balance.
\<close>

theorem no_free_credits:
  assumes "main_boot env A = Inr (c, d)" and "cf_Env c \<noteq> ''dev''" and "remote_detached A" and "uuid_lib (sd_libs d)"
    and "tables_ok (sd_libs d) (w_db (sv_world s))"
    and "find_route d r = Some rt" and "rt_Guard rt = GSession" and "serve d r s = (q, s')" and "row \<in> set (orgs (w_db (sv_world s)))"
  shows "income (or_id row) (w_db (sv_world s')) = income (or_id row) (w_db (sv_world s)) \<and>
    decided (or_id row) (w_db (sv_world s')) = decided (or_id row) (w_db (sv_world s)) \<and>
    balance_of (w_db (sv_world s')) (or_id row) \<le> balance_of (w_db (sv_world s)) (or_id row)"
    (is "?kept (w_db (sv_world s'))")
proof -
  let ?w = "sv_world s" and ?L = "sd_libs d"
  from assms(1) obtain p where d: "d = main_deps A c ?L p" and "choose_ports A c = Inr p" by (rule boot_deps)
  then have ports: "detached_ports A p" using assms(3) chosen_ports_detached by blast
  have "wp (requireAuth (the_ah (main_deps A c ?L p)) (rt_Handler rt) (routed rt r)) (\<lambda>q w'. ?kept (w_db w')) ?w"
  proof (rule wp_requireAuth, goal_cases)
    case (2 v su w1)
    have ok1: "tables_ok ?L (w_db w1)" using assms(5) 2(5) by simp
    show ?case unfolding with_org_def svc_def [of "pg_EnsureForUser _ _ _"]
    proof (rule wp_attempt [OF wp_EnsureForUser_isolated [OF ok1 assms(4)]], goal_cases)
      case (1 r1 w2)
      then obtain org where org: "foreign org (w_db w2) = foreign org (w_db ?w)" "w_db w2 = w_db ?w \<or> fresh_org org (w_db ?w)"
        using 2(5) by (auto simp: ensured_def)
      have two: "?kept (w_db w2)"
      proof (cases "w_db w2 = w_db ?w")
        case False
        with org(2) assms(9) have "or_id row \<noteq> org" by (auto simp: fresh_org_def)
        from foreign_books [OF org(1) this] show ?thesis by simp
      qed simp
      have step: "?kept x" if "unfunded (w_db w2) x" for x
        using that [unfolded unfunded_def, rule_format, of "or_id row"] two by (auto intro: order_trans)
      show ?case
      proof (cases r1)
        case (Inr o')
        from detached_ports.session_unfunded [OF ports, where L = ?L and c = c and org = "og_ID o'", folded d] find_route_mem [OF assms(6)] assms(2,7)
        have "mrel (dbrel unfunded) (rt_Handler rt ((routed rt r)\<lparr>hr_user := Some su, hr_org := Some (og_ID o'), hr_orgObj := Some o'\<rparr>))"
          by auto
        then have "wp (rt_Handler rt ((routed rt r)\<lparr>hr_user := Some su, hr_org := Some (og_ID o'), hr_orgObj := Some o'\<rparr>)) (\<lambda>q w'. ?kept (w_db w')) w2"
          by (rule wp_mono [OF wp_mrel]) (use step in \<open>simp add: dbrel_def\<close>)
        then show ?thesis unfolding Inr by simp
      qed (use two in \<open>simp add: respond_err_def\<close>)
    qed
  qed simp
  from wpD [OF this [folded d] surjective_pairing] assms(8) show ?thesis
    unfolding serve_session [OF assms(6,7)] with_world_def by auto
qed

theorem no_free_credits_witness:
  "balance_of (w_db (sv_world (snd (serve offline_deps (dnd_request [(cookieName, ''tok'')]) two_shops_server)))) ''o'' \<le> 500"
proof -
  obtain rt where rt: "find_route offline_deps (dnd_request [(cookieName, ''tok'')]) = Some rt" "rt_Guard rt = GSession"
    using dnd_route by blast
  let ?row = "\<lparr>or_id = ''o'', or_name = ''Shop'', or_owner_user_id = ''u'', or_credits_balance_paisa = 0, or_created_at = 0\<rparr>"
  have "cf_Env offline_config \<noteq> ''dev''" "uuid_lib (sd_libs offline_deps)" "tables_ok (sd_libs offline_deps) (w_db (sv_world two_shops_server))"
    "?row \<in> set (orgs (w_db (sv_world two_shops_server)))"
    using two_shops_ok by (simp_all add: offline_live two_shops_server_def server_New_def two_shops_def)
  from no_free_credits [OF offline_boot this(1) offline_detached this(2,3) rt surjective_pairing this(4)] show ?thesis
    by (simp add: two_shops_server_def server_New_def two_shops_def balance_of_def)
qed

end
