(* ===== verification/Yaver_App.thy ===== *)
theory Yaver_App
  imports Yaver_Books
begin

text \<open>
  The running application: every request to every route, the workers that place calls, the webhook
  dispatcher and the timers, as a step relation on the state of the server; and what holds of the books
  in every state it reaches. A step is atomic; each statement and transaction of it satisfies the
  relations used here by itself, so that they also hold of any interleaving of steps.
\<close>

section \<open>Steps\<close>

inductive app_step :: "Config \<Rightarrow> deps \<Rightarrow> server \<Rightarrow> server \<Rightarrow> bool" for c d where
  request: "serve d r s = (q, s') \<Longrightarrow> app_step c d s s'"
| job: "cf_Orchestrator c \<noteq> ''hatchet'' \<Longrightarrow> local_worker (calls_PlaceCall (sd_libs d) (sd_calls d)) (sv_world s) = (q, w') \<Longrightarrow>
    app_step c d s (s\<lparr>sv_world := w'\<rparr>)"
| remote_job: "cf_Orchestrator c = ''hatchet'' \<Longrightarrow> calls_PlaceCall (sd_libs d) (sd_calls d) inp (sv_world s) = (q, w') \<Longrightarrow>
    app_step c d s (s\<lparr>sv_world := w'\<rparr>)"
| deliveries: "webhooks_tick (sd_webhooks d) (sv_world s) = (q, w') \<Longrightarrow> app_step c d s (s\<lparr>sv_world := w'\<rparr>)"
| retention: "retention_tick c (sv_world s) = (q, w') \<Longrightarrow> app_step c d s (s\<lparr>sv_world := w'\<rparr>)"
| scheduler: "scheduler_tick d (sv_world s) = (q, w') \<Longrightarrow> app_step c d s (s\<lparr>sv_world := w'\<rparr>)"
| sweep: "app_step c d s (s\<lparr>sv_authLimit := limiter_sweep t (sv_authLimit s), sv_publicLimit := limiter_sweep t' (sv_publicLimit s)\<rparr>)"
| elapse: "w_db w' = w_db (sv_world s) \<Longrightarrow> w_jobs w' = w_jobs (sv_world s) \<Longrightarrow> w_trace w' = w_trace (sv_world s) \<Longrightarrow>
    w_now (sv_world s) \<le> w_now w' \<Longrightarrow> app_step c d s (s\<lparr>sv_world := w'\<rparr>)"

inductive app_reach :: "Config \<Rightarrow> deps \<Rightarrow> server \<Rightarrow> server \<Rightarrow> bool" for c d s where
  start: "app_reach c d s s"
| more: "app_reach c d s s1 \<Longrightarrow> app_step c d s1 s2 \<Longrightarrow> app_reach c d s s2"

section \<open>Who else leaves the books alone\<close>

lemma books_uuid_Parse [mrel_intros]: "preorder_rel R \<Longrightarrow> mrel R (uuid_Parse L s)"
  unfolding uuid_Parse_def by (intro mrel_intros)

lemma books_auth:
  "mrel (dbrel same_books) (pg_UpsertUserByPhone phone)"
  "mrel (dbrel same_books) (pg_InsertOTP phone hash t)"
  "mrel (dbrel same_books) (pg_LatestLiveOTP phone)"
  "mrel (dbrel same_books) (pg_IncrementOTPAttempts L oid)"
  "mrel (dbrel same_books) (pg_ConsumeOTP L oid)"
  "mrel (dbrel same_books) (pg_CreateUserWithPassword low email name hash)"
  "mrel (dbrel same_books) (pg_UserByEmail low email)"
  "mrel (dbrel same_books) (pg_CreateSession L hash uid t)"
  "mrel (dbrel same_books) (pg_SessionUser hash)"
  "mrel (dbrel same_books) (pg_DeleteSession hash)"
  unfolding pg_UpsertUserByPhone_def gen_UpsertUserByPhone_def pg_InsertOTP_def gen_InsertOTP_def pg_LatestLiveOTP_def gen_LatestLiveOTP_def
    pg_IncrementOTPAttempts_def gen_IncrementOTPAttempts_def pg_ConsumeOTP_def gen_ConsumeOTP_def pg_CreateUserWithPassword_def
    pg_UserByEmail_def pg_CreateSession_def gen_CreateSession_def pg_SessionUser_def pg_DeleteSession_def gen_DeleteSession_def Let_def
  by (intro mrel_intros mrel_db_exec; (auto simp: same_books_def split: option.splits if_splits; fail)?)+

lemma books_open:
  "mrel (dbrel same_books) (pg_event_Insert L ev)"
  "mrel (dbrel same_books) (pg_key_ByPrefix pfx)"
  "mrel (dbrel same_books) (pg_key_Touch kid)"
  "mrel (dbrel same_books) (pg_chan_ByExternalID ext)"
  "mrel (dbrel same_books) (pg_chan_OrgForVerifyToken tok)"
  "mrel (dbrel same_books) (gen_CreateFlow L row)"
  "mrel (dbrel same_books) (pg_OwnerEmail L org)"
  unfolding pg_event_Insert_def gen_InsertEvent_def pg_key_ByPrefix_def gen_GetAPIKeyByPrefix_def pg_key_Touch_def gen_TouchAPIKey_def
    pg_chan_ByExternalID_def gen_GetChannelByExternalID_def pg_chan_OrgForVerifyToken_def gen_GetChannelByVerifyToken_def
    gen_CreateFlow_def pg_OwnerEmail_def gen_GetOrgOwnerEmail_def
  by (intro mrel_intros mrel_db_exec; (auto simp: same_books_def split: option.splits if_splits; fail)?)+

lemma books_drain: "mrel (dbrel same_books) (drain_rows L rows n)"
proof (induction rows arbitrary: n)
  case (Cons row rows)
  have mark: "mrel (dbrel same_books) (gen_MarkOutboxDispatched oid)" for oid
    unfolding gen_MarkOutboxDispatched_def by (rule mrel_db_exec) (auto simp: same_books_def)
  have create: "mrel (dbrel same_books) (gen_CreateDelivery L did org ev url pl)" for did org ev url pl
    unfolding gen_CreateDelivery_def by (rule mrel_db_exec) (auto simp: same_books_def split: option.splits if_splits)
  show ?case unfolding drain_rows.simps gen_GetWebhookEndpoint_def
    by (intro mrel_intros mark create Cons.IH) auto
qed (auto intro!: mrel_intros)

lemma books_webhooks: "mrel (dbrel same_books) (webhooks_tick (webhooks_service L http ok))"
proof -
  have mark: "mrel (dbrel same_books) (pg_MarkDelivered did code)" for did code
    unfolding pg_MarkDelivered_def gen_MarkDelivered_def by (rule mrel_db_exec) (auto simp: same_books_def split: if_splits)
  have again: "mrel (dbrel same_books) (pg_Reschedule did code msg st nx)" for did code msg st nx
    unfolding pg_Reschedule_def gen_RescheduleDelivery_def by (rule mrel_db_exec) (auto simp: same_books_def split: if_splits)
  have failed: "mrel (dbrel same_books) (webhooks_fail (webhooks_service L http ok) dd code msg)" for dd code msg
    unfolding webhooks_fail_def webhooks_service_simps Let_def by (intro mrel_intros again) auto
  have deliver: "mrel (dbrel same_books) (webhooks_deliver (webhooks_service L http ok) dd)" for dd
    unfolding webhooks_deliver_def webhooks_service_simps Let_def pg_GetEndpoint_def gen_GetWebhookEndpoint_def
    by (intro mrel_intros mark failed) auto
  show ?thesis unfolding webhooks_tick_def webhooks_service_simps pg_DrainOutbox_def gen_ClaimUndispatchedOutbox_def pg_DueDeliveries_def gen_DueDeliveries_def
    by (intro mrel_with_tx mrel_intros books_drain deliver) auto
qed

section \<open>The books under the whole application\<close>

locale books_app = books_frame +
  fixes c :: Config
  assumes granted: "cf_Env c = ''dev'' \<Longrightarrow> 0 < n \<Longrightarrow> n \<le> 100000 \<Longrightarrow> mrel (dbrel R) (pg_Grant org n why)"
    and joined: "mrel (dbrel R) (pg_EnsureForUser L uid name)"
    and paid: "mrel (dbrel R) (billing_SettlePayment (billing_service (po_gateway p)) form)"
begin

lemma billing_any:
  assumes "hr_org r = Some org"
  shows "mrel (dbrel R) (billing_get_h (the_bh (main_deps A c L p)) r)"
    and "mrel (dbrel R) (billing_topUp_h (the_bh (main_deps A c L p)) r)"
    and "mrel (dbrel R) (billing_checkout_h (the_bh (main_deps A c L p)) r)"
    and "mrel (dbrel R) (billing_devPay_h (the_bh (main_deps A c L p)) r)"
  unfolding billing_get_h_def billing_Balance_def billing_Ledger_def billing_topUp_h_def billing_TopUp_def billing_checkout_h_def
    billing_Checkout_def billing_devPay_h_def dash.repo_records orgFromCtx_eq [OF assms] Let_def
  by (intro mrel_intros pay_opened paid granted dash.reads_R no_db_books [OF gateway_db]; (auto simp: clamp_credits_def))+

lemma session_any:
  assumes "hr_org r = Some org" and "rt \<in> set (server_routes (main_deps A c L p))" and "rt_Guard rt = GSession"
  shows "mrel (dbrel R) (rt_Handler rt r)"
proof -
  note h = dash.calls_h [OF assms(1)] dash.flows_h [OF assms(1)] dash.campaigns_h [OF assms(1)] dash.settings_h [OF assms(1)]
    dash.insight_h [OF assms(1)] dash.chat_h [OF assms(1)] billing_any [OF assms(1)] media_books
  have "\<forall>rt \<in> set (server_routes (main_deps A c L p)). rt_Guard rt = GSession \<longrightarrow> mrel (dbrel R) (rt_Handler rt r)"
    unfolding server_routes_def route_def by (simp add: h del: main_handlers)
  with assms(2,3) show ?thesis by blast
qed

lemma auth_h:
  "mrel (dbrel R) (auth_requestOTP (the_ah (main_deps A c L p)) r)"
  "mrel (dbrel R) (auth_verifyOTP (the_ah (main_deps A c L p)) r)"
  "mrel (dbrel R) (auth_register (the_ah (main_deps A c L p)) r)"
  "mrel (dbrel R) (auth_login (the_ah (main_deps A c L p)) r)"
  "mrel (dbrel R) (auth_logout (the_ah (main_deps A c L p)) r)"
proof -
  have draws: "mrel (dbrel R) (draw randomCode :: string wop)" "mrel (dbrel R) (draw (randomToken L) :: string wop)"
    by (auto intro!: mrel_draw simp: dbrel_def randomCode_def rand_below_def split: prod.splits)
  show "mrel (dbrel R) (auth_requestOTP (the_ah (main_deps A c L p)) r)"
    "mrel (dbrel R) (auth_verifyOTP (the_ah (main_deps A c L p)) r)"
    "mrel (dbrel R) (auth_register (the_ah (main_deps A c L p)) r)"
    "mrel (dbrel R) (auth_login (the_ah (main_deps A c L p)) r)"
    "mrel (dbrel R) (auth_logout (the_ah (main_deps A c L p)) r)"
    unfolding auth_requestOTP_def auth_RequestOTP_def auth_verifyOTP_def auth_VerifyOTP_def auth_register_def auth_Register_def
      auth_login_def auth_Login_def auth_logout_def auth_Logout_def auth_issueSession_def main_handlers auth_service_simps Let_def
    by (intro mrel_intros draws dash.rand_R books_mrel [OF books_auth(1)] books_mrel [OF books_auth(2)] books_mrel [OF books_auth(3)]
      books_mrel [OF books_auth(4)] books_mrel [OF books_auth(5)] books_mrel [OF books_auth(6)] books_mrel [OF books_auth(7)]
      books_mrel [OF books_auth(8)] books_mrel [OF books_auth(9)] books_mrel [OF books_auth(10)] no_db_books [OF sms_db]; auto)+
qed

lemma authenticate_R: "mrel (dbrel R) (apikeys_Authenticate L pg_apikeys key)"
  unfolding apikeys_Authenticate_def pg_apikeys_simps
  by (intro mrel_intros books_mrel [OF books_open(2)] books_mrel [OF books_open(3)]) auto

lemma open_h:
  "mrel (dbrel R) (health_h r)"
  "mrel (dbrel R) (openapi_h d r)"
  "mrel (dbrel R) (billing_ipn_h (the_bh (main_deps A c L p)) r)"
  "mrel (dbrel R) (billing_paymentReturn_h (the_bh (main_deps A c L p)) r)"
  unfolding health_h_def openapi_h_def billing_ipn_h_def billing_paymentReturn_h_def main_handlers Let_def
  by (intro mrel_intros paid; auto)+

lemma meta_h:
  "mrel (dbrel R) (meta_verify (the_cnh (main_deps A c L p)) r)"
  "mrel (dbrel R) (meta_receive (the_cnh (main_deps A c L p)) r)"
proof -
  have inbound: "mrel (dbrel R) (messaging_HandleInbound (messaging_service L (main_chat A p) (po_msg p)) ext sender msg)" for ext sender msg
    unfolding messaging_HandleInbound_def messaging_simps
    by (intro mrel_intros books_mrel [OF books_open(4)] chat_books [OF only.chat_ops_R(2)] no_db_books [OF sender_db]) auto
  then have route: "mrel (dbrel R) (meta_route (the_cnh (main_deps A c L p)) ext sender msg)" for ext sender msg
    unfolding meta_route_def main_handlers by (intro mrel_intros) auto
  have "chr_OrgForVerifyToken (me_conns (messaging_service L ch sd)) = pg_chan_OrgForVerifyToken" for ch sd
    by (simp add: messaging_service_def pg_channels_def)
  then show "mrel (dbrel R) (meta_verify (the_cnh (main_deps A c L p)) r)"
    unfolding meta_verify_def messaging_VerifyChallenge_def main_handlers
    by (intro mrel_intros) (auto intro!: mrel_intros books_mrel [OF books_open(5)])
  show "mrel (dbrel R) (meta_receive (the_cnh (main_deps A c L p)) r)"
    unfolding meta_receive_def by (intro mrel_intros route) auto
qed

lemma key_h:
  "mrel (dbrel R) (ingest_postEvent (the_ih (main_deps A c L p)) r)"
  "mrel (dbrel R) (public_chatSend (the_ph (main_deps A c L p)) r)"
  "mrel (dbrel R) (public_chatConfig (the_ph (main_deps A c L p)) r)"
  "mrel (dbrel R) (public_widget (the_ph (main_deps A c L p)) r)"
proof -
  have accept: "mrel (dbrel R) (ingest_Accept (ingest_service L (po_orch p)) org ev)" for org ev
    unfolding ingest_Accept_def ingest_route_def ingest_service_simps pg_flows_simps
    by (intro mrel_intros dash.reads_R books_mrel [OF books_open(1)] books_mrel [OF books_dashboard(3)] no_db_books [OF orch_db]) auto
  show "mrel (dbrel R) (ingest_postEvent (the_ih (main_deps A c L p)) r)"
    unfolding ingest_postEvent_def main_handlers Let_def by (intro mrel_intros accept) auto
  show "mrel (dbrel R) (public_chatSend (the_ph (main_deps A c L p)) r)"
    unfolding public_chatSend_def public_auth_def main_handlers Let_def
    by (intro mrel_intros authenticate_R chat_books [OF only.chat_ops_R(1)]) auto
  show "mrel (dbrel R) (public_chatConfig (the_ph (main_deps A c L p)) r)"
    unfolding public_chatConfig_def public_auth_def main_handlers chat_Settings_def main_chat_def asst.svc_simps
    by (intro mrel_intros authenticate_R dash.reads_R) auto
  show "mrel (dbrel R) (public_widget (the_ph (main_deps A c L p)) r)"
    unfolding public_widget_def by (intro mrel_intros) auto
qed

lemma resolve_R: "mrel (dbrel R) (auth_Resolve (ah_svc (the_ah (main_deps A c L p))) v)"
  unfolding auth_Resolve_def main_handlers auth_service_simps by (intro mrel_intros books_mrel [OF books_auth(9)]) auto

text \<open>Every route of the router, behind its middleware.\<close>

lemma guarded_R:
  assumes "rt \<in> set (server_routes (main_deps A c L p))"
  shows "mrel (dbrel R) (guarded (main_deps A c L p) (rt_Guard rt) (rt_Handler rt) r)"
proof -
  let ?D = "main_deps A c L p"
  have session: "mrel (dbrel R) (requireAuth (the_ah ?D) (rt_Handler rt) r)" if "rt_Guard rt = GSession"
    unfolding requireAuth_def main_handlers repo_more_simps
    by (intro mrel_intros resolve_R [unfolded main_handlers] joined session_any [OF _ assms that]) auto
  have key: "mrel (dbrel R) (requireAPIKey (the_kh ?D) h r)" if "\<And>r. mrel (dbrel R) (h r)" for h
    unfolding requireAPIKey_def main_handlers by (intro mrel_intros authenticate_R that) auto
  have cors: "mrel (dbrel R) (cors h r)" if "\<And>r. mrel (dbrel R) (h r)" for h
    unfolding cors_def by (intro mrel_intros that) auto
  have "\<forall>rt \<in> set (server_routes ?D). rt_Guard rt = GSession \<or> mrel (dbrel R) (guarded ?D (rt_Guard rt) (rt_Handler rt) r)"
    unfolding server_routes_def route_def
    by (simp add: guarded_def auth_h open_h meta_h key cors key_h del: main_handlers)
  with assms session show ?thesis by (auto simp: guarded_def)
qed

lemma run_route_R:
  assumes "rt \<in> set (server_routes (main_deps A c L p))" and "run_route (main_deps A c L p) rt r s = (q, s')"
  shows "R (w_db (sv_world s)) (w_db (sv_world s'))"
proof -
  have step: "R (w_db (sv_world s)) (w_db (snd (guarded (main_deps A c L p) (rt_Guard rt) (rt_Handler rt) r (sv_world s))))"
    using mrelD [OF guarded_R [OF assms(1), of r] surjective_pairing] by (simp add: dbrel_def)
  show ?thesis using assms(2) step
    by (auto simp: run_route_def with_world_def Middleware_def Let_def split: option.splits limit.splits prod.splits if_splits)
qed

lemma serve_R:
  assumes "serve (main_deps A c L p) r s = (q, s')"
  shows "R (w_db (sv_world s)) (w_db (sv_world s'))"
  using assms run_route_R find_route_mem by (fastforce simp: serve_def split: option.splits)

text \<open>Jobs and timers.\<close>

lemma job_R: "mrel (dbrel R) (calls_PlaceCall L (main_calls L p) inp)"
proof -
  have notify: "mrel (dbrel R) (perform (ntf_LowBalance (notify_service (po_email p) (pg_orgs L)) org n))" for org n
  proof (rule mrel_perform)
    fix w
    have "mrel (dbrel R) (bnd (pg_OwnerEmail L org) (\<lambda>to. if to = [] then ret () else eml_Send (po_email p) to subj msg))" for subj msg
      by (intro mrel_intros books_mrel [OF books_open(7)] no_db_books [OF email_db]) auto
    from mrelD [OF this surjective_pairing, of w] show "dbrel R w (ntf_LowBalance (notify_service (po_email p) (pg_orgs L)) org n w)"
      by (auto simp: notify_service_def notify_LowBalance_def pg_orgs_def bnd_def ret_def dbrel_def split: prod.splits sum.splits if_splits)
  qed
  show ?thesis unfolding calls_PlaceCall_def main_calls_def dash.repo_records
    by (intro mrel_intros dash.reads_R charged_one notify no_db_books [OF voice_db] books_mrel [OF books_calls(1)]) auto
qed

lemma scheduler_R: "mrel (dbrel R) (scheduler_tick (main_deps A c L p))"
proof -
  have dispatch: "mrel (dbrel R) (campaigns_dispatch (campaigns_service L (po_orch p)) org cid)" for org cid
    unfolding campaigns_dispatch_def dash.repo_records by (intro mrel_intros dash.reads_R dash.targets_R dash.enqueue_R) auto
  have "mrel (dbrel R) (run_refs (campaigns_service L (po_orch p)) refs n)" for refs n
    by (induction refs arbitrary: n) (auto intro!: mrel_intros dispatch books_mrel [OF books_dashboard(6)])
  then show ?thesis unfolding scheduler_tick_def campaigns_RunDue_def main_deps_def
    by simp (intro mrel_intros; auto intro!: mrel_intros simp: pg_camp_DueCampaigns_def gen_DueCampaigns_def)
qed

lemma retention_R: "mrel (dbrel R) (retention_tick c)"
  unfolding retention_tick_def by (intro mrel_intros books_mrel [OF books_calls(3)]) auto

lemma app_step_R:
  assumes "app_step c (main_deps A c L p) s s'"
  shows "R (w_db (sv_world s)) (w_db (sv_world s'))"
  using assms
proof cases
  case (request r q)
  then show ?thesis by (simp add: serve_R)
next
  case (job q w')
  have "R (w_db (sv_world s)) (w_db (snd (calls_PlaceCall L (main_calls L p) j (sv_world s\<lparr>w_jobs := js\<rparr>))))" for j js
    using mrelD [OF job_R [of L j] surjective_pairing, of "sv_world s\<lparr>w_jobs := js\<rparr>"] by (simp add: dbrel_def)
  with job show ?thesis by (auto simp: local_worker_def main_deps_def split: list.splits)
next
  case (remote_job inp q w')
  then show ?thesis using mrelD [OF job_R [of L inp]] by (auto simp: main_deps_def dbrel_def)
next
  case (deliveries q w')
  then show ?thesis using mrelD [OF books_mrel [OF books_webhooks]] by (auto simp: main_deps_def dbrel_def)
next
  case (retention q w')
  then show ?thesis using mrelD [OF retention_R] by (auto simp: dbrel_def)
next
  case (scheduler q w')
  then show ?thesis using mrelD [OF scheduler_R] by (auto simp: dbrel_def)
qed auto

lemma app_reach_R:
  assumes "app_reach c (main_deps A c L p) s s'"
  shows "R (w_db (sv_world s)) (w_db (sv_world s'))"
  using assms by induction (auto intro: preorder_rel_trans [OF preorder] app_step_R)

end

end
