(* ===== verification/Yaver_Economy.thy ===== *)
theory Yaver_Economy
  imports Yaver_App
begin

text \<open>
  The economy of the running application. The contract \<open>books_app\<close> is met by three relations: the
  ledger only grows, the books stay sound, and outside a development deployment every credit comes from the
  signup grant or from a payment that was paid.
\<close>

section \<open>The ledger only grows\<close>

definition ledger_grows :: "database \<Rightarrow> database \<Rightarrow> bool" where
  "ledger_grows d d' \<longleftrightarrow> prefix (credit_ledger d) (credit_ledger d')"

lemma preorder_ledger_grows [simp, intro]: "preorder_rel ledger_grows"
  by (rule preorder_relI) (auto simp: ledger_grows_def)

lemma ledger_grows_statements [mrel_intros]:
  "mrel (dbrel ledger_grows) (gen_TryDeductBalance org n)"
  "mrel (dbrel ledger_grows) (gen_AdjustBalance org n)"
  "mrel (dbrel ledger_grows) (gen_EnsureCreditAccount org)"
  "mrel (dbrel ledger_grows) (gen_AddLedger lid org n why)"
  "mrel (dbrel ledger_grows) (gen_CreateFlow L row)"
  "mrel (dbrel ledger_grows) (gen_CreateOrg oid name uid)"
  "mrel (dbrel ledger_grows) (gen_GetOrgByOwner uid)"
  "mrel (dbrel ledger_grows) (pg_pay_Create pay)"
  "mrel (dbrel ledger_grows) (settle_update provider ref status)"
  "mrel (dbrel ledger_grows) (settle_select provider ref)"
  unfolding gen_TryDeductBalance_def gen_AdjustBalance_def gen_EnsureCreditAccount_def gen_AddLedger_def gen_CreateFlow_def
    gen_CreateOrg_def gen_GetOrgByOwner_def pg_pay_Create_def settle_update_def settle_select_def
  by (intro mrel_intros mrel_db_exec; (auto simp: ledger_grows_def split: option.splits if_splits; fail)?)+

lemma ledger_grows_ops:
  "mrel (dbrel ledger_grows) (pg_TryDeduct org n why)"
  "mrel (dbrel ledger_grows) (pg_Grant org n why)"
  "mrel (dbrel ledger_grows) (pg_EnsureForUser L uid name)"
  "mrel (dbrel ledger_grows) (pg_pay_Settle provider ref status)"
proof -
  have refl: "ledger_grows d d" for d by (simp add: ledger_grows_def)
  have seed: "mrel (dbrel ledger_grows) (seed_org L org)" for org
    unfolding seed_org_def by (intro mrel_intros) auto
  show "mrel (dbrel ledger_grows) (pg_TryDeduct org n why)" "mrel (dbrel ledger_grows) (pg_Grant org n why)"
    "mrel (dbrel ledger_grows) (pg_pay_Settle provider ref status)"
    unfolding pg_TryDeduct_def pg_Grant_def pg_pay_Settle_def by (intro mrel_with_tx mrel_intros; simp add: refl)+
  show "mrel (dbrel ledger_grows) (pg_EnsureForUser L uid name)"
    unfolding pg_EnsureForUser_def by (intro mrel_intros seed) (simp_all add: refl)
qed


lemma ledger_grows_paid:
  assumes "no_db (gw_VerifyIPN gw form)"
  shows "mrel (dbrel ledger_grows) (billing_SettlePayment (billing_service gw) form)"
proof -
  have "mrel (dbrel ledger_grows) (gw_VerifyIPN gw form)"
    by (rule mrel_mono [OF assms]) (simp add: dbrel_def ledger_grows_def)
  then show ?thesis unfolding billing_SettlePayment_def billing_service_simps
    by (intro mrel_intros ledger_grows_ops) auto
qed

lemma same_books_ledger: "same_books d d' \<Longrightarrow> ledger_grows d d'"
  by (simp add: same_books_def ledger_grows_def)

sublocale detached_ports \<subseteq> led: books_app A p ledger_grows c for c
  by unfold_locales (simp_all add: same_books_ledger ledger_grows_statements ledger_grows_ops ledger_grows_paid verify_db)

section \<open>Sound and backed books\<close>

text \<open>
  One account per organisation, none overdrawn, payments unique and of a sane size. An account
  is backed when it holds no more than the signup grant of its organisation and what was paid for it.
\<close>

definition sound_books :: "database \<Rightarrow> bool" where
  "sound_books d \<longleftrightarrow> accounts_unique d \<and> payments_ok d \<and> (\<forall>org. 0 \<le> balance_of d org)"

definition signup_grant :: "database \<Rightarrow> OrgID \<Rightarrow> int" where
  "signup_grant d org = (if org \<in> or_id ` set (orgs d) then 500 else 0)"

definition backed_books :: "database \<Rightarrow> bool" where
  "backed_books d \<longleftrightarrow> sound_books d \<and> (\<forall>org. balance_of d org \<le> signup_grant d org + paid_total d org)"

text \<open>How the books may move: what an organisation is worth and what it holds.\<close>

definition moved :: "OrgID \<Rightarrow> int \<Rightarrow> int \<Rightarrow> database \<Rightarrow> database \<Rightarrow> bool" where
  "moved org held worth d d' \<longleftrightarrow> accounts_unique d' \<and> payments_ok d' \<and>
     balance_of d' = (balance_of d)(org := balance_of d org + held) \<and>
     (\<forall>o'. signup_grant d' o' + paid_total d' o' = signup_grant d o' + paid_total d o' + (if o' = org then worth else 0))"

lemma moved_none: "sound_books d \<Longrightarrow> same_books d d' \<Longrightarrow> moved org 0 0 d d'"
proof -
  assume "sound_books d" and "same_books d d'"
  then have eq: "org_credits d' = org_credits d" "payments d' = payments d" "set (map or_id (orgs d')) = set (map or_id (orgs d))"
    by (auto simp: same_books_def)
  then have "or_id ` set (orgs d') = or_id ` set (orgs d)" by simp
  with eq \<open>sound_books d\<close> show ?thesis
    by (simp add: moved_def sound_books_def accounts_unique_def payments_ok_def balance_of_def signup_grant_def paid_total_def fun_eq_iff)
qed

lemma moved_sound: "sound_books d \<Longrightarrow> moved org held worth d d' \<Longrightarrow> 0 \<le> held \<or> - held \<le> balance_of d org \<Longrightarrow> sound_books d'"
  by (auto simp: sound_books_def moved_def)

lemma moved_backed:
  assumes "backed_books d" and "moved org held worth d d'" and "0 \<le> held \<or> - held \<le> balance_of d org" and "held \<le> worth"
  shows "backed_books d'"
proof -
  have "balance_of d' o' \<le> signup_grant d' o' + paid_total d' o'" for o'
  proof -
    have "balance_of d o' \<le> signup_grant d o' + paid_total d o'" using assms(1) by (simp add: backed_books_def)
    moreover have "signup_grant d' o' + paid_total d' o' = signup_grant d o' + paid_total d o' + (if o' = org then worth else 0)"
      "balance_of d' o' = (if o' = org then balance_of d org + held else balance_of d o')"
      using assms(2) by (simp_all add: moved_def)
    ultimately show ?thesis using assms(4) by (cases "o' = org") auto
  qed
  with moved_sound [OF _ assms(2,3)] assms(1) show ?thesis by (simp add: backed_books_def)
qed

lemma moved_trans: "moved org h w d d1 \<Longrightarrow> moved org h' w' d1 d' \<Longrightarrow> moved org (h + h') (w + w') d d'"
  by (auto simp: moved_def)

definition same_shops :: "database \<Rightarrow> database \<Rightarrow> bool" where
  "same_shops d d' \<longleftrightarrow> orgs d' = orgs d \<and> payments d' = payments d"

lemma preorder_same_shops [simp, intro]: "preorder_rel same_shops"
  by (rule preorder_relI) (auto simp: same_shops_def)

lemma same_shops_credit:
  "mrel (dbrel same_shops) (gen_TryDeductBalance org n)"
  "mrel (dbrel same_shops) (gen_AdjustBalance org n)"
  "mrel (dbrel same_shops) (gen_EnsureCreditAccount org)"
  "mrel (dbrel same_shops) (gen_AddLedger lid org n why)"
  unfolding gen_TryDeductBalance_def gen_AdjustBalance_def gen_EnsureCreditAccount_def gen_AddLedger_def
  by (intro mrel_intros mrel_db_exec; (auto simp: same_shops_def split: option.splits if_splits; fail)?)+

lemma same_shops_ops:
  "mrel (dbrel same_shops) (pg_TryDeduct org n why)" "mrel (dbrel same_shops) (pg_Grant org n why)"
  unfolding pg_TryDeduct_def pg_Grant_def
  by (intro mrel_with_tx mrel_intros same_shops_credit; simp add: same_shops_def)+

lemma same_shops_worth:
  assumes "same_shops d d'"
  shows "signup_grant d' = signup_grant d" "paid_total d' = paid_total d" "payments_ok d' = payments_ok d"
  using assms by (auto simp: same_shops_def signup_grant_def paid_total_def payments_ok_def fun_eq_iff)

lemma moved_credit:
  assumes "same_shops d d'" and "sound_books d" and "accounts_unique d'" and "balance_of d' = (balance_of d)(org := balance_of d org + n)"
  shows "moved org n 0 d d'"
  using assms same_shops_worth [OF assms(1)] by (simp add: moved_def sound_books_def)

lemma wp_charge_moves:
  assumes "sound_books (w_db w)"
  shows "wp (pg_TryDeduct org creditsPerCall why) (\<lambda>r w'. \<exists>k \<ge> 0. k \<le> balance_of (w_db w) org \<and> moved org (- k) 0 (w_db w) (w_db w')) w"
proof -
  have u: "accounts_unique (w_db w)" and zero: "moved org 0 0 (w_db w) (w_db w)" "0 \<le> balance_of (w_db w) org"
    using assms by (auto simp: sound_books_def intro!: moved_none)
  show ?thesis
    by (rule wp_mono [OF wp_conj [OF wp_pg_TryDeduct [OF u] wp_mrel [OF same_shops_ops(1)]]])
       (use zero moved_credit [OF _ assms, of _ org "- 1"] in
         \<open>auto simp: dbrel_def split: sum.splits if_splits intro: exI [of _ 0] exI [of _ 1]\<close>)
qed

lemma wp_grant_moves:
  assumes "sound_books (w_db w)" and "0 < n" "n \<le> 100000"
  shows "wp (pg_Grant org n why) (\<lambda>r w'. moved org (if isl r then 0 else n) 0 (w_db w) (w_db w')) w"
proof -
  have u: "accounts_unique (w_db w)" and zero: "moved org 0 0 (w_db w) (w_db w)"
    using assms by (auto simp: sound_books_def intro!: moved_none)
  show ?thesis
    by (rule wp_mono [OF wp_conj [OF wp_pg_Grant [OF u] wp_mrel [OF same_shops_ops(2)]]])
       (use assms zero moved_credit [OF _ assms(1)] in \<open>auto simp: dbrel_def split: sum.splits\<close>)
qed

text \<open>Payments: opening one moves nothing, settling one raises what its organisation is worth.\<close>

definition same_accounts :: "database \<Rightarrow> database \<Rightarrow> bool" where
  "same_accounts d d' \<longleftrightarrow> orgs d' = orgs d \<and> org_credits d' = org_credits d"

lemma preorder_same_accounts [simp, intro]: "preorder_rel same_accounts"
  by (rule preorder_relI) (auto simp: same_accounts_def)

lemma same_accounts_pay:
  "mrel (dbrel same_accounts) (pg_pay_Create pay)" "mrel (dbrel same_accounts) (pg_pay_Settle provider ref status)"
proof -
  have "mrel (dbrel same_accounts) (settle_update provider ref status)" "mrel (dbrel same_accounts) (settle_select provider ref)"
    unfolding settle_update_def settle_select_def
    by (intro mrel_intros mrel_db_exec; (auto simp: same_accounts_def split: option.splits; fail)?)+
  then show "mrel (dbrel same_accounts) (pg_pay_Settle provider ref status)"
    unfolding pg_pay_Settle_def by (intro mrel_intros) auto
  show "mrel (dbrel same_accounts) (pg_pay_Create pay)"
    unfolding pg_pay_Create_def by (rule mrel_db_exec) (auto simp: same_accounts_def split: if_splits)
qed

lemma moved_payment:
  assumes "same_accounts d d'" and "sound_books d" and "payments_ok d'" and "paid_total d' = (paid_total d)(org := paid_total d org + n)"
  shows "moved org 0 n d d'"
  using assms by (simp add: moved_def same_accounts_def sound_books_def accounts_unique_def balance_of_def signup_grant_def fun_eq_iff)

lemma wp_open_moves:
  assumes "sound_books (w_db w)" and "0 < py_Credits pay" "py_Credits pay \<le> 100000"
  shows "wp (pg_pay_Create pay) (\<lambda>r w'. moved org 0 0 (w_db w) (w_db w')) w"
proof -
  have "payments_ok (w_db w)" using assms(1) by (simp add: sound_books_def)
  from wp_conj [OF wp_pg_pay_Create [OF this assms(2,3)] wp_mrel [OF same_accounts_pay(1)]] show ?thesis
    by (rule wp_mono) (auto simp: dbrel_def intro!: moved_payment [OF _ assms(1)])
qed

lemma wp_settle_moves:
  assumes "sound_books (w_db w)"
  shows "wp (pg_pay_Settle provider ref status) (\<lambda>r w'. case r of
      Inr (pay, True) \<Rightarrow> 0 < py_Credits pay \<and> py_Credits pay \<le> 100000 \<and>
        moved (py_OrgID pay) 0 (if status = PaymentPaid then py_Credits pay else 0) (w_db w) (w_db w')
    | _ \<Rightarrow> w_db w' = w_db w) w"
proof -
  have "payments_ok (w_db w)" using assms by (simp add: sound_books_def)
  from wp_conj [OF wp_pg_pay_Settle [OF this] wp_mrel [OF same_accounts_pay(2)]] show ?thesis
    by (rule wp_mono) (auto simp: dbrel_def split: sum.splits bool.splits intro!: moved_payment [OF _ assms])
qed

definition earns :: "database \<Rightarrow> database \<Rightarrow> bool" where
  "earns d d' \<longleftrightarrow> (\<exists>org held worth. 0 \<le> held \<and> held \<le> worth \<and> moved org held worth d d')"

lemma earnsI: "moved org held worth d d' \<Longrightarrow> 0 \<le> held \<Longrightarrow> held \<le> worth \<Longrightarrow> earns d d'"
  by (auto simp: earns_def)

lemma earns_refl: "sound_books d \<Longrightarrow> earns d d"
  by (rule earnsI [OF moved_none]) simp_all

lemma wp_paid_earns:
  assumes "sound_books (w_db w)" and "no_db (gw_VerifyIPN gw form)"
  shows "wp (billing_SettlePayment (billing_service gw) form) (\<lambda>r w'. earns (w_db w) (w_db w')) w"
  unfolding billing_SettlePayment_def billing_service_simps
proof (rule wp_bnd [OF wp_mrel [OF assms(2)]], goal_cases)
  case (1 e w1)
  then show ?case by (simp add: dbrel_def earns_refl assms(1))
next
  case (2 x w1)
  then have w1: "w_db w1 = w_db w" "sound_books (w_db w1)" using assms(1) by (simp_all add: dbrel_def)
  obtain res ok where x: "x = (res, ok)" by (cases x)
  have grant: "wp (bnd (pg_Grant (py_OrgID pay) (py_Credits pay) ''topup'') (\<lambda>_. ret ())) (\<lambda>r w'. earns (w_db w) (w_db w')) w2"
    if "0 < py_Credits pay" "py_Credits pay \<le> 100000" "moved (py_OrgID pay) 0 (py_Credits pay) (w_db w) (w_db w2)" for pay w2
  proof -
    have "sound_books (w_db w2)" using moved_sound [OF assms(1) that(3)] by simp
    from wp_grant_moves [OF this that(1,2)] show ?thesis
      by (rule wp_bnd) (use that in \<open>auto dest!: moved_trans [OF that(3)] intro: earnsI\<close>)
  qed
  show ?case unfolding x prod.case
  proof (cases ok)
    case True
    have "wp (attempt (pg_pay_Settle (gw_Name gw) (ps_ProviderRef res) (ps_Status res)) (\<lambda>q. case q of
          Inl e \<Rightarrow> if e = ErrNotFound then ret () else fail e
        | Inr (p, transitioned) \<Rightarrow> if transitioned \<and> ps_Status res = PaymentPaid
            then bnd (pg_Grant (py_OrgID p) (py_Credits p) ''topup'') (\<lambda>_. ret ()) else ret ())) (\<lambda>r w'. earns (w_db w) (w_db w')) w1"
    proof (rule wp_attempt [OF wp_settle_moves [OF w1(2)]], goal_cases)
      case (1 q w2)
      show ?case
      proof (cases "\<exists>pay. q = Inr (pay, True)")
        case True
        with 1 w1(1) grant show ?thesis by (auto intro!: earnsI [OF _ order_refl order_refl])
      next
        case False
        with 1 have "w_db w2 = w_db w1" by (auto split: sum.splits bool.splits)
        with False w1(1) earns_refl [OF assms(1)] show ?thesis by (auto split: sum.splits)
      qed
    qed
    with True show "wp (if \<not> ok then ret () else attempt (pg_pay_Settle (gw_Name gw) (ps_ProviderRef res) (ps_Status res)) (\<lambda>q. case q of
          Inl e \<Rightarrow> if e = ErrNotFound then ret () else fail e
        | Inr (p, transitioned) \<Rightarrow> if transitioned \<and> ps_Status res = PaymentPaid
            then bnd (pg_Grant (py_OrgID p) (py_Credits p) ''topup'') (\<lambda>_. ret ()) else ret ())) (\<lambda>r w'. earns (w_db w) (w_db w')) w1"
      by simp
  qed (use w1 in \<open>simp add: earns_refl assms(1)\<close>)
qed

text \<open>A new organisation is worth its signup grant, and the grant is booked at most once.\<close>

lemma wp_org_moves:
  assumes "sound_books (w_db w)" and "List.find (\<lambda>r. or_owner_user_id r = uid) (orgs (w_db w)) = None"
  shows "wp (gen_CreateOrg oid name uid) (\<lambda>r w'. case r of Inl _ \<Rightarrow> w_db w' = w_db w | Inr _ \<Rightarrow> moved oid 0 500 (w_db w) (w_db w')) w"
  unfolding gen_CreateOrg_def
  by (rule wp_db_exec)
     (use assms in \<open>auto simp: moved_def sound_books_def accounts_unique_def payments_ok_def balance_of_def paid_total_def signup_grant_def
        fun_eq_iff find_None_iff\<close>)

definition still :: "database \<Rightarrow> database \<Rightarrow> bool" where
  "still d d' \<longleftrightarrow> accounts_unique d' = accounts_unique d \<and> balance_of d' = balance_of d \<and> same_shops d d'"

lemma preorder_still [simp, intro]: "preorder_rel still"
  by (rule preorder_relI) (auto simp: still_def same_shops_def)

lemma still_statements:
  "mrel (dbrel still) (gen_CreateFlow L row)"
  "mrel (dbrel still) (gen_EnsureCreditAccount org)"
  "mrel (dbrel still) (gen_AddLedger lid org n why)"
proof -
  have other: "still d (d\<lparr>flows := x\<rparr>)" "still d (d\<lparr>credit_ledger := y\<rparr>)" for d x y
    by (simp_all add: still_def same_shops_def accounts_unique_def balance_of_def fun_eq_iff)
  have account: "still d (d\<lparr>org_credits := org_credits d @ [\<lparr>oc_org_id = org, oc_balance = 0\<rparr>]\<rparr>)"
    if "List.find (\<lambda>r. oc_org_id r = org) (org_credits d) = None" for d
    using new_account_views [OF that] by (simp add: still_def same_shops_def)
  have refl: "still d d" for d by (simp add: still_def same_shops_def)
  show "mrel (dbrel still) (gen_CreateFlow L row)" "mrel (dbrel still) (gen_AddLedger lid org n why)"
    "mrel (dbrel still) (gen_EnsureCreditAccount org)"
    unfolding gen_CreateFlow_def gen_EnsureCreditAccount_def gen_AddLedger_def
    by (rule mrel_db_exec; auto simp: other account refl split: option.splits if_splits)+
qed

lemma moved_still:
  assumes "moved org h n d d1" and "still d1 d'"
  shows "moved org h n d d'"
proof -
  have "same_shops d1 d'" using assms(2) by (simp add: still_def)
  from same_shops_worth [OF this] assms show ?thesis by (simp add: moved_def still_def)
qed

lemma wp_seed_moves:
  assumes "sound_books (w_db w)"
  shows "wp (seed_org L org) (\<lambda>r w'. \<exists>held. 0 \<le> held \<and> held \<le> 500 \<and> moved org held 0 (w_db w) (w_db w')) w"
proof -
  let ?Q = "\<lambda>d. \<exists>held. 0 \<le> held \<and> held \<le> 500 \<and> moved org held 0 (w_db w) d"
  have quiet: "mrel (dbrel still) (ignore (gen_CreateFlow L row))" "mrel (dbrel still) (ignore (gen_EnsureCreditAccount org))"
    "mrel (dbrel still) (ignore (gen_AddLedger lid org n why))" for row lid n why
    by (intro mrel_intros still_statements; simp)+
  have adjust: "wp (attempt (gen_AdjustBalance org 500) (\<lambda>q. case q of
      Inr _ \<Rightarrow> ignore (gen_AddLedger (''seed_'' @ org) org 500 ''signup_grant'') | Inl _ \<Rightarrow> ret ())) (\<lambda>r w'. ?Q (w_db w')) v"
    if m: "moved org 0 0 (w_db w) (w_db v)" for v
  proof -
    have sv: "sound_books (w_db v)" using moved_sound [OF assms m] by simp
    then have u: "accounts_unique (w_db v)" by (simp add: sound_books_def)
    have none: "wp (gen_AdjustBalance org 500) (\<lambda>r w'. isl r \<longrightarrow> w_db w' = w_db v) v"
      unfolding gen_AdjustBalance_def by (rule wp_db_exec) (auto split: option.splits)
    show ?thesis
    proof (rule wp_attempt [OF wp_conj [OF wp_conj [OF wp_gen_AdjustBalance [OF u] wp_mrel [OF same_shops_credit(2)]] none]], goal_cases)
      case (1 q v2)
      show ?case
      proof (cases q)
        case (Inr b)
        with 1 sv have "moved org 500 0 (w_db v) (w_db v2)" by (intro moved_credit) (auto simp: dbrel_def)
        from moved_trans [OF m this] have m2: "moved org 500 0 (w_db w) (w_db v2)" by simp
        show ?thesis unfolding Inr sum.case
          by (rule wp_mono [OF wp_mrel [OF quiet(3)]]) (use moved_still [OF m2] in \<open>auto simp: dbrel_def intro!: exI [of _ 500]\<close>)
      qed (use 1 m in \<open>auto intro!: exI [of _ 0]\<close>)
    qed
  qed
  have "moved org 0 0 (w_db w) (w_db w)" using assms by (auto intro: moved_none)
  then show ?thesis unfolding seed_org_def
    by (intro wp_bnd [OF wp_mrel [OF quiet(1)]] wp_bnd [OF wp_mrel [OF quiet(2)]] adjust)
       (auto simp: dbrel_def dest: moved_still intro!: exI [of _ 0])
qed

lemma wp_joined_earns:
  assumes "sound_books (w_db w)"
  shows "wp (pg_EnsureForUser L userID name) (\<lambda>r w'. earns (w_db w) (w_db w')) w"
  unfolding pg_EnsureForUser_def
proof (rule wp_bnd [OF wp_uuid_Parse], goal_cases)
  case (2 uid w0)
  note same = earns_refl [OF assms]
  from 2 have w0: "w0 = w" by simp
  show ?case unfolding w0
  proof (rule wp_attempt [OF wp_GetOrgByOwner], goal_cases)
    case (1 q v)
    show ?case
    proof (cases "q = Inl ErrNoRows")
      case True
      let ?oid = "fst (new_uuid v)" and ?v = "snd (new_uuid v)"
      have none: "List.find (\<lambda>r. or_owner_user_id r = uid) (orgs (w_db ?v)) = None" and db: "w_db ?v = w_db w"
        using 1 True by auto
      have sound: "sound_books (w_db ?v)" using assms db by simp
      have rest: "wp (bnd (if rid = ?oid then seed_org L ?oid else ret ()) (\<lambda>_. ret \<lparr>og_ID = rid, og_Name = rname\<rparr>))
          (\<lambda>r w'. earns (w_db w) (w_db w')) v3" if m: "moved ?oid 0 500 (w_db w) (w_db v3)" for rid rname v3
      proof -
        have s3: "sound_books (w_db v3)" using moved_sound [OF assms m] by simp
        have "wp (bnd (seed_org L ?oid) (\<lambda>_. ret \<lparr>og_ID = rid, og_Name = rname\<rparr>)) (\<lambda>r w'. earns (w_db w) (w_db w')) v3"
          by (rule wp_bnd [OF wp_seed_moves [OF s3]]) (auto dest!: moved_trans [OF m] intro: earnsI)
        with earnsI [OF m] show ?thesis by auto
      qed
      have "wp (bnd (gen_CreateOrg ?oid name uid) (\<lambda>_. bnd (gen_GetOrgByOwner uid) (\<lambda>(rid, rname).
          bnd (if rid = ?oid then seed_org L ?oid else ret ()) (\<lambda>_. ret \<lparr>og_ID = rid, og_Name = rname\<rparr>)))) (\<lambda>r w'. earns (w_db w) (w_db w')) ?v"
      proof (rule wp_bnd [OF wp_org_moves [OF sound none]], goal_cases)
        case (2 u v2)
        then have m: "moved ?oid 0 500 (w_db w) (w_db v2)" using db by simp
        show ?case
          by (rule wp_bnd [OF wp_GetOrgByOwner]) (use m rest earnsI [OF m] in auto)
      qed (use db same in simp)
      with True show ?thesis by simp
    qed (use 1 same in \<open>auto split: sum.splits\<close>)
  qed
qed (use assms in \<open>simp add: earns_refl\<close>)

section \<open>The contract of the books, met\<close>

lemma preorder_keeps [simp, intro]: "preorder_rel (\<lambda>d d'. I d \<longrightarrow> I d')"
  by (rule preorder_relI) auto

lemma mrel_keeps:
  assumes "\<And>w. I (w_db w) \<Longrightarrow> wp m (\<lambda>r w'. I (w_db w')) w"
  shows "db_keeps I m"
proof (rule mrel_wp)
  fix w
  show "wp m (\<lambda>r w'. dbrel (\<lambda>d d'. I d \<longrightarrow> I d') w w') w"
  proof (cases "I (w_db w)")
    case True
    from wp_mono [OF assms [OF this]] show ?thesis by (simp add: dbrel_def)
  qed (simp add: dbrel_def wp_def split: prod.splits)
qed

lemma earns_keeps: "sound_books d \<Longrightarrow> earns d d' \<Longrightarrow> sound_books d'" "backed_books d \<Longrightarrow> earns d d' \<Longrightarrow> backed_books d'"
  by (auto simp: earns_def intro: moved_sound moved_backed)

lemma backed_sound: "backed_books d \<Longrightarrow> sound_books d"
  by (simp add: backed_books_def)

context detached_ports
begin

lemma sound_laws:
  "same_books d d' \<Longrightarrow> sound_books d \<longrightarrow> sound_books d'"
  "0 < py_Credits pay \<Longrightarrow> py_Credits pay \<le> 100000 \<Longrightarrow> db_keeps sound_books (pg_pay_Create pay)"
  "db_keeps sound_books (pg_TryDeduct org creditsPerCall why)"
  "0 < n \<Longrightarrow> n \<le> 100000 \<Longrightarrow> db_keeps sound_books (pg_Grant org n why)"
  "db_keeps sound_books (pg_EnsureForUser L uid name)"
  "db_keeps sound_books (billing_SettlePayment (billing_service (po_gateway p)) form)"
proof -
  show "sound_books d \<longrightarrow> sound_books d'" if "same_books d d'"
    using moved_sound [OF _ moved_none [OF _ that]] by auto
  show "db_keeps sound_books (pg_pay_Create pay)" if "0 < py_Credits pay" "py_Credits pay \<le> 100000"
    by (rule mrel_keeps, rule wp_mono [OF wp_open_moves]) (auto intro: that moved_sound)
  show "db_keeps sound_books (pg_TryDeduct org creditsPerCall why)"
    by (rule mrel_keeps, rule wp_mono [OF wp_charge_moves]) (auto intro: moved_sound)
  show "db_keeps sound_books (pg_Grant org n why)" if "0 < n" "n \<le> 100000"
    by (rule mrel_keeps, rule wp_mono [OF wp_grant_moves [OF _ that]]) (use that in \<open>auto intro: moved_sound split: if_splits\<close>)
  show "db_keeps sound_books (pg_EnsureForUser L uid name)"
    by (rule mrel_keeps, rule wp_mono [OF wp_joined_earns]) (auto intro: earns_keeps)
  show "db_keeps sound_books (billing_SettlePayment (billing_service (po_gateway p)) form)"
    by (rule mrel_keeps, rule wp_mono [OF wp_paid_earns [OF _ verify_db]]) (auto intro: earns_keeps)
qed

lemma backed_laws:
  "same_books d d' \<Longrightarrow> backed_books d \<longrightarrow> backed_books d'"
  "0 < py_Credits pay \<Longrightarrow> py_Credits pay \<le> 100000 \<Longrightarrow> db_keeps backed_books (pg_pay_Create pay)"
  "db_keeps backed_books (pg_TryDeduct org creditsPerCall why)"
  "db_keeps backed_books (pg_EnsureForUser L uid name)"
  "db_keeps backed_books (billing_SettlePayment (billing_service (po_gateway p)) form)"
proof -
  note S = backed_sound
  show "backed_books d \<longrightarrow> backed_books d'" if "same_books d d'"
    using moved_backed [OF _ moved_none [OF S that]] by auto
  show "db_keeps backed_books (pg_pay_Create pay)" if "0 < py_Credits pay" "py_Credits pay \<le> 100000"
    by (rule mrel_keeps, rule wp_mono [OF wp_open_moves [OF S]]) (auto intro: that moved_backed)
  show "db_keeps backed_books (pg_TryDeduct org creditsPerCall why)"
    by (rule mrel_keeps, rule wp_mono [OF wp_charge_moves [OF S]]) (auto intro: moved_backed)
  show "db_keeps backed_books (pg_EnsureForUser L uid name)"
    by (rule mrel_keeps, rule wp_mono [OF wp_joined_earns [OF S]]) (auto intro: earns_keeps)
  show "db_keeps backed_books (billing_SettlePayment (billing_service (po_gateway p)) form)"
    by (rule mrel_keeps, rule wp_mono [OF wp_paid_earns [OF S verify_db]]) (auto intro: earns_keeps)
qed

end

sublocale detached_ports \<subseteq> sound: books_app A p "\<lambda>d d'. sound_books d \<longrightarrow> sound_books d'" c for c
  by unfold_locales (simp_all add: sound_laws)

text \<open>A deployment that is not a development one.\<close>

locale live_ports = detached_ports +
  fixes c :: Config
  assumes live: "cf_Env c \<noteq> ''dev''"

sublocale live_ports \<subseteq> backed: books_app A p "\<lambda>d d'. backed_books d \<longrightarrow> backed_books d'" c
  by unfold_locales (simp_all add: backed_laws live)

interpretation off_live: live_ports offline offline_ports offline_config
  by unfold_locales (simp add: offline_live)

context detached_ports
begin

lemma reach_sound:
  "app_reach c (main_deps A c L p) s s' \<Longrightarrow> sound_books (w_db (sv_world s)) \<Longrightarrow> sound_books (w_db (sv_world s'))"
  using sound.app_reach_R by blast

lemma reach_ledger:
  "app_reach c (main_deps A c L p) s s' \<Longrightarrow> prefix (credit_ledger (w_db (sv_world s))) (credit_ledger (w_db (sv_world s')))"
  using led.app_reach_R by (simp add: ledger_grows_def)

end

context live_ports
begin

lemma reach_backed:
  "app_reach c (main_deps A c L p) s s' \<Longrightarrow> backed_books (w_db (sv_world s)) \<Longrightarrow> backed_books (w_db (sv_world s'))"
  using backed.app_reach_R by blast

end

section \<open>Properties\<close>

lemma two_shops_reach:
  "app_reach offline_config offline_deps two_shops_server (snd (serve offline_deps r two_shops_server))"
  by (rule app_reach.more [OF app_reach.start app_step.request [OF surjective_pairing]])

lemma two_shops_backed: "backed_books (w_db (sv_world two_shops_server))"
  by (simp add: backed_books_def sound_books_def accounts_unique_def payments_ok_def balance_of_def signup_grant_def paid_total_def
    two_shops_server_def server_New_def two_shops_def)

text \<open>
  Property C2: no run of the application spoils the books. Whatever requests arrive on whatever route,
  signed in or not, whatever the workers, the webhook dispatcher, the timers and the remote
  services do, and whenever the database drops out, there stays one account per organisation, no
  balance is ever negative, and the ledger is append-only: no booked line is changed or lost.
\<close>

theorem books_stay_sound:
  assumes "main_boot env A = Inr (c, d)" and "remote_detached A" and "app_reach c d s s'"
    and "sound_books (w_db (sv_world s))"
  shows "accounts_unique (w_db (sv_world s')) \<and> 0 \<le> balance_of (w_db (sv_world s')) org \<and>
    prefix (credit_ledger (w_db (sv_world s))) (credit_ledger (w_db (sv_world s')))"
proof -
  from assms(1) obtain p where d: "d = main_deps A c (sd_libs d) p" and "choose_ports A c = Inr p" by (rule boot_deps)
  then have ports: "detached_ports A p" using assms(2) chosen_ports_detached by blast
  from assms(3) d have "app_reach c (main_deps A c (sd_libs d) p) s s'" by simp
  from detached_ports.reach_sound [OF ports this assms(4)] detached_ports.reach_ledger [OF ports this]
  show ?thesis by (simp add: sound_books_def)
qed

theorem books_stay_sound_witness:
  "accounts_unique (w_db (sv_world (snd (serve offline_deps (dnd_request [(cookieName, ''tok'')]) two_shops_server)))) \<and>
   0 \<le> balance_of (w_db (sv_world (snd (serve offline_deps (dnd_request [(cookieName, ''tok'')]) two_shops_server)))) ''o''"
  using books_stay_sound [OF offline_boot offline_detached two_shops_reach backed_sound [OF two_shops_backed]] by blast

text \<open>
  Property C1: every credit is paid for. Outside a development deployment, in every state
  the running application can reach, no organisation holds more credits than the signup grant (500, once, if
  the organisation exists) and the credits of its paid payments together.
\<close>

theorem credits_backed:
  assumes "main_boot env A = Inr (c, d)" and "cf_Env c \<noteq> ''dev''" and "remote_detached A" and "app_reach c d s s'"
    and "backed_books (w_db (sv_world s))"
  shows "balance_of (w_db (sv_world s')) org \<le> signup_grant (w_db (sv_world s')) org + paid_total (w_db (sv_world s')) org"
proof -
  from assms(1) obtain p where d: "d = main_deps A c (sd_libs d) p" and "choose_ports A c = Inr p" by (rule boot_deps)
  then have "live_ports A p c"
    using assms(2,3) chosen_ports_detached by (simp add: live_ports_def live_ports_axioms_def)
  from live_ports.reach_backed [OF this, of "sd_libs d", folded d, OF assms(4,5)] show ?thesis by (simp add: backed_books_def)
qed

theorem credits_backed_witness:
  "balance_of (w_db (sv_world (snd (serve offline_deps (dnd_request [(cookieName, ''tok'')]) two_shops_server)))) ''x'' \<le>
   signup_grant (w_db (sv_world (snd (serve offline_deps (dnd_request [(cookieName, ''tok'')]) two_shops_server)))) ''x'' +
   paid_total (w_db (sv_world (snd (serve offline_deps (dnd_request [(cookieName, ''tok'')]) two_shops_server)))) ''x''"
  using credits_backed [OF offline_boot _ offline_detached two_shops_reach two_shops_backed] by (simp add: offline_live)

end
