(* ===== verification/Spec2Isabelle.thy ===== *)
theory Spec2Isabelle
  imports Yaver_Billing Yaver_Campaigns Yaver_Webhooks Yaver_ApiKeys Yaver_Auth Yaver_Messaging Yaver_Keys Yaver_Economy
begin

text \<open>
  Verification of the Yaver API, the Go backend of a service that calls, messages and chats
  with the customers of online stores.

  \<^bold>\<open>The program.\<close> A store sends events to the API (\<open>service/ingest\<close>), authenticated by an API
  key (\<open>service/apikeys\<close>). An event is recorded once, its customer is stored, and a call job
  is queued with the orchestrator; a worker runs the job (\<open>service/calls\<close>): it checks the
  calling window, takes a credit, dials through the voice provider and records the call. On
  the line the keypad flow of the org is played (\<open>flowengine\<close>); flows are edited in
  \<open>service/flows\<close>. Finished test calls leave an event in an outbox, which the webhook
  dispatcher (\<open>service/webhooks\<close>) turns into signed HTTP deliveries with retries. Campaigns
  (\<open>service/campaigns\<close>) queue calls to many customers at once. Customers also write: on the
  web widget (\<open>service/chat\<close>) or through WhatsApp and Messenger (\<open>service/messaging\<close>), where an
  assistant answers until a person takes over. Merchants sign in by one-time code or password
  (\<open>service/auth\<close>), get an org with a signup grant (\<open>postgres/orgs.go\<close>), and buy credits
  (\<open>service/billing\<close>). Everything is kept in PostgreSQL through the generated queries of
  \<open>adapter/postgres/gen\<close>. The services are reached over HTTP (\<open>transport/http\<close>): a table of 64 routes, most
  behind the session middleware, some behind an API key or a rate limiter; live activity reaches open
  dashboards over an in-process bus. \<open>cmd/yaver/main.go\<close> reads the configuration, chooses
  the adapters, wires the services and starts the server, the workers and the timers.

  \<^bold>\<open>The model.\<close> An operation of the program that may fail and works on the state is a function
  from the state to a result and the next state (\<open>op\<close> in \<open>Yaver_Prelude\<close>), written with
  combinators that spell Go's error handling. The state is \<open>world\<close> (\<open>Yaver_World\<close>): the tables of
  the database as lists of rows, the clock, the random source, the queue of jobs, the trace of
  everything that left the process, and a schedule of what the environment will do to the
  coming database round trips: let each succeed or fail, and let time pass. Theorems quantify
  over the schedule, so they hold for every pattern of lost connections; where a theorem asks
  for an empty schedule it is about a database that answers. A transaction rolls its tables
  back when it fails. Strings and byte slices are lists of bytes, times are nanoseconds, and
  conversions to \<open>int32\<close> and \<open>int16\<close> wrap around as in Go; integer columns reject values out of
  range as PostgreSQL does. Cryptography, time zones, JSON decoding, the UUID parser, JSONB
  normalisation and text collation are fields of the record \<open>libs\<close>; what is relied on of them
  is a named hypothesis where it is used (\<open>aead_ok\<close>, \<open>uuid_lib\<close>, \<open>jsonb_keeps_ivr\<close>, \<open>inj (lib_sha256 L)\<close>),
  and each such theorem has a witness. Remote services (payment gateway, voice provider, the
  merchant's webhook server, Meta, Twilio, Resend, Whisper, Claude, Hatchet) are parameters, fields of the
  record \<open>remote\<close>; that they do not reach into the database is the hypothesis \<open>remote_detached\<close>. Of
  \<open>encoding/json\<close> the scanning of text is a parameter (\<open>hl_first\<close>, \<open>hl_whole\<close>), the assignment of a scanned value to
  the fields of a struct is modelled; so are RFC 3339 dates parameters. Floating point is
  rational arithmetic rounded to nearest even after every operation (\<open>Yaver_Float\<close>).

  \<^bold>\<open>The theories.\<close>
  \<^item> \<open>Yaver_Prelude\<close>: operations, the two logics for them (\<open>mrel\<close>: what an operation may do to the
    state; \<open>wp\<close>: what holds after it), tables, narrowing, package \<open>strings\<close>.
  \<^item> \<open>Yaver_Domain\<close>, \<open>Yaver_World\<close>, \<open>Yaver_Ports\<close>: \<open>internal/domain\<close>, the rows of \<open>gen/models.go\<close> and
    the world, the repository and sender interfaces as records of operations.
  \<^item> \<open>Yaver_Flow_Engine\<close> (\<open>flowengine\<close>): live sessions and the simulator, as one runtime; a session
    over an acyclic flow ends, with fuel one more than the number of nodes, and agrees with the
    simulator.
  \<^item> \<open>Yaver_Credits\<close> (\<open>postgres/credits.go\<close>): the meter; balances equal the ledger and are never
    negative. Its contract is the locale \<open>credit_store\<close>.
  \<^item> \<open>Yaver_Billing\<close> (\<open>service/billing\<close>, \<open>postgres/payments.go\<close>, the mock and SSLCommerz gateways):
    checkout and callbacks, also under interleaving, step by step; the locale \<open>payment_gateway\<close>.
  \<^item> \<open>Yaver_Flows\<close> (\<open>service/flows\<close>): creation, versions, templates, routing by name, tenancy.
  \<^item> \<open>Yaver_Orgs\<close> (\<open>postgres/orgs.go\<close>, \<open>service/notify\<close>): orgs of users, the signup grant, the warning.
  \<^item> \<open>Yaver_Json\<close>, \<open>Yaver_Calls\<close> (\<open>service/calls\<close>, policy, providers, local orchestrator): jobs and test
    calls; the locale \<open>call_ports\<close>.
  \<^item> \<open>Yaver_Ingest\<close> (\<open>service/ingest\<close>, \<open>service/customers\<close>, \<open>pkg/phone\<close>): events, customers, numbers; the
    locale \<open>orchestrator\<close>.
  \<^item> \<open>Yaver_Campaigns\<close>, \<open>Yaver_Webhooks\<close> (with \<open>pkg/crypto\<close>), \<open>Yaver_ApiKeys\<close> (with \<open>pkg/apikey\<close>),
    \<open>Yaver_Auth\<close>: the services of these names with their repositories and queries.
  \<^item> \<open>Yaver_Chat\<close> (with \<open>adapter/chat/builtin\<close>; the locale \<open>assistant\<close>) and \<open>Yaver_Messaging\<close> (with the
    logging and Meta senders).
  \<^item> \<open>Yaver_Float\<close>, \<open>Yaver_Analytics\<close> (\<open>service/analytics\<close>, \<open>service/reports\<close> with the built-in reporter,
    \<open>service/onboarding\<close>, \<open>service/transcription\<close>): aggregates and percentages; the locale \<open>rounding\<close>.
  \<^item> \<open>Yaver_Bus\<close> (\<open>platform/bus\<close>): channels, subscribers and publishers under the lock, as a step relation.
  \<^item> \<open>Yaver_Ratelimit\<close> (\<open>platform/ratelimit\<close>): the token bucket.
  \<^item> \<open>Yaver_Http\<close>, \<open>Yaver_Handlers\<close>, \<open>Yaver_Server\<close> (\<open>transport/http\<close>): requests, responses, decoding, the middlewares,
    every handler, the table of routes, and the service of one request (\<open>serve\<close>).
  \<^item> \<open>Yaver_Remote\<close> (the clients of remote services, the in-memory call repository), \<open>Yaver_Main\<close>
    (\<open>platform/config\<close>, \<open>cmd/yaver/main.go\<close>): start-up, wiring, timers.
  \<^item> \<open>Yaver_Tenancy\<close>, \<open>Yaver_Isolation\<close>: every dashboard handler of the wired program against the laws of the repositories
    (locales \<open>detached_ports\<close>, \<open>chat_writes\<close>, \<open>session_frame\<close>, \<open>tenant\<close>). \<open>Yaver_Offline\<close>: a deployment without remote
    services, on which the locales are interpreted and the concrete runs happen.
  \<^item> \<open>Yaver_Access\<close>, \<open>Yaver_Keys\<close>: requests without a session, with one, with an API key.
  \<^item> \<open>Yaver_Books\<close>, \<open>Yaver_App\<close>, \<open>Yaver_Economy\<close>: the running application as a step relation (\<open>app_step\<close>: requests, jobs, webhook
    ticks, timers) and what holds of balances, ledger and payments in every reachable state (locales \<open>books_frame\<close>,
    \<open>books_app\<close>, \<open>live_ports\<close>).
  \<^item> This theory: properties of the services working together.

  \<^bold>\<open>What is shown.\<close> Invariants of the tables under any sequence of operations and failures
  (credits and ledger, payments and grants, flows, deliveries), the outcomes of each handler on
  every branch, at-most-once and exactly-once guarantees (events, settlements, drained outbox
  rows, started campaigns, one-time codes), tenancy (flows, chat, channels, API keys, sessions),
  round trips (keys, passwords, sessions, secrets at rest, forms), termination and agreement of the
  flow engine, bounds on retries and on admitted requests, the error of percentages, and the safety of the
  bus (no send on a closed channel, no event of another org). For the wired program: no route of the dashboard
  does anything without a live session; a signed-in request changes the rows of one organisation only, the
  one of the session's user; a key acts for its own shop and in its own role; in every reachable state no
  balance is negative, the ledger has only grown, and outside development no organisation holds more
  credits than its signup grant and its paid payments. Some theorems show where the code falls short of what it
  promises: a paid top-up whose grant fails is lost, a redelivered job dials again, a failed
  ingest drops the call on retry, a campaign sweep may queue calls twice, a menu in a test call
  crashes it, a malformed webhook URL crashes the dispatcher, the assistant talks over an agent
  on messaging channels, and a long Bangla message makes a conversation impossible to summarize.

  \<^bold>\<open>Limits.\<close> Statements of one operation are not interleaved with those of another, except where a
  theorem says so (payment callbacks, flow creation, the bus); each statement is atomic, and so is
  each step of \<open>app_step\<close>. Text columns are checked for UTF-8 only in the chat tables, where the program
  itself cuts texts; NUL bytes are not considered. Rows with equal sort keys are read in insertion
  order. The ticker loops are sequences of ticks. Days are those of UTC. Paths are those \<open>net/http\<close> has
  cleaned, and \<open>http.ServeMux\<close> is modelled for the patterns of this table.

  \<^bold>\<open>Not modelled.\<close> Logging, telemetry and the pool of connections (\<open>platform/otel\<close>, \<open>platform/db\<close>), signals and
  shutdown, \<open>cmd/migrate\<close> and \<open>adapter/tts/noop\<close>, which has no caller; they are calls into third-party packages or
  empty. The widget script and the OpenAPI document are opaque strings. The inside of the vendors' SDKs
  and Hatchet's scheduling are parameters.
\<close>

section \<open>From a store event to a call\<close>

text \<open>
  The system as it runs: stores deliver events, and the workers of the local orchestrator
  take jobs off the queue, in any order.
\<close>

datatype system_step = Deliver OrgID Event | Work

fun system_run :: "libs \<Rightarrow> system_step list \<Rightarrow> world \<Rightarrow> world" where
  "system_run L [] w = w"
| "system_run L (Deliver org ev # xs) w =
     system_run L xs (snd (ingest_Accept (ingest_service L local_orchestrator) org ev w))"
| "system_run L (Work # xs) w = system_run L xs (snd (local_worker (calls_PlaceCall L (wired_calls L)) w))"

definition dials_of :: "OrgID \<Rightarrow> world \<Rightarrow> nat" where
  "dials_of org w = length (filter (\<lambda>q. rq_OrgID q = org) (dials (w_trace w)))"

definition jobs_of :: "OrgID \<Rightarrow> world \<Rightarrow> nat" where
  "jobs_of org w = length (filter (\<lambda>j. pc_OrgID j = org) (w_jobs w))"

definition events_of :: "OrgID \<Rightarrow> world \<Rightarrow> nat" where
  "events_of org w = length (filter (\<lambda>r. ev_org_id r = org) (events (w_db w)))"

text \<open>What a step leaves alone: for a job the events and the queue, for an event the credits.\<close>

definition job_frame :: "world \<Rightarrow> world \<Rightarrow> bool" where
  "job_frame w w' \<longleftrightarrow> events (w_db w') = events (w_db w) \<and> w_jobs w' = w_jobs w"

lemma preorder_job_frame [simp, intro]: "preorder_rel job_frame"
  by (rule preorder_relI) (auto simp: job_frame_def)

lemma job_frame_quiet:
  assumes "mrel quiet m" and "mrel (dbrel (\<lambda>d d'. events d' = events d)) m" shows "mrel job_frame m"
  using assms by (auto simp: mrel_def quiet_def job_frame_def dbrel_def)

lemma events_kept:
  "mrel (dbrel (\<lambda>d d'. events d' = events d)) (pg_TryDeduct org n reason)"
  "mrel (dbrel (\<lambda>d d'. events d' = events d)) (pg_RecordCallOutcome L c ob)"
proof -
  have db: "mrel (dbrel (\<lambda>d d'. events d' = events d)) (gen_TryDeductBalance org k)"
    "mrel (dbrel (\<lambda>d d'. events d' = events d)) (gen_AddLedger i org k reason)"
    "mrel (dbrel (\<lambda>d d'. events d' = events d)) (gen_CreateCall row)"
    "mrel (dbrel (\<lambda>d d'. events d' = events d)) (gen_InsertOutbox L org e p)" for k i row e p
    unfolding gen_TryDeductBalance_def gen_AddLedger_def gen_CreateCall_def gen_InsertOutbox_def Let_def
    by (rule mrel_db_exec; auto split: if_splits option.splits)+
  have db': "mrel (dbrel (\<lambda>d d'. events d' = events d)) (gen_InsertOutbox L o' e p)" for o' e p
    unfolding gen_InsertOutbox_def Let_def by (rule mrel_db_exec; auto split: if_splits option.splits)
  show "mrel (dbrel (\<lambda>d d'. events d' = events d)) (pg_TryDeduct org n reason)"
    unfolding pg_TryDeduct_def by (intro mrel_with_tx mrel_intros db) auto
  show "mrel (dbrel (\<lambda>d d'. events d' = events d)) (pg_RecordCallOutcome L c ob)"
    unfolding pg_RecordCallOutcome_def by (intro mrel_with_tx mrel_intros db db') auto
qed

lemma job_frame_PlaceCall: "mrel job_frame (calls_PlaceCall L (wired_calls L) inp)"
proof -
  have charge: "mrel job_frame (pg_TryDeduct org n reason)" for org n reason
    by (rule job_frame_quiet [OF quiet_TryDeduct events_kept(1)])
  have rcd: "mrel job_frame (pg_RecordCallOutcome L c ob)" for c ob
    by (rule job_frame_quiet [OF quiet_Record events_kept(2)])
  have policy: "mrel job_frame (pg_policy_Get org)" for org
    by (rule mrel_wp, rule wp_mono [OF wp_policy_Get]) (auto simp: job_frame_def env_frame_def)
  have dial: "mrel job_frame (mock_PlaceCall req)" for req
    by (rule mrelI) (auto simp: mock_PlaceCall_def bnd_def draw_eq perform_def ret_def job_frame_def)
  have ids: "mrel job_frame (draw (id_New p))" for p by (rule mrel_draw) (simp add: job_frame_def)
  have warn: "mrel job_frame (perform (ntf_LowBalance (notify_service email_logsender (pg_orgs L)) org b))" for org b
  proof (rule mrel_perform)
    fix w
    obtain r w1 where r: "pg_OwnerEmail L org w = (r, w1)" by force
    from wpD [OF OwnerEmail_frame r] r show "job_frame w (ntf_LowBalance (notify_service email_logsender (pg_orgs L)) org b w)"
      by (auto simp: notify_service_def notify_LowBalance_def pg_orgs_def email_logsender_def perform_def job_frame_def
          env_frame_def split: sum.splits)
  qed
  show ?thesis
    unfolding calls_PlaceCall_def wired_calls_def calls_service_simps mock_provider_def VoiceProvider.simps
    by (intro mrel_intros charge rcd policy dial ids warn) auto
qed

definition event_frame :: "world \<Rightarrow> world \<Rightarrow> bool" where
  "event_frame w w' \<longleftrightarrow> org_credits (w_db w') = org_credits (w_db w) \<and> w_trace w' = w_trace w \<and>
     (\<exists>new. events (w_db w') = events (w_db w) @ new)"

lemma preorder_event_frame [simp, intro]: "preorder_rel event_frame"
  by (rule preorder_relI) (auto simp: event_frame_def)

lemma event_frame_exec:
  assumes "\<And>t d x d'. q t d = Inr (x, d') \<Longrightarrow> org_credits d' = org_credits d \<and> (\<exists>new. events d' = events d @ new)"
  shows "mrel event_frame (db_exec q)"
proof (rule mrel_wp, rule wp_db_exec, goal_cases)
  case (1 w w')
  then show ?case by (simp add: event_frame_def env_frame_def)
next
  case (2 w w')
  then show ?case using assms [of "w_now w'" "w_db w"] by (auto simp: event_frame_def env_frame_def split: sum.splits)
qed

lemma event_frame_Accept: "mrel event_frame (ingest_Accept (ingest_service L local_orchestrator) org ev)"
proof -
  have read: "mrel event_frame (db_read q)" for q :: "time \<Rightarrow> database \<Rightarrow> go_error + 'x"
    unfolding db_read_def by (rule event_frame_exec) (auto split: sum.splits)
  have ids: "mrel event_frame (draw (id_New p))" for p by (rule mrel_draw) (simp add: event_frame_def)
  have ins: "mrel event_frame (gen_InsertEvent L e)" for e
    unfolding gen_InsertEvent_def by (rule event_frame_exec) (auto split: option.splits if_splits)
  have cust: "mrel event_frame (gen_UpsertCustomer a b c d e)" for a b c d e
    unfolding gen_UpsertCustomer_def Let_def by (rule event_frame_exec) (auto split: option.splits if_splits)
  have enq: "mrel event_frame (local_EnqueuePlaceCall inp)" for inp
    unfolding local_EnqueuePlaceCall_def by (rule mrel_perform) (simp add: event_frame_def)
  show ?thesis
    unfolding ingest_Accept_def ingest_route_def ingest_service_simps pg_flows_simps pg_event_Insert_def pg_cust_Upsert_def
      pg_GetActiveFlow_def gen_GetActiveFlowByName_def local_orchestrator_def Orchestrator.simps Let_def
    by (intro mrel_intros read ids ins cust enq) auto
qed

text \<open>One step: an event pays for the job it queues, a credit and a job pay for a dial.\<close>

definition funded :: "OrgID \<Rightarrow> world \<Rightarrow> world \<Rightarrow> bool" where
  "funded org w w' \<longleftrightarrow> (accounts_unique (w_db w) \<longrightarrow> accounts_unique (w_db w') \<and>
     balance_of (w_db w') org + int (dials_of org w') \<le> balance_of (w_db w) org + int (dials_of org w) \<and>
     dials_of org w' + jobs_of org w' + events_of org w \<le> dials_of org w + jobs_of org w + events_of org w' \<and>
     events_of org w \<le> events_of org w')"

lemma funded_refl: "funded org w w"
  by (simp add: funded_def)

lemma funded_trans: "funded org w v \<Longrightarrow> funded org v u \<Longrightarrow> funded org w u"
  by (auto simp: funded_def)

lemma funded_Deliver: "funded org w (snd (ingest_Accept (ingest_service L local_orchestrator) o' ev w))"
proof -
  obtain r w' where run: "ingest_Accept (ingest_service L local_orchestrator) o' ev w = (r, w')" by fastforce
  from mrelD [OF event_frame_Accept run] obtain new where fr: "org_credits (w_db w') = org_credits (w_db w)" "w_trace w' = w_trace w"
    "events (w_db w') = events (w_db w) @ new" by (auto simp: event_frame_def)
  from localq.Accept_job [OF run] obtain js where js: "w_jobs w' = w_jobs w @ js" "length js \<le> 1" "list_all (job_ok (w_db w) o' ev) js"
    "seen (w_db w) o' (et_ExternalID ev) \<longrightarrow> js = []" "js \<noteq> [] \<longrightarrow> seen (w_db w') o' (et_ExternalID ev)" by blast
  have bal: "balance_of (w_db w') = balance_of (w_db w)" "accounts_unique (w_db w') = accounts_unique (w_db w)"
    using fr(1) by (simp_all add: balance_of_def accounts_unique_def fun_eq_iff)
  have "length (filter (\<lambda>j. pc_OrgID j = org) js) \<le> length (filter (\<lambda>r. ev_org_id r = org) new)"
  proof (cases js)
    case (Cons j rest)
    with js(2-5) have j: "js = [j]" "job_ok (w_db w) o' ev j" "\<not> seen (w_db w) o' (et_ExternalID ev)"
      "seen (w_db w') o' (et_ExternalID ev)" by auto
    then have "\<exists>row \<in> set new. ev_org_id row = o'" using fr(3) by (auto simp: seen_def)
    then have "filter (\<lambda>r. ev_org_id r = o') new \<noteq> []" by (simp add: filter_empty_conv)
    moreover have "pc_OrgID j = o'" using j(2) by (simp add: job_ok_def)
    ultimately show ?thesis by (auto simp: j(1) Suc_le_eq)
  qed simp
  with bal fr js(1) show ?thesis unfolding run snd_conv
    by (simp add: funded_def dials_of_def jobs_of_def events_of_def)
qed

lemma funded_Work: "funded org w (snd (local_worker (calls_PlaceCall L (wired_calls L)) w))"
proof (cases "w_jobs w")
  case Nil
  then show ?thesis by (simp add: local_worker_def funded_refl)
next
  case (Cons j rest)
  let ?w = "w\<lparr>w_jobs := rest\<rparr>"
  obtain r w' where run: "calls_PlaceCall L (wired_calls L) j ?w = (r, w')" by fastforce
  from mrelD [OF job_frame_PlaceCall run] have fr: "events (w_db w') = events (w_db w)" "w_jobs w' = rest"
    by (simp_all add: job_frame_def)
  show ?thesis unfolding funded_def
  proof (intro impI)
    assume u: "accounts_unique (w_db w)"
    then have u': "accounts_unique (w_db ?w)" by simp
    note warns = wpD [OF wp_PlaceCall_warns [OF u'] run]
    note out = wpD [OF wired.wp_PlaceCall [OF u' refl] run [unfolded wired_calls_def]]
    have "balance_of (w_db w') org + int (dials_of org w') \<le> balance_of (w_db w) org + int (dials_of org w) \<and>
        dials_of org w' \<le> dials_of org w + (if pc_OrgID j = org then 1 else 0)"
      using out by (auto simp: charged_def dials_of_def call_request_def split: sum.splits)
    then show "accounts_unique (w_db (snd (local_worker (calls_PlaceCall L (wired_calls L)) w))) \<and>
      balance_of (w_db (snd (local_worker (calls_PlaceCall L (wired_calls L)) w))) org +
        int (dials_of org (snd (local_worker (calls_PlaceCall L (wired_calls L)) w))) \<le> balance_of (w_db w) org + int (dials_of org w) \<and>
      dials_of org (snd (local_worker (calls_PlaceCall L (wired_calls L)) w)) +
        jobs_of org (snd (local_worker (calls_PlaceCall L (wired_calls L)) w)) + events_of org w
        \<le> dials_of org w + jobs_of org w + events_of org (snd (local_worker (calls_PlaceCall L (wired_calls L)) w)) \<and>
      events_of org w \<le> events_of org (snd (local_worker (calls_PlaceCall L (wired_calls L)) w))"
      using warns fr Cons run by (auto simp: local_worker_def jobs_of_def events_of_def)
  qed
qed

lemma system_funded: "funded org w (system_run L xs w)"
proof (induction L xs w rule: system_run.induct)
  case (1 L w)
  show ?case by (simp add: funded_refl)
next
  case (2 L o' ev xs w)
  show ?case using funded_trans [OF funded_Deliver 2] by simp
next
  case (3 L xs w)
  show ?case using funded_trans [OF funded_Work 3] by simp
qed

text \<open>
  Property C8: every call is owed to an event and paid for. However deliveries of store
  events and runs of the workers interleave, with repeated deliveries and whatever statements
  fail, an org's calls and its queued jobs together never outnumber its recorded events, and
  each number dialed for it cost it a credit.
\<close>

theorem calls_owed_and_paid:
  assumes "accounts_unique (w_db w)" and "w_jobs w = []" and "dials (w_trace w) = []" and "events (w_db w) = []"
  shows "dials_of org (system_run L xs w) + jobs_of org (system_run L xs w) \<le> events_of org (system_run L xs w) \<and>
     int (dials_of org (system_run L xs w)) \<le> balance_of (w_db w) org - balance_of (w_db (system_run L xs w)) org"
  using system_funded [of org w L xs] assms by (simp add: funded_def dials_of_def jobs_of_def events_of_def)

theorem calls_owed_and_paid_witness:
  "dials_of ''o'' (system_run demo_libs [Deliver ''o'' order_event, Deliver ''o'' order_event, Work, Work] (shop_world 5)) +
     jobs_of ''o'' (system_run demo_libs [Deliver ''o'' order_event, Deliver ''o'' order_event, Work, Work] (shop_world 5)) \<le>
   events_of ''o'' (system_run demo_libs [Deliver ''o'' order_event, Deliver ''o'' order_event, Work, Work] (shop_world 5))"
proof -
  have "accounts_unique (w_db (shop_world 5))" "w_jobs (shop_world 5) = []" "dials (w_trace (shop_world 5)) = []"
    "events (w_db (shop_world 5)) = []" by (simp_all add: accounts_unique_def shop_world_def)
  from calls_owed_and_paid [OF this] show ?thesis by blast
qed

end
